(* ===== verification/Prelude.thy ===== *)
theory Prelude
  imports Main "HOL-Library.Word" "HOL-Library.Monad_Syntax"
begin

text \<open>
  Shared vocabulary of the development.  A C function with side effects is a HOL function
  from the state to an \<open>option\<close>: \<open>Some (r, s)\<close> is a normal return with value \<open>r\<close> and new
  state \<open>s\<close>, and \<open>None\<close> is a fault of the C program (a dereference of a null or freed
  pointer, an access outside an array, a division by zero, unbounded recursion).
  The predicate \<open>wp\<close> below says that a computation returns and that its result satisfies a
  postcondition, so every statement made with it is a total-correctness statement.
  The rules collected in \<open>wp\<close> push it through the control structure of a program.
\<close>

unbundle bit_operations_syntax

named_theorems wp \<open>weakest-precondition rules for the control structure of a program\<close>

section \<open>Computations that may fault\<close>

definition wp :: "'a option \<Rightarrow> ('a \<Rightarrow> bool) \<Rightarrow> bool" where
  "wp m Q = (case m of None \<Rightarrow> False | Some x \<Rightarrow> Q x)"

lemma wp_Some [simp, wp]: "wp (Some x) Q = Q x"
  by (simp add: wp_def)

lemma wp_None [simp, wp]: "wp None Q = False"
  by (simp add: wp_def)

lemma wp_bind [simp, wp]: "wp (Option.bind m f) Q = wp m (\<lambda>x. wp (f x) Q)"
  by (cases m) simp_all

lemma wp_map_option [simp, wp]: "wp (map_option f m) Q = wp m (\<lambda>x. Q (f x))"
  by (cases m) simp_all

lemma wp_if [wp]: "wp (if b then m else n) Q = ((b \<longrightarrow> wp m Q) \<and> (\<not> b \<longrightarrow> wp n Q))"
  by simp

lemma wp_case_option [wp]:
  "wp (case x of None \<Rightarrow> m | Some y \<Rightarrow> f y) Q =
   ((x = None \<longrightarrow> wp m Q) \<and> (\<forall>y. x = Some y \<longrightarrow> wp (f y) Q))"
  by (cases x) simp_all

lemma wp_case_prod [simp, wp]: "wp (case p of (a, b) \<Rightarrow> f a b) Q = wp (f (fst p) (snd p)) Q"
  by (cases p) simp

lemma wp_let [wp]: "wp (let x = e in f x) Q = wp (f e) Q"
  by (simp add: Let_def)

lemma wp_mono: "wp m Q \<Longrightarrow> (\<And>x. Q x \<Longrightarrow> R x) \<Longrightarrow> wp m R"
  by (cases m) simp_all

lemma wp_mono_bind:
  "wp m Q \<Longrightarrow> (\<And>x. Q x \<Longrightarrow> wp (f x) R) \<Longrightarrow> wp (Option.bind m f) R"
  by (cases m) simp_all

lemma wp_conjI: "wp m Q \<Longrightarrow> wp m R \<Longrightarrow> wp m (\<lambda>x. Q x \<and> R x)"
  by (cases m) simp_all

lemma wp_exists: "wp m Q \<longleftrightarrow> (\<exists>x. m = Some x \<and> Q x)"
  by (cases m) simp_all

lemma wp_SomeD: "wp m Q \<Longrightarrow> m = Some x \<Longrightarrow> Q x"
  by simp

text \<open>A loop over a list whose body changes the state, as \<open>list_for_each\<close> does.\<close>

fun foldM :: "('a \<Rightarrow> 's \<Rightarrow> 's option) \<Rightarrow> 'a list \<Rightarrow> 's \<Rightarrow> 's option" where
  "foldM f [] s = Some s"
| "foldM f (x # xs) s = Option.bind (f x s) (foldM f xs)"

lemma wp_foldM:
  assumes "I s"
    and "\<And>x s. x \<in> set xs \<Longrightarrow> I s \<Longrightarrow> wp (f x s) I"
  shows "wp (foldM f xs s) I"
  using assms
proof (induction xs arbitrary: s)
  case Nil
  then show ?case by simp
next
  case (Cons x xs)
  have step: "wp (f x s) I"
    using Cons.prems by simp
  have rest: "wp (foldM f xs t) I" if "I t" for t
    using that Cons.prems(2) by (intro Cons.IH) auto
  show ?case
    using wp_mono [OF step rest] by simp
qed

lemma foldM_append: "foldM f (xs @ ys) s = Option.bind (foldM f xs s) (foldM f ys)"
proof (induction xs arbitrary: s)
  case (Cons x xs)
  then show ?case by (cases "f x s") simp_all
qed simp

section \<open>Searching and changing lists\<close>

text \<open>
  \<open>list_for_each\<close> with a test and a return in its body is \<open>List.find\<close>; a write through a
  pointer to one element of a list is \<open>update_where\<close>.
\<close>

lemma find_Some_mem: "List.find P xs = Some x \<Longrightarrow> x \<in> set xs \<and> P x"
  by (auto simp: find_Some_iff)

lemma find_None_all: "List.find P xs = None \<longleftrightarrow> (\<forall>x \<in> set xs. \<not> P x)"
  by (auto simp: find_None_iff)

lemma find_append:
  "List.find P (xs @ ys) = (case List.find P xs of None \<Rightarrow> List.find P ys | Some x \<Rightarrow> Some x)"
  by (induction xs) simp_all

lemma find_False: "(\<And>x. \<not> P x) \<Longrightarrow> List.find P xs = None"
  by (simp add: find_None_iff)

definition update_where :: "('a \<Rightarrow> bool) \<Rightarrow> ('a \<Rightarrow> 'a) \<Rightarrow> 'a list \<Rightarrow> 'a list" where
  "update_where c f xs = map (\<lambda>x. if c x then f x else x) xs"

lemma update_where_simps [simp]:
  "update_where c f [] = []"
  "update_where c f (x # xs) = (if c x then f x else x) # update_where c f xs"
  by (simp_all add: update_where_def)

lemma length_update_where [simp]: "length (update_where c f xs) = length xs"
  by (simp add: update_where_def)

lemma set_update_where: "set (update_where c f xs) = (\<lambda>x. if c x then f x else x) ` set xs"
  by (simp add: update_where_def)

lemma map_update_where:
  "(\<And>x. c x \<Longrightarrow> g (f x) = g x) \<Longrightarrow> map g (update_where c f xs) = map g xs"
  by (simp add: update_where_def)

lemma update_where_id: "(\<And>x. x \<in> set xs \<Longrightarrow> c x \<Longrightarrow> f x = x) \<Longrightarrow> update_where c f xs = xs"
  by (induction xs) auto

lemma distinct_map_unique:
  "distinct (map f xs) \<Longrightarrow> x \<in> set xs \<Longrightarrow> y \<in> set xs \<Longrightarrow> f x = f y \<Longrightarrow> x = y"
  by (meson distinct_map inj_onD)

lemma find_by_key:
  "distinct (map f xs) \<Longrightarrow> x \<in> set xs \<Longrightarrow> List.find (\<lambda>y. f y = f x) xs = Some x"
  by (induction xs) (auto simp: image_iff)

section \<open>The C library: error numbers and bits\<close>

text \<open>The error numbers of \<open>errno.h\<close> that the sources return (negated).\<close>

abbreviation (input) "EIO \<equiv> 5 :: int"
abbreviation (input) "ENOMEM \<equiv> 12 :: int"
abbreviation (input) "EEXIST \<equiv> 17 :: int"
abbreviation (input) "ENODEV \<equiv> 19 :: int"
abbreviation (input) "EINVAL \<equiv> 22 :: int"
abbreviation (input) "ENOSYS \<equiv> 38 :: int"
abbreviation (input) "ENODATA \<equiv> 61 :: int"

type_synonym u32 = "32 word"
type_synonym u64 = "64 word"

text \<open>\<open>popcount\<close>: the compiler's count of the bits that are set.\<close>

definition popcount :: "u32 \<Rightarrow> nat" where
  "popcount w = length (filter (bit w) [0..<32])"

text \<open>The test \<open>if (w & m)\<close> of the sources.\<close>

abbreviation has_bits :: "u32 \<Rightarrow> u32 \<Rightarrow> bool" where
  "has_bits w m \<equiv> w AND m \<noteq> 0"

lemma popcount_0 [simp]: "popcount 0 = 0"
  by (simp add: popcount_def)

end
