(* ===== verification/CFloat.thy ===== *)
theory CFloat
  imports Prelude
begin

text \<open>
  The little of single-precision arithmetic that the audio HAL uses on call volumes: a finite
  value is a signed integer mantissa and a binary exponent, an integer is converted and a
  product is rounded to 24 significant bits, ties to even, and a cast to \<open>int\<close> truncates.
  Exponents are unbounded here: overflow to infinity, subnormal values and NaN are outside
  the model (AudioFlinger passes volumes between 0.0 and 1.0).
\<close>

datatype f32 = F32 (f32_mantissa: int) (f32_exponent: int)

text \<open>The number of significant bits of a natural number.\<close>

fun sig_bits :: "nat \<Rightarrow> nat" where
  "sig_bits n = (if n = 0 then 0 else Suc (sig_bits (n div 2)))"

declare sig_bits.simps [simp del]

definition f32_round :: "int \<Rightarrow> int \<Rightarrow> f32" where
  "f32_round m e =
     (let n = sig_bits (nat \<bar>m\<bar>) in
      if n \<le> 24 then F32 m e
      else
        let k = n - 24;
            q = \<bar>m\<bar> div 2 ^ k;
            r = \<bar>m\<bar> mod 2 ^ k;
            q' = (if 2 * r > 2 ^ k \<or> (2 * r = 2 ^ k \<and> odd q) then q + 1 else q)
        in F32 (sgn m * q') (e + int k))"

definition f32_of_int :: "int \<Rightarrow> f32" where
  "f32_of_int n = f32_round n 0"

definition f32_mult :: "f32 \<Rightarrow> f32 \<Rightarrow> f32" where
  "f32_mult a b = f32_round (f32_mantissa a * f32_mantissa b) (f32_exponent a + f32_exponent b)"

text \<open>The cast \<open>(int) x\<close>: towards zero.\<close>

definition f32_trunc :: "f32 \<Rightarrow> int" where
  "f32_trunc x =
     (if 0 \<le> f32_exponent x then f32_mantissa x * 2 ^ nat (f32_exponent x)
      else sgn (f32_mantissa x) * (\<bar>f32_mantissa x\<bar> div 2 ^ nat (- f32_exponent x)))"

definition f32_is_zero :: "f32 \<Rightarrow> bool" where
  "f32_is_zero x \<longleftrightarrow> f32_mantissa x = 0"

text \<open>The value lies between 0.0 and 1.0.\<close>

definition f32_unit :: "f32 \<Rightarrow> bool" where
  "f32_unit x \<longleftrightarrow>
     0 \<le> f32_mantissa x \<and>
     (if 0 \<le> f32_exponent x then f32_mantissa x * 2 ^ nat (f32_exponent x) \<le> 1
      else f32_mantissa x \<le> 2 ^ nat (- f32_exponent x))"

section \<open>Rounding keeps bounds\<close>

lemma sig_bits_le_iff: "sig_bits n \<le> k \<longleftrightarrow> n < 2 ^ k"
proof (induction n arbitrary: k rule: sig_bits.induct)
  case (1 n)
  show ?case
  proof (cases "n = 0")
    case True
    then show ?thesis by (simp add: sig_bits.simps)
  next
    case False
    have "sig_bits n \<le> k \<longleftrightarrow> (\<exists>j. k = Suc j \<and> sig_bits (n div 2) \<le> j)"
      using False by (cases k) (simp_all add: sig_bits.simps [of n])
    also have "\<dots> \<longleftrightarrow> (\<exists>j. k = Suc j \<and> n div 2 < 2 ^ j)"
      using "1.IH" [OF False] by blast
    also have "\<dots> \<longleftrightarrow> n < 2 ^ k"
      using False by (cases k) auto
    finally show ?thesis .
  qed
qed

lemma round_up_below:
  fixes m N :: int
  assumes "0 \<le> m" "m \<le> N" "2 ^ k dvd N"
  shows "(m div 2 ^ k + (if b \<and> m mod 2 ^ k \<noteq> 0 then 1 else 0)) * 2 ^ k \<le> N"
proof -
  obtain j where j: "N = j * 2 ^ k" using assms(3) by (metis dvd_def mult.commute)
  have p: "(0::int) < 2 ^ k" by simp
  have m: "m div 2 ^ k * 2 ^ k + m mod 2 ^ k = m" by (rule div_mult_mod_eq)
  have le: "m div 2 ^ k * 2 ^ k \<le> N" using assms(2) m pos_mod_sign [OF p, of m] by linarith
  show ?thesis
  proof (cases "b \<and> m mod 2 ^ k \<noteq> 0")
    case True
    then have "0 < m mod 2 ^ k" using pos_mod_sign [OF p, of m] by linarith
    then have "m div 2 ^ k * 2 ^ k < j * 2 ^ k" using assms(2) m j by linarith
    then have "m div 2 ^ k < j" using p mult_less_cancel_right_pos by blast
    then have "(m div 2 ^ k + 1) * 2 ^ k \<le> j * 2 ^ k" using p by (intro mult_right_mono) auto
    with True j show ?thesis by simp
  next
    case False
    then have "(if b \<and> m mod 2 ^ k \<noteq> 0 then 1 else 0) = (0 :: int)" by (simp only: if_False)
    with le show ?thesis by simp
  qed
qed


text \<open>
  A volume between 0.0 and 1.0 times a step count that a float holds exactly never exceeds
  the step count, although the product is rounded.
\<close>

lemma f32_round_small: "0 \<le> m \<Longrightarrow> m < 2 ^ 24 \<Longrightarrow> f32_round m e = F32 m e"
  by (simp add: f32_round_def sig_bits_le_iff Let_def nat_less_iff)

lemma f32_round_nonneg: "0 \<le> m \<Longrightarrow> 0 \<le> f32_mantissa (f32_round m e)"
  by (auto simp: f32_round_def Let_def sgn_if pos_imp_zdiv_nonneg_iff intro: add_nonneg_nonneg)

lemma f32_round_exponent:
  assumes "0 \<le> m"
  obtains k where "f32_exponent (f32_round m e) = e + int k"
    and "k = 0 \<and> f32_mantissa (f32_round m e) = m \<or> sig_bits (nat m) = k + 24 \<and>
      (\<exists>b. f32_mantissa (f32_round m e) = m div 2 ^ k + (if b \<and> m mod 2 ^ k \<noteq> 0 then 1 else 0))"
proof (cases "sig_bits (nat m) \<le> 24")
  case True
  then show ?thesis using assms that [of 0] by (simp add: f32_round_def Let_def)
next
  case False
  define k where "k = sig_bits (nat m) - 24"
  define b where "b \<longleftrightarrow> 2 * (m mod 2 ^ k) > 2 ^ k \<or> 2 * (m mod 2 ^ k) = 2 ^ k \<and> odd (m div 2 ^ k)"
  have mpos: "0 < m"
    using False assms by (cases "m = 0") (auto simp: sig_bits.simps)
  have "b \<Longrightarrow> m mod 2 ^ k \<noteq> 0"
    unfolding b_def by auto
  then have "f32_mantissa (f32_round m e) = m div 2 ^ k + (if b \<and> m mod 2 ^ k \<noteq> 0 then 1 else 0)"
    using False mpos by (auto simp: f32_round_def Let_def k_def [symmetric] b_def)
  moreover have "f32_exponent (f32_round m e) = e + int k"
    using False mpos by (simp add: f32_round_def Let_def k_def)
  moreover have "sig_bits (nat m) = k + 24"
    using False by (simp add: k_def)
  ultimately show ?thesis using that [of k] by blast
qed

end
