(* ===== verification/AudioTypes.thy ===== *)
theory AudioTypes
  imports CFloat
begin

text \<open>
  The data of the audio HAL (\<open>audio/audio_hw.h\<close> and the tables at the head of
  \<open>audio/audio_hw.c\<close>), the platform it runs on, and its state.

  Objects that the C code reaches through pointers live in the state: streams in the maps
  \<open>outs\<close> and \<open>ins\<close> (a freed stream is no longer in the map), active use cases in
  \<open>usecase_list\<close>, mixer cards in \<open>mixer_list\<close>, the mutable static PCM profiles in
  \<open>pcm_devices\<close>.  Addresses are natural numbers and are never reused.

  Everything outside the repository (Android's constants, tinyalsa, audio_route, the RIL
  client library, the kernel's files, the allocator) is the record \<open>platform\<close>, a parameter of
  every definition that needs it.  Its functions see the history of external calls, so that
  they may answer differently each time; the calls made are recorded in \<open>trace\<close>, newest
  first.
\<close>

section \<open>Enumerations\<close>

datatype audio_usecase_t =
    USECASE_INVALID
  | USECASE_AUDIO_PLAYBACK
  | USECASE_AUDIO_PLAYBACK_MULTI_CH
  | USECASE_AUDIO_PLAYBACK_DEEP_BUFFER
  | USECASE_AUDIO_CAPTURE
  | USECASE_VOICE_CALL

datatype usecase_type_t = PCM_PLAYBACK | PCM_CAPTURE | VOICE_CALL

text \<open>The enumerators' values: the code combines and tests them bitwise.\<close>

fun usecase_type_val :: "usecase_type_t \<Rightarrow> u32" where
  "usecase_type_val PCM_PLAYBACK = 0"
| "usecase_type_val PCM_CAPTURE = 1"
| "usecase_type_val VOICE_CALL = 2"

type_synonym snd_device_t = int

abbreviation (input) "SND_DEVICE_NONE \<equiv> 0 :: snd_device_t"
abbreviation (input) "SND_DEVICE_MIN \<equiv> 1 :: snd_device_t"
abbreviation (input) "SND_DEVICE_OUT_BEGIN \<equiv> 1 :: snd_device_t"
abbreviation (input) "SND_DEVICE_OUT_EARPIECE \<equiv> 1 :: snd_device_t"
abbreviation (input) "SND_DEVICE_OUT_SPEAKER \<equiv> 2 :: snd_device_t"
abbreviation (input) "SND_DEVICE_OUT_HEADPHONES \<equiv> 3 :: snd_device_t"
abbreviation (input) "SND_DEVICE_OUT_SPEAKER_AND_HEADPHONES \<equiv> 4 :: snd_device_t"
abbreviation (input) "SND_DEVICE_OUT_BT_SCO \<equiv> 5 :: snd_device_t"
abbreviation (input) "SND_DEVICE_OUT_INCALL_EARPIECE \<equiv> 6 :: snd_device_t"
abbreviation (input) "SND_DEVICE_OUT_INCALL_EARPIECE_WB \<equiv> 7 :: snd_device_t"
abbreviation (input) "SND_DEVICE_OUT_INCALL_SPEAKER \<equiv> 8 :: snd_device_t"
abbreviation (input) "SND_DEVICE_OUT_INCALL_SPEAKER_WB \<equiv> 9 :: snd_device_t"
abbreviation (input) "SND_DEVICE_OUT_INCALL_HEADPHONES \<equiv> 10 :: snd_device_t"
abbreviation (input) "SND_DEVICE_OUT_INCALL_HEADPHONES_WB \<equiv> 11 :: snd_device_t"
abbreviation (input) "SND_DEVICE_OUT_INCALL_BT_SCO \<equiv> 12 :: snd_device_t"
abbreviation (input) "SND_DEVICE_OUT_INCALL_BT_SCO_WB \<equiv> 13 :: snd_device_t"
abbreviation (input) "SND_DEVICE_OUT_COMM_EARPIECE \<equiv> 14 :: snd_device_t"
abbreviation (input) "SND_DEVICE_OUT_COMM_SPEAKER \<equiv> 15 :: snd_device_t"
abbreviation (input) "SND_DEVICE_OUT_COMM_HEADPHONES \<equiv> 16 :: snd_device_t"
abbreviation (input) "SND_DEVICE_OUT_COMM_BT_SCO \<equiv> 17 :: snd_device_t"
abbreviation (input) "SND_DEVICE_OUT_END \<equiv> 18 :: snd_device_t"
abbreviation (input) "SND_DEVICE_IN_BEGIN \<equiv> 18 :: snd_device_t"
abbreviation (input) "SND_DEVICE_IN_EARPIECE_MIC \<equiv> 18 :: snd_device_t"
abbreviation (input) "SND_DEVICE_IN_SPEAKER_MIC \<equiv> 19 :: snd_device_t"
abbreviation (input) "SND_DEVICE_IN_HEADSET_MIC \<equiv> 20 :: snd_device_t"
abbreviation (input) "SND_DEVICE_IN_BT_SCO_MIC \<equiv> 21 :: snd_device_t"
abbreviation (input) "SND_DEVICE_IN_INCALL_EARPIECE_MIC \<equiv> 22 :: snd_device_t"
abbreviation (input) "SND_DEVICE_IN_INCALL_EARPIECE_MIC_WB \<equiv> 23 :: snd_device_t"
abbreviation (input) "SND_DEVICE_IN_INCALL_SPEAKER_MIC \<equiv> 24 :: snd_device_t"
abbreviation (input) "SND_DEVICE_IN_INCALL_SPEAKER_MIC_WB \<equiv> 25 :: snd_device_t"
abbreviation (input) "SND_DEVICE_IN_INCALL_HEADSET_MIC \<equiv> 26 :: snd_device_t"
abbreviation (input) "SND_DEVICE_IN_INCALL_HEADSET_MIC_WB \<equiv> 27 :: snd_device_t"
abbreviation (input) "SND_DEVICE_IN_INCALL_BT_SCO_MIC \<equiv> 28 :: snd_device_t"
abbreviation (input) "SND_DEVICE_IN_INCALL_BT_SCO_MIC_WB \<equiv> 29 :: snd_device_t"
abbreviation (input) "SND_DEVICE_IN_COMM_EARPIECE_MIC \<equiv> 30 :: snd_device_t"
abbreviation (input) "SND_DEVICE_IN_COMM_SPEAKER_MIC \<equiv> 31 :: snd_device_t"
abbreviation (input) "SND_DEVICE_IN_COMM_HEADSET_MIC \<equiv> 32 :: snd_device_t"
abbreviation (input) "SND_DEVICE_IN_COMM_BT_SCO_MIC \<equiv> 33 :: snd_device_t"
abbreviation (input) "SND_DEVICE_IN_CAMCORDER_MIC \<equiv> 34 :: snd_device_t"
abbreviation (input) "SND_DEVICE_IN_CAMCORDER_HEADSET_MIC \<equiv> 35 :: snd_device_t"
abbreviation (input) "SND_DEVICE_IN_VOICE_RECOGNITION_MIC \<equiv> 36 :: snd_device_t"
abbreviation (input) "SND_DEVICE_IN_VOICE_RECOGNITION_HEADSET_MIC \<equiv> 37 :: snd_device_t"
abbreviation (input) "SND_DEVICE_IN_VOICE_RECOGNITION_BT_SCO_MIC \<equiv> 38 :: snd_device_t"
abbreviation (input) "SND_DEVICE_IN_END \<equiv> 39 :: snd_device_t"
abbreviation (input) "SND_DEVICE_MAX \<equiv> 39 :: snd_device_t"

text \<open>\<open>device_table\<close>: the mixer path of each sound device, indexed by its number.\<close>

definition device_table :: "string list" where
  "device_table =
    [''none'',
     ''route-earpiece'', ''route-speaker'', ''route-headphones'',
     ''route-speaker-and-headphones'', ''route-bt-sco-headset'',
     ''route-incall-earpiece'', ''route-incall-earpiece-wb'',
     ''route-incall-speaker'', ''route-incall-speaker-wb'',
     ''route-incall-headphones'', ''route-incall-headphones-wb'',
     ''route-incall-bt-sco-headset'', ''route-incall-bt-sco-headset-wb'',
     ''route-comm-earpiece'', ''route-comm-speaker'',
     ''route-comm-headphones'', ''route-comm-bt-sco-headset'',
     ''route-earpiece-mic'', ''route-speaker-mic'', ''route-headset-mic'', ''route-bt-sco-mic'',
     ''route-incall-earpiece-mic'', ''route-incall-earpiece-mic-wb'',
     ''route-incall-speaker-mic'', ''route-incall-speaker-mic-wb'',
     ''route-incall-headset-mic'', ''route-incall-headset-mic-wb'',
     ''route-incall-bt-sco-mic'', ''route-incall-bt-sco-mic-wb'',
     ''route-comm-earpiece-mic'', ''route-comm-speaker-mic'',
     ''route-comm-headset-mic'', ''route-comm-bt-sco-mic'',
     ''route-camcorder-mic'', ''route-camcorder-headset-mic'',
     ''route-voice-recognition-mic'', ''route-voice-recognition-headset-mic'',
     ''route-voice-recognition-bt-sco-headset-in'']"

fun use_case_table :: "audio_usecase_t \<Rightarrow> string option" where
  "use_case_table USECASE_AUDIO_PLAYBACK = Some ''playback''"
| "use_case_table USECASE_AUDIO_PLAYBACK_MULTI_CH = Some ''playback multi-channel''"
| "use_case_table USECASE_AUDIO_PLAYBACK_DEEP_BUFFER = Some ''playback deep-buffer''"
| "use_case_table USECASE_AUDIO_CAPTURE = Some ''capture''"
| "use_case_table USECASE_VOICE_CALL = Some ''voice-call''"
| "use_case_table USECASE_INVALID = None"

text \<open>The enumerators of the RIL client library that the HAL names.\<close>

datatype sound_type = SOUND_TYPE_VOICE | SOUND_TYPE_SPEAKER | SOUND_TYPE_HEADSET | SOUND_TYPE_BTVOICE

datatype audio_path =
    SOUND_AUDIO_PATH_EARPIECE
  | SOUND_AUDIO_PATH_HEADSET
  | SOUND_AUDIO_PATH_HEADPHONE
  | SOUND_AUDIO_PATH_SPEAKER
  | SOUND_AUDIO_PATH_BLUETOOTH
  | SOUND_AUDIO_PATH_BLUETOOTH_NO_NR
  | SOUND_AUDIO_PATH_BLUETOOTH_WB
  | SOUND_AUDIO_PATH_BLUETOOTH_WB_NO_NR

datatype clock_condition = SOUND_CLOCK_STOP | SOUND_CLOCK_START
datatype mute_condition = TX_UNMUTE | TX_MUTE | RX_UNMUTE | RX_MUTE
datatype two_mic_device = AUDIENCE
datatype two_mic_report = TWO_MIC_SOLUTION_OFF | TWO_MIC_SOLUTION_ON

text \<open>The keys the HAL asks \<open>str_parms_get_str\<close> for, and the properties it reads.\<close>

datatype parm_key =
    AUDIO_PARAMETER_STREAM_ROUTING
  | AUDIO_PARAMETER_STREAM_INPUT_SOURCE
  | AUDIO_PARAMETER_STREAM_SUP_CHANNELS
  | AUDIO_PARAMETER_KEY_BT_NREC
  | AUDIO_PARAMETER_KEY_BT_SCO_WB

section \<open>Structures\<close>

text \<open>
  A handle of tinyalsa.  \<open>pcm_open\<close> returns one even when the device cannot be opened; whether it was opened
  without an error is a property of the handle, which \<open>pcm_is_ready\<close> reads.
\<close>

datatype pcm = ReadyPcm nat | FailedPcm nat

fun pcm_is_ready :: "pcm \<Rightarrow> bool" where
  "pcm_is_ready (ReadyPcm n) = True"
| "pcm_is_ready (FailedPcm n) = False"

type_synonym frame = "16 word list"

record pcm_config =
  pc_channels :: u32
  pc_rate :: u32
  pc_period_size :: u32
  pc_period_count :: u32
  pc_start_threshold :: u32
  pc_stop_threshold :: u32
  pc_silence_threshold :: u32
  pc_silence_size :: u32
  pc_avail_min :: u32

record pcm_device_profile =
  pp_config :: pcm_config
  pp_card :: nat
  pp_id :: nat
  pp_type :: usecase_type_t
  pp_devices :: u32

text \<open>
  \<open>pd_profile\<close> is the index of the profile that \<open>pcm_profile\<close> points to.  The list head
  \<open>pcm_dev_list\<close> of a stream is \<open>None\<close> as long as it holds the zeros of \<open>calloc\<close>: before
  \<open>list_init\<close> a walk over it dereferences a null pointer.
\<close>

record pcm_device =
  pd_profile :: nat
  pd_pcm :: "pcm option"
  pd_status :: int

record stream_out =
  so_config :: pcm_config
  so_pcm_dev_list :: "pcm_device list option"
  so_standby :: bool
  so_sample_rate :: u32
  so_channel_mask :: u32
  so_format :: u32
  so_devices :: u32
  so_flags :: u32
  so_usecase :: audio_usecase_t
  so_supported_channel_masks :: "u32 list"
  so_muted :: bool
  so_written :: u64
  so_handle :: int
  so_proc_buf_size :: nat
  so_last_write_time_us :: int

record stream_in =
  si_config :: pcm_config
  si_pcm_dev_list :: "pcm_device list option"
  si_standby :: bool
  si_source :: int
  si_devices :: u32
  si_main_channels :: u32
  si_usecase :: audio_usecase_t
  si_usecase_type :: usecase_type_t
  si_input_flags :: u32
  si_requested_rate :: u32
  si_resampler :: "nat option"
  si_read_status :: int
  si_read_buf :: "frame list"
  si_read_buf_size :: nat
  si_read_buf_frames :: nat
  si_proc_buf_size :: nat
  si_last_read_time_us :: int
  si_frames_read :: int

record mixer_card =
  mc_card :: nat
  mc_mixer :: nat
  mc_audio_route :: nat
  mc_dsp_poweroff_time :: int

text \<open>
  \<open>audio_usecase.stream\<close> points to an output or to an input stream; \<open>uc_addr\<close> is the
  address of the use case itself, and \<open>uc_mixer_list\<close> holds the cards linked into it.
\<close>

datatype stream_ref = OutRef nat | InRef nat

record audio_usecase =
  uc_addr :: nat
  uc_id :: audio_usecase_t
  uc_type :: usecase_type_t
  uc_devices :: u32
  uc_out_snd_device :: snd_device_t
  uc_in_snd_device :: snd_device_t
  uc_stream :: stream_ref
  uc_mixer_list :: "nat list"

record ril_handle =
  client :: "nat option"
  volume_steps_max :: int

text \<open>The callbacks that the HAL registers with the RIL interface.\<close>

datatype ril_callback = audio_set_pcm_clock_cb | audio_set_wb_amr_cb

section \<open>External calls\<close>

datatype mutex =
    LockInputs
  | InPreLock nat
  | InLock nat
  | OutPreLock nat
  | OutLock nat
  | AdevLock

datatype ril_request =
    SetCallVolume sound_type int
  | SetCallAudioPath audio_path
  | SetCallClockSync clock_condition
  | SetMute mute_condition
  | SetTwoMicControl two_mic_device two_mic_report
  | Connect_RILD
  | Disconnect_RILD
  | CloseClient_RILD
  | RegisterUnsolicitedHandler nat

datatype call =
    Lock mutex
  | Unlock mutex
  | Calloc string
  | PcmOpen nat nat u32 pcm_config "pcm option"
  | PcmClose "pcm option"
  | PcmStart "pcm option"
  | PcmStop "pcm option"
  | PcmWrite pcm "frame list" nat
  | PcmRead pcm nat
  | PcmTimestamp pcm
  | RouteApply nat string
  | RouteReset nat string
  | MixerOpen nat
  | RouteInit nat string
  | RouteFree nat
  | Access string
  | Usleep int
  | OpenClient_RILD
  | IsConnected_RILD nat
  | RilSend "nat option" ril_request
  | PropertyGet string
  | SysfsOpen string
  | SysfsWrite string string
  | CreateResampler u32 u32 u32
  | ReleaseResampler nat
  | ResetResampler nat
  | Resample nat nat
  | ClockGettime

section \<open>The platform\<close>

text \<open>The constants of Android's headers that the HAL uses, by their names.\<close>

record abi =
  AUDIO_DEVICE_NONE :: u32
  AUDIO_DEVICE_BIT_IN :: u32
  AUDIO_DEVICE_OUT_EARPIECE :: u32
  AUDIO_DEVICE_OUT_SPEAKER :: u32
  AUDIO_DEVICE_OUT_WIRED_HEADSET :: u32
  AUDIO_DEVICE_OUT_WIRED_HEADPHONE :: u32
  AUDIO_DEVICE_OUT_BLUETOOTH_SCO_HEADSET :: u32
  AUDIO_DEVICE_OUT_BLUETOOTH_SCO_CARKIT :: u32
  AUDIO_DEVICE_OUT_ALL_SCO :: u32
  AUDIO_DEVICE_IN_COMMUNICATION :: u32
  AUDIO_DEVICE_IN_BUILTIN_MIC :: u32
  AUDIO_DEVICE_IN_BLUETOOTH_SCO_HEADSET :: u32
  AUDIO_DEVICE_IN_WIRED_HEADSET :: u32
  AUDIO_DEVICE_IN_VOICE_CALL :: u32
  AUDIO_DEVICE_IN_BACK_MIC :: u32
  AUDIO_MODE_NORMAL :: int
  AUDIO_MODE_IN_CALL :: int
  AUDIO_MODE_IN_COMMUNICATION :: int
  AUDIO_SOURCE_DEFAULT :: int
  AUDIO_SOURCE_MIC :: int
  AUDIO_SOURCE_CAMCORDER :: int
  AUDIO_SOURCE_VOICE_RECOGNITION :: int
  AUDIO_SOURCE_VOICE_COMMUNICATION :: int
  AUDIO_CHANNEL_OUT_STEREO :: u32
  AUDIO_CHANNEL_OUT_5POINT1 :: u32
  AUDIO_CHANNEL_OUT_7POINT1 :: u32
  AUDIO_CHANNEL_IN_MONO :: u32
  AUDIO_FORMAT_PCM_16_BIT :: u32
  AUDIO_OUTPUT_FLAG_PRIMARY :: u32
  AUDIO_OUTPUT_FLAG_DEEP_BUFFER :: u32
  AUDIO_INPUT_FLAG_FAST :: u32
  PCM_OUT :: u32
  PCM_IN :: u32
  PCM_MONOTONIC :: u32
  RIL_CLIENT_ERR_SUCCESS :: int
  AUDIO_PARAMETER_VALUE_ON :: string
  AUDIO_HARDWARE_INTERFACE :: string

text \<open>
  The fields of an input stream that the HAL reads through a pointer \<open>active_input\<close>.  The code
  obtains that pointer by casting \<open>usecase->stream\<close>, which for a voice call points to an
  output stream; what is then read depends on the layout of the two structures, so it is the
  platform's function \<open>out_as_in\<close>.  In the other direction, \<open>in_as_out_devices\<close> is the
  \<open>devices\<close> field of an output stream read from the memory of an input stream.
\<close>

record in_view =
  iv_source :: int
  iv_devices :: u32
  iv_main_channels :: u32
  iv_usecase :: audio_usecase_t

record platform = abi +
  calloc_ok :: "call list \<Rightarrow> string \<Rightarrow> bool"
  pcm_open :: "call list \<Rightarrow> nat \<Rightarrow> nat \<Rightarrow> u32 \<Rightarrow> pcm_config \<Rightarrow> pcm option"
  pcm_write_rc :: "call list \<Rightarrow> pcm \<Rightarrow> nat \<Rightarrow> int"
  pcm_read_rc :: "call list \<Rightarrow> pcm \<Rightarrow> nat \<Rightarrow> int \<times> frame list"
  pcm_get_htimestamp :: "call list \<Rightarrow> pcm \<Rightarrow> (u32 \<times> int) option"
  mixer_open :: "call list \<Rightarrow> nat \<Rightarrow> nat option"
  file_exists :: "call list \<Rightarrow> string \<Rightarrow> bool"
  audio_route_init :: "call list \<Rightarrow> nat \<Rightarrow> string \<Rightarrow> nat option"
  ril_open_client :: "call list \<Rightarrow> nat option"
  ril_is_connected :: "call list \<Rightarrow> nat \<Rightarrow> bool"
  ril_rc :: "call list \<Rightarrow> nat option \<Rightarrow> ril_request \<Rightarrow> int"
  property_get :: "call list \<Rightarrow> string \<Rightarrow> string option"
  str_parms_get_str :: "string \<Rightarrow> parm_key \<Rightarrow> string option"
  create_resampler :: "call list \<Rightarrow> u32 \<Rightarrow> u32 \<Rightarrow> u32 \<Rightarrow> int \<times> nat option"
  resample_requests :: "call list \<Rightarrow> nat \<Rightarrow> nat \<Rightarrow> nat list"
  resample_output :: "call list \<Rightarrow> nat \<Rightarrow> nat \<Rightarrow> frame list \<Rightarrow> frame list"
  clock_us :: "call list \<Rightarrow> int"
  sysfs_open_rc :: "call list \<Rightarrow> string \<Rightarrow> int"
  sysfs_write_rc :: "call list \<Rightarrow> string \<Rightarrow> string \<Rightarrow> int"
  audio_stream_out_frame_size :: "u32 \<Rightarrow> u32 \<Rightarrow> nat"
  audio_stream_in_frame_size :: "u32 \<Rightarrow> u32 \<Rightarrow> nat"
  audio_channel_count_from_in_mask :: "u32 \<Rightarrow> nat"
  audio_channel_count_from_out_mask :: "u32 \<Rightarrow> nat"
  audio_bytes_per_sample :: "u32 \<Rightarrow> nat"
  adjust_channels :: "frame list \<Rightarrow> nat \<Rightarrow> nat \<Rightarrow> frame list"
  out_as_in :: "stream_out \<Rightarrow> in_view"
  in_as_out_devices :: "stream_in \<Rightarrow> u32"

section \<open>The state of the HAL\<close>

record hal =
  mixer_list :: "mixer_card list"
  mode :: int
  active_input :: "nat option"
  primary_output :: "nat option"
  mic_mute :: bool
  in_call :: bool
  in_call_sco :: bool
  in_comm_sco :: bool
  volume :: f32
  bluetooth_nrec :: bool
  bluetooth_wb :: bool
  audience_enabled :: bool
  forced_voice_config :: bool
  wb_amr_type :: int
  ril :: ril_handle
  pcm_voice_rx :: "pcm option"
  pcm_voice_tx :: "pcm option"
  pcm_sco_rx :: "pcm option"
  pcm_sco_tx :: "pcm option"
  snd_dev_ref_cnt :: "int list"
  usecase_list :: "audio_usecase list"
  pcm_devices :: "pcm_device_profile list"
  wb_amr_callback :: "ril_callback option"
  clock_state_callback :: "ril_callback option"
  outs :: "nat \<Rightarrow> stream_out option"
  ins :: "nat \<Rightarrow> stream_in option"
  next_addr :: nat
  audio_device_ref_count :: u32
  trace :: "call list"

definition emit :: "call \<Rightarrow> hal \<Rightarrow> hal" where
  "emit c s = s\<lparr>trace := c # trace s\<rparr>"

end
