(* ===== verification/Lookup.thy ===== *)
theory Lookup
  imports AudioTypes
begin

text \<open>
  The static tables of \<open>audio/audio_hw.c\<close> and the functions that search the lists of the
  device: mixer cards by card number, use cases by id and by type, PCM profiles by type and
  device mask, the name of a sound device.  The two searches by key share the locale
  \<open>keyed_list\<close>: its laws are what the searches do on an empty list and after
  \<open>list_add_tail\<close>, and everything else the callers need follows from these.
\<close>

section \<open>PCM configurations and profiles\<close>

abbreviation (input) "SOUND_CARD \<equiv> 0 :: nat"
abbreviation (input) "SOUND_DEEP_BUFFER_DEVICE \<equiv> 3 :: nat"
abbreviation (input) "SOUND_PLAYBACK_DEVICE \<equiv> 6 :: nat"
abbreviation (input) "SOUND_PLAYBACK_SCO_DEVICE \<equiv> 2 :: nat"
abbreviation (input) "SOUND_CAPTURE_DEVICE \<equiv> 0 :: nat"
abbreviation (input) "SOUND_CAPTURE_SCO_DEVICE \<equiv> 2 :: nat"
abbreviation (input) "SOUND_PLAYBACK_VOICE_DEVICE \<equiv> 1 :: nat"
abbreviation (input) "SOUND_CAPTURE_VOICE_DEVICE \<equiv> 1 :: nat"

definition PLAYBACK_PERIOD_SIZE :: u32 where [simp]:
  "PLAYBACK_PERIOD_SIZE = 256"

definition PLAYBACK_PERIOD_COUNT :: u32 where [simp]:
  "PLAYBACK_PERIOD_COUNT = 2"

definition PLAYBACK_DEFAULT_CHANNEL_COUNT :: u32 where [simp]:
  "PLAYBACK_DEFAULT_CHANNEL_COUNT = 2"

definition PLAYBACK_DEFAULT_SAMPLING_RATE :: u32 where [simp]:
  "PLAYBACK_DEFAULT_SAMPLING_RATE = 48000"

definition PLAYBACK_AVAILABLE_MIN :: u32 where [simp]:
  "PLAYBACK_AVAILABLE_MIN = 1"

definition SCO_PERIOD_SIZE :: u32 where [simp]:
  "SCO_PERIOD_SIZE = 168"

definition SCO_PERIOD_COUNT :: u32 where [simp]:
  "SCO_PERIOD_COUNT = 2"

definition SCO_DEFAULT_SAMPLING_RATE :: u32 where [simp]:
  "SCO_DEFAULT_SAMPLING_RATE = 8000"

definition SCO_WB_SAMPLING_RATE :: u32 where [simp]:
  "SCO_WB_SAMPLING_RATE = 16000"

definition CAPTURE_PERIOD_SIZE :: u32 where [simp]:
  "CAPTURE_PERIOD_SIZE = 1024"

definition CAPTURE_PERIOD_SIZE_LOW_LATENCY :: u32 where [simp]:
  "CAPTURE_PERIOD_SIZE_LOW_LATENCY = 256"

definition CAPTURE_PERIOD_COUNT :: u32 where [simp]:
  "CAPTURE_PERIOD_COUNT = 2"

definition CAPTURE_PERIOD_COUNT_LOW_LATENCY :: u32 where [simp]:
  "CAPTURE_PERIOD_COUNT_LOW_LATENCY = 2"

definition CAPTURE_DEFAULT_CHANNEL_COUNT :: u32 where [simp]:
  "CAPTURE_DEFAULT_CHANNEL_COUNT = 2"

definition CAPTURE_DEFAULT_SAMPLING_RATE :: u32 where [simp]:
  "CAPTURE_DEFAULT_SAMPLING_RATE = 48000"

definition CAPTURE_START_THRESHOLD :: u32 where [simp]:
  "CAPTURE_START_THRESHOLD = 1"

definition DEEP_BUFFER_OUTPUT_SAMPLING_RATE :: u32 where [simp]:
  "DEEP_BUFFER_OUTPUT_SAMPLING_RATE = 48000"

definition DEEP_BUFFER_OUTPUT_PERIOD_SIZE :: u32 where [simp]:
  "DEEP_BUFFER_OUTPUT_PERIOD_SIZE = 480"

definition DEEP_BUFFER_OUTPUT_PERIOD_COUNT :: u32 where [simp]:
  "DEEP_BUFFER_OUTPUT_PERIOD_COUNT = 8"


definition PLAYBACK_START_THRESHOLD :: "u32 \<Rightarrow> u32 \<Rightarrow> u32" where
  "PLAYBACK_START_THRESHOLD sz cnt = sz * cnt - 1"

definition PLAYBACK_STOP_THRESHOLD :: "u32 \<Rightarrow> u32 \<Rightarrow> u32" where
  "PLAYBACK_STOP_THRESHOLD sz cnt = sz * (cnt + 2)"

abbreviation (input) "UINT_MAX \<equiv> 0xFFFFFFFF :: u32"
abbreviation (input) "INT_MAX \<equiv> 0x7FFFFFFF :: u32"

text \<open>A configuration with the members that an initializer leaves out set to zero.\<close>

definition pcm_config_of :: "u32 \<Rightarrow> u32 \<Rightarrow> u32 \<Rightarrow> u32 \<Rightarrow> pcm_config" where
  "pcm_config_of ch r sz n =
     \<lparr>pc_channels = ch, pc_rate = r, pc_period_size = sz, pc_period_count = n,
      pc_start_threshold = 0, pc_stop_threshold = 0, pc_silence_threshold = 0,
      pc_silence_size = 0, pc_avail_min = 0\<rparr>"

definition pcm_config_voicecall :: pcm_config where
  "pcm_config_voicecall =
     pcm_config_of 2 16000 CAPTURE_PERIOD_SIZE_LOW_LATENCY CAPTURE_PERIOD_COUNT_LOW_LATENCY"

definition pcm_config_voice_sco :: pcm_config where
  "pcm_config_voice_sco =
     pcm_config_of 1 SCO_DEFAULT_SAMPLING_RATE SCO_PERIOD_SIZE SCO_PERIOD_COUNT"

definition pcm_config_voice_sco_wb :: pcm_config where
  "pcm_config_voice_sco_wb =
     pcm_config_of 1 SCO_WB_SAMPLING_RATE SCO_PERIOD_SIZE SCO_PERIOD_COUNT"

definition playback_config :: pcm_config where
  "playback_config =
     (pcm_config_of PLAYBACK_DEFAULT_CHANNEL_COUNT PLAYBACK_DEFAULT_SAMPLING_RATE
        PLAYBACK_PERIOD_SIZE PLAYBACK_PERIOD_COUNT)
     \<lparr>pc_start_threshold := PLAYBACK_START_THRESHOLD PLAYBACK_PERIOD_SIZE PLAYBACK_PERIOD_COUNT,
      pc_stop_threshold := PLAYBACK_STOP_THRESHOLD PLAYBACK_PERIOD_SIZE PLAYBACK_PERIOD_COUNT,
      pc_silence_size := UINT_MAX,
      pc_avail_min := PLAYBACK_AVAILABLE_MIN\<rparr>"

definition pcm_device_playback :: "platform \<Rightarrow> pcm_device_profile" where
  "pcm_device_playback P =
     \<lparr>pp_config = playback_config, pp_card = SOUND_CARD, pp_id = SOUND_PLAYBACK_DEVICE,
      pp_type = PCM_PLAYBACK,
      pp_devices = AUDIO_DEVICE_OUT_WIRED_HEADSET P OR AUDIO_DEVICE_OUT_WIRED_HEADPHONE P OR
        AUDIO_DEVICE_OUT_SPEAKER P OR AUDIO_DEVICE_OUT_EARPIECE P OR AUDIO_DEVICE_OUT_ALL_SCO P\<rparr>"


definition pcm_device_deep_buffer :: "platform \<Rightarrow> pcm_device_profile" where
  "pcm_device_deep_buffer P =
     \<lparr>pp_config =
        (pcm_config_of PLAYBACK_DEFAULT_CHANNEL_COUNT DEEP_BUFFER_OUTPUT_SAMPLING_RATE
           DEEP_BUFFER_OUTPUT_PERIOD_SIZE DEEP_BUFFER_OUTPUT_PERIOD_COUNT)
        \<lparr>pc_start_threshold := DEEP_BUFFER_OUTPUT_PERIOD_SIZE div 4,
         pc_stop_threshold := INT_MAX,
         pc_avail_min := DEEP_BUFFER_OUTPUT_PERIOD_SIZE div 4\<rparr>,
      pp_card = SOUND_CARD, pp_id = SOUND_DEEP_BUFFER_DEVICE, pp_type = PCM_PLAYBACK,
      pp_devices = AUDIO_DEVICE_OUT_WIRED_HEADSET P OR AUDIO_DEVICE_OUT_WIRED_HEADPHONE P OR
        AUDIO_DEVICE_OUT_SPEAKER P OR AUDIO_DEVICE_OUT_EARPIECE P OR AUDIO_DEVICE_OUT_ALL_SCO P\<rparr>"

definition pcm_device_capture :: "platform \<Rightarrow> pcm_device_profile" where
  "pcm_device_capture P =
     \<lparr>pp_config =
        (pcm_config_of CAPTURE_DEFAULT_CHANNEL_COUNT CAPTURE_DEFAULT_SAMPLING_RATE
           CAPTURE_PERIOD_SIZE CAPTURE_PERIOD_COUNT)
        \<lparr>pc_start_threshold := CAPTURE_START_THRESHOLD\<rparr>,
      pp_card = SOUND_CARD, pp_id = SOUND_CAPTURE_DEVICE, pp_type = PCM_CAPTURE,
      pp_devices = AUDIO_DEVICE_IN_BUILTIN_MIC P OR AUDIO_DEVICE_IN_WIRED_HEADSET P OR
        AUDIO_DEVICE_IN_BACK_MIC P OR AUDIO_DEVICE_IN_BLUETOOTH_SCO_HEADSET P\<rparr>"

definition pcm_device_playback_spk_and_headset :: "platform \<Rightarrow> pcm_device_profile" where
  "pcm_device_playback_spk_and_headset P =
     \<lparr>pp_config = playback_config, pp_card = SOUND_CARD, pp_id = SOUND_PLAYBACK_DEVICE,
      pp_type = PCM_PLAYBACK,
      pp_devices = AUDIO_DEVICE_OUT_SPEAKER P OR AUDIO_DEVICE_OUT_WIRED_HEADSET P OR
        AUDIO_DEVICE_OUT_WIRED_HEADPHONE P\<rparr>"

text \<open>The initial contents of \<open>pcm_devices[]\<close>; the profiles are mutable statics.\<close>

definition pcm_devices_init :: "platform \<Rightarrow> pcm_device_profile list" where
  "pcm_devices_init P =
     [pcm_device_playback P, pcm_device_capture P, pcm_device_playback_spk_and_headset P]"

section \<open>Searches\<close>

definition adev_get_mixer_for_card :: "mixer_card list \<Rightarrow> nat \<Rightarrow> mixer_card option" where
  "adev_get_mixer_for_card ms n = List.find (\<lambda>m. mc_card m = n) ms"

text \<open>A use case's list holds the numbers of cards of \<open>adev->mixer_list\<close>, which are distinct.\<close>

definition uc_get_mixer_for_card :: "audio_usecase \<Rightarrow> nat \<Rightarrow> nat option" where
  "uc_get_mixer_for_card uc n = List.find (\<lambda>m. m = n) (uc_mixer_list uc)"

definition get_usecase_from_id :: "audio_usecase list \<Rightarrow> audio_usecase_t \<Rightarrow> audio_usecase option" where
  "get_usecase_from_id us uid = List.find (\<lambda>u. uc_id u = uid) us"

definition get_usecase_from_type :: "audio_usecase list \<Rightarrow> u32 \<Rightarrow> audio_usecase option" where
  "get_usecase_from_type us ty = List.find (\<lambda>u. has_bits (usecase_type_val (uc_type u)) ty) us"

text \<open>The result is the index of the profile in \<open>pcm_devices[]\<close>.\<close>

definition get_pcm_device ::
  "platform \<Rightarrow> pcm_device_profile list \<Rightarrow> usecase_type_t \<Rightarrow> u32 \<Rightarrow> nat option" where
  "get_pcm_device P profiles uc_ty devices =
     (let devices = devices AND NOT (AUDIO_DEVICE_BIT_IN P) in
      if devices = 0 then None
      else List.find (\<lambda>i. pp_type (profiles ! i) = uc_ty \<and>
                          devices AND pp_devices (profiles ! i) = devices)
             [0..<length profiles])"

text \<open>
  The enumeration of the sound devices, as C reads it: an enumerator has the value after that of
  the one before it, or the value of an earlier one.
\<close>

datatype enumerator = Next string | Same string string

fun enum_values :: "int \<Rightarrow> (string \<times> int) list \<Rightarrow> enumerator list \<Rightarrow> (string \<times> int) list" where
  "enum_values n env [] = env"
| "enum_values n env (Next name # es) = enum_values (n + 1) ((name, n) # env) es"
| "enum_values n env (Same name other # es) =
     (case map_of env other of
        None \<Rightarrow> env
      | Some v \<Rightarrow> enum_values (v + 1) ((name, v) # env) es)"

definition snd_device_enum :: "enumerator list" where
  "snd_device_enum =
    [Next ''SND_DEVICE_NONE'',
     Next ''SND_DEVICE_MIN'',
     Same ''SND_DEVICE_OUT_BEGIN'' ''SND_DEVICE_MIN'',
     Same ''SND_DEVICE_OUT_EARPIECE'' ''SND_DEVICE_OUT_BEGIN'',
     Next ''SND_DEVICE_OUT_SPEAKER'',
     Next ''SND_DEVICE_OUT_HEADPHONES'',
     Next ''SND_DEVICE_OUT_SPEAKER_AND_HEADPHONES'',
     Next ''SND_DEVICE_OUT_BT_SCO'',
     Next ''SND_DEVICE_OUT_INCALL_EARPIECE'',
     Next ''SND_DEVICE_OUT_INCALL_EARPIECE_WB'',
     Next ''SND_DEVICE_OUT_INCALL_SPEAKER'',
     Next ''SND_DEVICE_OUT_INCALL_SPEAKER_WB'',
     Next ''SND_DEVICE_OUT_INCALL_HEADPHONES'',
     Next ''SND_DEVICE_OUT_INCALL_HEADPHONES_WB'',
     Next ''SND_DEVICE_OUT_INCALL_BT_SCO'',
     Next ''SND_DEVICE_OUT_INCALL_BT_SCO_WB'',
     Next ''SND_DEVICE_OUT_COMM_EARPIECE'',
     Next ''SND_DEVICE_OUT_COMM_SPEAKER'',
     Next ''SND_DEVICE_OUT_COMM_HEADPHONES'',
     Next ''SND_DEVICE_OUT_COMM_BT_SCO'',
     Next ''SND_DEVICE_OUT_END'',
     Same ''SND_DEVICE_IN_BEGIN'' ''SND_DEVICE_OUT_END'',
     Same ''SND_DEVICE_IN_EARPIECE_MIC'' ''SND_DEVICE_IN_BEGIN'',
     Next ''SND_DEVICE_IN_SPEAKER_MIC'',
     Next ''SND_DEVICE_IN_HEADSET_MIC'',
     Next ''SND_DEVICE_IN_BT_SCO_MIC'',
     Next ''SND_DEVICE_IN_INCALL_EARPIECE_MIC'',
     Next ''SND_DEVICE_IN_INCALL_EARPIECE_MIC_WB'',
     Next ''SND_DEVICE_IN_INCALL_SPEAKER_MIC'',
     Next ''SND_DEVICE_IN_INCALL_SPEAKER_MIC_WB'',
     Next ''SND_DEVICE_IN_INCALL_HEADSET_MIC'',
     Next ''SND_DEVICE_IN_INCALL_HEADSET_MIC_WB'',
     Next ''SND_DEVICE_IN_INCALL_BT_SCO_MIC'',
     Next ''SND_DEVICE_IN_INCALL_BT_SCO_MIC_WB'',
     Next ''SND_DEVICE_IN_COMM_EARPIECE_MIC'',
     Next ''SND_DEVICE_IN_COMM_SPEAKER_MIC'',
     Next ''SND_DEVICE_IN_COMM_HEADSET_MIC'',
     Next ''SND_DEVICE_IN_COMM_BT_SCO_MIC'',
     Next ''SND_DEVICE_IN_CAMCORDER_MIC'',
     Next ''SND_DEVICE_IN_CAMCORDER_HEADSET_MIC'',
     Next ''SND_DEVICE_IN_VOICE_RECOGNITION_MIC'',
     Next ''SND_DEVICE_IN_VOICE_RECOGNITION_HEADSET_MIC'',
     Next ''SND_DEVICE_IN_VOICE_RECOGNITION_BT_SCO_MIC'',
     Next ''SND_DEVICE_IN_END'',
     Same ''SND_DEVICE_MAX'' ''SND_DEVICE_IN_END'']"

text \<open>The numbers of the model are the values of the enumeration.\<close>

lemma snd_device_values:
  "rev (enum_values 0 [] snd_device_enum) =
    [(''SND_DEVICE_NONE'', SND_DEVICE_NONE),
     (''SND_DEVICE_MIN'', SND_DEVICE_MIN),
     (''SND_DEVICE_OUT_BEGIN'', SND_DEVICE_OUT_BEGIN),
     (''SND_DEVICE_OUT_EARPIECE'', SND_DEVICE_OUT_EARPIECE),
     (''SND_DEVICE_OUT_SPEAKER'', SND_DEVICE_OUT_SPEAKER),
     (''SND_DEVICE_OUT_HEADPHONES'', SND_DEVICE_OUT_HEADPHONES),
     (''SND_DEVICE_OUT_SPEAKER_AND_HEADPHONES'', SND_DEVICE_OUT_SPEAKER_AND_HEADPHONES),
     (''SND_DEVICE_OUT_BT_SCO'', SND_DEVICE_OUT_BT_SCO),
     (''SND_DEVICE_OUT_INCALL_EARPIECE'', SND_DEVICE_OUT_INCALL_EARPIECE),
     (''SND_DEVICE_OUT_INCALL_EARPIECE_WB'', SND_DEVICE_OUT_INCALL_EARPIECE_WB),
     (''SND_DEVICE_OUT_INCALL_SPEAKER'', SND_DEVICE_OUT_INCALL_SPEAKER),
     (''SND_DEVICE_OUT_INCALL_SPEAKER_WB'', SND_DEVICE_OUT_INCALL_SPEAKER_WB),
     (''SND_DEVICE_OUT_INCALL_HEADPHONES'', SND_DEVICE_OUT_INCALL_HEADPHONES),
     (''SND_DEVICE_OUT_INCALL_HEADPHONES_WB'', SND_DEVICE_OUT_INCALL_HEADPHONES_WB),
     (''SND_DEVICE_OUT_INCALL_BT_SCO'', SND_DEVICE_OUT_INCALL_BT_SCO),
     (''SND_DEVICE_OUT_INCALL_BT_SCO_WB'', SND_DEVICE_OUT_INCALL_BT_SCO_WB),
     (''SND_DEVICE_OUT_COMM_EARPIECE'', SND_DEVICE_OUT_COMM_EARPIECE),
     (''SND_DEVICE_OUT_COMM_SPEAKER'', SND_DEVICE_OUT_COMM_SPEAKER),
     (''SND_DEVICE_OUT_COMM_HEADPHONES'', SND_DEVICE_OUT_COMM_HEADPHONES),
     (''SND_DEVICE_OUT_COMM_BT_SCO'', SND_DEVICE_OUT_COMM_BT_SCO),
     (''SND_DEVICE_OUT_END'', SND_DEVICE_OUT_END),
     (''SND_DEVICE_IN_BEGIN'', SND_DEVICE_IN_BEGIN),
     (''SND_DEVICE_IN_EARPIECE_MIC'', SND_DEVICE_IN_EARPIECE_MIC),
     (''SND_DEVICE_IN_SPEAKER_MIC'', SND_DEVICE_IN_SPEAKER_MIC),
     (''SND_DEVICE_IN_HEADSET_MIC'', SND_DEVICE_IN_HEADSET_MIC),
     (''SND_DEVICE_IN_BT_SCO_MIC'', SND_DEVICE_IN_BT_SCO_MIC),
     (''SND_DEVICE_IN_INCALL_EARPIECE_MIC'', SND_DEVICE_IN_INCALL_EARPIECE_MIC),
     (''SND_DEVICE_IN_INCALL_EARPIECE_MIC_WB'', SND_DEVICE_IN_INCALL_EARPIECE_MIC_WB),
     (''SND_DEVICE_IN_INCALL_SPEAKER_MIC'', SND_DEVICE_IN_INCALL_SPEAKER_MIC),
     (''SND_DEVICE_IN_INCALL_SPEAKER_MIC_WB'', SND_DEVICE_IN_INCALL_SPEAKER_MIC_WB),
     (''SND_DEVICE_IN_INCALL_HEADSET_MIC'', SND_DEVICE_IN_INCALL_HEADSET_MIC),
     (''SND_DEVICE_IN_INCALL_HEADSET_MIC_WB'', SND_DEVICE_IN_INCALL_HEADSET_MIC_WB),
     (''SND_DEVICE_IN_INCALL_BT_SCO_MIC'', SND_DEVICE_IN_INCALL_BT_SCO_MIC),
     (''SND_DEVICE_IN_INCALL_BT_SCO_MIC_WB'', SND_DEVICE_IN_INCALL_BT_SCO_MIC_WB),
     (''SND_DEVICE_IN_COMM_EARPIECE_MIC'', SND_DEVICE_IN_COMM_EARPIECE_MIC),
     (''SND_DEVICE_IN_COMM_SPEAKER_MIC'', SND_DEVICE_IN_COMM_SPEAKER_MIC),
     (''SND_DEVICE_IN_COMM_HEADSET_MIC'', SND_DEVICE_IN_COMM_HEADSET_MIC),
     (''SND_DEVICE_IN_COMM_BT_SCO_MIC'', SND_DEVICE_IN_COMM_BT_SCO_MIC),
     (''SND_DEVICE_IN_CAMCORDER_MIC'', SND_DEVICE_IN_CAMCORDER_MIC),
     (''SND_DEVICE_IN_CAMCORDER_HEADSET_MIC'', SND_DEVICE_IN_CAMCORDER_HEADSET_MIC),
     (''SND_DEVICE_IN_VOICE_RECOGNITION_MIC'', SND_DEVICE_IN_VOICE_RECOGNITION_MIC),
     (''SND_DEVICE_IN_VOICE_RECOGNITION_HEADSET_MIC'', SND_DEVICE_IN_VOICE_RECOGNITION_HEADSET_MIC),
     (''SND_DEVICE_IN_VOICE_RECOGNITION_BT_SCO_MIC'', SND_DEVICE_IN_VOICE_RECOGNITION_BT_SCO_MIC),
     (''SND_DEVICE_IN_END'', SND_DEVICE_IN_END),
     (''SND_DEVICE_MAX'', SND_DEVICE_MAX)]"
  by code_simp

definition get_snd_device_name :: "snd_device_t \<Rightarrow> string option" where
  "get_snd_device_name snd_device =
     (if snd_device = SND_DEVICE_NONE \<or>
         (SND_DEVICE_MIN \<le> snd_device \<and> snd_device < SND_DEVICE_MAX)
      then Some (device_table ! nat snd_device) else None)"

definition get_snd_device_display_name :: "snd_device_t \<Rightarrow> string" where
  "get_snd_device_display_name snd_device =
     (case get_snd_device_name snd_device of
        None \<Rightarrow> ''SND DEVICE NOT FOUND''
      | Some name \<Rightarrow> name)"

section \<open>The contract of a search by key\<close>

locale keyed_list =
  fixes lookup :: "'a list \<Rightarrow> 'k \<Rightarrow> 'a option"
    and key :: "'a \<Rightarrow> 'k"
  assumes lookup_empty: "lookup [] k = None"
    and lookup_add_tail: "lookup (xs @ [x]) k =
      (case lookup xs k of Some y \<Rightarrow> Some y | None \<Rightarrow> if key x = k then Some x else None)"
begin

lemma lookup_SomeD: "lookup xs k = Some x \<Longrightarrow> x \<in> set xs \<and> key x = k"
proof (induction xs rule: rev_induct)
  case Nil
  then show ?case by (simp add: lookup_empty)
next
  case (snoc y ys)
  then show ?case by (auto simp: lookup_add_tail split: option.splits if_splits)
qed

lemma lookup_None_iff: "lookup xs k = None \<longleftrightarrow> k \<notin> key ` set xs"
proof (induction xs rule: rev_induct)
  case Nil
  then show ?case by (simp add: lookup_empty)
next
  case (snoc y ys)
  then show ?case by (auto simp: lookup_add_tail split: option.splits)
qed

lemma lookup_exists: "x \<in> set xs \<Longrightarrow> \<exists>y. lookup xs (key x) = Some y"
  using lookup_None_iff [of xs "key x"] by (cases "lookup xs (key x)") auto

lemma lookup_unique: "distinct (map key xs) \<Longrightarrow> x \<in> set xs \<Longrightarrow> lookup xs (key x) = Some x"
  using lookup_exists lookup_SomeD distinct_map_unique by metis

lemma lookup_fresh: "k \<notin> key ` set xs \<Longrightarrow> key x = k \<Longrightarrow> lookup (xs @ [x]) k = Some x"
  by (simp add: lookup_add_tail lookup_None_iff [THEN iffD2])

lemma lookup_add_other: "key x \<noteq> k \<Longrightarrow> lookup (xs @ [x]) k = lookup xs k"
  by (simp add: lookup_add_tail split: option.split)

end

interpretation mixers: keyed_list adev_get_mixer_for_card mc_card
  by unfold_locales (simp_all add: adev_get_mixer_for_card_def find_append split: option.split)

interpretation usecases: keyed_list get_usecase_from_id uc_id
  by unfold_locales (simp_all add: get_usecase_from_id_def find_append split: option.split)

section \<open>Facts about the tables and searches\<close>

lemma length_device_table [simp]: "length device_table = 39"
  by (simp add: device_table_def)

lemma get_snd_device_name_valid:
  "0 \<le> d \<Longrightarrow> d < SND_DEVICE_MAX \<Longrightarrow> get_snd_device_name d = Some (device_table ! nat d)"
  by (auto simp: get_snd_device_name_def)

lemma get_snd_device_name_SomeD: "get_snd_device_name d = Some n \<Longrightarrow> 0 \<le> d \<and> d < SND_DEVICE_MAX"
  by (auto simp: get_snd_device_name_def split: if_splits)

lemma distinct_device_table: "distinct device_table"
  by code_simp

lemma get_pcm_device_SomeD:
  assumes "get_pcm_device P profiles ty devices = Some i"
  shows "i < length profiles" and "pp_type (profiles ! i) = ty"
    and "(devices AND NOT (AUDIO_DEVICE_BIT_IN P)) AND pp_devices (profiles ! i) =
         devices AND NOT (AUDIO_DEVICE_BIT_IN P)"
    and "devices AND NOT (AUDIO_DEVICE_BIT_IN P) \<noteq> 0"
  using assms by (auto simp: get_pcm_device_def Let_def dest!: find_Some_mem split: if_splits)

text \<open>
  The value of \<open>PCM_PLAYBACK\<close> is 0, so a search for that type tests \<open>usecase->type & 0\<close> and
  never finds a use case.
\<close>

lemma get_usecase_from_type_playback: "get_usecase_from_type us (usecase_type_val PCM_PLAYBACK) = None"
  by (simp add: get_usecase_from_type_def find_False)

lemma get_usecase_from_type_capture_voice:
  "get_usecase_from_type us (usecase_type_val PCM_CAPTURE OR usecase_type_val VOICE_CALL) = Some u \<Longrightarrow>
   u \<in> set us \<and> uc_type u \<noteq> PCM_PLAYBACK"
  by (auto simp: get_usecase_from_type_def dest!: find_Some_mem)

end
