(* ===== verification/DeviceSelect.thy ===== *)
theory DeviceSelect
  imports Lookup
begin

text \<open>
  The choice of the sound device (a mixer path) from the mode, the call state and the device
  masks: \<open>get_output_snd_device\<close> and \<open>get_input_snd_device\<close> of \<open>audio/audio_hw.c\<close>.
  Each \<open>if\<close> chain that assigns \<open>snd_device\<close> is one \<open>let\<close>, with the old value in the last
  branch; \<open>goto exit\<close> ends the function with the current value.
\<close>

section \<open>Reading streams through cast pointers\<close>

text \<open>\<open>(struct stream_in *) usecase->stream\<close>: \<open>None\<close> when the stream has been freed.\<close>

definition view_of_in :: "stream_in \<Rightarrow> in_view" where
  "view_of_in i = \<lparr>iv_source = si_source i, iv_devices = si_devices i,
                   iv_main_channels = si_main_channels i, iv_usecase = si_usecase i\<rparr>"

definition stream_as_in :: "platform \<Rightarrow> hal \<Rightarrow> stream_ref \<Rightarrow> in_view option" where
  "stream_as_in P s r =
     (case r of
        InRef a \<Rightarrow> map_option view_of_in (ins s a)
      | OutRef a \<Rightarrow> map_option (out_as_in P) (outs s a))"

text \<open>\<open>((struct stream_out *) usecase->stream)->devices\<close>.\<close>

definition stream_out_devices :: "platform \<Rightarrow> hal \<Rightarrow> stream_ref \<Rightarrow> u32 option" where
  "stream_out_devices P s r =
     (case r of
        OutRef a \<Rightarrow> map_option so_devices (outs s a)
      | InRef a \<Rightarrow> map_option (in_as_out_devices P) (ins s a))"

text \<open>The pointer \<open>active_input\<close> of the code: \<open>Some None\<close> is the null pointer.\<close>

definition active_input_of :: "platform \<Rightarrow> hal \<Rightarrow> in_view option option" where
  "active_input_of P s =
     (case get_usecase_from_type (usecase_list s)
             (usecase_type_val PCM_CAPTURE OR usecase_type_val VOICE_CALL) of
        None \<Rightarrow> Some None
      | Some uc \<Rightarrow> map_option Some (stream_as_in P s (uc_stream uc)))"

section \<open>Output devices\<close>

definition get_output_snd_device :: "platform \<Rightarrow> hal \<Rightarrow> u32 \<Rightarrow> snd_device_t" where
  "get_output_snd_device P s devices =
    (let has = has_bits devices in
     if devices = AUDIO_DEVICE_NONE P \<or> has (AUDIO_DEVICE_BIT_IN P) then SND_DEVICE_NONE
     else
       let d = (if mode s = AUDIO_MODE_IN_CALL P then
           let d =
             (if wb_amr_type s \<ge> 1 then
                (if has (AUDIO_DEVICE_OUT_WIRED_HEADPHONE P) \<or> has (AUDIO_DEVICE_OUT_WIRED_HEADSET P)
                 then SND_DEVICE_OUT_INCALL_HEADPHONES_WB
                 else if has (AUDIO_DEVICE_OUT_SPEAKER P) then SND_DEVICE_OUT_INCALL_SPEAKER_WB
                 else if has (AUDIO_DEVICE_OUT_EARPIECE P) then SND_DEVICE_OUT_INCALL_EARPIECE_WB
                 else SND_DEVICE_NONE)
              else
                (if has (AUDIO_DEVICE_OUT_WIRED_HEADPHONE P) \<or> has (AUDIO_DEVICE_OUT_WIRED_HEADSET P)
                 then SND_DEVICE_OUT_INCALL_HEADPHONES
                 else if has (AUDIO_DEVICE_OUT_SPEAKER P) then SND_DEVICE_OUT_INCALL_SPEAKER
                 else if has (AUDIO_DEVICE_OUT_EARPIECE P) then SND_DEVICE_OUT_INCALL_EARPIECE
                 else SND_DEVICE_NONE))
           in (if has (AUDIO_DEVICE_OUT_ALL_SCO P)
               then (if bluetooth_wb s then SND_DEVICE_OUT_INCALL_BT_SCO_WB
                     else SND_DEVICE_OUT_INCALL_BT_SCO)
               else d)
         else SND_DEVICE_NONE)
       in if d \<noteq> SND_DEVICE_NONE then d
       else
         let d = (if mode s = AUDIO_MODE_IN_COMMUNICATION P then
             (if has (AUDIO_DEVICE_OUT_WIRED_HEADPHONE P) \<or> has (AUDIO_DEVICE_OUT_WIRED_HEADSET P)
              then SND_DEVICE_OUT_COMM_HEADPHONES
              else if has (AUDIO_DEVICE_OUT_ALL_SCO P) then SND_DEVICE_OUT_COMM_BT_SCO
              else if has (AUDIO_DEVICE_OUT_SPEAKER P) then SND_DEVICE_OUT_COMM_SPEAKER
              else if has (AUDIO_DEVICE_OUT_EARPIECE P) then SND_DEVICE_OUT_COMM_EARPIECE
              else SND_DEVICE_NONE)
           else SND_DEVICE_NONE)
         in if d \<noteq> SND_DEVICE_NONE then d
         else if popcount devices = 2 then
           (if devices = (AUDIO_DEVICE_OUT_WIRED_HEADPHONE P OR AUDIO_DEVICE_OUT_SPEAKER P)
            then SND_DEVICE_OUT_SPEAKER_AND_HEADPHONES
            else if devices = (AUDIO_DEVICE_OUT_WIRED_HEADSET P OR AUDIO_DEVICE_OUT_SPEAKER P)
            then SND_DEVICE_OUT_SPEAKER_AND_HEADPHONES
            else SND_DEVICE_NONE)
         else if popcount devices \<noteq> 1 then SND_DEVICE_NONE
         else if has (AUDIO_DEVICE_OUT_WIRED_HEADPHONE P) \<or> has (AUDIO_DEVICE_OUT_WIRED_HEADSET P)
         then SND_DEVICE_OUT_HEADPHONES
         else if has (AUDIO_DEVICE_OUT_SPEAKER P) then SND_DEVICE_OUT_SPEAKER
         else if has (AUDIO_DEVICE_OUT_ALL_SCO P) then SND_DEVICE_OUT_BT_SCO
         else if has (AUDIO_DEVICE_OUT_EARPIECE P) then SND_DEVICE_OUT_EARPIECE
         else SND_DEVICE_NONE)"

section \<open>Input devices\<close>

text \<open>
  The part of \<open>get_input_snd_device\<close> up to the first common test of \<open>snd_device\<close>.  The result
  is \<open>Inl d\<close> when the code jumps to \<open>exit\<close>, and \<open>Inr (d, in_device)\<close> when it falls through.
\<close>

definition input_snd_device_by_source ::
  "platform \<Rightarrow> hal \<Rightarrow> bool \<Rightarrow> int \<Rightarrow> u32 \<Rightarrow> u32 \<Rightarrow> snd_device_t + (snd_device_t \<times> u32)" where
  "input_snd_device_by_source P s active source in_device out_device =
    (let out = has_bits out_device in
     if mode s = AUDIO_MODE_IN_CALL P then
       (if out_device = AUDIO_DEVICE_NONE P then Inl SND_DEVICE_NONE
        else
          let d =
            (if wb_amr_type s \<ge> 1 then
               (if out (AUDIO_DEVICE_OUT_WIRED_HEADSET P) then SND_DEVICE_IN_INCALL_HEADSET_MIC_WB
                else if out (AUDIO_DEVICE_OUT_EARPIECE P) \<or> out (AUDIO_DEVICE_OUT_WIRED_HEADPHONE P)
                then SND_DEVICE_IN_INCALL_EARPIECE_MIC_WB
                else if out (AUDIO_DEVICE_OUT_SPEAKER P) then SND_DEVICE_IN_INCALL_SPEAKER_MIC_WB
                else SND_DEVICE_NONE)
             else
               (if out (AUDIO_DEVICE_OUT_WIRED_HEADSET P) then SND_DEVICE_IN_INCALL_HEADSET_MIC
                else if out (AUDIO_DEVICE_OUT_EARPIECE P) \<or> out (AUDIO_DEVICE_OUT_WIRED_HEADPHONE P)
                then SND_DEVICE_IN_INCALL_EARPIECE_MIC
                else if out (AUDIO_DEVICE_OUT_SPEAKER P) then SND_DEVICE_IN_INCALL_SPEAKER_MIC
                else SND_DEVICE_NONE))
          in Inr (if out (AUDIO_DEVICE_OUT_ALL_SCO P)
                  then (if bluetooth_wb s then SND_DEVICE_IN_INCALL_BT_SCO_MIC_WB
                        else SND_DEVICE_IN_INCALL_BT_SCO_MIC)
                  else d, in_device))
     else if source = AUDIO_SOURCE_VOICE_COMMUNICATION P \<or> mode s = AUDIO_MODE_IN_COMMUNICATION P then
       let in_device = (if out (AUDIO_DEVICE_OUT_SPEAKER P) then AUDIO_DEVICE_IN_BACK_MIC P else in_device)
       in Inr (if active then
                 (if out (AUDIO_DEVICE_OUT_BLUETOOTH_SCO_HEADSET P) then SND_DEVICE_IN_COMM_BT_SCO_MIC
                  else if has_bits in_device (AUDIO_DEVICE_IN_BACK_MIC P) then SND_DEVICE_IN_COMM_SPEAKER_MIC
                  else if has_bits in_device (AUDIO_DEVICE_IN_BUILTIN_MIC P) then
                    (if out (AUDIO_DEVICE_OUT_WIRED_HEADPHONE P) then SND_DEVICE_IN_COMM_SPEAKER_MIC
                     else SND_DEVICE_IN_COMM_EARPIECE_MIC)
                  else if has_bits in_device (AUDIO_DEVICE_IN_WIRED_HEADSET P) then SND_DEVICE_IN_COMM_HEADSET_MIC
                  else SND_DEVICE_NONE)
               else SND_DEVICE_NONE, in_device)
     else if source = AUDIO_SOURCE_CAMCORDER P then
       Inr (if has_bits in_device (AUDIO_DEVICE_IN_WIRED_HEADSET P)
            then SND_DEVICE_IN_CAMCORDER_HEADSET_MIC else SND_DEVICE_IN_CAMCORDER_MIC, in_device)
     else if source = AUDIO_SOURCE_VOICE_RECOGNITION P then
       Inr (if has_bits in_device (AUDIO_DEVICE_IN_BUILTIN_MIC P) then SND_DEVICE_IN_VOICE_RECOGNITION_MIC
            else if has_bits in_device (AUDIO_DEVICE_IN_WIRED_HEADSET P)
            then SND_DEVICE_IN_VOICE_RECOGNITION_HEADSET_MIC
            else if has_bits in_device (AUDIO_DEVICE_IN_BLUETOOTH_SCO_HEADSET P)
            then SND_DEVICE_IN_VOICE_RECOGNITION_BT_SCO_MIC
            else SND_DEVICE_NONE, in_device)
     else if source = AUDIO_SOURCE_MIC P then
       Inr (if out (AUDIO_DEVICE_OUT_WIRED_HEADSET P) then SND_DEVICE_IN_HEADSET_MIC
            else if out (AUDIO_DEVICE_OUT_EARPIECE P) \<or> out (AUDIO_DEVICE_OUT_WIRED_HEADPHONE P)
            then SND_DEVICE_IN_EARPIECE_MIC
            else if out (AUDIO_DEVICE_OUT_SPEAKER P) then SND_DEVICE_IN_SPEAKER_MIC
            else SND_DEVICE_NONE, in_device)
     else if source = AUDIO_SOURCE_DEFAULT P then Inl SND_DEVICE_NONE
     else Inr (SND_DEVICE_NONE, in_device))"

text \<open>The fallback chains after that test.\<close>

definition input_snd_device_default :: "platform \<Rightarrow> u32 \<Rightarrow> u32 \<Rightarrow> snd_device_t" where
  "input_snd_device_default P in_device out_device =
    (if in_device \<noteq> AUDIO_DEVICE_NONE P \<and>
        \<not> has_bits in_device (AUDIO_DEVICE_IN_VOICE_CALL P) \<and>
        \<not> has_bits in_device (AUDIO_DEVICE_IN_COMMUNICATION P) then
       (if has_bits in_device (AUDIO_DEVICE_IN_BUILTIN_MIC P) then SND_DEVICE_IN_EARPIECE_MIC
        else if has_bits in_device (AUDIO_DEVICE_IN_BACK_MIC P) then SND_DEVICE_IN_SPEAKER_MIC
        else if has_bits in_device (AUDIO_DEVICE_IN_WIRED_HEADSET P) then SND_DEVICE_IN_HEADSET_MIC
        else if has_bits in_device (AUDIO_DEVICE_IN_BLUETOOTH_SCO_HEADSET P) then SND_DEVICE_IN_BT_SCO_MIC
        else SND_DEVICE_IN_EARPIECE_MIC)
     else
       (if has_bits out_device (AUDIO_DEVICE_OUT_EARPIECE P) then SND_DEVICE_IN_EARPIECE_MIC
        else if has_bits out_device (AUDIO_DEVICE_OUT_WIRED_HEADSET P) then SND_DEVICE_IN_HEADSET_MIC
        else if has_bits out_device (AUDIO_DEVICE_OUT_SPEAKER P) then SND_DEVICE_IN_SPEAKER_MIC
        else if has_bits out_device (AUDIO_DEVICE_OUT_WIRED_HEADPHONE P) then SND_DEVICE_IN_EARPIECE_MIC
        else if has_bits out_device (AUDIO_DEVICE_OUT_BLUETOOTH_SCO_HEADSET P) then SND_DEVICE_IN_BT_SCO_MIC
        else SND_DEVICE_IN_EARPIECE_MIC))"

definition get_input_snd_device :: "platform \<Rightarrow> hal \<Rightarrow> u32 \<Rightarrow> snd_device_t option" where
  "get_input_snd_device P s out_device = do {
     active_input \<leftarrow> active_input_of P s;
     let source = (case active_input of None \<Rightarrow> AUDIO_SOURCE_DEFAULT P | Some i \<Rightarrow> iv_source i);
     let in_device = (case active_input of None \<Rightarrow> AUDIO_DEVICE_NONE P | Some i \<Rightarrow> iv_devices i)
                     AND NOT (AUDIO_DEVICE_BIT_IN P);
     Some (case input_snd_device_by_source P s (active_input \<noteq> None) source in_device out_device of
             Inl d \<Rightarrow> d
           | Inr (d, in_device) \<Rightarrow>
               if d \<noteq> SND_DEVICE_NONE then d
               else input_snd_device_default P in_device out_device)
   }"

section \<open>What the selection promises\<close>

definition out_snd_device_ok :: "snd_device_t \<Rightarrow> bool" where
  "out_snd_device_ok d \<longleftrightarrow> d = SND_DEVICE_NONE \<or> SND_DEVICE_OUT_BEGIN \<le> d \<and> d < SND_DEVICE_OUT_END"

definition in_snd_device_ok :: "snd_device_t \<Rightarrow> bool" where
  "in_snd_device_ok d \<longleftrightarrow> d = SND_DEVICE_NONE \<or> SND_DEVICE_IN_BEGIN \<le> d \<and> d < SND_DEVICE_IN_END"

text \<open>
  The functions are nests of \<open>if\<close> and \<open>let\<close> over constants: the following rules take such a
  nest apart without splitting on its conditions.
\<close>

lemma out_snd_device_ok_nest:
  "out_snd_device_ok x \<Longrightarrow> out_snd_device_ok y \<Longrightarrow> out_snd_device_ok (if b then x else y)"
  "(\<And>d. out_snd_device_ok d \<Longrightarrow> out_snd_device_ok (f d)) \<Longrightarrow> out_snd_device_ok e \<Longrightarrow>
   out_snd_device_ok (let d = e in f d)"
  "(\<And>h :: u32 \<Rightarrow> bool. out_snd_device_ok (g h)) \<Longrightarrow> out_snd_device_ok (let h = k in g h)"
  by (simp_all add: Let_def)

lemma get_output_snd_device_ok: "out_snd_device_ok (get_output_snd_device P s devices)"
  unfolding get_output_snd_device_def
  by (intro out_snd_device_ok_nest; simp add: out_snd_device_ok_def)

definition in_result_ok :: "snd_device_t + (snd_device_t \<times> u32) \<Rightarrow> bool" where
  "in_result_ok r = (case r of Inl d \<Rightarrow> d = SND_DEVICE_NONE | Inr (d, _) \<Rightarrow> in_snd_device_ok d)"

lemma in_snd_device_ok_nest:
  "in_snd_device_ok x \<Longrightarrow> in_snd_device_ok y \<Longrightarrow> in_snd_device_ok (if b then x else y)"
  "in_result_ok r \<Longrightarrow> in_result_ok q \<Longrightarrow> in_result_ok (if b then r else q)"
  "in_snd_device_ok x \<Longrightarrow> in_result_ok (Inr (x, m))"
  "in_result_ok (Inl SND_DEVICE_NONE)"
  "(\<And>d. in_snd_device_ok d \<Longrightarrow> in_result_ok (f d)) \<Longrightarrow> in_snd_device_ok e \<Longrightarrow>
   in_result_ok (let d = e in f d)"
  "(\<And>m :: u32. in_result_ok (g m)) \<Longrightarrow> in_result_ok (let m = j in g m)"
  "(\<And>h :: u32 \<Rightarrow> bool. in_result_ok (g' h)) \<Longrightarrow> in_result_ok (let h = k in g' h)"
  by (simp_all add: Let_def in_result_ok_def)

lemma input_snd_device_default_ok:
  "in_snd_device_ok (input_snd_device_default P in_device out_device)"
  unfolding input_snd_device_default_def
  by (intro in_snd_device_ok_nest; simp add: in_snd_device_ok_def)

lemma input_snd_device_by_source_ok:
  "in_result_ok (input_snd_device_by_source P s active source in_device out_device)"
  unfolding input_snd_device_by_source_def
  by (intro in_snd_device_ok_nest; simp add: in_snd_device_ok_def)

lemma get_input_snd_device_ok:
  assumes "get_input_snd_device P s out_device = Some d"
  shows "in_snd_device_ok d"
proof -
  obtain a source m where d: "d = (case input_snd_device_by_source P s a source m out_device of
      Inl d \<Rightarrow> d
    | Inr (d, m) \<Rightarrow> if d \<noteq> SND_DEVICE_NONE then d else input_snd_device_default P m out_device)"
    using assms by (auto simp: get_input_snd_device_def Let_def bind_eq_Some_conv)
  show ?thesis
    using input_snd_device_by_source_ok [of P s a source m out_device]
    by (auto simp: d in_result_ok_def in_snd_device_ok_def
        input_snd_device_default_ok [unfolded in_snd_device_ok_def]
        split: sum.splits prod.splits)
qed

text \<open>The selection faults only when the stream of the use case it looks at has been freed.\<close>

lemma get_input_snd_device_returns:
  "active_input_of P s = Some v \<Longrightarrow> \<exists>d. get_input_snd_device P s out_device = Some d"
  by (simp add: get_input_snd_device_def Let_def)

lemma snd_device_ok_valid:
  "out_snd_device_ok d \<Longrightarrow> 0 \<le> d \<and> d < SND_DEVICE_MAX"
  "in_snd_device_ok d \<Longrightarrow> 0 \<le> d \<and> d < SND_DEVICE_MAX"
  by (auto simp: out_snd_device_ok_def in_snd_device_ok_def)

end
