(* ===== verification/Demo.thy ===== *)
theory Demo
  imports Lookup
begin

text \<open>
  A concrete platform: the constants of Android's headers and of tinyalsa, a machine on which
  every call succeeds, and an initial state of the device.  The development is about an
  arbitrary platform; this one instantiates it where a theorem is applied to an example.
\<close>

definition demo :: platform where
  "demo = \<lparr>
     AUDIO_DEVICE_NONE = 0,
     AUDIO_DEVICE_BIT_IN = 0x80000000,
     AUDIO_DEVICE_OUT_EARPIECE = 0x1,
     AUDIO_DEVICE_OUT_SPEAKER = 0x2,
     AUDIO_DEVICE_OUT_WIRED_HEADSET = 0x4,
     AUDIO_DEVICE_OUT_WIRED_HEADPHONE = 0x8,
     AUDIO_DEVICE_OUT_BLUETOOTH_SCO_HEADSET = 0x20,
     AUDIO_DEVICE_OUT_BLUETOOTH_SCO_CARKIT = 0x40,
     AUDIO_DEVICE_OUT_ALL_SCO = 0x70,
     AUDIO_DEVICE_IN_COMMUNICATION = 0x80000001,
     AUDIO_DEVICE_IN_BUILTIN_MIC = 0x80000004,
     AUDIO_DEVICE_IN_BLUETOOTH_SCO_HEADSET = 0x80000008,
     AUDIO_DEVICE_IN_WIRED_HEADSET = 0x80000010,
     AUDIO_DEVICE_IN_VOICE_CALL = 0x80000040,
     AUDIO_DEVICE_IN_BACK_MIC = 0x80000080,
     AUDIO_MODE_NORMAL = 0,
     AUDIO_MODE_IN_CALL = 2,
     AUDIO_MODE_IN_COMMUNICATION = 3,
     AUDIO_SOURCE_DEFAULT = 0,
     AUDIO_SOURCE_MIC = 1,
     AUDIO_SOURCE_CAMCORDER = 5,
     AUDIO_SOURCE_VOICE_RECOGNITION = 6,
     AUDIO_SOURCE_VOICE_COMMUNICATION = 7,
     AUDIO_CHANNEL_OUT_STEREO = 0x3,
     AUDIO_CHANNEL_OUT_5POINT1 = 0x3F,
     AUDIO_CHANNEL_OUT_7POINT1 = 0x63F,
     AUDIO_CHANNEL_IN_MONO = 0x10,
     AUDIO_FORMAT_PCM_16_BIT = 0x1,
     AUDIO_OUTPUT_FLAG_PRIMARY = 0x2,
     AUDIO_OUTPUT_FLAG_DEEP_BUFFER = 0x8,
     AUDIO_INPUT_FLAG_FAST = 0x1,
     PCM_OUT = 0,
     PCM_IN = 0x10000000,
     PCM_MONOTONIC = 0x8,
     RIL_CLIENT_ERR_SUCCESS = 0,
     AUDIO_PARAMETER_VALUE_ON = ''on'',
     AUDIO_HARDWARE_INTERFACE = ''audio_hw_if'',
     calloc_ok = (\<lambda>t x. True),
     pcm_open = (\<lambda>t card dev fl cfg. Some (ReadyPcm (length t))),
     pcm_write_rc = (\<lambda>t h n. 0),
     pcm_read_rc = (\<lambda>t h n. (0, replicate n [0, 0])),
     pcm_get_htimestamp = (\<lambda>t h. Some (0, 0)),
     mixer_open = (\<lambda>t n. if n = 0 then Some 7 else None),
     file_exists = (\<lambda>t f. False),
     audio_route_init = (\<lambda>t n f. Some 11),
     ril_open_client = (\<lambda>t. Some 3),
     ril_is_connected = (\<lambda>t c. True),
     ril_rc = (\<lambda>t c q. 0),
     property_get = (\<lambda>t k. None),
     str_parms_get_str = (\<lambda>kv k. None),
     create_resampler = (\<lambda>t a b c. (0, Some 5)),
     resample_requests = (\<lambda>t r n. [n]),
     resample_output = (\<lambda>t r n fs. take n (fs @ replicate n [0, 0])),
     clock_us = (\<lambda>t. int (length t)),
     sysfs_open_rc = (\<lambda>t f. 0),
     sysfs_write_rc = (\<lambda>t f b. 0),
     audio_stream_out_frame_size = (\<lambda>m f. 4),
     audio_stream_in_frame_size = (\<lambda>m f. 2),
     audio_channel_count_from_in_mask = (\<lambda>m. if m = 0x10 then 1 else 2),
     audio_channel_count_from_out_mask = (\<lambda>m. 2),
     audio_bytes_per_sample = (\<lambda>f. 2),
     adjust_channels = (\<lambda>fs a b. map (take b) fs),
     out_as_in = (\<lambda>out. \<lparr>iv_source = 0, iv_devices = 0, iv_main_channels = 0,
                          iv_usecase = USECASE_INVALID\<rparr>),
     in_as_out_devices = (\<lambda>i. 0)\<rparr>"

definition demo_card :: mixer_card where
  "demo_card = \<lparr>mc_card = SOUND_CARD, mc_mixer = 7, mc_audio_route = 11, mc_dsp_poweroff_time = 0\<rparr>"

text \<open>The device after \<open>adev_open\<close> on this platform, with no stream yet.\<close>

definition demo_hal :: hal where
  "demo_hal = \<lparr>
     mixer_list = [demo_card], mode = 0, active_input = None, primary_output = None,
     mic_mute = False, in_call = False, in_call_sco = False, in_comm_sco = False,
     volume = F32 1 0, bluetooth_nrec = True, bluetooth_wb = False, audience_enabled = False,
     forced_voice_config = False, wb_amr_type = 0,
     ril = \<lparr>client = Some 3, volume_steps_max = 5\<rparr>,
     pcm_voice_rx = None, pcm_voice_tx = None, pcm_sco_rx = None, pcm_sco_tx = None,
     snd_dev_ref_cnt = replicate 39 0, usecase_list = [], pcm_devices = pcm_devices_init demo,
     wb_amr_callback = None, clock_state_callback = None,
     outs = (\<lambda>a. None), ins = (\<lambda>a. None), next_addr = 100, audio_device_ref_count = 0, trace = []\<rparr>"

text \<open>Streams: a primary output and a capture stream, both in standby.\<close>

definition demo_out :: stream_out where
  "demo_out = \<lparr>
     so_config = pp_config (pcm_device_playback demo), so_pcm_dev_list = None, so_standby = True,
     so_sample_rate = 48000, so_channel_mask = 0x3, so_format = 1, so_devices = 0x2,
     so_flags = 0x2, so_usecase = USECASE_AUDIO_PLAYBACK, so_supported_channel_masks = [0x3],
     so_muted = False, so_written = 0, so_handle = 1, so_proc_buf_size = 0,
     so_last_write_time_us = 0\<rparr>"

definition demo_in :: stream_in where
  "demo_in = \<lparr>
     si_config = pp_config (pcm_device_capture demo), si_pcm_dev_list = None, si_standby = True,
     si_source = 1, si_devices = 0x80000004, si_main_channels = 0x10,
     si_usecase = USECASE_AUDIO_CAPTURE, si_usecase_type = PCM_CAPTURE, si_input_flags = 0,
     si_requested_rate = 48000, si_resampler = None, si_read_status = 0, si_read_buf = [],
     si_read_buf_size = 0, si_read_buf_frames = 0, si_proc_buf_size = 0,
     si_last_read_time_us = 0, si_frames_read = 0\<rparr>"

text \<open>The device while the primary output (at address 1) plays on the speaker.\<close>

definition demo_usecase :: audio_usecase where
  "demo_usecase = \<lparr>uc_addr = 50, uc_id = USECASE_AUDIO_PLAYBACK, uc_type = PCM_PLAYBACK,
     uc_devices = 0x2, uc_out_snd_device = SND_DEVICE_OUT_SPEAKER, uc_in_snd_device = SND_DEVICE_NONE,
     uc_stream = OutRef 1, uc_mixer_list = [SOUND_CARD]\<rparr>"

definition demo_playing :: hal where
  "demo_playing = demo_hal\<lparr>
     primary_output := Some 1,
     outs := (\<lambda>a. if a = 1 then Some (demo_out\<lparr>so_standby := False, so_devices := 0x4\<rparr>) else None),
     usecase_list := [demo_usecase],
     snd_dev_ref_cnt := (replicate 39 0)[2 := 1],
     trace := [RouteApply 11 ''route-speaker'']\<rparr>"

end
