(* ===== verification/SelectionClaims.thy ===== *)
theory SelectionClaims
  imports DeviceSelect Demo
begin

text \<open>
  The choice of a sound device against a reference: the mixer path of the device is put together
  from the mode, the first endpoint in the order of the mode that the mask of devices contains, and
  the band of the call.
\<close>

section \<open>The reference\<close>

fun first_true :: "(bool \<times> 'a) list \<Rightarrow> 'a option" where
  "first_true [] = None"
| "first_true ((b, x) # xs) = (if b then Some x else first_true xs)"

text \<open>The end of a path in a call: wide band as the headset on Bluetooth or the network says.\<close>

definition call_band :: "platform \<Rightarrow> hal \<Rightarrow> u32 \<Rightarrow> string" where
  "call_band P s devices =
     (if (if has_bits devices (AUDIO_DEVICE_OUT_ALL_SCO P) then bluetooth_wb s else wb_amr_type s \<ge> 1)
      then ''-wb'' else [])"

text \<open>
  The path of an output: in a call Bluetooth comes first, in communication wired headphones, and
  otherwise the mask must be one device, or the speaker with wired headphones.
\<close>

definition output_path :: "platform \<Rightarrow> hal \<Rightarrow> u32 \<Rightarrow> string option" where
  "output_path P s devices =
     (let has = has_bits devices;
          sco = (has (AUDIO_DEVICE_OUT_ALL_SCO P), ''bt-sco-headset'');
          wired = (has (AUDIO_DEVICE_OUT_WIRED_HEADPHONE P) \<or> has (AUDIO_DEVICE_OUT_WIRED_HEADSET P), ''headphones'');
          speaker = (has (AUDIO_DEVICE_OUT_SPEAKER P), ''speaker'');
          earpiece = (has (AUDIO_DEVICE_OUT_EARPIECE P), ''earpiece'');
          in_call = (if mode s = AUDIO_MODE_IN_CALL P then first_true [sco, wired, speaker, earpiece] else None);
          in_comm = (if mode s = AUDIO_MODE_IN_COMMUNICATION P then first_true [wired, sco, speaker, earpiece] else None)
      in if devices = AUDIO_DEVICE_NONE P \<or> has (AUDIO_DEVICE_BIT_IN P) then None
      else case in_call of
        Some e \<Rightarrow> Some (''route-incall-'' @ e @ call_band P s devices)
      | None \<Rightarrow>
          case in_comm of
            Some e \<Rightarrow> Some (''route-comm-'' @ e)
          | None \<Rightarrow>
              if popcount devices = 1 then map_option (\<lambda>e. ''route-'' @ e) (first_true [wired, speaker, sco, earpiece])
              else if popcount devices = 2 \<and>
                devices \<in> {AUDIO_DEVICE_OUT_WIRED_HEADPHONE P OR AUDIO_DEVICE_OUT_SPEAKER P,
                           AUDIO_DEVICE_OUT_WIRED_HEADSET P OR AUDIO_DEVICE_OUT_SPEAKER P}
              then Some ''route-speaker-and-headphones'' else None)"

text \<open>The microphone of a call, from the mask of output devices.\<close>

definition call_mic :: "platform \<Rightarrow> u32 \<Rightarrow> string option" where
  "call_mic P devices =
     (let out = has_bits devices
      in first_true [(out (AUDIO_DEVICE_OUT_ALL_SCO P), ''bt-sco-mic''),
           (out (AUDIO_DEVICE_OUT_WIRED_HEADSET P), ''headset-mic''),
           (out (AUDIO_DEVICE_OUT_EARPIECE P) \<or> out (AUDIO_DEVICE_OUT_WIRED_HEADPHONE P), ''earpiece-mic''),
           (out (AUDIO_DEVICE_OUT_SPEAKER P), ''speaker-mic'')])"

section \<open>The selection\<close>

lemma snd_device_names:
  "get_snd_device_name SND_DEVICE_NONE = Some ''none''"
  "get_snd_device_name SND_DEVICE_OUT_EARPIECE = Some ''route-earpiece''"
  "get_snd_device_name SND_DEVICE_OUT_SPEAKER = Some ''route-speaker''"
  "get_snd_device_name SND_DEVICE_OUT_HEADPHONES = Some ''route-headphones''"
  "get_snd_device_name SND_DEVICE_OUT_SPEAKER_AND_HEADPHONES = Some ''route-speaker-and-headphones''"
  "get_snd_device_name SND_DEVICE_OUT_BT_SCO = Some ''route-bt-sco-headset''"
  "get_snd_device_name SND_DEVICE_OUT_INCALL_EARPIECE = Some ''route-incall-earpiece''"
  "get_snd_device_name SND_DEVICE_OUT_INCALL_EARPIECE_WB = Some ''route-incall-earpiece-wb''"
  "get_snd_device_name SND_DEVICE_OUT_INCALL_SPEAKER = Some ''route-incall-speaker''"
  "get_snd_device_name SND_DEVICE_OUT_INCALL_SPEAKER_WB = Some ''route-incall-speaker-wb''"
  "get_snd_device_name SND_DEVICE_OUT_INCALL_HEADPHONES = Some ''route-incall-headphones''"
  "get_snd_device_name SND_DEVICE_OUT_INCALL_HEADPHONES_WB = Some ''route-incall-headphones-wb''"
  "get_snd_device_name SND_DEVICE_OUT_INCALL_BT_SCO = Some ''route-incall-bt-sco-headset''"
  "get_snd_device_name SND_DEVICE_OUT_INCALL_BT_SCO_WB = Some ''route-incall-bt-sco-headset-wb''"
  "get_snd_device_name SND_DEVICE_OUT_COMM_EARPIECE = Some ''route-comm-earpiece''"
  "get_snd_device_name SND_DEVICE_OUT_COMM_SPEAKER = Some ''route-comm-speaker''"
  "get_snd_device_name SND_DEVICE_OUT_COMM_HEADPHONES = Some ''route-comm-headphones''"
  "get_snd_device_name SND_DEVICE_OUT_COMM_BT_SCO = Some ''route-comm-bt-sco-headset''"
  "get_snd_device_name SND_DEVICE_IN_INCALL_EARPIECE_MIC = Some ''route-incall-earpiece-mic''"
  "get_snd_device_name SND_DEVICE_IN_INCALL_EARPIECE_MIC_WB = Some ''route-incall-earpiece-mic-wb''"
  "get_snd_device_name SND_DEVICE_IN_INCALL_SPEAKER_MIC = Some ''route-incall-speaker-mic''"
  "get_snd_device_name SND_DEVICE_IN_INCALL_SPEAKER_MIC_WB = Some ''route-incall-speaker-mic-wb''"
  "get_snd_device_name SND_DEVICE_IN_INCALL_HEADSET_MIC = Some ''route-incall-headset-mic''"
  "get_snd_device_name SND_DEVICE_IN_INCALL_HEADSET_MIC_WB = Some ''route-incall-headset-mic-wb''"
  "get_snd_device_name SND_DEVICE_IN_INCALL_BT_SCO_MIC = Some ''route-incall-bt-sco-mic''"
  "get_snd_device_name SND_DEVICE_IN_INCALL_BT_SCO_MIC_WB = Some ''route-incall-bt-sco-mic-wb''"
  by code_simp+

text \<open>The three stages of \<open>get_output_snd_device\<close>: in a call, in communication, otherwise.\<close>

lemma output_selection:
  "get_snd_device_name (get_output_snd_device P s devices) =
     Some (case output_path P s devices of None \<Rightarrow> ''none'' | Some path \<Rightarrow> path)"
proof -
  define hp where "hp = has_bits devices (AUDIO_DEVICE_OUT_WIRED_HEADPHONE P)"
  define hs where "hs = has_bits devices (AUDIO_DEVICE_OUT_WIRED_HEADSET P)"
  define sp where "sp = has_bits devices (AUDIO_DEVICE_OUT_SPEAKER P)"
  define ear where "ear = has_bits devices (AUDIO_DEVICE_OUT_EARPIECE P)"
  define sco where "sco = has_bits devices (AUDIO_DEVICE_OUT_ALL_SCO P)"
  define two where "two = (devices = (AUDIO_DEVICE_OUT_WIRED_HEADPHONE P OR AUDIO_DEVICE_OUT_SPEAKER P))"
  define two' where "two' = (devices = (AUDIO_DEVICE_OUT_WIRED_HEADSET P OR AUDIO_DEVICE_OUT_SPEAKER P))"
  have folds: "(devices AND AUDIO_DEVICE_OUT_WIRED_HEADPHONE P = 0) = (\<not> hp)"
    "(devices AND AUDIO_DEVICE_OUT_WIRED_HEADSET P = 0) = (\<not> hs)"
    "(devices AND AUDIO_DEVICE_OUT_SPEAKER P = 0) = (\<not> sp)" "(devices AND AUDIO_DEVICE_OUT_EARPIECE P = 0) = (\<not> ear)"
    "(devices AND AUDIO_DEVICE_OUT_ALL_SCO P = 0) = (\<not> sco)"
    "(devices = (AUDIO_DEVICE_OUT_WIRED_HEADPHONE P OR AUDIO_DEVICE_OUT_SPEAKER P)) = two"
    "(devices = (AUDIO_DEVICE_OUT_WIRED_HEADSET P OR AUDIO_DEVICE_OUT_SPEAKER P)) = two'"
    by (simp_all add: hp_def hs_def sp_def ear_def sco_def two_def two'_def)
  consider "devices = AUDIO_DEVICE_NONE P \<or> has_bits devices (AUDIO_DEVICE_BIT_IN P)"
    | "\<not> (devices = AUDIO_DEVICE_NONE P \<or> has_bits devices (AUDIO_DEVICE_BIT_IN P))" "\<not> (hp \<or> hs \<or> sp \<or> ear \<or> sco)"
    | "\<not> (devices = AUDIO_DEVICE_NONE P \<or> has_bits devices (AUDIO_DEVICE_BIT_IN P))" "hp \<or> hs \<or> sp \<or> ear \<or> sco"
      "mode s = AUDIO_MODE_IN_CALL P"
    | "\<not> (devices = AUDIO_DEVICE_NONE P \<or> has_bits devices (AUDIO_DEVICE_BIT_IN P))" "hp \<or> hs \<or> sp \<or> ear \<or> sco"
      "mode s \<noteq> AUDIO_MODE_IN_CALL P" "mode s = AUDIO_MODE_IN_COMMUNICATION P"
    | "\<not> (devices = AUDIO_DEVICE_NONE P \<or> has_bits devices (AUDIO_DEVICE_BIT_IN P))" "hp \<or> hs \<or> sp \<or> ear \<or> sco"
      "mode s \<noteq> AUDIO_MODE_IN_CALL P" "mode s \<noteq> AUDIO_MODE_IN_COMMUNICATION P"
    by blast
  then show ?thesis
  proof cases
    case 1
    then show ?thesis by (simp add: get_output_snd_device_def output_path_def snd_device_names)
  next
    case 2
    then show ?thesis
      by (simp add: get_output_snd_device_def output_path_def folds snd_device_names)
  next
    case 3
    then show ?thesis
      by (cases sco; cases hp; cases hs; cases sp; cases "bluetooth_wb s"; cases "wb_amr_type s \<ge> 1")
        (simp_all add: get_output_snd_device_def output_path_def call_band_def folds snd_device_names)
  next
    case 4
    then show ?thesis
      by (cases hp; cases hs; cases sco; cases sp)
        (simp_all add: get_output_snd_device_def output_path_def folds snd_device_names)
  next
    case 5
    then show ?thesis
      by (cases hp; cases hs; cases sp; cases sco)
        (simp_all add: get_output_snd_device_def output_path_def folds snd_device_names)
  qed
qed

lemma call_input_selection:
  assumes "mode s = AUDIO_MODE_IN_CALL P" and "devices \<noteq> AUDIO_DEVICE_NONE P"
    and "active_input_of P s \<noteq> None" and "call_mic P devices = Some mic"
  shows "\<exists>d. get_input_snd_device P s devices = Some d \<and>
    get_snd_device_name d = Some (''route-incall-'' @ mic @ call_band P s devices)"
proof -
  define hs where "hs = has_bits devices (AUDIO_DEVICE_OUT_WIRED_HEADSET P)"
  define hp where "hp = has_bits devices (AUDIO_DEVICE_OUT_WIRED_HEADPHONE P)"
  define ear where "ear = has_bits devices (AUDIO_DEVICE_OUT_EARPIECE P)"
  define sp where "sp = has_bits devices (AUDIO_DEVICE_OUT_SPEAKER P)"
  define sco where "sco = has_bits devices (AUDIO_DEVICE_OUT_ALL_SCO P)"
  have folds: "(devices AND AUDIO_DEVICE_OUT_WIRED_HEADPHONE P = 0) = (\<not> hp)"
    "(devices AND AUDIO_DEVICE_OUT_WIRED_HEADSET P = 0) = (\<not> hs)"
    "(devices AND AUDIO_DEVICE_OUT_SPEAKER P = 0) = (\<not> sp)" "(devices AND AUDIO_DEVICE_OUT_EARPIECE P = 0) = (\<not> ear)"
    "(devices AND AUDIO_DEVICE_OUT_ALL_SCO P = 0) = (\<not> sco)"
    by (simp_all add: hp_def hs_def sp_def ear_def sco_def)
  obtain v where v: "active_input_of P s = Some v" using assms(3) by blast
  show ?thesis
    using assms(1,2,4) v
    by (cases sco; cases hs; cases ear; cases hp; cases sp; cases "bluetooth_wb s"; cases "wb_amr_type s \<ge> 1")
      (auto simp: get_input_snd_device_def input_snd_device_by_source_def call_mic_def call_band_def folds
        snd_device_names Let_def)
qed

section \<open>Property\<close>

text \<open>
  C19. The device selected is the one that the reference puts together, for every mode, band and mask:
  the mixer path of the output has the endpoint that comes first in the order of the mode and the
  suffix of the band, and a mask that names none, or several outside a call, selects none.  In a call
  the microphone is chosen by an order of its own, from the same mask of outputs, and its path has the
  same suffix, so the two directions of a call are always in the same band.
\<close>

theorem selected_paths:
  "get_snd_device_name (get_output_snd_device P s devices) =
     Some (case output_path P s devices of None \<Rightarrow> ''none'' | Some path \<Rightarrow> path) \<and>
   (\<forall>mic. mode s = AUDIO_MODE_IN_CALL P \<and> devices \<noteq> AUDIO_DEVICE_NONE P \<and> active_input_of P s \<noteq> None \<and>
      call_mic P devices = Some mic \<longrightarrow>
      (\<exists>d. get_input_snd_device P s devices = Some d \<and>
        get_snd_device_name d = Some (''route-incall-'' @ mic @ call_band P s devices)))"
  using output_selection call_input_selection by blast

text \<open>A wide-band call on a headset with a microphone, the speaker in the mask as well.\<close>

theorem selected_paths_witness:
  "get_snd_device_name (get_output_snd_device demo (demo_hal\<lparr>mode := 2, wb_amr_type := 1\<rparr>) 0x6) =
     Some ''route-incall-headphones-wb'' \<and>
   (\<exists>d. get_input_snd_device demo (demo_hal\<lparr>mode := 2, wb_amr_type := 1\<rparr>) 0x6 = Some d \<and>
     get_snd_device_name d = Some ''route-incall-headset-mic-wb'')"
proof -
  let ?s = "demo_hal\<lparr>mode := 2, wb_amr_type := 1\<rparr>"
  have "output_path demo ?s 0x6 = Some ''route-incall-headphones-wb''" "call_mic demo 0x6 = Some ''headset-mic''"
    "call_band demo ?s 0x6 = ''-wb''" "active_input_of demo ?s \<noteq> None"
    by code_simp+
  moreover have "mode ?s = AUDIO_MODE_IN_CALL demo" "(0x6 :: u32) \<noteq> AUDIO_DEVICE_NONE demo" by (simp_all add: demo_def)
  ultimately show ?thesis using selected_paths [of demo ?s "0x6"] by simp
qed

end
