(* ===== verification/Trace.thy ===== *)
theory Trace
  imports AudioTypes "HOL-Library.Multiset"
begin

text \<open>
  What the history of external calls says about the outside world: which mutexes the calling
  thread holds and whether it took them in the documented order, which mixer paths are
  applied, and which PCM handles are open.  Histories are newest first.
\<close>

section \<open>Mutexes\<close>

text \<open>
  The note at the end of \<open>audio/audio_hw.h\<close>: \<open>lock_inputs\<close>, \<open>stream_in\<close>, \<open>stream_out\<close>, then the
  device; \<open>pre_lock\<close> is taken before the \<open>lock\<close> of its stream.
\<close>

fun mutex_rank :: "mutex \<Rightarrow> nat" where
  "mutex_rank LockInputs = 0"
| "mutex_rank (InPreLock a) = 1"
| "mutex_rank (InLock a) = 2"
| "mutex_rank (OutPreLock a) = 3"
| "mutex_rank (OutLock a) = 4"
| "mutex_rank AdevLock = 5"

text \<open>A mutex is above those that are taken before it; those of one kind are not comparable.\<close>

instantiation mutex :: order
begin

definition less_mutex :: "mutex \<Rightarrow> mutex \<Rightarrow> bool" where
  "less_mutex l m \<longleftrightarrow> mutex_rank l < mutex_rank m"

definition less_eq_mutex :: "mutex \<Rightarrow> mutex \<Rightarrow> bool" where
  "less_eq_mutex l m \<longleftrightarrow> l = m \<or> mutex_rank l < mutex_rank m"

instance
  by standard (auto simp: less_mutex_def less_eq_mutex_def)

end

fun held :: "call list \<Rightarrow> mutex list" where
  "held [] = []"
| "held (Lock m # t) = m # held t"
| "held (Unlock m # t) = remove1 m (held t)"
| "held (_ # t) = held t"

text \<open>Every mutex is taken above all that are held, and only a held mutex is released.\<close>

fun lock_order_ok :: "call list \<Rightarrow> bool" where
  "lock_order_ok [] = True"
| "lock_order_ok (Lock m # t) =
     (lock_order_ok t \<and> list_all (\<lambda>l. mutex_rank l < mutex_rank m) (held t))"
| "lock_order_ok (Unlock m # t) = (lock_order_ok t \<and> List.member (held t) m)"
| "lock_order_ok (_ # t) = lock_order_ok t"

fun is_lock_call :: "call \<Rightarrow> bool" where
  "is_lock_call (Lock m) = True"
| "is_lock_call (Unlock m) = True"
| "is_lock_call _ = False"

lemma held_other [simp]: "\<not> is_lock_call c \<Longrightarrow> held (c # t) = held t"
  by (cases c) simp_all

lemma lock_order_other [simp]: "\<not> is_lock_call c \<Longrightarrow> lock_order_ok (c # t) = lock_order_ok t"
  by (cases c) simp_all

section \<open>Mixer paths\<close>

fun active_routes :: "call list \<Rightarrow> (nat \<times> string) set" where
  "active_routes [] = {}"
| "active_routes (RouteApply r p # t) = insert (r, p) (active_routes t)"
| "active_routes (RouteReset r p # t) = active_routes t - {(r, p)}"
| "active_routes (_ # t) = active_routes t"

fun is_route_call :: "call \<Rightarrow> bool" where
  "is_route_call (RouteApply r p) = True"
| "is_route_call (RouteReset r p) = True"
| "is_route_call _ = False"

lemma active_routes_other [simp]: "\<not> is_route_call c \<Longrightarrow> active_routes (c # t) = active_routes t"
  by (cases c) simp_all

section \<open>PCM handles\<close>

text \<open>
  The handles that are open: those opened ready and not closed since.  A handle that was never ready
  has no PCM device behind it and is not counted here; \<open>opened_handles\<close> and \<open>closed_handles\<close> of
  \<open>CallInv\<close> count all of them.
\<close>

fun pcm_set :: "pcm option \<Rightarrow> pcm multiset" where
  "pcm_set None = {#}"
| "pcm_set (Some h) = (if pcm_is_ready h then {#h#} else {#})"

fun open_pcms :: "call list \<Rightarrow> pcm multiset" where
  "open_pcms [] = {#}"
| "open_pcms (PcmOpen cd dv fl cfg h # t) = pcm_set h + open_pcms t"
| "open_pcms (PcmClose h # t) = open_pcms t - pcm_set h"
| "open_pcms (_ # t) = open_pcms t"

fun is_pcm_call :: "call \<Rightarrow> bool" where
  "is_pcm_call (PcmOpen cd dv fl cfg h) = True"
| "is_pcm_call (PcmClose h) = True"
| "is_pcm_call _ = False"

lemma open_pcms_other [simp]: "\<not> is_pcm_call c \<Longrightarrow> open_pcms (c # t) = open_pcms t"
  by (cases c) simp_all

section \<open>The other calls\<close>

text \<open>Calls that concern none of the three: RIL requests, properties, files, allocation.\<close>

definition is_other_call :: "call \<Rightarrow> bool" where
  "is_other_call c \<longleftrightarrow> \<not> is_lock_call c \<and> \<not> is_route_call c \<and> \<not> is_pcm_call c"

text \<open>\<open>t'\<close> continues \<open>t\<close> with such calls only.\<close>

definition quiet :: "call list \<Rightarrow> call list \<Rightarrow> bool" where
  "quiet t t' \<longleftrightarrow>
     held t' = held t \<and> lock_order_ok t' = lock_order_ok t \<and>
     active_routes t' = active_routes t \<and> open_pcms t' = open_pcms t"

lemma quiet_refl [simp]: "quiet t t"
  by (simp add: quiet_def)

lemma quiet_trans [trans]: "quiet t t' \<Longrightarrow> quiet t' t'' \<Longrightarrow> quiet t t''"
  by (simp add: quiet_def)

lemma quiet_Cons [simp]: "is_other_call c \<Longrightarrow> quiet t (c # t') = quiet t t'"
  by (simp add: quiet_def is_other_call_def)

lemma is_other_call_simps [simp]:
  "is_other_call (Calloc x)" "is_other_call (PcmStart h)" "is_other_call (PcmStop h)"
  "is_other_call (PcmWrite p fs n)" "is_other_call (PcmRead p n)" "is_other_call (PcmTimestamp p)"
  "is_other_call (MixerOpen n)" "is_other_call (RouteInit n x)" "is_other_call (RouteFree n)"
  "is_other_call (Access x)" "is_other_call (Usleep i)" "is_other_call OpenClient_RILD"
  "is_other_call (IsConnected_RILD n)" "is_other_call (RilSend cl q)" "is_other_call (PropertyGet x)"
  "is_other_call (SysfsOpen x)" "is_other_call (SysfsWrite x y)"
  "is_other_call (CreateResampler a b c)" "is_other_call (ReleaseResampler n)"
  "is_other_call (ResetResampler n)" "is_other_call (Resample n m)" "is_other_call ClockGettime"
  by (simp_all add: is_other_call_def)

lemma emit_simps [simp]:
  "trace (emit c s) = c # trace s" "mixer_list (emit c s) = mixer_list s" "mode (emit c s) = mode s"
  "active_input (emit c s) = active_input s" "primary_output (emit c s) = primary_output s"
  "mic_mute (emit c s) = mic_mute s" "in_call (emit c s) = in_call s"
  "in_call_sco (emit c s) = in_call_sco s" "in_comm_sco (emit c s) = in_comm_sco s"
  "volume (emit c s) = volume s" "bluetooth_nrec (emit c s) = bluetooth_nrec s"
  "bluetooth_wb (emit c s) = bluetooth_wb s" "audience_enabled (emit c s) = audience_enabled s"
  "forced_voice_config (emit c s) = forced_voice_config s" "wb_amr_type (emit c s) = wb_amr_type s"
  "ril (emit c s) = ril s" "pcm_voice_rx (emit c s) = pcm_voice_rx s"
  "pcm_voice_tx (emit c s) = pcm_voice_tx s" "pcm_sco_rx (emit c s) = pcm_sco_rx s"
  "pcm_sco_tx (emit c s) = pcm_sco_tx s" "snd_dev_ref_cnt (emit c s) = snd_dev_ref_cnt s"
  "usecase_list (emit c s) = usecase_list s" "pcm_devices (emit c s) = pcm_devices s"
  "wb_amr_callback (emit c s) = wb_amr_callback s"
  "clock_state_callback (emit c s) = clock_state_callback s"
  "outs (emit c s) = outs s" "ins (emit c s) = ins s" "next_addr (emit c s) = next_addr s"
  "audio_device_ref_count (emit c s) = audio_device_ref_count s"
  by (simp_all add: emit_def)

text \<open>
  A computation that only makes such calls: it returns the state it got with a longer
  history.
\<close>

definition only_calls :: "hal \<Rightarrow> hal \<Rightarrow> bool" where
  "only_calls s s' \<longleftrightarrow> quiet (trace s) (trace s') \<and> s' = s\<lparr>trace := trace s'\<rparr>"

lemma only_calls_refl [simp]: "only_calls s s"
  by (simp add: only_calls_def)

lemma only_calls_trans [trans]: "only_calls s s' \<Longrightarrow> only_calls s' s'' \<Longrightarrow> only_calls s s''"
proof -
  assume a: "only_calls s s'" and b: "only_calls s' s''"
  have "s'' = s'\<lparr>trace := trace s''\<rparr>" using b by (simp add: only_calls_def)
  also have "\<dots> = (s\<lparr>trace := trace s'\<rparr>)\<lparr>trace := trace s''\<rparr>"
    using a by (simp add: only_calls_def)
  finally show ?thesis
    using a b quiet_trans by (auto simp: only_calls_def)
qed

lemma only_calls_emit [simp]: "is_other_call c \<Longrightarrow> only_calls s (emit c s)"
  by (simp add: only_calls_def emit_def)

lemma only_calls_emitI: "only_calls s s' \<Longrightarrow> is_other_call c \<Longrightarrow> only_calls s (emit c s')"
  using only_calls_trans only_calls_emit by blast

text \<open>Every field but the history is unchanged.\<close>

lemma only_calls_fields:
  assumes "only_calls s s'"
  shows "mixer_list s' = mixer_list s" "mode s' = mode s"
    "active_input s' = active_input s" "primary_output s' = primary_output s"
    "mic_mute s' = mic_mute s" "in_call s' = in_call s" "in_call_sco s' = in_call_sco s"
    "in_comm_sco s' = in_comm_sco s" "volume s' = volume s"
    "bluetooth_nrec s' = bluetooth_nrec s" "bluetooth_wb s' = bluetooth_wb s"
    "audience_enabled s' = audience_enabled s" "forced_voice_config s' = forced_voice_config s"
    "wb_amr_type s' = wb_amr_type s" "ril s' = ril s"
    "pcm_voice_rx s' = pcm_voice_rx s" "pcm_voice_tx s' = pcm_voice_tx s"
    "pcm_sco_rx s' = pcm_sco_rx s" "pcm_sco_tx s' = pcm_sco_tx s"
    "snd_dev_ref_cnt s' = snd_dev_ref_cnt s" "usecase_list s' = usecase_list s"
    "pcm_devices s' = pcm_devices s" "wb_amr_callback s' = wb_amr_callback s"
    "clock_state_callback s' = clock_state_callback s"
    "outs s' = outs s" "ins s' = ins s" "next_addr s' = next_addr s"
    "quiet (trace s) (trace s')"
proof -
  obtain t where t: "s' = s\<lparr>trace := t\<rparr>" and q: "quiet (trace s) t"
    using assms by (metis only_calls_def)
  show "mixer_list s' = mixer_list s" "mode s' = mode s"
    "active_input s' = active_input s" "primary_output s' = primary_output s"
    "mic_mute s' = mic_mute s" "in_call s' = in_call s" "in_call_sco s' = in_call_sco s"
    "in_comm_sco s' = in_comm_sco s" "volume s' = volume s"
    "bluetooth_nrec s' = bluetooth_nrec s" "bluetooth_wb s' = bluetooth_wb s"
    "audience_enabled s' = audience_enabled s" "forced_voice_config s' = forced_voice_config s"
    "wb_amr_type s' = wb_amr_type s" "ril s' = ril s"
    "pcm_voice_rx s' = pcm_voice_rx s" "pcm_voice_tx s' = pcm_voice_tx s"
    "pcm_sco_rx s' = pcm_sco_rx s" "pcm_sco_tx s' = pcm_sco_tx s"
    "snd_dev_ref_cnt s' = snd_dev_ref_cnt s" "usecase_list s' = usecase_list s"
    "pcm_devices s' = pcm_devices s" "wb_amr_callback s' = wb_amr_callback s"
    "clock_state_callback s' = clock_state_callback s"
    "outs s' = outs s" "ins s' = ins s" "next_addr s' = next_addr s"
    "quiet (trace s) (trace s')"
    using q by (simp_all add: t)
qed

end
