(* ===== verification/CString.thy ===== *)
theory CString
  imports Prelude
begin

text \<open>
  The string functions of the C library that the sources use, on lists of characters without
  the terminating NUL: \<open>strtol\<close> in base 10 and \<open>atoi\<close>, \<open>sprintf\<close> with \<open>%d\<close>, and \<open>strchr\<close> as a
  split at the first occurrence.  \<open>long\<close> has 64 bits and \<open>int\<close> has 32; a value out of the range
  of \<open>long\<close> is clamped by \<open>strtol\<close>, and a cast to \<open>int\<close> keeps the low 32 bits.
\<close>

section \<open>Numbers\<close>

definition is_digit :: "char \<Rightarrow> bool" where
  "is_digit c \<longleftrightarrow> 48 \<le> (of_char c :: nat) \<and> (of_char c :: nat) \<le> 57"

definition digit_value :: "char \<Rightarrow> nat" where
  "digit_value c = of_char c - 48"

definition is_space :: "char \<Rightarrow> bool" where
  "is_space c \<longleftrightarrow> c \<in> {CHR '' '', CHR 0x09, CHR 0x0A, CHR 0x0B, CHR 0x0C, CHR 0x0D}"

fun read_digits :: "nat \<Rightarrow> string \<Rightarrow> nat \<times> string" where
  "read_digits acc [] = (acc, [])"
| "read_digits acc (c # cs) =
     (if is_digit c then read_digits (10 * acc + digit_value c) cs else (acc, c # cs))"

definition read_unsigned :: "string \<Rightarrow> (nat \<times> string) option" where
  "read_unsigned s =
     (case s of c # cs \<Rightarrow> if is_digit c then Some (read_digits 0 s) else None | [] \<Rightarrow> None)"

definition clamp_long :: "int \<Rightarrow> int" where
  "clamp_long n = max (- (2 ^ 63)) (min (2 ^ 63 - 1) n)"

text \<open>
  \<open>strtol(s, &end, 10)\<close>: the value and the rest of the string that \<open>end\<close> points to, which is the
  whole string when there is no number.
\<close>

definition strtol :: "string \<Rightarrow> int \<times> string" where
  "strtol s =
     (let t = dropWhile is_space s in
      case t of
        [] \<Rightarrow> (0, s)
      | c # cs \<Rightarrow>
          if c = CHR ''-'' then
            (case read_unsigned cs of None \<Rightarrow> (0, s) | Some (n, r) \<Rightarrow> (clamp_long (- int n), r))
          else if c = CHR ''+'' then
            (case read_unsigned cs of None \<Rightarrow> (0, s) | Some (n, r) \<Rightarrow> (clamp_long (int n), r))
          else
            (case read_unsigned t of None \<Rightarrow> (0, s) | Some (n, r) \<Rightarrow> (clamp_long (int n), r)))"

text \<open>The cast from \<open>long\<close> to \<open>int\<close>.\<close>

definition to_int32 :: "int \<Rightarrow> int" where
  "to_int32 n = (n + 2 ^ 31) mod 2 ^ 32 - 2 ^ 31"

definition atoi :: "string \<Rightarrow> int" where
  "atoi s = to_int32 (fst (strtol s))"

definition is_int32 :: "int \<Rightarrow> bool" where
  "is_int32 n \<longleftrightarrow> - (2 ^ 31) \<le> n \<and> n < 2 ^ 31"

lemma to_int32_id: "is_int32 n \<Longrightarrow> to_int32 n = n"
  by (simp add: to_int32_def is_int32_def)

lemma clamp_long_id: "is_int32 n \<Longrightarrow> clamp_long n = n"
  by (simp add: clamp_long_def is_int32_def)

section \<open>Printing\<close>

definition digit_char :: "nat \<Rightarrow> char" where
  "digit_char d = char_of (48 + d)"

fun show_nat :: "nat \<Rightarrow> string" where
  "show_nat n = (if n < 10 then [digit_char n] else show_nat (n div 10) @ [digit_char (n mod 10)])"

declare show_nat.simps [simp del]

definition show_int :: "int \<Rightarrow> string" where
  "show_int n = (if n < 0 then CHR ''-'' # show_nat (nat (- n)) else show_nat (nat n))"

lemma of_char_digit_char: "d < 10 \<Longrightarrow> (of_char (digit_char d) :: nat) = 48 + d"
  by (simp add: digit_char_def)

lemma digit_char_digit: "d < 10 \<Longrightarrow> is_digit (digit_char d) \<and> digit_value (digit_char d) = d"
  by (simp add: is_digit_def digit_value_def of_char_digit_char)

lemma show_nat_digits: "c \<in> set (show_nat n) \<Longrightarrow> is_digit c"
proof (induction n rule: show_nat.induct)
  case (1 n)
  then show ?case
    by (cases "n < 10") (auto simp: show_nat.simps [of n] digit_char_digit)
qed

lemma show_nat_nonempty [simp]: "show_nat n \<noteq> []"
  by (subst show_nat.simps) simp

lemma read_digits_stop: "(\<forall>c \<in> set (take 1 r). \<not> is_digit c) \<Longrightarrow> read_digits acc r = (acc, r)"
  by (cases r) auto

lemma read_digits_append:
  "\<forall>c \<in> set ds. is_digit c \<Longrightarrow> read_digits acc (ds @ r) = read_digits (fst (read_digits acc ds)) r"
  by (induction ds arbitrary: acc) auto

lemma read_digits_show:
  "fst (read_digits 0 (show_nat n)) = n"
proof (induction n rule: show_nat.induct)
  case (1 n)
  show ?case
  proof (cases "n < 10")
    case True
    then show ?thesis by (simp add: show_nat.simps [of n] digit_char_digit)
  next
    case False
    have d: "\<forall>c \<in> set (show_nat (n div 10)). is_digit c"
      using show_nat_digits by blast
    have "fst (read_digits 0 (show_nat (n div 10) @ [digit_char (n mod 10)])) =
          10 * (n div 10) + n mod 10"
      using "1.IH" [OF False] by (simp add: read_digits_append [OF d] digit_char_digit)
    with False show ?thesis by (simp add: show_nat.simps [of n])
  qed
qed

lemma read_unsigned_show:
  assumes "\<forall>c \<in> set (take 1 r). \<not> is_digit c"
  shows "read_unsigned (show_nat n @ r) = Some (n, r)"
proof -
  have d: "\<forall>c \<in> set (show_nat n). is_digit c"
    using show_nat_digits by blast
  have "read_digits 0 (show_nat n @ r) = (n, r)"
    using assms by (simp add: read_digits_append [OF d] read_digits_show read_digits_stop)
  moreover obtain c cs where "show_nat n = c # cs" "is_digit c"
    using d by (cases "show_nat n") auto
  ultimately show ?thesis by (simp add: read_unsigned_def)
qed

lemma digit_not_sign: "is_digit c \<Longrightarrow> c \<noteq> CHR ''-'' \<and> c \<noteq> CHR ''+'' \<and> \<not> is_space c"
  by (auto simp: is_digit_def is_space_def)

text \<open>Reading back a printed number.\<close>

lemma strtol_show_int:
  assumes "is_int32 n" and "\<forall>c \<in> set (take 1 r). \<not> is_digit c"
  shows "strtol (show_int n @ r) = (n, r)"
proof (cases "n < 0")
  case True
  then show ?thesis
    using assms(1)
    by (simp add: strtol_def show_int_def is_space_def read_unsigned_show [OF assms(2)] clamp_long_id)
next
  case False
  obtain c cs where c: "show_nat (nat n) = c # cs" "is_digit c"
    using show_nat_digits [of _ "nat n"] by (cases "show_nat (nat n)") auto
  have "read_unsigned (c # cs @ r) = Some (nat n, r)"
    using read_unsigned_show [OF assms(2), of "nat n"] c by simp
  then show ?thesis
    using False assms(1) c digit_not_sign [OF c(2)]
    by (simp add: strtol_def show_int_def clamp_long_id)
qed

lemma atoi_show_int: "is_int32 n \<Longrightarrow> atoi (show_int n) = n"
  using strtol_show_int [of n "[]"] by (simp add: atoi_def to_int32_id)

section \<open>Splitting at a character\<close>

text \<open>
  \<open>b = strchr(a, c)\<close>: \<open>None\<close> for the null pointer, otherwise the characters before \<open>b\<close> and those
  after it.
\<close>

fun split_at :: "char \<Rightarrow> string \<Rightarrow> (string \<times> string) option" where
  "split_at c [] = None"
| "split_at c (x # xs) =
     (if x = c then Some ([], xs)
      else map_option (\<lambda>(l, r). (x # l, r)) (split_at c xs))"

lemma split_at_None_iff: "split_at c s = None \<longleftrightarrow> c \<notin> set s"
  by (induction s) auto

lemma split_at_append: "c \<notin> set l \<Longrightarrow> split_at c (l @ c # r) = Some (l, r)"
  by (induction l) auto

lemma split_at_SomeD: "split_at c s = Some (l, r) \<Longrightarrow> s = l @ c # r \<and> c \<notin> set l"
  by (induction s arbitrary: l r) (auto split: if_splits)

lemma split_at_shorter: "split_at c s = Some (l, r) \<Longrightarrow> length r < length s"
  using split_at_SomeD by fastforce

end
