(* ===== verification/Ril.thy ===== *)
theory Ril
  imports Trace CString
begin

text \<open>
  \<open>audio/ril_interface.c\<close>: the connection of the HAL to the radio.  Every request first makes
  sure of the connection; the five requests share the contract stated in the locale
  \<open>ril_command\<close>.  A function returns its value and the new state; none of them can fault.
\<close>

section \<open>The connection\<close>

definition RIL_UNSOL_WB_AMR_STATE :: nat where [simp]: "RIL_UNSOL_WB_AMR_STATE = 11017"
definition RIL_UNSOL_SNDMGR_CLOCK_CTRL :: nat where [simp]: "RIL_UNSOL_SNDMGR_CLOCK_CTRL = 11022"

definition VOLUME_STEPS_DEFAULT :: string where
  "VOLUME_STEPS_DEFAULT = ''5''"

definition VOLUME_STEPS_PROPERTY :: string where
  "VOLUME_STEPS_PROPERTY = ''ro.config.vc_call_vol_steps''"

text \<open>A call into the RIL client library, and its result.\<close>

definition ril_send :: "platform \<Rightarrow> ril_request \<Rightarrow> hal \<Rightarrow> int \<times> hal" where
  "ril_send P rq s =
     (ril_rc P (trace s) (client (ril s)) rq, emit (RilSend (client (ril s)) rq) s)"

definition set_client :: "nat option \<Rightarrow> hal \<Rightarrow> hal" where
  "set_client c s = s\<lparr>ril := (ril s)\<lparr>client := c\<rparr>\<rparr>"

definition ril_connect_if_required :: "platform \<Rightarrow> hal \<Rightarrow> int \<times> hal" where
  "ril_connect_if_required P s =
     (case client (ril s) of
        None \<Rightarrow> (-1, s)
      | Some c \<Rightarrow>
          let ok = ril_is_connected P (trace s) c; s = emit (IsConnected_RILD c) s in
          if ok then (0, s)
          else
            let (rc, s) = ril_send P Connect_RILD s in
            if rc \<noteq> RIL_CLIENT_ERR_SUCCESS P then (-1, s) else (0, s))"

definition ril_open :: "platform \<Rightarrow> hal \<Rightarrow> int \<times> hal" where
  "ril_open P s =
     (let c = ril_open_client P (trace s); s = set_client c (emit OpenClient_RILD s) in
      if c = None then (-1, s)
      else
        let property = (case property_get P (trace s) VOLUME_STEPS_PROPERTY of
                          None \<Rightarrow> VOLUME_STEPS_DEFAULT | Some v \<Rightarrow> v);
            s = emit (PropertyGet VOLUME_STEPS_PROPERTY) s;
            steps = atoi property;
            steps = (if steps = 0 then atoi VOLUME_STEPS_DEFAULT else steps)
        in (0, s\<lparr>ril := (ril s)\<lparr>volume_steps_max := steps\<rparr>\<rparr>))"

definition ril_close :: "platform \<Rightarrow> hal \<Rightarrow> int \<times> hal" where
  "ril_close P s =
     (case client (ril s) of
        None \<Rightarrow> (-1, s)
      | Some c \<Rightarrow>
          let (rc, s) = ril_send P Disconnect_RILD s in
          if rc \<noteq> RIL_CLIENT_ERR_SUCCESS P then (-1, s)
          else
            let (rc, s) = ril_send P CloseClient_RILD s in
            if rc \<noteq> RIL_CLIENT_ERR_SUCCESS P then (-1, s)
            else (0, set_client None s))"

section \<open>Unsolicited messages\<close>

text \<open>
  The function pointer and the data pointer are stored in two static variables; \<open>fn = None\<close> is
  the null pointer, and the data pointer is the device itself, which is never null.
\<close>

definition ril_set_wb_amr_callback :: "platform \<Rightarrow> ril_callback option \<Rightarrow> hal \<Rightarrow> int \<times> hal" where
  "ril_set_wb_amr_callback P fn s =
     (if fn = None then (-1, s)
      else
        let s = s\<lparr>wb_amr_callback := fn\<rparr>;
            (rc, s) = ril_send P (RegisterUnsolicitedHandler RIL_UNSOL_WB_AMR_STATE) s
        in if rc \<noteq> RIL_CLIENT_ERR_SUCCESS P then (-1, snd (ril_close P s)) else (0, s))"

definition ril_set_pcm_clock_callback :: "platform \<Rightarrow> ril_callback option \<Rightarrow> hal \<Rightarrow> int \<times> hal" where
  "ril_set_pcm_clock_callback P fn s =
     (if fn = None then (-1, s)
      else
        let s = s\<lparr>clock_state_callback := fn\<rparr>;
            (rc, s) = ril_send P (RegisterUnsolicitedHandler RIL_UNSOL_SNDMGR_CLOCK_CTRL) s
        in if rc \<noteq> RIL_CLIENT_ERR_SUCCESS P then (-1, snd (ril_close P s)) else (0, s))"

section \<open>Requests\<close>

definition ril_set_call_volume :: "platform \<Rightarrow> sound_type \<Rightarrow> f32 \<Rightarrow> hal \<Rightarrow> int \<times> hal" where
  "ril_set_call_volume P sound_ty vol s =
     (let (rc, s) = ril_connect_if_required P s in
      if rc \<noteq> 0 then (0, s)
      else
        ril_send P
          (SetCallVolume sound_ty (f32_trunc (f32_mult vol (f32_of_int (volume_steps_max (ril s)))))) s)"

definition ril_set_call_audio_path :: "platform \<Rightarrow> audio_path \<Rightarrow> hal \<Rightarrow> int \<times> hal" where
  "ril_set_call_audio_path P path s =
     (let (rc, s) = ril_connect_if_required P s in
      if rc \<noteq> 0 then (0, s) else ril_send P (SetCallAudioPath path) s)"

definition ril_set_call_clock_sync :: "platform \<Rightarrow> clock_condition \<Rightarrow> hal \<Rightarrow> int \<times> hal" where
  "ril_set_call_clock_sync P condition s =
     (let (rc, s) = ril_connect_if_required P s in
      if rc \<noteq> 0 then (0, s) else ril_send P (SetCallClockSync condition) s)"

definition ril_set_mute :: "platform \<Rightarrow> mute_condition \<Rightarrow> hal \<Rightarrow> int \<times> hal" where
  "ril_set_mute P condition s =
     (let (rc, s) = ril_connect_if_required P s in
      if rc \<noteq> 0 then (0, s) else ril_send P (SetMute condition) s)"

definition ril_set_two_mic_control ::
  "platform \<Rightarrow> two_mic_device \<Rightarrow> two_mic_report \<Rightarrow> hal \<Rightarrow> int \<times> hal" where
  "ril_set_two_mic_control P device report s =
     (let (rc, s) = ril_connect_if_required P s in
      if rc \<noteq> 0 then (0, s) else ril_send P (SetTwoMicControl device report) s)"

section \<open>What a request promises\<close>

lemma ril_send_only_calls [simp]: "only_calls s (snd (ril_send P rq s))"
  by (simp add: ril_send_def)

lemma ril_connect_only_calls [simp]: "only_calls s (snd (ril_connect_if_required P s))"
  by (auto simp: ril_connect_if_required_def ril_send_def Let_def intro: only_calls_emitI
      split: option.split)

text \<open>
  \<open>cmd\<close> is a request function and \<open>rq\<close> the message it sends, which may depend on the state
  after the connection is made.
\<close>

locale ril_command =
  fixes P :: platform
    and cmd :: "hal \<Rightarrow> int \<times> hal"
    and rq :: "hal \<Rightarrow> ril_request"
  assumes not_connected:
      "fst (ril_connect_if_required P s) \<noteq> 0 \<Longrightarrow> cmd s = (0, snd (ril_connect_if_required P s))"
    and connected:
      "fst (ril_connect_if_required P s) = 0 \<Longrightarrow>
       cmd s = ril_send P (rq (snd (ril_connect_if_required P s))) (snd (ril_connect_if_required P s))"
begin

lemma cmd_only_calls: "only_calls s (snd (cmd s))"
  using only_calls_trans [OF ril_connect_only_calls ril_send_only_calls]
  by (cases "fst (ril_connect_if_required P s) = 0") (simp_all add: connected not_connected)

lemma cmd_no_client: "client (ril s) = None \<Longrightarrow> cmd s = (0, s)"
  using not_connected [of s] by (simp add: ril_connect_if_required_def)

lemma cmd_already_connected:
  assumes "client (ril s) = Some c" and "ril_is_connected P (trace s) c"
  shows "trace (snd (cmd s)) =
    RilSend (Some c) (rq (emit (IsConnected_RILD c) s)) # IsConnected_RILD c # trace s"
  using assms connected [of s] by (simp add: ril_connect_if_required_def ril_send_def)

lemma cmd_connection_fails:
  assumes "client (ril s) = Some c" and "\<not> ril_is_connected P (trace s) c"
    and "ril_rc P (IsConnected_RILD c # trace s) (Some c) Connect_RILD \<noteq> RIL_CLIENT_ERR_SUCCESS P"
  shows "fst (cmd s) = 0"
    and "trace (snd (cmd s)) = RilSend (Some c) Connect_RILD # IsConnected_RILD c # trace s"
  using assms not_connected [of s] by (simp_all add: ril_connect_if_required_def ril_send_def)

end

interpretation volume_command: ril_command P "ril_set_call_volume P ty v"
    "\<lambda>s. SetCallVolume ty (f32_trunc (f32_mult v (f32_of_int (volume_steps_max (ril s)))))" for P ty v
  by unfold_locales (simp_all add: ril_set_call_volume_def split_beta)

interpretation path_command: ril_command P "ril_set_call_audio_path P path"
    "\<lambda>_. SetCallAudioPath path" for P path
  by unfold_locales (simp_all add: ril_set_call_audio_path_def split_beta)

interpretation clock_command: ril_command P "ril_set_call_clock_sync P c"
    "\<lambda>_. SetCallClockSync c" for P c
  by unfold_locales (simp_all add: ril_set_call_clock_sync_def split_beta)

interpretation mute_command: ril_command P "ril_set_mute P c" "\<lambda>_. SetMute c" for P c
  by unfold_locales (simp_all add: ril_set_mute_def split_beta)

interpretation two_mic_command: ril_command P "ril_set_two_mic_control P d r"
    "\<lambda>_. SetTwoMicControl d r" for P d r
  by unfold_locales (simp_all add: ril_set_two_mic_control_def split_beta)

lemmas ril_only_calls =
  volume_command.cmd_only_calls path_command.cmd_only_calls clock_command.cmd_only_calls
  mute_command.cmd_only_calls two_mic_command.cmd_only_calls


section \<open>The volume step\<close>

lemma power_split: "(2::int) ^ (a + b) = 2 ^ a * 2 ^ b"
  by (rule power_add)

text \<open>A volume of at most 1.0 with an exponent that is not negative is 0.0 or 1.0.\<close>

lemma unit_mantissa:
  fixes m :: int
  assumes "0 \<le> m" and "m * 2 ^ e \<le> 1"
  shows "m = 0 \<or> m = 1 \<and> e = 0"
proof -
  have "m \<le> m * 2 ^ e" using assms(1) by (simp add: mult_le_cancel_left1)
  then have "m \<le> 1" using assms(2) by linarith
  moreover have "e = 0" if "m = 1"
  proof (rule ccontr)
    assume "e \<noteq> 0"
    then have "(2::int) ^ 1 \<le> 2 ^ e" by (intro power_increasing) auto
    then show False using that assms(2) by simp
  qed
  ultimately show ?thesis using assms(1) by fastforce
qed

text \<open>Rounding a product that is at most \<open>n * 2 ^ j\<close> shifts it by at most \<open>j\<close> and keeps the bound.\<close>

lemma round_bounded:
  assumes x: "0 \<le> x" "x \<le> n * 2 ^ j" and n: "n < 2 ^ 24"
  obtains k where "f32_exponent (f32_round x e) = e + int k" "k \<le> j" "f32_mantissa (f32_round x e) * 2 ^ k \<le> n * 2 ^ j"
proof -
  obtain k where k: "f32_exponent (f32_round x e) = e + int k"
    "k = 0 \<and> f32_mantissa (f32_round x e) = x \<or> sig_bits (nat x) = k + 24 \<and>
     (\<exists>b. f32_mantissa (f32_round x e) = x div 2 ^ k + (if b \<and> x mod 2 ^ k \<noteq> 0 then 1 else 0))"
    using f32_round_exponent [OF x(1), of e] by metis
  from k(2) have "k \<le> j \<and> f32_mantissa (f32_round x e) * 2 ^ k \<le> n * 2 ^ j"
  proof
    assume "k = 0 \<and> f32_mantissa (f32_round x e) = x"
    then show ?thesis using x(2) by simp
  next
    assume r: "sig_bits (nat x) = k + 24 \<and>
     (\<exists>b. f32_mantissa (f32_round x e) = x div 2 ^ k + (if b \<and> x mod 2 ^ k \<noteq> 0 then 1 else 0))"
    have "n * 2 ^ j < 2 ^ 24 * 2 ^ j"
      by (rule mult_strict_right_mono) (use n in simp_all)
    with x(2) have "x < 2 ^ 24 * 2 ^ j" by linarith
    then have "nat x < 2 ^ (24 + j)" using x(1) by (simp add: nat_less_iff power_add)
    then have "sig_bits (nat x) \<le> 24 + j" by (simp add: sig_bits_le_iff)
    then have le: "k \<le> j" using r by simp
    then have "(2::int) ^ k dvd n * 2 ^ j" by (simp add: le_imp_power_dvd)
    then show ?thesis using r le round_up_below [OF x] by auto
  qed
  then show ?thesis using that k(1) by blast
qed

text \<open>The step that is sent for a volume between 0.0 and 1.0 lies between 0 and the maximum.\<close>

lemma volume_step_bounds:
  assumes v: "f32_unit v" and n: "0 \<le> n" "n < 2 ^ 24"
  shows "0 \<le> f32_trunc (f32_mult v (f32_of_int n))"
    and "f32_trunc (f32_mult v (f32_of_int n)) \<le> n"
proof -
  define m where "m = f32_mantissa v"
  define e where "e = f32_exponent v"
  define y where "y = f32_round (m * n) e"
  have y: "f32_mult v (f32_of_int n) = y"
    using n by (simp add: y_def m_def e_def f32_mult_def f32_of_int_def f32_round_small)
  have m0: "0 \<le> m * n" using v n by (simp add: m_def f32_unit_def)
  have mant: "0 \<le> f32_mantissa y" by (simp add: y_def f32_round_nonneg m0)
  show "0 \<le> f32_trunc (f32_mult v (f32_of_int n))"
    using mant by (auto simp: y f32_trunc_def sgn_if pos_imp_zdiv_nonneg_iff)
  show "f32_trunc (f32_mult v (f32_of_int n)) \<le> n"
  proof (cases "0 \<le> e")
    case True
    have "m * 2 ^ nat e \<le> 1" "0 \<le> m" using v True by (simp_all add: f32_unit_def m_def e_def)
    then have "m = 0 \<or> m = 1 \<and> e = 0" using unit_mantissa [of m "nat e"] True by auto
    then show ?thesis
      using n by (auto simp: y y_def f32_round_small f32_trunc_def)
  next
    case False
    define j where "j = nat (- e)"
    have e: "e = - int j" and jpos: "0 < j" using False by (simp_all add: j_def)
    have "m \<le> 2 ^ j" using v False by (simp add: f32_unit_def m_def e_def j_def)
    then have mN: "m * n \<le> n * 2 ^ j" using n(1) by (metis mult.commute mult_left_mono)
    obtain k where k: "f32_exponent y = e + int k" and kj: "k \<le> j" "f32_mantissa y * 2 ^ k \<le> n * 2 ^ j"
      using round_bounded [OF m0 mN n(2), of e] unfolding y_def by metis
    show ?thesis
    proof (cases "k = j")
      case True
      have "f32_mantissa y * 2 ^ j \<le> n * 2 ^ j" using kj True by simp
      then show ?thesis using True k e by (simp add: y f32_trunc_def)
    next
      case lt: False
      then have d: "j = k + (j - k)" and dp: "0 < j - k" using kj by auto
      have "f32_mantissa y * 2 ^ k \<le> n * (2 ^ k * 2 ^ (j - k))"
        using kj d power_split by metis
      then have "f32_mantissa y \<le> n * 2 ^ (j - k)" by (simp add: mult.assoc [symmetric] mult.commute mult.left_commute)
      then have "f32_mantissa y div 2 ^ (j - k) \<le> n * 2 ^ (j - k) div 2 ^ (j - k)"
        by (intro zdiv_mono1) auto
      moreover have "f32_exponent y = - int (j - k)" using k e d by simp
      moreover have "nat (int j - int k) = j - k" by linarith
      ultimately show ?thesis
        using mant dp n(1) by (auto simp: y f32_trunc_def sgn_if)
    qed
  qed
qed

end
