(* ===== verification/Audience.thy ===== *)
theory Audience
  imports Ril
begin

text \<open>
  \<open>audio/audience.c\<close>: the earSmart voice processor, driven through three sysfs files.  The
  \<open>open\<close> and \<open>write\<close> of the platform return 0 or the value of \<open>errno\<close>.
\<close>

section \<open>Routes and files\<close>

definition Call_HS_NB :: int where [simp]: "Call_HS_NB = 0"
definition Call_FT_NB :: int where [simp]: "Call_FT_NB = 1"
definition Call_CT_NB :: int where [simp]: "Call_CT_NB = 2"
definition Call_BT_NB :: int where [simp]: "Call_BT_NB = 10"
definition Call_BT_WB :: int where [simp]: "Call_BT_WB = 20"
definition Call_HS_WB :: int where [simp]: "Call_HS_WB = 21"
definition Call_FT_WB :: int where [simp]: "Call_FT_WB = 22"
definition Call_CT_WB :: int where [simp]: "Call_CT_WB = 23"
definition AUDIENCE_SLEEP :: int where [simp]: "AUDIENCE_SLEEP = 40"

definition SYSFS_PATH_PRESET :: string where
  "SYSFS_PATH_PRESET = ''/sys/class/earsmart/control/route_value''"

definition SYSFS_PATH_VEQ :: string where
  "SYSFS_PATH_VEQ = ''/sys/class/earsmart/control/veq_control_set''"

definition SYSFS_PATH_EXTRAVOLUME :: string where
  "SYSFS_PATH_EXTRAVOLUME = ''/sys/class/earsmart/control/extra_volume''"

definition write_int :: "platform \<Rightarrow> string \<Rightarrow> int \<Rightarrow> hal \<Rightarrow> int \<times> hal" where
  "write_int P path v s =
     (let e = sysfs_open_rc P (trace s) path; s = emit (SysfsOpen path) s in
      if e \<noteq> 0 then (e, s)
      else
        let buffer = show_int v;
            e = sysfs_write_rc P (trace s) path buffer
        in (e, emit (SysfsWrite path buffer) s))"

definition es_route_value_set :: "platform \<Rightarrow> int \<Rightarrow> hal \<Rightarrow> int \<times> hal" where
  "es_route_value_set P v s = write_int P SYSFS_PATH_PRESET v s"

definition es_veq_control_set :: "platform \<Rightarrow> int \<Rightarrow> hal \<Rightarrow> int \<times> hal" where
  "es_veq_control_set P v s = write_int P SYSFS_PATH_VEQ v s"

definition es_extra_volume_set :: "platform \<Rightarrow> int \<Rightarrow> hal \<Rightarrow> int \<times> hal" where
  "es_extra_volume_set P v s = write_int P SYSFS_PATH_EXTRAVOLUME v s"

section \<open>Sessions\<close>

text \<open>\<open>adev->primary_output->devices\<close>: a fault when the pointer is null or dangling.\<close>

definition primary_devices :: "hal \<Rightarrow> u32 option" where
  "primary_devices s = do { a \<leftarrow> primary_output s; out \<leftarrow> outs s a; Some (so_devices out) }"

definition es_device_to_route :: "platform \<Rightarrow> hal \<Rightarrow> int option" where
  "es_device_to_route P s = do {
     devices \<leftarrow> primary_devices s;
     Some
       (if has_bits devices (AUDIO_DEVICE_OUT_EARPIECE P) then
          (if wb_amr_type s \<ge> 1 then Call_CT_WB else Call_CT_NB)
        else if has_bits devices (AUDIO_DEVICE_OUT_SPEAKER P) then
          (if wb_amr_type s \<ge> 1 then Call_FT_WB else Call_FT_NB)
        else if has_bits devices (AUDIO_DEVICE_OUT_WIRED_HEADSET P) \<or>
                has_bits devices (AUDIO_DEVICE_OUT_WIRED_HEADPHONE P) then
          (if wb_amr_type s \<ge> 1 then Call_HS_WB else Call_HS_NB)
        else if has_bits devices (AUDIO_DEVICE_OUT_ALL_SCO P) \<or>
                has_bits devices (AUDIO_DEVICE_OUT_BLUETOOTH_SCO_HEADSET P) \<or>
                has_bits devices (AUDIO_DEVICE_OUT_BLUETOOTH_SCO_CARKIT P) then
          (if bluetooth_wb s then Call_BT_WB else Call_BT_NB)
        else
          (if wb_amr_type s \<ge> 1 then Call_CT_WB else Call_CT_NB))
   }"

definition es_start_voice_session :: "platform \<Rightarrow> hal \<Rightarrow> (int \<times> hal) option" where
  "es_start_voice_session P s = do {
     es_route \<leftarrow> es_device_to_route P s;
     let extra_volume = 0;
     let veq_control = 4;
     let (ret, s) = es_route_value_set P es_route s;
     if ret \<noteq> 0 then Some (ret, s)
     else do {
       let (ret, s) = es_extra_volume_set P extra_volume s;
       if ret \<noteq> 0 then Some (ret, s)
       else do {
         let (ret, s) = es_veq_control_set P veq_control s;
         Some (ret, s)
       }
     }
   }"

definition es_stop_voice_session :: "platform \<Rightarrow> hal \<Rightarrow> hal" where
  "es_stop_voice_session P s = snd (es_route_value_set P AUDIENCE_SLEEP s)"

section \<open>What a session does\<close>

lemma write_int_only_calls [simp]: "only_calls s (snd (write_int P path v s))"
  by (auto simp: write_int_def Let_def intro: only_calls_emitI)

lemmas es_set_defs = es_route_value_set_def es_veq_control_set_def es_extra_volume_set_def

lemma es_set_only_calls [simp]:
  "only_calls s (snd (es_route_value_set P v s))"
  "only_calls s (snd (es_veq_control_set P v s))"
  "only_calls s (snd (es_extra_volume_set P v s))"
  by (simp_all add: es_set_defs)

lemma es_stop_only_calls [simp]: "only_calls s (es_stop_voice_session P s)"
  by (simp add: es_stop_voice_session_def)

lemma es_device_to_route_returns: "primary_devices s = Some d \<Longrightarrow> \<exists>r. es_device_to_route P s = Some r"
  by (simp add: es_device_to_route_def)

lemma es_start_only_calls:
  assumes "primary_devices s = Some d"
  shows "wp (es_start_voice_session P s) (\<lambda>r. only_calls s (snd r))"
proof -
  obtain r where r: "es_device_to_route P s = Some r"
    using es_device_to_route_returns [OF assms] by blast
  define s1 where "s1 = snd (es_route_value_set P r s)"
  define s2 where "s2 = snd (es_extra_volume_set P 0 s1)"
  have s1: "only_calls s s1" and s2: "only_calls s1 s2"
    by (simp_all add: s1_def s2_def)
  have s3: "only_calls s (snd (es_veq_control_set P 4 s2))"
    using only_calls_trans [OF only_calls_trans [OF s1 s2] es_set_only_calls(2)] .
  show ?thesis
    using s1 only_calls_trans [OF s1 s2] s3
    by (simp add: es_start_voice_session_def r Let_def split_beta s1_def s2_def)
qed

text \<open>
  The files are written in the order of the comment in the source, preset, extra volume,
  equaliser, and a failure stops the sequence and is returned.
\<close>

lemma es_start_writes:
  assumes r: "es_device_to_route P s = Some r"
    and ok: "\<And>t p. sysfs_open_rc P t p = 0" "\<And>t p b. sysfs_write_rc P t p b = 0"
  shows "es_start_voice_session P s =
    Some (0, s\<lparr>trace :=
      [SysfsWrite SYSFS_PATH_VEQ (show_int 4), SysfsOpen SYSFS_PATH_VEQ,
       SysfsWrite SYSFS_PATH_EXTRAVOLUME (show_int 0), SysfsOpen SYSFS_PATH_EXTRAVOLUME,
       SysfsWrite SYSFS_PATH_PRESET (show_int r), SysfsOpen SYSFS_PATH_PRESET] @ trace s\<rparr>)"
  by (simp add: es_start_voice_session_def r ok es_set_defs write_int_def Let_def emit_def)

lemma es_start_failure:
  assumes r: "es_device_to_route P s = Some r" and e: "fst (es_route_value_set P r s) \<noteq> 0"
  shows "es_start_voice_session P s = Some (es_route_value_set P r s)"
  using e by (simp add: es_start_voice_session_def r Let_def split_beta)

end
