(* ===== verification/Routing.thy ===== *)
theory Routing
  imports DeviceSelect Audience
begin

text \<open>
  Routing in \<open>audio/audio_hw.c\<close>: the reference counts of the sound devices
  (\<open>enable_snd_device\<close>, \<open>disable_snd_device\<close>), the radio's side of a call
  (\<open>do_routing_for_call\<close>), the rule that the use cases of one backend share a device
  (\<open>check_and_route_usecases\<close>), and \<open>select_devices\<close> itself.  All of it runs with the device
  mutex held.
\<close>

section \<open>Use cases through pointers\<close>

definition uc_at :: "hal \<Rightarrow> nat \<Rightarrow> audio_usecase option" where
  "uc_at s a = List.find (\<lambda>u. uc_addr u = a) (usecase_list s)"

definition upd_uc :: "nat \<Rightarrow> (audio_usecase \<Rightarrow> audio_usecase) \<Rightarrow> hal \<Rightarrow> hal" where
  "upd_uc a f s = s\<lparr>usecase_list := update_where (\<lambda>u. uc_addr u = a) f (usecase_list s)\<rparr>"

section \<open>Sound devices\<close>

text \<open>
  The loop over \<open>uc_info->mixer_list\<close>: \<open>None\<close> when a card of the list is not a card of the
  device any more.
\<close>

definition for_each_mixer :: "(mixer_card \<Rightarrow> hal \<Rightarrow> hal option) \<Rightarrow> nat list \<Rightarrow> hal \<Rightarrow> hal option" where
  "for_each_mixer f cards s =
     foldM (\<lambda>n s. do { mc \<leftarrow> adev_get_mixer_for_card (mixer_list s) n; f mc s }) cards s"

definition enable_snd_device ::
  "audio_usecase \<Rightarrow> snd_device_t \<Rightarrow> hal \<Rightarrow> (int \<times> hal) option" where
  "enable_snd_device uc_info snd_device s =
     (case get_snd_device_name snd_device of
        None \<Rightarrow> Some (- EINVAL, s)
      | Some snd_device_name \<Rightarrow>
          let i = nat snd_device;
              s = s\<lparr>snd_dev_ref_cnt := (snd_dev_ref_cnt s)[i := snd_dev_ref_cnt s ! i + 1]\<rparr>
          in if snd_dev_ref_cnt s ! i > 1 then Some (0, s)
             else do {
               s \<leftarrow> for_each_mixer
                 (\<lambda>mc s. Some (emit (RouteApply (mc_audio_route mc) snd_device_name) s))
                 (uc_mixer_list uc_info) s;
               Some (0, s)
             })"

definition disable_snd_device ::
  "audio_usecase \<Rightarrow> snd_device_t \<Rightarrow> hal \<Rightarrow> (int \<times> hal) option" where
  "disable_snd_device uc_info snd_device s =
     (let out_uc_info = get_usecase_from_type (usecase_list s) (usecase_type_val PCM_PLAYBACK) in
      case get_snd_device_name snd_device of
        None \<Rightarrow> Some (- EINVAL, s)
      | Some snd_device_name \<Rightarrow>
          let i = nat snd_device in
          if snd_dev_ref_cnt s ! i \<le> 0 then Some (- EINVAL, s)
          else
            let s = s\<lparr>snd_dev_ref_cnt := (snd_dev_ref_cnt s)[i := snd_dev_ref_cnt s ! i - 1]\<rparr> in
            if snd_dev_ref_cnt s ! i = 0 then do {
              s \<leftarrow> for_each_mixer
                (\<lambda>mc s.
                   let s = emit (RouteReset (mc_audio_route mc) snd_device_name) s in
                   if snd_device > SND_DEVICE_IN_BEGIN \<and> out_uc_info \<noteq> None then do {
                     out_uc \<leftarrow> out_uc_info;
                     out_snd_device_name \<leftarrow> get_snd_device_name (uc_out_snd_device out_uc);
                     Some (emit (RouteApply (mc_audio_route mc) out_snd_device_name) s)
                   } else Some s)
                (uc_mixer_list uc_info) s;
              Some (0, s)
            } else Some (0, s))"

section \<open>The radio's side of a call\<close>

definition voice_sound_type :: "platform \<Rightarrow> u32 \<Rightarrow> sound_type" where
  "voice_sound_type P devices =
     (if has_bits devices (AUDIO_DEVICE_OUT_ALL_SCO P) then SOUND_TYPE_BTVOICE
      else if has_bits devices (AUDIO_DEVICE_OUT_EARPIECE P) then SOUND_TYPE_VOICE
      else if has_bits devices (AUDIO_DEVICE_OUT_SPEAKER P) then SOUND_TYPE_SPEAKER
      else if has_bits devices (AUDIO_DEVICE_OUT_WIRED_HEADSET P) \<or>
              has_bits devices (AUDIO_DEVICE_OUT_WIRED_HEADPHONE P) then SOUND_TYPE_HEADSET
      else SOUND_TYPE_VOICE)"

definition set_voice_volume :: "platform \<Rightarrow> f32 \<Rightarrow> hal \<Rightarrow> (int \<times> hal) option" where
  "set_voice_volume P vol s =
     (if mode s = AUDIO_MODE_IN_CALL P then do {
        devices \<leftarrow> primary_devices s;
        Some (0, snd (ril_set_call_volume P (voice_sound_type P devices) vol s))
      } else Some (0, s))"

definition call_audio_path :: "platform \<Rightarrow> hal \<Rightarrow> u32 \<Rightarrow> audio_path" where
  "call_audio_path P s out_device =
     (if has_bits out_device (AUDIO_DEVICE_OUT_ALL_SCO P) then
        (if bluetooth_wb s then
           (if bluetooth_nrec s then SOUND_AUDIO_PATH_BLUETOOTH_WB
            else SOUND_AUDIO_PATH_BLUETOOTH_WB_NO_NR)
         else
           (if bluetooth_nrec s then SOUND_AUDIO_PATH_BLUETOOTH
            else SOUND_AUDIO_PATH_BLUETOOTH_NO_NR))
      else if has_bits out_device (AUDIO_DEVICE_OUT_SPEAKER P) then SOUND_AUDIO_PATH_SPEAKER
      else if has_bits out_device (AUDIO_DEVICE_OUT_EARPIECE P) then SOUND_AUDIO_PATH_EARPIECE
      else if has_bits out_device (AUDIO_DEVICE_OUT_WIRED_HEADSET P) then SOUND_AUDIO_PATH_HEADSET
      else if has_bits out_device (AUDIO_DEVICE_OUT_WIRED_HEADPHONE P) then SOUND_AUDIO_PATH_HEADPHONE
      else SOUND_AUDIO_PATH_EARPIECE)"

definition do_routing_for_call :: "platform \<Rightarrow> u32 \<Rightarrow> hal \<Rightarrow> hal option" where
  "do_routing_for_call P out_device s =
     (let report = (if has_bits out_device (AUDIO_DEVICE_OUT_EARPIECE P) \<or>
                       has_bits out_device (AUDIO_DEVICE_OUT_SPEAKER P)
                    then TWO_MIC_SOLUTION_ON else TWO_MIC_SOLUTION_OFF);
          s = snd (ril_set_two_mic_control P AUDIENCE report s);
          s = snd (ril_set_call_audio_path P (call_audio_path P s out_device) s)
      in do { r \<leftarrow> set_voice_volume P (volume s) s; Some (snd r) })"

section \<open>Use cases of one backend\<close>

definition uc_snd_device :: "usecase_type_t \<Rightarrow> audio_usecase \<Rightarrow> snd_device_t" where
  "uc_snd_device ty u = (if ty = PCM_PLAYBACK then uc_out_snd_device u else uc_in_snd_device u)"

definition set_uc_snd_device :: "usecase_type_t \<Rightarrow> snd_device_t \<Rightarrow> audio_usecase \<Rightarrow> audio_usecase" where
  "set_uc_snd_device ty d u =
     (if ty = PCM_PLAYBACK then u\<lparr>uc_out_snd_device := d\<rparr> else u\<lparr>uc_in_snd_device := d\<rparr>)"

text \<open>The array \<open>switch_device\<close> of the code, as the list of the ids it marks.\<close>

definition switch_ids ::
  "usecase_type_t \<Rightarrow> snd_device_t \<Rightarrow> nat \<Rightarrow> audio_usecase list \<Rightarrow> audio_usecase_t list" where
  "switch_ids ty d a us =
     map uc_id (filter (\<lambda>u. uc_type u = ty \<and> uc_addr u \<noteq> a \<and> uc_snd_device ty u \<noteq> d) us)"

definition switch_usecase :: "usecase_type_t \<Rightarrow> snd_device_t \<Rightarrow> nat \<Rightarrow> hal \<Rightarrow> hal option" where
  "switch_usecase ty d b s = do {
     u \<leftarrow> uc_at s b;
     r \<leftarrow> disable_snd_device u (uc_snd_device ty u) s;
     r \<leftarrow> enable_snd_device u d (snd r);
     Some (upd_uc b (set_uc_snd_device ty d) (snd r))
   }"

definition check_and_route_usecases ::
  "nat \<Rightarrow> usecase_type_t \<Rightarrow> snd_device_t \<Rightarrow> hal \<Rightarrow> hal option" where
  "check_and_route_usecases a ty d s =
     (let marked = switch_ids ty d a (usecase_list s) in
      if marked = [] then Some s
      else foldM (switch_usecase ty d)
             (map uc_addr (filter (\<lambda>u. List.member marked (uc_id u)) (usecase_list s))) s)"

section \<open>Selecting the devices of a use case\<close>

text \<open>
  The second half of \<open>select_devices\<close>, from the devices that were chosen for the use case at
  address \<open>a\<close> to the end of the function.  First its blocks: disable a current device, move
  the backend to a new one and enable it, and talk to the radio while there is a call.
\<close>

definition release_snd_device :: "audio_usecase \<Rightarrow> snd_device_t \<Rightarrow> hal \<Rightarrow> hal option" where
  "release_snd_device usecase d s =
     (if d \<noteq> SND_DEVICE_NONE then map_option snd (disable_snd_device usecase d s) else Some s)"

definition acquire_snd_device ::
  "audio_usecase \<Rightarrow> usecase_type_t \<Rightarrow> snd_device_t \<Rightarrow> hal \<Rightarrow> hal option" where
  "acquire_snd_device usecase ty d s =
     (if d \<noteq> SND_DEVICE_NONE then do {
        s \<leftarrow> check_and_route_usecases (uc_addr usecase) ty d s;
        map_option snd (enable_snd_device usecase d s)
      } else Some s)"

definition route_call :: "platform \<Rightarrow> bool \<Rightarrow> audio_usecase \<Rightarrow> hal \<Rightarrow> hal option" where
  "route_call P calling usecase s =
     (if calling then do {
        devices \<leftarrow> stream_out_devices P s (uc_stream usecase);
        do_routing_for_call P devices s
      } else Some s)"

definition unmute_call :: "platform \<Rightarrow> bool \<Rightarrow> hal \<Rightarrow> hal" where
  "unmute_call P calling s =
     (if calling then
        let s = snd (ril_set_mute P RX_UNMUTE s)
        in if \<not> mic_mute s then snd (ril_set_mute P TX_UNMUTE s) else s
      else s)"

definition route_usecase ::
  "platform \<Rightarrow> nat \<Rightarrow> snd_device_t \<Rightarrow> snd_device_t \<Rightarrow> hal \<Rightarrow> (int \<times> hal) option" where
  "route_usecase P a out_snd_device in_snd_device s = do {
     usecase \<leftarrow> uc_at s a;
     if out_snd_device = uc_out_snd_device usecase \<and> in_snd_device = uc_in_snd_device usecase
     then Some (0, s)
     else do {
       let calling = (uc_type usecase = VOICE_CALL \<or> in_call s);
       s \<leftarrow> route_call P calling usecase s;
       s \<leftarrow> release_snd_device usecase (uc_out_snd_device usecase) s;
       s \<leftarrow> release_snd_device usecase (uc_in_snd_device usecase) s;
       s \<leftarrow> acquire_snd_device usecase PCM_PLAYBACK out_snd_device s;
       s \<leftarrow> acquire_snd_device usecase PCM_CAPTURE in_snd_device s;
       let s = unmute_call P calling s;
       Some (0, upd_uc a (\<lambda>u. u\<lparr>uc_in_snd_device := in_snd_device,
                                uc_out_snd_device := out_snd_device\<rparr>) s)
     }
   }"

text \<open>
  The devices of the voice call, which the other use cases follow while the call is active.
\<close>

definition call_snd_devices :: "platform \<Rightarrow> hal \<Rightarrow> snd_device_t \<times> snd_device_t" where
  "call_snd_devices P s =
     (if in_call s \<and> mode s = AUDIO_MODE_IN_CALL P then
        (case get_usecase_from_id (usecase_list s) USECASE_VOICE_CALL of
           None \<Rightarrow> (SND_DEVICE_NONE, SND_DEVICE_NONE)
         | Some vc \<Rightarrow> (uc_out_snd_device vc, uc_in_snd_device vc))
      else (SND_DEVICE_NONE, SND_DEVICE_NONE))"

text \<open>
  The recursion for the active input when the primary output changes is not structural and
  the pointer it follows may be one of the wrong type, so the function is partial: \<open>None\<close>
  also stands for endless recursion.
\<close>

partial_function (option) select_devices ::
  "platform \<Rightarrow> audio_usecase_t \<Rightarrow> hal \<Rightarrow> (int \<times> hal) option" where
  "select_devices P uid s =
     (case get_usecase_from_id (usecase_list s) uid of
        None \<Rightarrow> Some (- EINVAL, s)
      | Some usecase \<Rightarrow>
          (case uc_type usecase of
             VOICE_CALL \<Rightarrow> do {
               devices \<leftarrow> stream_out_devices P s (uc_stream usecase);
               in_d \<leftarrow> get_input_snd_device P s devices;
               let out_d = get_output_snd_device P s devices;
               route_usecase P (uc_addr usecase) out_d in_d
                 (upd_uc (uc_addr usecase) (\<lambda>u. u\<lparr>uc_devices := devices\<rparr>) s)
             }
           | PCM_PLAYBACK \<Rightarrow> do {
               devices \<leftarrow> stream_out_devices P s (uc_stream usecase);
               let s' = upd_uc (uc_addr usecase) (\<lambda>u. u\<lparr>uc_devices := devices\<rparr>) s;
               let vc_out = fst (call_snd_devices P s);
               if vc_out \<noteq> SND_DEVICE_NONE
               then route_usecase P (uc_addr usecase) vc_out SND_DEVICE_NONE s'
               else do {
                 let out_d = get_output_snd_device P s' devices;
                 s'' \<leftarrow>
                   (case (if map_option OutRef (primary_output s') = Some (uc_stream usecase)
                          then get_usecase_from_type (usecase_list s)
                                 (usecase_type_val PCM_CAPTURE OR usecase_type_val VOICE_CALL)
                          else None) of
                      None \<Rightarrow> Some s'
                    | Some active \<Rightarrow> do {
                        active_input \<leftarrow> stream_as_in P s' (uc_stream active);
                        if iv_source active_input = AUDIO_SOURCE_VOICE_COMMUNICATION P
                        then do {
                          r \<leftarrow> select_devices P (iv_usecase active_input) s';
                          Some (snd r)
                        }
                        else Some s'
                      });
                 route_usecase P (uc_addr usecase) out_d SND_DEVICE_NONE s''
               }
             }
           | PCM_CAPTURE \<Rightarrow> do {
               i \<leftarrow> stream_as_in P s (uc_stream usecase);
               let s' = upd_uc (uc_addr usecase) (\<lambda>u. u\<lparr>uc_devices := iv_devices i\<rparr>) s;
               let vc_in = snd (call_snd_devices P s);
               if vc_in \<noteq> SND_DEVICE_NONE
               then route_usecase P (uc_addr usecase) SND_DEVICE_NONE vc_in s'
               else do {
                 view \<leftarrow> active_input_of P s;
                 active_input \<leftarrow> view;
                 primary_active \<leftarrow>
                   (if iv_source active_input = AUDIO_SOURCE_VOICE_COMMUNICATION P
                    then (case primary_output s' of
                            None \<Rightarrow> Some None
                          | Some p \<Rightarrow> do {
                              out \<leftarrow> outs s' p;
                              Some (if \<not> so_standby out then Some (so_devices out) else None)
                            })
                    else Some None);
                 in_d \<leftarrow> get_input_snd_device P s'
                           (case primary_active of None \<Rightarrow> AUDIO_DEVICE_NONE P | Some d \<Rightarrow> d);
                 route_usecase P (uc_addr usecase) SND_DEVICE_NONE in_d s'
               }
             }))"

end
