(* ===== verification/RoutingInv.thy ===== *)
theory RoutingInv
  imports Routing
begin

text \<open>
  The invariant of routing.  Between operations the reference count of a sound device is the
  number of active use cases that use it, use cases that share a backend share a device, and
  the mixer paths that are applied are the paths of the devices in use.  Each operation of
  \<open>Routing\<close> is shown to return (no fault) and to keep this.
\<close>

section \<open>The invariant\<close>

definition valid_dev :: "snd_device_t \<Rightarrow> bool" where
  "valid_dev d \<longleftrightarrow> SND_DEVICE_MIN \<le> d \<and> d < SND_DEVICE_MAX"

definition refs :: "hal \<Rightarrow> snd_device_t \<Rightarrow> int" where
  "refs s d = snd_dev_ref_cnt s ! nat d"

definition uses1 :: "audio_usecase \<Rightarrow> snd_device_t \<Rightarrow> int" where
  "uses1 u d = of_bool (uc_out_snd_device u = d) + of_bool (uc_in_snd_device u = d)"

text \<open>The number of times the use cases of a list use a device.\<close>

definition uses :: "audio_usecase list \<Rightarrow> snd_device_t \<Rightarrow> int" where
  "uses us d = sum_list (map (\<lambda>u. uses1 u d) us)"

definition others :: "nat \<Rightarrow> audio_usecase list \<Rightarrow> audio_usecase list" where
  "others a us = filter (\<lambda>u. uc_addr u \<noteq> a) us"

text \<open>The reference counts are the values of \<open>f\<close>; nothing counts \<open>SND_DEVICE_NONE\<close>.\<close>

definition counts :: "(snd_device_t \<Rightarrow> int) \<Rightarrow> hal \<Rightarrow> bool" where
  "counts f s \<longleftrightarrow>
     length (snd_dev_ref_cnt s) = 39 \<and> snd_dev_ref_cnt s ! 0 = 0 \<and>
     (\<forall>d. valid_dev d \<longrightarrow> refs s d = f d)"

definition uc_ok :: "audio_usecase \<Rightarrow> bool" where
  "uc_ok u \<longleftrightarrow>
     out_snd_device_ok (uc_out_snd_device u) \<and> in_snd_device_ok (uc_in_snd_device u) \<and>
     (uc_type u = PCM_PLAYBACK \<longrightarrow> uc_in_snd_device u = SND_DEVICE_NONE) \<and>
     (uc_type u = PCM_CAPTURE \<longrightarrow> uc_out_snd_device u = SND_DEVICE_NONE)"

text \<open>Every use case of the list is a different object with a different id.\<close>

definition ids_distinct :: "hal \<Rightarrow> bool" where
  "ids_distinct s \<longleftrightarrow> distinct (map uc_addr (usecase_list s)) \<and> distinct (map uc_id (usecase_list s))"

definition cards_ok :: "hal \<Rightarrow> bool" where
  "cards_ok s \<longleftrightarrow>
     (\<forall>u \<in> set (usecase_list s). set (uc_mixer_list u) \<subseteq> mc_card ` set (mixer_list s))"

text \<open>Use cases of one type that are routed at all are routed to one device.\<close>

definition shared_backend :: "usecase_type_t \<Rightarrow> hal \<Rightarrow> bool" where
  "shared_backend ty s \<longleftrightarrow>
     (\<forall>u \<in> set (usecase_list s). \<forall>v \<in> set (usecase_list s).
        uc_type u = ty \<and> uc_type v = ty \<and>
        uc_snd_device ty u \<noteq> SND_DEVICE_NONE \<and> uc_snd_device ty v \<noteq> SND_DEVICE_NONE \<longrightarrow>
        uc_snd_device ty u = uc_snd_device ty v)"

definition routing_inv :: "hal \<Rightarrow> bool" where
  "routing_inv s \<longleftrightarrow>
     ids_distinct s \<and> cards_ok s \<and> (\<forall>u \<in> set (usecase_list s). uc_ok u) \<and>
     counts (uses (usecase_list s)) s \<and>
     shared_backend PCM_PLAYBACK s \<and> shared_backend PCM_CAPTURE s"

text \<open>
  The mixer paths.  On this device there is one card, and a use case that has found a PCM
  profile has that card in its list.
\<close>

definition all_on_card :: "hal \<Rightarrow> bool" where
  "all_on_card s \<longleftrightarrow> (\<forall>u \<in> set (usecase_list s). uc_mixer_list u = [SOUND_CARD])"

definition routes_ok :: "hal \<Rightarrow> bool" where
  "routes_ok s \<longleftrightarrow>
     length (snd_dev_ref_cnt s) = 39 \<and> (\<forall>d. valid_dev d \<longrightarrow> 0 \<le> refs s d) \<and>
     (\<exists>mc. adev_get_mixer_for_card (mixer_list s) SOUND_CARD = Some mc \<and>
        active_routes (trace s) =
          {(mc_audio_route mc, device_table ! nat d) | d. valid_dev d \<and> 0 < refs s d})"

text \<open>What routing leaves alone.\<close>

definition uc_shape ::
  "audio_usecase \<Rightarrow> nat \<times> audio_usecase_t \<times> usecase_type_t \<times> stream_ref \<times> nat list" where
  "uc_shape u = (uc_addr u, uc_id u, uc_type u, uc_stream u, uc_mixer_list u)"

definition routing_frame :: "hal \<Rightarrow> hal \<Rightarrow> bool" where
  "routing_frame s s' \<longleftrightarrow>
     s' = s\<lparr>usecase_list := usecase_list s', snd_dev_ref_cnt := snd_dev_ref_cnt s',
            trace := trace s'\<rparr> \<and>
     map uc_shape (usecase_list s') = map uc_shape (usecase_list s) \<and>
     held (trace s') = held (trace s) \<and> lock_order_ok (trace s') = lock_order_ok (trace s) \<and>
     open_pcms (trace s') = open_pcms (trace s) \<and>
     (all_on_card s \<and> routes_ok s \<longrightarrow> routes_ok s')"

section \<open>Frames\<close>

lemma routing_frame_refl [simp]: "routing_frame s s"
  by (simp add: routing_frame_def)

lemma shape_mixer_lists:
  assumes "map uc_shape us = map uc_shape vs"
  shows "map uc_mixer_list us = map uc_mixer_list vs"
proof -
  have "uc_mixer_list = (\<lambda>(a, b, c, d, e). e) \<circ> uc_shape"
    by (auto simp: uc_shape_def)
  then show ?thesis using assms by (metis map_map)
qed

lemma all_on_card_shape:
  assumes "map uc_shape (usecase_list s) = map uc_shape (usecase_list s')"
  shows "all_on_card s = all_on_card s'"
proof -
  have "set (map uc_mixer_list (usecase_list s)) = set (map uc_mixer_list (usecase_list s'))"
    using shape_mixer_lists [OF assms] by simp
  moreover have "all_on_card t \<longleftrightarrow> set (map uc_mixer_list (usecase_list t)) \<subseteq> {[SOUND_CARD]}" for t
    by (auto simp: all_on_card_def)
  ultimately show ?thesis by simp
qed

lemma routing_frame_trans [trans]:
  assumes a: "routing_frame s s'" and b: "routing_frame s' s''"
  shows "routing_frame s s''"
proof -
  have 1: "s' = s\<lparr>usecase_list := usecase_list s', snd_dev_ref_cnt := snd_dev_ref_cnt s', trace := trace s'\<rparr>"
    using a by (simp add: routing_frame_def)
  have "s'' = s'\<lparr>usecase_list := usecase_list s'', snd_dev_ref_cnt := snd_dev_ref_cnt s'', trace := trace s''\<rparr>"
    using b by (simp add: routing_frame_def)
  also have "\<dots> = s\<lparr>usecase_list := usecase_list s'', snd_dev_ref_cnt := snd_dev_ref_cnt s'', trace := trace s''\<rparr>"
    by (subst 1) simp
  finally show ?thesis
    using a b all_on_card_shape [of s s'] unfolding routing_frame_def by simp
qed

text \<open>\<open>only_calls\<close> changes no route, no count and no use case.\<close>

lemma routes_ok_cong:
  assumes "snd_dev_ref_cnt s' = snd_dev_ref_cnt s" "mixer_list s' = mixer_list s"
    "active_routes (trace s') = active_routes (trace s)"
  shows "routes_ok s' = routes_ok s"
  using assms by (simp add: routes_ok_def refs_def)

lemma only_calls_routing_frame:
  assumes "only_calls s s'"
  shows "routing_frame s s'"
proof -
  note f = only_calls_fields [OF assms]
  have "s' = s\<lparr>trace := trace s'\<rparr>" using assms by (simp add: only_calls_def)
  moreover have "routes_ok s' = routes_ok s"
    using f by (intro routes_ok_cong) (simp_all add: quiet_def)
  ultimately show ?thesis
    using f by (simp add: routing_frame_def quiet_def)
qed

lemma routing_frame_fields:
  assumes "routing_frame s s'"
  shows "mixer_list s' = mixer_list s" "mode s' = mode s" "in_call s' = in_call s"
    "active_input s' = active_input s" "primary_output s' = primary_output s"
    "outs s' = outs s" "ins s' = ins s" "next_addr s' = next_addr s"
    "mic_mute s' = mic_mute s" "in_call_sco s' = in_call_sco s" "in_comm_sco s' = in_comm_sco s"
    "volume s' = volume s" "bluetooth_nrec s' = bluetooth_nrec s" "bluetooth_wb s' = bluetooth_wb s"
    "audience_enabled s' = audience_enabled s" "wb_amr_type s' = wb_amr_type s" "ril s' = ril s"
    "pcm_voice_rx s' = pcm_voice_rx s" "pcm_voice_tx s' = pcm_voice_tx s"
    "pcm_sco_rx s' = pcm_sco_rx s" "pcm_sco_tx s' = pcm_sco_tx s" "pcm_devices s' = pcm_devices s"
    "held (trace s') = held (trace s)" "lock_order_ok (trace s') = lock_order_ok (trace s)"
    "open_pcms (trace s') = open_pcms (trace s)"
    "map uc_shape (usecase_list s') = map uc_shape (usecase_list s)"
proof -
  obtain us cnt t where t: "s' = s\<lparr>usecase_list := us, snd_dev_ref_cnt := cnt, trace := t\<rparr>"
    using assms by (metis routing_frame_def)
  show "mixer_list s' = mixer_list s" "mode s' = mode s" "in_call s' = in_call s"
    "active_input s' = active_input s" "primary_output s' = primary_output s"
    "outs s' = outs s" "ins s' = ins s" "next_addr s' = next_addr s"
    "mic_mute s' = mic_mute s" "in_call_sco s' = in_call_sco s" "in_comm_sco s' = in_comm_sco s"
    "volume s' = volume s" "bluetooth_nrec s' = bluetooth_nrec s" "bluetooth_wb s' = bluetooth_wb s"
    "audience_enabled s' = audience_enabled s" "wb_amr_type s' = wb_amr_type s" "ril s' = ril s"
    "pcm_voice_rx s' = pcm_voice_rx s" "pcm_voice_tx s' = pcm_voice_tx s"
    "pcm_sco_rx s' = pcm_sco_rx s" "pcm_sco_tx s' = pcm_sco_tx s" "pcm_devices s' = pcm_devices s"
    by (simp_all add: t)
  show "held (trace s') = held (trace s)" "lock_order_ok (trace s') = lock_order_ok (trace s)"
    "open_pcms (trace s') = open_pcms (trace s)"
    "map uc_shape (usecase_list s') = map uc_shape (usecase_list s)"
    using assms by (simp_all add: routing_frame_def)
qed

lemma routing_frame_shape:
  "routing_frame s s' \<Longrightarrow> map uc_shape (usecase_list s') = map uc_shape (usecase_list s)"
  by (simp add: routing_frame_def)

section \<open>Enabling and disabling a sound device\<close>

lemma for_each_mixer_emit:
  assumes "set cards \<subseteq> mc_card ` set (mixer_list s)"
  shows "for_each_mixer (\<lambda>mc s. Some (emit (F mc) s)) cards s =
    Some (s\<lparr>trace := rev (map (\<lambda>n. F (the (adev_get_mixer_for_card (mixer_list s) n))) cards) @ trace s\<rparr>)"
  using assms
proof (induction cards arbitrary: s)
  case Nil
  then show ?case by (simp add: for_each_mixer_def)
next
  case (Cons n cards)
  obtain mc where mc: "adev_get_mixer_for_card (mixer_list s) n = Some mc"
    using Cons.prems mixers.lookup_None_iff [of "mixer_list s" n] by fastforce
  have "for_each_mixer (\<lambda>mc s. Some (emit (F mc) s)) (n # cards) s =
    for_each_mixer (\<lambda>mc s. Some (emit (F mc) s)) cards (emit (F mc) s)"
    by (simp add: for_each_mixer_def mc)
  then show ?case
    using Cons.prems Cons.IH [of "emit (F mc) s"] by (simp add: mc)
qed

lemma route_calls_other:
  assumes "\<forall>c \<in> set l. is_route_call c"
  shows "held (l @ t) = held t" "lock_order_ok (l @ t) = lock_order_ok t"
    "open_pcms (l @ t) = open_pcms t"
proof -
  have "\<not> is_lock_call c \<and> \<not> is_pcm_call c" if "is_route_call c" for c
    using that by (cases c) simp_all
  then show "held (l @ t) = held t" "lock_order_ok (l @ t) = lock_order_ok t"
    "open_pcms (l @ t) = open_pcms t"
    using assms by (induction l) simp_all
qed

text \<open>The card of a use case that has one.\<close>

definition card_ok :: "hal \<Rightarrow> audio_usecase \<Rightarrow> bool" where
  "card_ok s u \<longleftrightarrow> uc_mixer_list u \<in> uc_mixer_list ` set (usecase_list s) \<and> cards_ok s"

lemma card_okD:
  assumes "card_ok s u"
  shows "set (uc_mixer_list u) \<subseteq> mc_card ` set (mixer_list s)"
    and "all_on_card s \<Longrightarrow> uc_mixer_list u = [SOUND_CARD]"
proof -
  obtain v where v: "v \<in> set (usecase_list s)" "uc_mixer_list u = uc_mixer_list v" and c: "cards_ok s"
    using assms by (auto simp: card_ok_def)
  show "set (uc_mixer_list u) \<subseteq> mc_card ` set (mixer_list s)"
    using c v(1) unfolding v(2) by (simp add: cards_ok_def)
  show "all_on_card s \<Longrightarrow> uc_mixer_list u = [SOUND_CARD]"
    using v by (simp add: all_on_card_def)
qed

definition bump :: "snd_device_t \<Rightarrow> int \<Rightarrow> hal \<Rightarrow> hal" where
  "bump d k s = s\<lparr>snd_dev_ref_cnt := (snd_dev_ref_cnt s)[nat d := snd_dev_ref_cnt s ! nat d + k]\<rparr>"

lemma bump_fields [simp]:
  "usecase_list (bump d k s) = usecase_list s" "mixer_list (bump d k s) = mixer_list s"
  "trace (bump d k s) = trace s"
  "snd_dev_ref_cnt (bump d k s) = (snd_dev_ref_cnt s)[nat d := snd_dev_ref_cnt s ! nat d + k]"
  by (simp_all add: bump_def)

lemma valid_dev_nat: "valid_dev d \<Longrightarrow> valid_dev e \<Longrightarrow> nat d = nat e \<longleftrightarrow> d = e"
  by (auto simp: valid_dev_def)

lemma refs_bump:
  "length (snd_dev_ref_cnt s) = 39 \<Longrightarrow> valid_dev d \<Longrightarrow> valid_dev e \<Longrightarrow>
   refs (bump d k s) e = (if e = d then refs s d + k else refs s e)"
  by (auto simp: refs_def nth_list_update valid_dev_def)

lemma counts_bump:
  assumes "counts f s" "valid_dev d"
  shows "counts (f(d := f d + k)) (bump d k s)"
proof -
  have "nat d \<noteq> 0" using assms(2) by (simp add: valid_dev_def)
  then show ?thesis
    using assms refs_bump [of s d] by (simp add: counts_def)
qed

lemma refs_trace [simp]: "refs (s\<lparr>trace := t\<rparr>) = refs s"
  by (simp add: refs_def fun_eq_iff)

lemma enable_snd_device_eq:
  assumes d: "valid_dev d" and c: "card_ok s u" and l: "length (snd_dev_ref_cnt s) = 39"
  shows "enable_snd_device u d s =
    Some (0, (bump d 1 s)\<lparr>trace :=
      (if refs s d > 0 then []
       else rev (map (\<lambda>n. RouteApply (mc_audio_route (the (adev_get_mixer_for_card (mixer_list s) n)))
                            (device_table ! nat d)) (uc_mixer_list u))) @ trace s\<rparr>)"
proof -
  have name: "get_snd_device_name d = Some (device_table ! nat d)"
    using d by (simp add: get_snd_device_name_valid valid_dev_def)
  have "refs (bump d 1 s) d = refs s d + 1"
    using refs_bump [OF l d d] by simp
  then have r: "snd_dev_ref_cnt (bump d 1 s) ! nat d = refs s d + 1"
    by (simp add: refs_def)
  have cards: "set (uc_mixer_list u) \<subseteq> mc_card ` set (mixer_list (bump d 1 s))"
    using card_okD(1) [OF c] by simp
  show ?thesis
    using for_each_mixer_emit [OF cards, of "\<lambda>mc. RouteApply (mc_audio_route mc) (device_table ! nat d)"] r
    unfolding enable_snd_device_def name by (simp add: Let_def bump_def [symmetric])
qed

lemma disable_snd_device_eq:
  assumes d: "valid_dev d" and c: "card_ok s u" and l: "length (snd_dev_ref_cnt s) = 39"
    and p: "refs s d > 0"
  shows "disable_snd_device u d s =
    Some (0, (bump d (-1) s)\<lparr>trace :=
      (if refs s d > 1 then []
       else rev (map (\<lambda>n. RouteReset (mc_audio_route (the (adev_get_mixer_for_card (mixer_list s) n)))
                            (device_table ! nat d)) (uc_mixer_list u))) @ trace s\<rparr>)"
proof -
  have name: "get_snd_device_name d = Some (device_table ! nat d)"
    using d by (simp add: get_snd_device_name_valid valid_dev_def)
  have "refs (bump d (-1) s) d = refs s d - 1"
    using refs_bump [OF l d d] by simp
  then have r: "snd_dev_ref_cnt (bump d (-1) s) ! nat d = refs s d - 1"
    by (simp add: refs_def)
  have cards: "set (uc_mixer_list u) \<subseteq> mc_card ` set (mixer_list (bump d (-1) s))"
    using card_okD(1) [OF c] by simp
  have step: "disable_snd_device u d s =
    (if snd_dev_ref_cnt (bump d (-1) s) ! nat d = 0
     then Option.bind
       (for_each_mixer (\<lambda>mc s. Some (emit (RouteReset (mc_audio_route mc) (device_table ! nat d)) s))
          (uc_mixer_list u) (bump d (-1) s)) (\<lambda>s. Some (0, s))
     else Some (0, bump d (-1) s))"
    using p unfolding disable_snd_device_def name get_usecase_from_type_playback bump_def
    by (simp add: Let_def refs_def)
  show ?thesis
    unfolding step r using p for_each_mixer_emit [OF cards]
    by (simp add: bump_def)
qed

lemma disable_snd_device_idle:
  "snd_dev_ref_cnt s ! nat d \<le> 0 \<Longrightarrow> disable_snd_device u d s = Some (- EINVAL, s)"
  by (simp add: disable_snd_device_def Let_def split: option.split)

lemma device_paths_distinct:
  "valid_dev d \<Longrightarrow> valid_dev e \<Longrightarrow> device_table ! nat d = device_table ! nat e \<longleftrightarrow> d = e"
  using nth_eq_iff_index_eq [OF distinct_device_table, of "nat d" "nat e"] valid_dev_nat
  by (auto simp: valid_dev_def)

lemma routes_ok_enable:
  assumes "routes_ok s" "valid_dev d"
    and mc: "adev_get_mixer_for_card (mixer_list s) SOUND_CARD = Some mc"
  shows "routes_ok ((bump d 1 s)\<lparr>trace :=
    (if refs s d > 0 then [] else [RouteApply (mc_audio_route mc) (device_table ! nat d)]) @ trace s\<rparr>)"
proof -
  have l: "length (snd_dev_ref_cnt s) = 39" and pos: "\<And>e. valid_dev e \<Longrightarrow> 0 \<le> refs s e"
    and a: "active_routes (trace s) =
      {(mc_audio_route mc, device_table ! nat e) | e. valid_dev e \<and> 0 < refs s e}"
    using assms by (auto simp: routes_ok_def)
  note r = refs_bump [OF l assms(2)]
  have "(valid_dev e \<and> 0 < refs (bump d 1 s) e) = (e = d \<or> valid_dev e \<and> 0 < refs s e)" for e
    using r [of e 1] pos [OF assms(2)] assms(2) by auto
  then show ?thesis
    using l mc pos r a assms(2) by (auto simp: routes_ok_def)
qed

lemma routes_ok_disable:
  assumes "routes_ok s" "valid_dev d" "refs s d > 0"
    and mc: "adev_get_mixer_for_card (mixer_list s) SOUND_CARD = Some mc"
  shows "routes_ok ((bump d (-1) s)\<lparr>trace :=
    (if refs s d > 1 then [] else [RouteReset (mc_audio_route mc) (device_table ! nat d)]) @ trace s\<rparr>)"
proof -
  have l: "length (snd_dev_ref_cnt s) = 39" and pos: "\<And>e. valid_dev e \<Longrightarrow> 0 \<le> refs s e"
    and a: "active_routes (trace s) =
      {(mc_audio_route mc, device_table ! nat e) | e. valid_dev e \<and> 0 < refs s e}"
    using assms by (auto simp: routes_ok_def)
  note r = refs_bump [OF l assms(2)]
  have "(valid_dev e \<and> 0 < refs (bump d (-1) s) e) =
        (valid_dev e \<and> 0 < refs s e \<and> (e = d \<longrightarrow> refs s d > 1))" for e
    using r [of e "-1"] by (cases "e = d") auto
  then show ?thesis
    using l mc pos r a assms(2,3) device_paths_distinct by (auto simp: routes_ok_def)
qed

text \<open>Both functions return, change one count, and keep the mixer paths in step with it.\<close>

lemma enable_snd_device_wp:
  assumes d: "valid_dev d" and c: "card_ok s u" and f: "counts f s"
  shows "wp (enable_snd_device u d s) (\<lambda>(r, s').
    r = 0 \<and> usecase_list s' = usecase_list s \<and> counts (f(d := f d + 1)) s' \<and> routing_frame s s')"
proof -
  have l: "length (snd_dev_ref_cnt s) = 39" using f by (simp add: counts_def)
  define l' where "l' = (if refs s d > 0 then []
       else rev (map (\<lambda>n. RouteApply (mc_audio_route (the (adev_get_mixer_for_card (mixer_list s) n)))
                            (device_table ! nat d)) (uc_mixer_list u)))"
  define s' where "s' = (bump d 1 s)\<lparr>trace := l' @ trace s\<rparr>"
  have other: "\<forall>c \<in> set l'. is_route_call c" by (auto simp: l'_def)
  have "routes_ok s'" if on: "all_on_card s" and ro: "routes_ok s"
  proof -
    obtain mc where mc: "adev_get_mixer_for_card (mixer_list s) SOUND_CARD = Some mc"
      using ro by (auto simp: routes_ok_def)
    have "l' = (if refs s d > 0 then [] else [RouteApply (mc_audio_route mc) (device_table ! nat d)])"
      using card_okD(2) [OF c on] mc by (simp add: l'_def)
    then show ?thesis using routes_ok_enable [OF ro d mc] by (simp add: s'_def)
  qed
  moreover have "counts (f(d := f d + 1)) s'"
    using counts_bump [OF f d, of 1] by (simp add: counts_def s'_def)
  ultimately show ?thesis
    using enable_snd_device_eq [OF d c l] route_calls_other [OF other]
    by (simp add: l'_def [symmetric] s'_def [symmetric]) (simp add: s'_def routing_frame_def bump_def)
qed

lemma disable_snd_device_wp:
  assumes d: "valid_dev d" and c: "card_ok s u" and f: "counts f s" and p: "f d > 0"
  shows "wp (disable_snd_device u d s) (\<lambda>(r, s').
    r = 0 \<and> usecase_list s' = usecase_list s \<and> counts (f(d := f d - 1)) s' \<and> routing_frame s s')"
proof -
  have l: "length (snd_dev_ref_cnt s) = 39" using f by (simp add: counts_def)
  have p: "refs s d > 0" using f p d by (simp add: counts_def)
  define l' where "l' = (if refs s d > 1 then []
       else rev (map (\<lambda>n. RouteReset (mc_audio_route (the (adev_get_mixer_for_card (mixer_list s) n)))
                            (device_table ! nat d)) (uc_mixer_list u)))"
  define s' where "s' = (bump d (-1) s)\<lparr>trace := l' @ trace s\<rparr>"
  have other: "\<forall>c \<in> set l'. is_route_call c" by (auto simp: l'_def)
  have "routes_ok s'" if on: "all_on_card s" and ro: "routes_ok s"
  proof -
    obtain mc where mc: "adev_get_mixer_for_card (mixer_list s) SOUND_CARD = Some mc"
      using ro by (auto simp: routes_ok_def)
    have "l' = (if refs s d > 1 then [] else [RouteReset (mc_audio_route mc) (device_table ! nat d)])"
      using card_okD(2) [OF c on] mc by (simp add: l'_def)
    then show ?thesis using routes_ok_disable [OF ro d p mc] by (simp add: s'_def)
  qed
  moreover have "counts (f(d := f d - 1)) s'"
    using counts_bump [OF f d, of "-1"] by (simp add: counts_def s'_def)
  ultimately show ?thesis
    using disable_snd_device_eq [OF d c l p] route_calls_other [OF other]
    by (simp add: l'_def [symmetric] s'_def [symmetric]) (simp add: s'_def routing_frame_def bump_def)
qed

section \<open>Switching the other use cases of a backend\<close>

text \<open>
  While the use case at address \<open>a\<close> is being moved, the counts are those of the others and \<open>g\<close>,
  which counts the devices the moving use case holds at the moment.
\<close>

definition moving_inv :: "nat \<Rightarrow> (snd_device_t \<Rightarrow> int) \<Rightarrow> hal \<Rightarrow> bool" where
  "moving_inv a g s \<longleftrightarrow>
     ids_distinct s \<and> cards_ok s \<and> (\<forall>u \<in> set (usecase_list s). uc_ok u) \<and> (\<forall>d. 0 \<le> g d) \<and>
     counts (\<lambda>d. uses (others a (usecase_list s)) d + g d) s"

lemma counts_cong: "(\<And>d. valid_dev d \<Longrightarrow> f d = g d) \<Longrightarrow> counts f s = counts g s"
  by (simp add: counts_def)

lemma uses_simps [simp]:
  "uses [] d = 0" "uses (u # us) d = uses1 u d + uses us d"
  "uses (us @ vs) d = uses us d + uses vs d"
  by (simp_all add: uses_def)

lemma uses1_nonneg [simp]: "0 \<le> uses1 u d"
  by (simp add: uses1_def)

lemma uses_nonneg [simp]: "0 \<le> uses us d"
  by (induction us) simp_all

lemma uses_pos: "u \<in> set us \<Longrightarrow> uses1 u d \<le> uses us d"
  by (induction us) (auto intro: order_trans add_increasing)

lemma others_update:
  "(\<And>u. uc_addr (f u) = uc_addr u) \<Longrightarrow>
   others a (update_where c f us) = update_where c f (others a us)"
  by (induction us) (simp_all add: others_def)

lemma uses_update:
  assumes "distinct (map uc_addr us)" "u \<in> set us"
  shows "uses (update_where (\<lambda>v. uc_addr v = uc_addr u) f us) d =
         uses us d - uses1 u d + uses1 (f u) d"
  using assms
proof (induction us)
  case (Cons w us)
  show ?case
  proof (cases "w = u")
    case True
    then have "update_where (\<lambda>v. uc_addr v = uc_addr u) f us = us"
      using Cons.prems by (intro update_where_id) (auto simp: image_iff)
    then show ?thesis using True by simp
  next
    case False
    then have "u \<in> set us" "uc_addr w \<noteq> uc_addr u" using Cons.prems by (auto simp: image_iff)
    then show ?thesis using Cons by simp
  qed
qed simp

lemma uses_split:
  assumes "distinct (map uc_addr us)" "u \<in> set us"
  shows "uses us d = uses1 u d + uses (others (uc_addr u) us) d"
  using assms
proof (induction us)
  case (Cons w us)
  show ?case
  proof (cases "w = u")
    case True
    then have "others (uc_addr u) us = us"
      using Cons.prems unfolding others_def by (intro filter_True) (auto simp: image_iff)
    then show ?thesis using True by (simp add: others_def)
  next
    case False
    then have "u \<in> set us" "uc_addr w \<noteq> uc_addr u" using Cons.prems by (auto simp: image_iff)
    then show ?thesis using Cons by (simp add: others_def)
  qed
qed simp

lemma uc_at_in: "ids_distinct s \<Longrightarrow> u \<in> set (usecase_list s) \<Longrightarrow> uc_at s (uc_addr u) = Some u"
  by (simp add: uc_at_def ids_distinct_def find_by_key)

lemma uc_at_SomeD: "uc_at s a = Some u \<Longrightarrow> u \<in> set (usecase_list s) \<and> uc_addr u = a"
  using find_Some_mem by (fastforce simp: uc_at_def)

lemma set_uc_snd_device_fields [simp]:
  "uc_addr (set_uc_snd_device ty d u) = uc_addr u" "uc_id (set_uc_snd_device ty d u) = uc_id u"
  "uc_type (set_uc_snd_device ty d u) = uc_type u"
  "uc_mixer_list (set_uc_snd_device ty d u) = uc_mixer_list u"
  "uc_shape (set_uc_snd_device ty d u) = uc_shape u"
  "uc_snd_device ty (set_uc_snd_device ty d u) = d"
  "set_uc_snd_device ty d (set_uc_snd_device ty d u) = set_uc_snd_device ty d u"
  by (simp_all add: set_uc_snd_device_def uc_shape_def uc_snd_device_def)

lemma set_uc_snd_device_id: "uc_snd_device ty u = d \<Longrightarrow> set_uc_snd_device ty d u = u"
  by (auto simp: set_uc_snd_device_def uc_snd_device_def)

lemma uses1_set:
  "uses1 (set_uc_snd_device ty d u) e = uses1 u e - of_bool (uc_snd_device ty u = e) + of_bool (d = e)"
  by (simp add: uses1_def set_uc_snd_device_def uc_snd_device_def)

text \<open>A device that fits a use case of the type.\<close>

definition dev_for :: "usecase_type_t \<Rightarrow> snd_device_t \<Rightarrow> bool" where
  "dev_for ty d \<longleftrightarrow> valid_dev d \<and>
     (if ty = PCM_PLAYBACK then out_snd_device_ok d else in_snd_device_ok d)"

lemma uc_ok_set:
  "uc_ok u \<Longrightarrow> dev_for ty d \<Longrightarrow> uc_type u = ty \<Longrightarrow> uc_ok (set_uc_snd_device ty d u)"
  by (auto simp: uc_ok_def dev_for_def set_uc_snd_device_def)

lemma uc_ok_valid:
  "uc_ok u \<Longrightarrow> uc_snd_device ty u \<noteq> SND_DEVICE_NONE \<Longrightarrow> valid_dev (uc_snd_device ty u)"
  by (auto simp: uc_ok_def uc_snd_device_def out_snd_device_ok_def in_snd_device_ok_def valid_dev_def)

text \<open>Changing a use case in the list.\<close>

lemma upd_uc_fields [simp]:
  "usecase_list (upd_uc a f s) = update_where (\<lambda>u. uc_addr u = a) f (usecase_list s)"
  "trace (upd_uc a f s) = trace s" "snd_dev_ref_cnt (upd_uc a f s) = snd_dev_ref_cnt s"
  "mixer_list (upd_uc a f s) = mixer_list s"
  "refs (upd_uc a f s) = refs s" "counts g (upd_uc a f s) = counts g s"
  "outs (upd_uc a f s) = outs s" "ins (upd_uc a f s) = ins s" "mode (upd_uc a f s) = mode s"
  "primary_output (upd_uc a f s) = primary_output s" "in_call (upd_uc a f s) = in_call s"
  by (simp_all add: upd_uc_def refs_def fun_eq_iff counts_def)

lemma upd_uc_frame:
  assumes "\<And>u. uc_shape (f u) = uc_shape u"
  shows "routing_frame s (upd_uc a f s)"
proof -
  have "map uc_shape (usecase_list (upd_uc a f s)) = map uc_shape (usecase_list s)"
    using assms by (simp add: map_update_where)
  moreover have "routes_ok (upd_uc a f s) = routes_ok s"
    by (rule routes_ok_cong) simp_all
  ultimately show ?thesis by (simp add: routing_frame_def upd_uc_def)
qed

lemma shape_ids:
  assumes "map uc_shape (usecase_list s') = map uc_shape (usecase_list s)"
  shows "ids_distinct s' = ids_distinct s"
proof -
  have "uc_addr = fst \<circ> uc_shape" "uc_id = (fst \<circ> snd) \<circ> uc_shape" by (auto simp: uc_shape_def)
  then have "map uc_addr us = map fst (map uc_shape us)"
    "map uc_id us = map (fst \<circ> snd) (map uc_shape us)" for us
    by simp_all
  then show ?thesis unfolding ids_distinct_def using assms by metis
qed

lemma shape_cards:
  assumes "map uc_shape (usecase_list s') = map uc_shape (usecase_list s)"
    and "mixer_list s' = mixer_list s"
  shows "cards_ok s' = cards_ok s"
proof -
  have "cards_ok t \<longleftrightarrow> (\<forall>l \<in> set (map uc_mixer_list (usecase_list t)). set l \<subseteq> mc_card ` set (mixer_list t))"
    for t by (simp add: cards_ok_def)
  then show ?thesis by (simp only: shape_mixer_lists [OF assms(1)] assms(2))
qed

text \<open>The three parts of a switch: the old device is released, the new one taken, and the use case updated.\<close>

lemma switch_release:
  fixes ty :: usecase_type_t
  assumes inv: "moving_inv a g s" and u: "u \<in> set (usecase_list s)" "uc_addr u \<noteq> a"
  defines "h \<equiv> \<lambda>e. uses (others a (usecase_list s)) e + g e" and "old \<equiv> uc_snd_device ty u"
  shows "wp (disable_snd_device u old s) (\<lambda>(r, t). usecase_list t = usecase_list s \<and>
    counts (h(old := h old - 1)) t \<and> routing_frame s t)"
proof -
  have cards: "cards_ok s" and oks: "\<forall>u \<in> set (usecase_list s). uc_ok u" and cnt: "counts h s" and g: "\<And>e. 0 \<le> g e"
    using inv by (auto simp: moving_inv_def h_def)
  show ?thesis
  proof (cases "old = SND_DEVICE_NONE")
    case True
    then have "disable_snd_device u old s = Some (- EINVAL, s)"
      using cnt by (intro disable_snd_device_idle) (simp add: counts_def)
    moreover have "counts (h(old := h old - 1)) s"
      using cnt counts_cong [of "h(old := h old - 1)" h s] True by (auto simp: valid_dev_def)
    ultimately show ?thesis by simp
  next
    case False
    then have v: "valid_dev old" using oks u(1) uc_ok_valid by (auto simp: old_def)
    have "u \<in> set (others a (usecase_list s))" using u by (simp add: others_def)
    moreover have "1 \<le> uses1 u old" by (auto simp: uses1_def old_def uc_snd_device_def)
    ultimately have pos: "h old > 0" using uses_pos [of u "others a (usecase_list s)" old] g [of old] by (simp add: h_def)
    have co: "card_ok s u" using u cards by (auto simp: card_ok_def)
    show ?thesis using disable_snd_device_wp [OF v co cnt pos] by (auto elim!: wp_mono)
  qed
qed

lemma switch_finish:
  assumes inv: "moving_inv a g s" and u: "u \<in> set (usecase_list s)" "uc_type u = ty" "uc_addr u \<noteq> a"
    and d: "dev_for ty d" and t: "usecase_list t = usecase_list s" "routing_frame s t"
  defines "h \<equiv> \<lambda>e. uses (others a (usecase_list s)) e + g e" and "old \<equiv> uc_snd_device ty u"
    and "t' \<equiv> upd_uc (uc_addr u) (set_uc_snd_device ty d) t"
  assumes cnt: "counts ((h(old := h old - 1))(d := (h(old := h old - 1)) d + 1)) t"
  shows "moving_inv a g t'" "routing_frame s t'"
proof -
  have ids: "ids_distinct s" and cards: "cards_ok s" and oks: "\<forall>u \<in> set (usecase_list s). uc_ok u" and g: "\<And>e. 0 \<le> g e"
    using inv by (auto simp: moving_inv_def)
  have dist: "distinct (map uc_addr (others a (usecase_list s)))"
    using ids by (simp add: others_def ids_distinct_def distinct_map_filter)
  show fr: "routing_frame s t'"
    unfolding t'_def using t(2) upd_uc_frame routing_frame_trans set_uc_snd_device_fields(5) by metis
  note sh = routing_frame_shape [OF fr]
  have "ids_distinct t'" "cards_ok t'"
    using shape_ids [OF sh] shape_cards [OF sh] ids cards routing_frame_fields(1) [OF fr] by simp_all
  moreover have "\<forall>v \<in> set (usecase_list t'). uc_ok v"
  proof -
    have "uc_ok (set_uc_snd_device ty d u)" using oks u uc_ok_set [OF _ d] by blast
    moreover have "w = u" if "w \<in> set (usecase_list s)" "uc_addr w = uc_addr u" for w
      using that ids u(1) distinct_map_unique unfolding ids_distinct_def by metis
    ultimately show ?thesis using oks t(1) by (auto simp: t'_def set_update_where)
  qed
  moreover have "counts (\<lambda>e. uses (others a (usecase_list t')) e + g e) t'"
  proof -
    have "u \<in> set (others a (usecase_list s))" using u by (simp add: others_def)
    then have eq: "uses (others a (usecase_list t')) e + g e =
        ((h(old := h old - 1))(d := (h(old := h old - 1)) d + 1)) e" if "valid_dev e" for e
      using uses_update [OF dist, of u "set_uc_snd_device ty d" e] u(3)
      by (simp add: others_update t(1) t'_def uses1_set h_def old_def)
    have "counts (\<lambda>e. uses (others a (usecase_list t')) e + g e) t"
      by (subst counts_cong [OF eq]) (use cnt in simp_all)
    then show ?thesis by (simp add: t'_def)
  qed
  ultimately show "moving_inv a g t'" using g by (simp add: moving_inv_def)
qed

lemma switch_usecase_wp:
  assumes inv: "moving_inv a g s" and u: "u \<in> set (usecase_list s)" "uc_type u = ty" "uc_addr u \<noteq> a"
    and d: "dev_for ty d"
  shows "wp (switch_usecase ty d (uc_addr u) s) (\<lambda>s'.
    usecase_list s' =
      update_where (\<lambda>v. uc_addr v = uc_addr u) (set_uc_snd_device ty d) (usecase_list s) \<and>
    moving_inv a g s' \<and> routing_frame s s')"
proof -
  define old where "old = uc_snd_device ty u"
  define h where "h = (\<lambda>e. uses (others a (usecase_list s)) e + g e)"
  define f where "f = h(old := h old - 1)"
  have ids: "ids_distinct s" and cards: "cards_ok s" using inv by (simp_all add: moving_inv_def)
  obtain r1 t1 where 1: "disable_snd_device u old s = Some (r1, t1)" "usecase_list t1 = usecase_list s"
    "counts f t1" "routing_frame s t1"
    using switch_release [OF inv u(1,3), of ty] unfolding f_def h_def old_def by (auto simp: wp_exists)
  have "valid_dev d" using d by (simp add: dev_for_def)
  moreover have "card_ok t1 u"
    using 1(2,4) u cards shape_cards [of t1 s] by (auto simp: card_ok_def routing_frame_fields)
  ultimately obtain r2 t2 where 2: "enable_snd_device u d t1 = Some (r2, t2)" "usecase_list t2 = usecase_list t1"
    "counts (f(d := f d + 1)) t2" "routing_frame t1 t2"
    using enable_snd_device_wp [of d t1 u f] 1(3) by (auto simp: wp_exists)
  have t2: "usecase_list t2 = usecase_list s" "routing_frame s t2"
    using 1(2) 2(2) routing_frame_trans [OF 1(4) 2(4)] by simp_all
  note fin = switch_finish [OF inv u d t2 2(3) [unfolded f_def h_def old_def]]
  have "switch_usecase ty d (uc_addr u) s = Some (upd_uc (uc_addr u) (set_uc_snd_device ty d) t2)"
    by (simp add: switch_usecase_def uc_at_in [OF ids u(1)] old_def [symmetric] 1(1) 2(1))
  then show ?thesis using fin t2(1) by simp
qed

end
