(* ===== verification/RoutingSelect.thy ===== *)
theory RoutingSelect
  imports RoutingInv
begin

text \<open>
  \<open>check_and_route_usecases\<close>, \<open>route_usecase\<close> and \<open>select_devices\<close> keep the invariant of
  \<open>RoutingInv\<close>; what they do to the list of use cases is stated exactly.
\<close>

section \<open>All use cases of a backend\<close>

lemma update_where_twice:
  assumes "\<And>x. f (f x) = f x" "\<And>x. c (f x) = c x"
  shows "update_where c f (update_where b f xs) = update_where (\<lambda>x. b x \<or> c x) f xs"
  using assms by (induction xs) auto

lemma update_where_cong:
  "(\<And>x. x \<in> set xs \<Longrightarrow> (if b x then f x else x) = (if c x then g x else x)) \<Longrightarrow>
   update_where b f xs = update_where c g xs"
  by (simp add: update_where_def)

lemma switch_all_wp:
  assumes "moving_inv a g s" "dev_for ty d"
    and "\<forall>b \<in> set bs. b \<noteq> a \<and> (\<exists>u \<in> set (usecase_list s). uc_addr u = b \<and> uc_type u = ty)"
  shows "wp (foldM (switch_usecase ty d) bs s) (\<lambda>s'.
    usecase_list s' = update_where (\<lambda>v. uc_addr v \<in> set bs) (set_uc_snd_device ty d) (usecase_list s) \<and>
    moving_inv a g s' \<and> routing_frame s s')"
  using assms
proof (induction bs arbitrary: s)
  case Nil
  then show ?case by (simp add: update_where_def)
next
  case (Cons b bs)
  obtain u where u: "u \<in> set (usecase_list s)" "uc_type u = ty" "uc_addr u = b" and b: "b \<noteq> a"
    using Cons.prems(3) by auto
  have step: "wp (switch_usecase ty d b s) (\<lambda>t.
    usecase_list t = update_where (\<lambda>v. uc_addr v = b) (set_uc_snd_device ty d) (usecase_list s) \<and>
    moving_inv a g t \<and> routing_frame s t)"
    using switch_usecase_wp [OF Cons.prems(1) u(1,2) _ Cons.prems(2)] u(3) b by simp
  have rest: "wp (foldM (switch_usecase ty d) bs t) (\<lambda>s'.
    usecase_list s' = update_where (\<lambda>v. uc_addr v \<in> set (b # bs)) (set_uc_snd_device ty d) (usecase_list s) \<and>
    moving_inv a g s' \<and> routing_frame s s')"
    if t: "usecase_list t = update_where (\<lambda>v. uc_addr v = b) (set_uc_snd_device ty d) (usecase_list s)"
      "moving_inv a g t" "routing_frame s t" for t
  proof -
    have "\<forall>c \<in> set bs. c \<noteq> a \<and> (\<exists>u \<in> set (usecase_list t). uc_addr u = c \<and> uc_type u = ty)"
    proof
      fix c assume "c \<in> set bs"
      then obtain v where "v \<in> set (usecase_list s)" "uc_addr v = c" "uc_type v = ty" "c \<noteq> a"
        using Cons.prems(3) by auto
      moreover from this have "(if uc_addr v = b then set_uc_snd_device ty d v else v) \<in> set (usecase_list t)"
        unfolding t(1) set_update_where by blast
      ultimately show "c \<noteq> a \<and> (\<exists>u \<in> set (usecase_list t). uc_addr u = c \<and> uc_type u = ty)"
        by (metis set_uc_snd_device_fields(1,3))
    qed
    from Cons.IH [OF t(2) Cons.prems(2) this] show ?thesis
      by (rule wp_mono)
        (auto simp: t(1) update_where_twice intro!: update_where_cong routing_frame_trans [OF t(3)])
  qed
  show ?case
    using step rest by (auto elim!: wp_mono)
qed

lemma filter_marked:
  assumes "distinct (map k xs)"
  shows "filter (\<lambda>x. k x \<in> set (map k (filter c xs))) xs = filter c xs"
  using assms by (intro filter_cong) (auto dest: distinct_map_unique)

lemma check_and_route_wp:
  assumes inv: "moving_inv a g s" and d: "dev_for ty d"
  shows "wp (check_and_route_usecases a ty d s) (\<lambda>s'.
    usecase_list s' =
      update_where (\<lambda>v. uc_type v = ty \<and> uc_addr v \<noteq> a) (set_uc_snd_device ty d) (usecase_list s) \<and>
    moving_inv a g s' \<and> routing_frame s s')"
proof -
  define c where "c u \<longleftrightarrow> uc_type u = ty \<and> uc_addr u \<noteq> a \<and> uc_snd_device ty u \<noteq> d" for u
  define bs where "bs = map uc_addr (filter c (usecase_list s))"
  have ids: "distinct (map uc_id (usecase_list s))" "distinct (map uc_addr (usecase_list s))"
    using inv by (simp_all add: moving_inv_def ids_distinct_def)
  have marked: "switch_ids ty d a (usecase_list s) = map uc_id (filter c (usecase_list s))"
    by (simp add: switch_ids_def c_def [abs_def])
  have "check_and_route_usecases a ty d s = foldM (switch_usecase ty d) bs s"
    using filter_marked [OF ids(1), of c]
    by (simp add: check_and_route_usecases_def Let_def marked bs_def List.member_iff filter_empty_conv)
  moreover have "update_where (\<lambda>v. uc_addr v \<in> set bs) (set_uc_snd_device ty d) (usecase_list s) =
    update_where (\<lambda>v. uc_type v = ty \<and> uc_addr v \<noteq> a) (set_uc_snd_device ty d) (usecase_list s)"
  proof (rule update_where_cong)
    fix v assume v: "v \<in> set (usecase_list s)"
    have "uc_addr v \<in> set bs \<longleftrightarrow> c v"
      using v distinct_map_unique [OF ids(2)] by (auto simp: bs_def)
    then show "(if uc_addr v \<in> set bs then set_uc_snd_device ty d v else v) =
      (if uc_type v = ty \<and> uc_addr v \<noteq> a then set_uc_snd_device ty d v else v)"
      using set_uc_snd_device_id by (auto simp: c_def)
  qed
  moreover have "\<forall>b \<in> set bs. b \<noteq> a \<and> (\<exists>u \<in> set (usecase_list s). uc_addr u = b \<and> uc_type u = ty)"
    by (auto simp: bs_def c_def)
  ultimately show ?thesis
    using switch_all_wp [OF inv d, of bs] by simp
qed

section \<open>The radio\<close>

lemma set_voice_volume_wp:
  "(mode s = AUDIO_MODE_IN_CALL P \<Longrightarrow> primary_devices s \<noteq> None) \<Longrightarrow>
   wp (set_voice_volume P v s) (\<lambda>(r, s'). r = 0 \<and> only_calls s s')"
  by (auto simp: set_voice_volume_def ril_only_calls)

lemma primary_devices_only_calls: "only_calls s s' \<Longrightarrow> primary_devices s' = primary_devices s"
  by (simp add: primary_devices_def only_calls_fields)

lemma do_routing_for_call_wp:
  assumes "mode s = AUDIO_MODE_IN_CALL P \<Longrightarrow> primary_devices s \<noteq> None"
  shows "wp (do_routing_for_call P d s) (only_calls s)"
proof -
  let ?report = "if has_bits d (AUDIO_DEVICE_OUT_EARPIECE P) \<or> has_bits d (AUDIO_DEVICE_OUT_SPEAKER P)
    then TWO_MIC_SOLUTION_ON else TWO_MIC_SOLUTION_OFF"
  define s1 where "s1 = snd (ril_set_two_mic_control P AUDIENCE ?report s)"
  define s2 where "s2 = snd (ril_set_call_audio_path P (call_audio_path P s1 d) s1)"
  have 2: "only_calls s s2"
    using ril_only_calls only_calls_trans unfolding s1_def s2_def by blast
  have "wp (set_voice_volume P (volume s2) s2) (\<lambda>(r, s'). r = 0 \<and> only_calls s2 s')"
    using assms 2 by (intro set_voice_volume_wp)
      (simp add: only_calls_fields primary_devices_only_calls)
  then have "wp (set_voice_volume P (volume s2) s2) (\<lambda>r. only_calls s (snd r))"
    by (rule wp_mono) (auto intro: only_calls_trans [OF 2])
  then show ?thesis
    unfolding do_routing_for_call_def Let_def s1_def [symmetric] s2_def [symmetric] by simp
qed

section \<open>Moving one use case\<close>

text \<open>The list of use cases after \<open>route_usecase\<close> has changed something.\<close>

definition routed :: "nat \<Rightarrow> snd_device_t \<Rightarrow> snd_device_t \<Rightarrow> audio_usecase \<Rightarrow> audio_usecase" where
  "routed a out_d in_d v =
     (if uc_addr v = a then v\<lparr>uc_in_snd_device := in_d, uc_out_snd_device := out_d\<rparr>
      else if uc_type v = PCM_PLAYBACK \<and> out_d \<noteq> SND_DEVICE_NONE then v\<lparr>uc_out_snd_device := out_d\<rparr>
      else if uc_type v = PCM_CAPTURE \<and> in_d \<noteq> SND_DEVICE_NONE then v\<lparr>uc_in_snd_device := in_d\<rparr>
      else v)"

definition targets_ok :: "audio_usecase \<Rightarrow> snd_device_t \<Rightarrow> snd_device_t \<Rightarrow> bool" where
  "targets_ok u out_d in_d \<longleftrightarrow>
     out_snd_device_ok out_d \<and> in_snd_device_ok in_d \<and>
     (uc_type u = PCM_PLAYBACK \<longrightarrow> in_d = SND_DEVICE_NONE) \<and>
     (uc_type u = PCM_CAPTURE \<longrightarrow> out_d = SND_DEVICE_NONE)"

lemma moving_inv_frame:
  assumes "moving_inv a g s" "only_calls s s'"
  shows "moving_inv a g s'"
  using assms only_calls_fields [OF assms(2)]
  by (simp add: moving_inv_def ids_distinct_def cards_ok_def counts_def refs_def)

text \<open>Giving up and taking a device, for the use case that moves.\<close>

abbreviation holds :: "snd_device_t \<Rightarrow> snd_device_t \<Rightarrow> int" where
  "holds d e \<equiv> of_bool (d = e \<and> valid_dev e)"

lemma moving_inv_step:
  assumes "moving_inv a g s" "routing_frame s s'" "usecase_list s' = usecase_list s"
    and "counts (\<lambda>e. uses (others a (usecase_list s)) e + g' e) s'" "\<And>e. 0 \<le> g' e"
  shows "moving_inv a g' s'"
  using assms shape_ids [OF routing_frame_shape [OF assms(2)]]
    shape_cards [OF routing_frame_shape [OF assms(2)]] routing_frame_fields(1) [OF assms(2)]
  by (simp add: moving_inv_def)

lemma card_okI:
  "moving_inv a g s \<Longrightarrow> uc_mixer_list u \<in> uc_mixer_list ` set (usecase_list s) \<Longrightarrow> card_ok s u"
  by (simp add: card_ok_def moving_inv_def)

lemma release_device_wp:
  assumes m: "moving_inv a g s" and u: "uc_mixer_list u \<in> uc_mixer_list ` set (usecase_list s)"
    and d: "d \<noteq> SND_DEVICE_NONE \<Longrightarrow> valid_dev d \<and> 0 < g d"
  shows "wp (release_snd_device u d s) (\<lambda>s'. usecase_list s' = usecase_list s \<and> moving_inv a (\<lambda>e. g e - holds d e) s' \<and> routing_frame s s')"
proof (cases "d = SND_DEVICE_NONE")
  case True
  then have "(\<lambda>e. g e - holds d e) = g"
    by (auto simp: fun_eq_iff valid_dev_def)
  then show ?thesis using m True by (simp add: release_snd_device_def acquire_snd_device_def)
next
  case False
  define f where "f = (\<lambda>e. uses (others a (usecase_list s)) e + g e)"
  have cnt: "counts f s" and nn: "\<And>e. 0 \<le> g e" using m by (auto simp: moving_inv_def f_def)
  have "f d > 0" using d [OF False] by (simp add: f_def add_nonneg_pos)
  then have w: "wp (disable_snd_device u d s) (\<lambda>(r, s'). r = 0 \<and> usecase_list s' = usecase_list s \<and>
    counts (f(d := f d - 1)) s' \<and> routing_frame s s')"
    using disable_snd_device_wp [OF _ card_okI [OF m u] cnt] d [OF False] by simp
  have eq: "f(d := f d - 1) = (\<lambda>e. uses (others a (usecase_list s)) e + (g e - holds d e))"
    using d [OF False] by (auto simp: fun_eq_iff f_def)
  have "0 \<le> g e - holds d e" for e
    using d [OF False] nn [of e] by (cases "e = d") auto
  then have "moving_inv a (\<lambda>e. g e - holds d e) t"
    if "usecase_list t = usecase_list s" "counts (f(d := f d - 1)) t" "routing_frame s t" for t
    using moving_inv_step [OF m that(3,1), of "\<lambda>e. g e - holds d e"] that(2) unfolding eq by blast
  then show ?thesis
    using w False by (auto simp: release_snd_device_def elim!: wp_mono)
qed

lemma acquire_device_wp:
  assumes m: "moving_inv a g s" and u: "uc_mixer_list u \<in> uc_mixer_list ` set (usecase_list s)"
    and a: "uc_addr u = a" and d: "d \<noteq> SND_DEVICE_NONE \<Longrightarrow> dev_for ty d"
  shows "wp (acquire_snd_device u ty d s) (\<lambda>s'. usecase_list s' = (if d \<noteq> SND_DEVICE_NONE
            then update_where (\<lambda>v. uc_type v = ty \<and> uc_addr v \<noteq> a) (set_uc_snd_device ty d) (usecase_list s)
            else usecase_list s) \<and>
          moving_inv a (\<lambda>e. g e + holds d e) s' \<and> routing_frame s s')"
proof (cases "d = SND_DEVICE_NONE")
  case True
  then have "(\<lambda>e. g e + holds d e) = g"
    by (auto simp: fun_eq_iff valid_dev_def)
  then show ?thesis using m True by (simp add: release_snd_device_def acquire_snd_device_def)
next
  case False
  have df: "dev_for ty d" and vd: "valid_dev d" using d [OF False] by (simp_all add: dev_for_def)
  have en: "wp (enable_snd_device u d t) (\<lambda>(r, s'). usecase_list s' = usecase_list t \<and>
      moving_inv a (\<lambda>e. g e + holds d e) s' \<and> routing_frame s s')"
    if t: "moving_inv a g t" "routing_frame s t" for t
  proof -
    define f where "f = (\<lambda>e. uses (others a (usecase_list t)) e + g e)"
    have cnt: "counts f t" and nn: "\<And>e. 0 \<le> g e" using t by (auto simp: moving_inv_def f_def)
    have "map uc_mixer_list (usecase_list t) = map uc_mixer_list (usecase_list s)"
      using shape_mixer_lists [OF routing_frame_shape [OF t(2)]] .
    then have "uc_mixer_list u \<in> uc_mixer_list ` set (usecase_list t)"
      using u by (metis list.set_map)
    then have w: "wp (enable_snd_device u d t) (\<lambda>(r, s'). r = 0 \<and> usecase_list s' = usecase_list t \<and>
      counts (f(d := f d + 1)) s' \<and> routing_frame t s')"
      using enable_snd_device_wp [OF vd card_okI [OF t(1)] cnt] by simp
    have eq: "f(d := f d + 1) = (\<lambda>e. uses (others a (usecase_list t)) e + (g e + holds d e))"
      using vd by (auto simp: fun_eq_iff f_def)
    have "moving_inv a (\<lambda>e. g e + holds d e) r"
      if "usecase_list r = usecase_list t" "counts (f(d := f d + 1)) r" "routing_frame t r" for r
      using moving_inv_step [OF t(1) that(3,1), of "\<lambda>e. g e + holds d e"] that(2) nn unfolding eq by simp
    then show ?thesis
      using w routing_frame_trans [OF t(2)] by (auto elim!: wp_mono)
  qed
  let ?l = "update_where (\<lambda>v. uc_type v = ty \<and> uc_addr v \<noteq> a) (set_uc_snd_device ty d) (usecase_list s)"
  have "wp (Option.bind (check_and_route_usecases a ty d s) (\<lambda>t. map_option snd (enable_snd_device u d t)))
    (\<lambda>s'. usecase_list s' = ?l \<and> moving_inv a (\<lambda>e. g e + holds d e) s' \<and> routing_frame s s')"
  proof (rule wp_mono_bind [OF check_and_route_wp [OF m df]])
    fix t assume t: "usecase_list t = ?l \<and> moving_inv a g t \<and> routing_frame s t"
    then have "wp (enable_snd_device u d t) (\<lambda>(r, s'). usecase_list s' = usecase_list t \<and>
        moving_inv a (\<lambda>e. g e + holds d e) s' \<and> routing_frame s s')"
      by (intro en) auto
    with t show "wp (map_option snd (enable_snd_device u d t))
      (\<lambda>s'. usecase_list s' = ?l \<and> moving_inv a (\<lambda>e. g e + holds d e) s' \<and> routing_frame s s')"
      unfolding wp_map_option by (elim wp_mono) auto
  qed
  then show ?thesis using False a by (simp add: acquire_snd_device_def)
qed

lemma route_call_wp:
  assumes "calling \<Longrightarrow> stream_out_devices P s (uc_stream u) \<noteq> None"
    and "calling \<Longrightarrow> mode s = AUDIO_MODE_IN_CALL P \<Longrightarrow> primary_devices s \<noteq> None"
  shows "wp (route_call P calling u s) (only_calls s)"
  using assms do_routing_for_call_wp [of s P] by (auto simp: route_call_def)

lemma unmute_call_only_calls: "only_calls s (unmute_call P calling s)"
  using only_calls_trans [OF mute_command.cmd_only_calls mute_command.cmd_only_calls]
    mute_command.cmd_only_calls by (simp add: unmute_call_def Let_def)

text \<open>
  The radio is only spoken to when the use case is a call or a call is active; then the code
  reads the devices of the use case's stream and, in call mode, of the primary output.
\<close>

definition call_reads_ok :: "platform \<Rightarrow> hal \<Rightarrow> audio_usecase \<Rightarrow> bool" where
  "call_reads_ok P s u \<longleftrightarrow>
     (uc_type u = VOICE_CALL \<or> in_call s \<longrightarrow>
        stream_out_devices P s (uc_stream u) \<noteq> None \<and>
        (mode s = AUDIO_MODE_IN_CALL P \<longrightarrow> primary_devices s \<noteq> None))"

lemma moving_inv_start:
  assumes "routing_inv s" "u \<in> set (usecase_list s)"
  shows "moving_inv (uc_addr u) (uses1 u) s"
proof -
  have "uses (usecase_list s) = (\<lambda>d. uses (others (uc_addr u) (usecase_list s)) d + uses1 u d)"
    using assms uses_split by (fastforce simp: fun_eq_iff routing_inv_def ids_distinct_def)
  then show ?thesis using assms by (simp add: routing_inv_def moving_inv_def)
qed

lemma frame_card:
  assumes "routing_frame s t" "u \<in> set (usecase_list s)"
  shows "uc_mixer_list u \<in> uc_mixer_list ` set (usecase_list t)"
  using assms(2) shape_mixer_lists [OF routing_frame_shape [OF assms(1)]] by (metis list.set_map image_eqI)

abbreviation set_devices :: "snd_device_t \<Rightarrow> snd_device_t \<Rightarrow> audio_usecase \<Rightarrow> audio_usecase" where
  "set_devices out_d in_d u \<equiv> u\<lparr>uc_in_snd_device := in_d, uc_out_snd_device := out_d\<rparr>"

lemma routed_lists:
  "update_where (\<lambda>v. uc_addr v = a) (set_devices out_d in_d)
     (if in_d \<noteq> SND_DEVICE_NONE
      then update_where (\<lambda>v. uc_type v = PCM_CAPTURE \<and> uc_addr v \<noteq> a) (set_uc_snd_device PCM_CAPTURE in_d)
        (if out_d \<noteq> SND_DEVICE_NONE
         then update_where (\<lambda>v. uc_type v = PCM_PLAYBACK \<and> uc_addr v \<noteq> a)
                (set_uc_snd_device PCM_PLAYBACK out_d) us
         else us)
      else (if out_d \<noteq> SND_DEVICE_NONE
         then update_where (\<lambda>v. uc_type v = PCM_PLAYBACK \<and> uc_addr v \<noteq> a)
                (set_uc_snd_device PCM_PLAYBACK out_d) us
         else us)) = map (routed a out_d in_d) us"
  by (auto simp: update_where_def routed_def set_uc_snd_device_def)

lemma finish_move:
  assumes m: "moving_inv (uc_addr u) g t" and u: "u \<in> set (usecase_list t)"
    and g: "\<And>e. valid_dev e \<Longrightarrow> g e = holds out_d e + holds in_d e"
    and ok: "targets_ok u out_d in_d"
    and s': "s' = upd_uc (uc_addr u) (set_devices out_d in_d) t"
  shows "ids_distinct s'" "cards_ok s'" "\<forall>v \<in> set (usecase_list s'). uc_ok v"
    "counts (uses (usecase_list s')) s'"
proof -
  have fr: "routing_frame t s'" unfolding s' by (rule upd_uc_frame) (simp add: uc_shape_def)
  have ids: "ids_distinct t" and oks: "\<forall>v \<in> set (usecase_list t). uc_ok v"
    using m by (simp_all add: moving_inv_def)
  show "ids_distinct s'" "cards_ok s'"
    using m shape_ids [OF routing_frame_shape [OF fr]]
      shape_cards [OF routing_frame_shape [OF fr]] routing_frame_fields(1) [OF fr]
    by (simp_all add: moving_inv_def)
  have uniq: "w = u" if "w \<in> set (usecase_list t)" "uc_addr w = uc_addr u" for w
    using that ids u distinct_map_unique unfolding ids_distinct_def by metis
  have "uc_ok (set_devices out_d in_d u)" using ok by (simp add: targets_ok_def uc_ok_def)
  then show "\<forall>v \<in> set (usecase_list s'). uc_ok v"
    using oks uniq by (auto simp: s' set_update_where)
  have "uses (usecase_list s') e = uses (others (uc_addr u) (usecase_list t)) e + g e" if "valid_dev e" for e
    using uses_update [OF _ u, of "set_devices out_d in_d" e] uses_split [OF _ u, of e] ids that
    by (simp add: s' ids_distinct_def g uses1_def)
  then have "counts (uses (usecase_list s')) t =
      counts (\<lambda>e. uses (others (uc_addr u) (usecase_list t)) e + g e) t"
    by (rule counts_cong)
  then show "counts (uses (usecase_list s')) s'" using m by (simp add: moving_inv_def s')
qed

text \<open>The last part: the call is unmuted and the use case gets its devices.\<close>

lemma route_finish:
  fixes out_d in_d :: int and s :: hal and a :: nat
  defines "L1 \<equiv> if out_d \<noteq> SND_DEVICE_NONE
    then update_where (\<lambda>v. uc_type v = PCM_PLAYBACK \<and> uc_addr v \<noteq> a)
           (set_uc_snd_device PCM_PLAYBACK out_d) (usecase_list s) else usecase_list s"
  defines "L2 \<equiv> if in_d \<noteq> SND_DEVICE_NONE
    then update_where (\<lambda>v. uc_type v = PCM_CAPTURE \<and> uc_addr v \<noteq> a)
           (set_uc_snd_device PCM_CAPTURE in_d) L1 else L1"
  assumes u: "u \<in> set (usecase_list s)" "uc_addr u = a" and t: "targets_ok u out_d in_d"
    and s5: "usecase_list s5 = L2" "moving_inv a (\<lambda>e. uses1 u e - holds (uc_out_snd_device u) e -
      holds (uc_in_snd_device u) e + holds out_d e + holds in_d e) s5" "routing_frame s s5"
  shows "let s' = upd_uc a (set_devices out_d in_d) (unmute_call P c s5) in routing_frame s s' \<and>
    usecase_list s' = map (routed a out_d in_d) (usecase_list s) \<and>
    ids_distinct s' \<and> cards_ok s' \<and> (\<forall>v \<in> set (usecase_list s'). uc_ok v) \<and>
    counts (uses (usecase_list s')) s'"
proof -
  define s6 where "s6 = unmute_call P c s5"
  define s' where "s' = upd_uc a (set_devices out_d in_d) s6"
  note oc = unmute_call_only_calls [of s5 P c, folded s6_def]
  note m6 = moving_inv_frame [OF s5(2) oc]
  have l6: "usecase_list s6 = L2" using only_calls_fields [OF oc] s5(1) by simp
  have "routing_frame s6 s'"
    unfolding s'_def by (rule upd_uc_frame) (simp add: uc_shape_def)
  then have fr: "routing_frame s s'"
    using routing_frame_trans [OF routing_frame_trans [OF s5(3) only_calls_routing_frame [OF oc]]] by blast
  have l: "usecase_list s' = map (routed a out_d in_d) (usecase_list s)"
    unfolding s'_def upd_uc_fields l6 L2_def L1_def by (rule routed_lists)
  have "u \<in> set L2" using u by (auto simp: L1_def L2_def set_update_where image_iff)
  then have "ids_distinct s'" "cards_ok s'" "\<forall>v \<in> set (usecase_list s'). uc_ok v"
      "counts (uses (usecase_list s')) s'"
    using finish_move [of u _ s6 out_d in_d s'] m6 l6 t u(2) by (simp_all add: s'_def uses1_def)
  then show ?thesis using fr l by (simp add: s'_def s6_def Let_def)
qed

lemma route_usecase_list:
  assumes inv: "routing_inv s" and u: "u \<in> set (usecase_list s)" "uc_addr u = a"
    and t: "targets_ok u out_d in_d" and call: "call_reads_ok P s u"
    and ch: "\<not> (out_d = uc_out_snd_device u \<and> in_d = uc_in_snd_device u)"
  shows "wp (route_usecase P a out_d in_d s) (\<lambda>(r, s'). r = 0 \<and> routing_frame s s' \<and>
    usecase_list s' = map (routed a out_d in_d) (usecase_list s) \<and>
    ids_distinct s' \<and> cards_ok s' \<and> (\<forall>v \<in> set (usecase_list s'). uc_ok v) \<and>
    counts (uses (usecase_list s')) s')" (is "wp _ ?Q")
proof -
  let ?c = "uc_type u = VOICE_CALL \<or> in_call s"
  let ?o = "uc_out_snd_device u" and ?i = "uc_in_snd_device u"
  define L1 where "L1 = (if out_d \<noteq> SND_DEVICE_NONE
    then update_where (\<lambda>v. uc_type v = PCM_PLAYBACK \<and> uc_addr v \<noteq> a)
           (set_uc_snd_device PCM_PLAYBACK out_d) (usecase_list s) else usecase_list s)"
  define L2 where "L2 = (if in_d \<noteq> SND_DEVICE_NONE
    then update_where (\<lambda>v. uc_type v = PCM_CAPTURE \<and> uc_addr v \<noteq> a)
           (set_uc_snd_device PCM_CAPTURE in_d) L1 else L1)"
  have ids: "ids_distinct s" and uok: "uc_ok u"
    using inv u by (auto simp: routing_inv_def)
  define g0 where "g0 = uses1 u"
  define g1 where "g1 = (\<lambda>e. g0 e - holds ?o e)"
  define g2 where "g2 = (\<lambda>e. g1 e - holds ?i e)"
  define g3 where "g3 = (\<lambda>e. g2 e + holds out_d e)"
  define g4 where "g4 = (\<lambda>e. g3 e + holds in_d e)"
  have m0: "moving_inv a g0 s" using moving_inv_start [OF inv u(1)] u(2) by (simp add: g0_def)
  have last: "?Q (0, upd_uc a (set_devices out_d in_d) (unmute_call P ?c s5))"
    if "usecase_list s5 = L2" "moving_inv a g4 s5" "routing_frame s s5" for s5
    using route_finish [OF u t that [unfolded L2_def L1_def g4_def g3_def g2_def g1_def g0_def]]
    unfolding Let_def prod.case by blast
  have step4: "wp (acquire_snd_device u PCM_CAPTURE in_d s4)
      (\<lambda>s5. usecase_list s5 = L2 \<and> moving_inv a g4 s5 \<and> routing_frame s s5)"
    if s4: "usecase_list s4 = L1" "moving_inv a g3 s4" "routing_frame s s4" for s4
    using acquire_device_wp [OF s4(2) frame_card [OF s4(3) u(1)] u(2), of in_d PCM_CAPTURE] t
      routing_frame_trans [OF s4(3)]
    by (auto simp: L2_def s4(1) g4_def dev_for_def targets_ok_def in_snd_device_ok_def valid_dev_def
        elim!: wp_mono)
  have step3: "wp (acquire_snd_device u PCM_PLAYBACK out_d s3)
      (\<lambda>s4. usecase_list s4 = L1 \<and> moving_inv a g3 s4 \<and> routing_frame s s4)"
    if s3: "usecase_list s3 = usecase_list s" "moving_inv a g2 s3" "routing_frame s s3" for s3
    using acquire_device_wp [OF s3(2) frame_card [OF s3(3) u(1)] u(2), of out_d PCM_PLAYBACK] t
      routing_frame_trans [OF s3(3)]
    by (auto simp: L1_def s3(1) g3_def dev_for_def targets_ok_def out_snd_device_ok_def valid_dev_def
        elim!: wp_mono)
  have step2: "wp (release_snd_device u ?i s2)
      (\<lambda>s3. usecase_list s3 = usecase_list s \<and> moving_inv a g2 s3 \<and> routing_frame s s3)"
    if s2: "usecase_list s2 = usecase_list s" "moving_inv a g1 s2" "routing_frame s s2" for s2
    using release_device_wp [OF s2(2) frame_card [OF s2(3) u(1)], of ?i] uok
      routing_frame_trans [OF s2(3)] s2(1)
    by (auto simp: g2_def g1_def g0_def uses1_def uc_ok_def in_snd_device_ok_def valid_dev_def
        elim!: wp_mono)
  have step1: "wp (release_snd_device u ?o s1)
      (\<lambda>s2. usecase_list s2 = usecase_list s \<and> moving_inv a g1 s2 \<and> routing_frame s s2)"
    if oc: "only_calls s s1" for s1
  proof -
    note fr = only_calls_routing_frame [OF oc]
    have "wp (release_snd_device u ?o s1) (\<lambda>s2. usecase_list s2 = usecase_list s1 \<and>
      moving_inv a (\<lambda>e. g0 e - holds ?o e) s2 \<and> routing_frame s1 s2)"
      using uok by (intro release_device_wp moving_inv_frame [OF m0 oc] frame_card [OF fr u(1)])
        (auto simp: g0_def uses1_def uc_ok_def out_snd_device_ok_def valid_dev_def)
    then show ?thesis
      by (rule wp_mono) (auto simp: g1_def only_calls_fields(21) [OF oc] intro: routing_frame_trans [OF fr])
  qed
  have call: "wp (route_call P ?c u s) (only_calls s)"
    using call by (intro route_call_wp) (auto simp: call_reads_ok_def)
  have "uc_at s a = Some u" using uc_at_in [OF ids u(1)] u(2) by simp
  then have eq: "route_usecase P a out_d in_d s = do {
      s \<leftarrow> route_call P ?c u s;
      s \<leftarrow> release_snd_device u ?o s;
      s \<leftarrow> release_snd_device u ?i s;
      s \<leftarrow> acquire_snd_device u PCM_PLAYBACK out_d s;
      s \<leftarrow> acquire_snd_device u PCM_CAPTURE in_d s;
      Some (0, upd_uc a (set_devices out_d in_d) (unmute_call P ?c s))
    }"
    by (simp only: route_usecase_def option.simps bind.simps ch if_False Let_def)
  show ?thesis
    unfolding eq wp_bind
    apply (rule wp_mono [OF call])
    apply (rule wp_mono [OF step1], assumption)
    apply (rule wp_mono [OF step2], blast+)
    apply (rule wp_mono [OF step3], blast+)
    apply (rule wp_mono [OF step4], blast+)
    apply (simp only: wp_Some)
    apply (rule last, blast+)
    done
qed

lemma routed_fields [simp]:
  "uc_type (routed a out_d in_d v) = uc_type v" "uc_addr (routed a out_d in_d v) = uc_addr v"
  "uc_id (routed a out_d in_d v) = uc_id v" "uc_stream (routed a out_d in_d v) = uc_stream v"
  by (simp_all add: routed_def)

text \<open>A backend either moves to the new device as a whole, or only the moving use case changes.\<close>

lemma routed_device:
  assumes "uc_type v = ty" "ty \<noteq> VOICE_CALL"
  shows "uc_snd_device ty (routed a out_d in_d v) =
    (let d = (if ty = PCM_PLAYBACK then out_d else in_d)
     in if uc_addr v = a \<or> d \<noteq> SND_DEVICE_NONE then d else uc_snd_device ty v)"
  using assms by (cases ty) (simp_all add: routed_def uc_snd_device_def)

lemma shared_routed:
  assumes sh: "shared_backend ty s" and l: "usecase_list s' = map (routed a out_d in_d) (usecase_list s)"
    and ty: "ty \<noteq> VOICE_CALL"
  shows "shared_backend ty s'"
proof -
  let ?r = "routed a out_d in_d"
  have "uc_snd_device ty (?r u) = uc_snd_device ty (?r v)"
    if "u \<in> set (usecase_list s)" "v \<in> set (usecase_list s)" "uc_type u = ty" "uc_type v = ty"
      "uc_snd_device ty (?r u) \<noteq> SND_DEVICE_NONE" "uc_snd_device ty (?r v) \<noteq> SND_DEVICE_NONE" for u v
    using that sh routed_device [OF that(3) ty] routed_device [OF that(4) ty]
    unfolding shared_backend_def by (simp add: Let_def split: if_splits)
  then show ?thesis unfolding shared_backend_def l by simp
qed

lemma route_usecase_wp:
  assumes inv: "routing_inv s" and u: "u \<in> set (usecase_list s)" "uc_addr u = a"
    and t: "targets_ok u out_d in_d" and call: "call_reads_ok P s u"
  shows "wp (route_usecase P a out_d in_d s) (\<lambda>(r, s'). r = 0 \<and> routing_inv s' \<and> routing_frame s s' \<and>
    usecase_list s' =
      (if out_d = uc_out_snd_device u \<and> in_d = uc_in_snd_device u then usecase_list s
       else map (routed a out_d in_d) (usecase_list s)))"
proof (cases "out_d = uc_out_snd_device u \<and> in_d = uc_in_snd_device u")
  case True
  have "uc_at s a = Some u" using inv u uc_at_in by (auto simp: routing_inv_def)
  then show ?thesis using True inv by (simp add: route_usecase_def)
next
  case False
  have "routing_inv s'"
    if "usecase_list s' = map (routed a out_d in_d) (usecase_list s)" "ids_distinct s'" "cards_ok s'"
      "\<forall>v \<in> set (usecase_list s'). uc_ok v" "counts (uses (usecase_list s')) s'" for s'
    using that inv shared_routed [OF _ that(1)] by (auto simp: routing_inv_def)
  then show ?thesis
    using route_usecase_list [OF assms False] False by (auto elim!: wp_mono)
qed

section \<open>Selecting the devices\<close>

definition stream_live :: "hal \<Rightarrow> stream_ref \<Rightarrow> bool" where
  "stream_live s r = (case r of OutRef a \<Rightarrow> outs s a \<noteq> None | InRef a \<Rightarrow> ins s a \<noteq> None)"

text \<open>
  The pointers that \<open>select_devices\<close> follows are valid: the streams of the active use cases and
  the primary output, which exists while there is a call.
\<close>

definition pointers_ok :: "platform \<Rightarrow> hal \<Rightarrow> bool" where
  "pointers_ok P s \<longleftrightarrow>
     (\<forall>u \<in> set (usecase_list s). stream_live s (uc_stream u)) \<and>
     (\<forall>p. primary_output s = Some p \<longrightarrow> outs s p \<noteq> None) \<and>
     (mode s = AUDIO_MODE_IN_CALL P \<and>
      (in_call s \<or> (\<exists>u \<in> set (usecase_list s). uc_type u = VOICE_CALL)) \<longrightarrow> primary_output s \<noteq> None)"

text \<open>
  What is read through the pointer \<open>active_input\<close> does not send \<open>select_devices\<close> back to an
  output: it holds when the active input is a capture, whose stream names its own use case.
\<close>

definition recursion_ok :: "platform \<Rightarrow> hal \<Rightarrow> bool" where
  "recursion_ok P s \<longleftrightarrow>
     (\<forall>u v w. get_usecase_from_type (usecase_list s)
               (usecase_type_val PCM_CAPTURE OR usecase_type_val VOICE_CALL) = Some u \<longrightarrow>
        stream_as_in P s (uc_stream u) = Some v \<longrightarrow>
        iv_source v = AUDIO_SOURCE_VOICE_COMMUNICATION P \<longrightarrow>
        get_usecase_from_id (usecase_list s) (iv_usecase v) = Some w \<longrightarrow> uc_type w \<noteq> PCM_PLAYBACK)"

lemma stream_reads:
  assumes "stream_live s r"
  shows "\<exists>d. stream_out_devices P s r = Some d" "\<exists>v. stream_as_in P s r = Some v"
  using assms by (auto simp: stream_live_def stream_out_devices_def stream_as_in_def split: stream_ref.splits)

lemma active_input_returns:
  assumes "pointers_ok P s"
  shows "\<exists>v. active_input_of P s = Some v"
proof (cases "get_usecase_from_type (usecase_list s)
    (usecase_type_val PCM_CAPTURE OR usecase_type_val VOICE_CALL)")
  case None
  then show ?thesis by (simp add: active_input_of_def)
next
  case (Some u)
  then have "u \<in> set (usecase_list s)" using get_usecase_from_type_capture_voice by blast
  then have "stream_live s (uc_stream u)" using assms by (simp add: pointers_ok_def)
  then obtain v where "stream_as_in P s (uc_stream u) = Some v" using stream_reads(2) by blast
  with Some show ?thesis by (simp add: active_input_of_def)
qed

lemma active_input_capture:
  assumes "pointers_ok P s" "u \<in> set (usecase_list s)" "uc_type u = PCM_CAPTURE"
  shows "\<exists>v. active_input_of P s = Some (Some v)"
proof -
  have "get_usecase_from_type (usecase_list s)
      (usecase_type_val PCM_CAPTURE OR usecase_type_val VOICE_CALL) \<noteq> None"
    using assms(2,3) by (auto simp: get_usecase_from_type_def find_None_all intro!: bexI [of _ u])
  moreover obtain v where "active_input_of P s = Some v" using active_input_returns [OF assms(1)] by blast
  ultimately show ?thesis by (auto simp: active_input_of_def split: option.splits)
qed

lemma call_reads:
  assumes "pointers_ok P s" "u \<in> set (usecase_list s)"
  shows "call_reads_ok P s u"
  using assms stream_reads(1) [of s "uc_stream u" P]
  by (force simp: call_reads_ok_def pointers_ok_def primary_devices_def)

text \<open>The invariant and the pointers do not depend on the device masks of the use cases.\<close>

abbreviation set_mask :: "u32 \<Rightarrow> audio_usecase \<Rightarrow> audio_usecase" where
  "set_mask d u \<equiv> u\<lparr>uc_devices := d\<rparr>"

lemma set_mask_frame: "routing_frame s (upd_uc a (set_mask d) s)"
  by (rule upd_uc_frame) (simp add: uc_shape_def)

lemma routing_inv_mask:
  assumes "routing_inv s"
  shows "routing_inv (upd_uc a (set_mask d) s)"
proof -
  let ?s = "upd_uc a (set_mask d) s"
  note fr = set_mask_frame [of s a d]
  have "uses (usecase_list ?s) e = uses (usecase_list s) e" for e
    unfolding uses_def update_where_def upd_uc_fields
    by (simp add: comp_def uses1_def if_distrib cong: if_cong)
  then have "uses (usecase_list ?s) = uses (usecase_list s)" by blast
  then have "counts (uses (usecase_list ?s)) ?s"
    using assms by (simp add: routing_inv_def)
  moreover have "shared_backend ty ?s" if sh: "shared_backend ty s" for ty
  proof -
    let ?f = "\<lambda>u. if uc_addr u = a then set_mask d u else u"
    have f: "uc_type (?f u) = uc_type u" "uc_snd_device ty (?f u) = uc_snd_device ty u" for u
      by (simp_all add: uc_snd_device_def)
    show ?thesis
      using sh unfolding shared_backend_def upd_uc_fields set_update_where ball_simps f by blast
  qed
  moreover have "\<forall>u \<in> set (usecase_list ?s). uc_ok u"
    using assms by (auto simp: routing_inv_def set_update_where uc_ok_def)
  ultimately show ?thesis
    using assms shape_ids [OF routing_frame_shape [OF fr]] shape_cards [OF routing_frame_shape [OF fr]]
      routing_frame_fields(1) [OF fr]
    by (simp add: routing_inv_def)
qed

lemma frame_member:
  assumes "routing_frame s t" "u \<in> set (usecase_list s)"
  obtains v where "v \<in> set (usecase_list t)" "uc_shape v = uc_shape u"
proof -
  have "uc_shape u \<in> set (map uc_shape (usecase_list t))"
    using assms(2) routing_frame_shape [OF assms(1)] by simp
  then show ?thesis using that by auto
qed

lemma pointers_ok_frame:
  assumes "pointers_ok P s" "routing_frame s t"
  shows "pointers_ok P t"
proof -
  have "stream_live t = stream_live s"
    using routing_frame_fields(6,7) [OF assms(2)] by (simp add: stream_live_def fun_eq_iff split: stream_ref.split)
  moreover have "\<exists>w \<in> set (usecase_list s). uc_shape w = uc_shape u" if "u \<in> set (usecase_list t)" for u
  proof -
    have "uc_shape u \<in> set (map uc_shape (usecase_list s))"
      using that routing_frame_shape [OF assms(2)] by (metis image_eqI list.set_map)
    then show ?thesis by auto
  qed
  then have "\<exists>w \<in> set (usecase_list s). uc_stream w = uc_stream u \<and> uc_type w = uc_type u"
    if "u \<in> set (usecase_list t)" for u
    using that by (fastforce simp: uc_shape_def)
  ultimately show ?thesis
    using assms(1) routing_frame_fields(2,3,5,6) [OF assms(2)]
    unfolding pointers_ok_def by (metis (no_types, lifting))
qed

text \<open>What a selection establishes for the use case \<open>u\<close> of the starting state.\<close>

definition selected ::
  "audio_usecase \<Rightarrow> snd_device_t \<Rightarrow> snd_device_t \<Rightarrow> hal \<Rightarrow> int \<times> hal \<Rightarrow> bool" where
  "selected u out_d in_d s r \<longleftrightarrow>
     fst r = 0 \<and> routing_inv (snd r) \<and> routing_frame s (snd r) \<and>
     (\<exists>v \<in> set (usecase_list (snd r)). uc_shape v = uc_shape u \<and>
        uc_out_snd_device v = out_d \<and> uc_in_snd_device v = in_d)"

lemma route_usecase_selected:
  assumes fr: "routing_frame s t" and inv: "routing_inv t" and ptr: "pointers_ok P t"
    and u: "u \<in> set (usecase_list s)" and ok: "targets_ok u out_d in_d"
  shows "wp (route_usecase P (uc_addr u) out_d in_d t) (selected u out_d in_d s)"
proof -
  obtain v where v: "v \<in> set (usecase_list t)" "uc_shape v = uc_shape u"
    using frame_member [OF fr u] .
  then have v': "uc_addr v = uc_addr u" "targets_ok v out_d in_d"
    using ok by (simp_all add: uc_shape_def targets_ok_def)
  let ?r = "routed (uc_addr u) out_d in_d"
  have "uc_shape (?r v) = uc_shape u \<and> uc_out_snd_device (?r v) = out_d \<and> uc_in_snd_device (?r v) = in_d"
    using v v' by (simp add: routed_def uc_shape_def)
  then have "selected u out_d in_d s (0, s')"
    if "routing_inv s'" "routing_frame t s'"
      "usecase_list s' = (if out_d = uc_out_snd_device v \<and> in_d = uc_in_snd_device v then usecase_list t
                          else map ?r (usecase_list t))" for s'
    using that v routing_frame_trans [OF fr] by (auto simp: selected_def split: if_splits)
  then show ?thesis
    using route_usecase_wp [OF inv v(1) v'(1,2) call_reads [OF ptr v(1)]] by (auto elim!: wp_mono)
qed

text \<open>The devices that \<open>select_devices\<close> chooses.\<close>

definition stream_mask :: "platform \<Rightarrow> hal \<Rightarrow> audio_usecase \<Rightarrow> u32" where
  "stream_mask P s u = the (stream_out_devices P s (uc_stream u))"

definition playback_target :: "platform \<Rightarrow> hal \<Rightarrow> audio_usecase \<Rightarrow> snd_device_t" where
  "playback_target P s u =
     (if fst (call_snd_devices P s) \<noteq> SND_DEVICE_NONE then fst (call_snd_devices P s)
      else get_output_snd_device P s (stream_mask P s u))"

text \<open>
  The output mask that decides the microphone of a capture: that of the primary output when it
  is playing and the source is \<open>VOICE_COMMUNICATION\<close>.
\<close>

definition capture_out_mask :: "platform \<Rightarrow> hal \<Rightarrow> u32" where
  "capture_out_mask P s =
     (case active_input_of P s of
        Some (Some i) \<Rightarrow>
          (if iv_source i = AUDIO_SOURCE_VOICE_COMMUNICATION P then
             (case Option.bind (primary_output s) (outs s) of
                Some out \<Rightarrow> if so_standby out then AUDIO_DEVICE_NONE P else so_devices out
              | None \<Rightarrow> AUDIO_DEVICE_NONE P)
           else AUDIO_DEVICE_NONE P)
      | _ \<Rightarrow> AUDIO_DEVICE_NONE P)"

definition capture_target :: "platform \<Rightarrow> hal \<Rightarrow> snd_device_t" where
  "capture_target P s =
     (if snd (call_snd_devices P s) \<noteq> SND_DEVICE_NONE then snd (call_snd_devices P s)
      else the (get_input_snd_device P s (capture_out_mask P s)))"

lemma call_snd_devices_ok:
  assumes "routing_inv s"
  shows "out_snd_device_ok (fst (call_snd_devices P s))" "in_snd_device_ok (snd (call_snd_devices P s))"
proof -
  have "out_snd_device_ok (uc_out_snd_device u) \<and> in_snd_device_ok (uc_in_snd_device u)"
    if "get_usecase_from_id (usecase_list s) USECASE_VOICE_CALL = Some u" for u
    using usecases.lookup_SomeD [OF that] assms by (simp add: routing_inv_def uc_ok_def)
  then show "out_snd_device_ok (fst (call_snd_devices P s))" "in_snd_device_ok (snd (call_snd_devices P s))"
    by (auto simp: call_snd_devices_def out_snd_device_ok_def in_snd_device_ok_def split: option.split)
qed

lemma get_output_snd_device_frame:
  "routing_frame s t \<Longrightarrow> get_output_snd_device P t d = get_output_snd_device P s d"
  by (simp add: get_output_snd_device_def routing_frame_fields)

lemma usecase_from_type_mask:
  "get_usecase_from_type (update_where (\<lambda>u. uc_addr u = a) (set_mask d) us) ty =
   map_option (\<lambda>u. if uc_addr u = a then set_mask d u else u) (get_usecase_from_type us ty)"
  by (induction us) (simp_all add: get_usecase_from_type_def)

lemma active_input_mask: "active_input_of P (upd_uc a (set_mask d) s) = active_input_of P s"
proof -
  have "stream_as_in P (upd_uc a (set_mask d) s) r = stream_as_in P s r" for r
    by (simp add: stream_as_in_def split: stream_ref.split)
  then show ?thesis
    by (simp add: active_input_of_def usecase_from_type_mask split: option.split)
qed

lemma get_input_snd_device_mask:
  "get_input_snd_device P (upd_uc a (set_mask d) s) = get_input_snd_device P s"
proof -
  have f: "mode (upd_uc a (set_mask d) s) = mode s" "wb_amr_type (upd_uc a (set_mask d) s) = wb_amr_type s"
    "bluetooth_wb (upd_uc a (set_mask d) s) = bluetooth_wb s"
    by (simp_all add: upd_uc_def)
  show ?thesis
    by (intro ext) (simp only: get_input_snd_device_def input_snd_device_by_source_def active_input_mask f)
qed

text \<open>A voice call and a capture are routed without recursion.\<close>

lemma select_voice_call:
  assumes inv: "routing_inv s" and ptr: "pointers_ok P s"
    and u: "get_usecase_from_id (usecase_list s) uid = Some u" and ty: "uc_type u = VOICE_CALL"
  shows "wp (select_devices P uid s)
    (selected u (get_output_snd_device P s (stream_mask P s u))
       (the (get_input_snd_device P s (stream_mask P s u))) s)"
proof -
  have ul: "u \<in> set (usecase_list s)" using usecases.lookup_SomeD [OF u] by simp
  obtain d where d: "stream_out_devices P s (uc_stream u) = Some d"
    using ptr ul stream_reads(1) unfolding pointers_ok_def by blast
  obtain v where "active_input_of P s = Some v" using active_input_returns [OF ptr] by blast
  then obtain i where i: "get_input_snd_device P s d = Some i"
    using get_input_snd_device_returns by blast
  have ok: "targets_ok u (get_output_snd_device P s d) i"
    using get_input_snd_device_ok [OF i] get_output_snd_device_ok ty by (simp add: targets_ok_def)
  have "wp (route_usecase P (uc_addr u) (get_output_snd_device P s d) i (upd_uc (uc_addr u) (set_mask d) s))
    (selected u (get_output_snd_device P s d) i s)"
    by (rule route_usecase_selected [OF set_mask_frame routing_inv_mask [OF inv]
          pointers_ok_frame [OF ptr set_mask_frame] ul ok])
  then show ?thesis
    by (subst select_devices.simps) (simp add: u ty d i stream_mask_def Let_def)
qed

lemma select_capture:
  assumes inv: "routing_inv s" and ptr: "pointers_ok P s"
    and u: "get_usecase_from_id (usecase_list s) uid = Some u" and ty: "uc_type u = PCM_CAPTURE"
  shows "wp (select_devices P uid s) (selected u SND_DEVICE_NONE (capture_target P s) s)"
proof -
  have ul: "u \<in> set (usecase_list s)" using usecases.lookup_SomeD [OF u] by simp
  obtain i where i: "stream_as_in P s (uc_stream u) = Some i"
    using ptr ul stream_reads(2) unfolding pointers_ok_def by blast
  obtain v where v: "active_input_of P s = Some (Some v)"
    using active_input_capture [OF ptr ul ty] by blast
  obtain j where j: "get_input_snd_device P s (capture_out_mask P s) = Some j"
    using get_input_snd_device_returns [OF v] by blast
  let ?s = "upd_uc (uc_addr u) (set_mask (iv_devices i)) s"
  have ok: "targets_ok u SND_DEVICE_NONE (capture_target P s)"
    using get_input_snd_device_ok [OF j] call_snd_devices_ok(2) [OF inv] ty j
    by (simp add: targets_ok_def capture_target_def out_snd_device_ok_def)
  have r: "wp (route_usecase P (uc_addr u) SND_DEVICE_NONE (capture_target P s) ?s)
    (selected u SND_DEVICE_NONE (capture_target P s) s)"
    by (rule route_usecase_selected [OF set_mask_frame routing_inv_mask [OF inv]
          pointers_ok_frame [OF ptr set_mask_frame] ul ok])
  show ?thesis
  proof (cases "snd (call_snd_devices P s) = SND_DEVICE_NONE")
    case False
    then have "select_devices P uid s = route_usecase P (uc_addr u) SND_DEVICE_NONE (capture_target P s) ?s"
      by (subst select_devices.simps) (simp add: u ty i Let_def capture_target_def)
    with r show ?thesis by simp
  next
    case True
    have live: "outs s p \<noteq> None" if "primary_output s = Some p" for p
      using that ptr by (simp add: pointers_ok_def)
    have "select_devices P uid s = route_usecase P (uc_addr u) SND_DEVICE_NONE (capture_target P s) ?s"
      using live j
      by (subst select_devices.simps)
        (auto simp: u ty i v Let_def capture_target_def capture_out_mask_def True
          get_input_snd_device_mask split: option.splits if_splits)
    with r show ?thesis by simp
  qed
qed

text \<open>The recursion for the active input does not come back to an output.\<close>

lemma select_not_playback:
  assumes inv: "routing_inv s" and ptr: "pointers_ok P s"
    and np: "\<And>w. get_usecase_from_id (usecase_list s) uid = Some w \<Longrightarrow> uc_type w \<noteq> PCM_PLAYBACK"
  shows "wp (select_devices P uid s) (\<lambda>(r, s'). routing_inv s' \<and> routing_frame s s')"
proof (cases "get_usecase_from_id (usecase_list s) uid")
  case None
  then show ?thesis using inv by (subst select_devices.simps) simp
next
  case (Some w)
  then have "uc_type w = PCM_CAPTURE \<or> uc_type w = VOICE_CALL" using np by (cases "uc_type w") auto
  then show ?thesis
    using select_capture [OF inv ptr Some] select_voice_call [OF inv ptr Some]
    by (auto simp: selected_def elim!: wp_mono)
qed

lemma id_lookup_mask:
  "get_usecase_from_id (update_where (\<lambda>u. uc_addr u = a) (set_mask d) us) uid =
   map_option (\<lambda>u. if uc_addr u = a then set_mask d u else u) (get_usecase_from_id us uid)"
  by (induction us) (simp_all add: get_usecase_from_id_def)

lemma select_playback:
  assumes inv: "routing_inv s" and ptr: "pointers_ok P s" and rec: "recursion_ok P s"
    and u: "get_usecase_from_id (usecase_list s) uid = Some u" and ty: "uc_type u = PCM_PLAYBACK"
  shows "wp (select_devices P uid s) (selected u (playback_target P s u) SND_DEVICE_NONE s)"
proof -
  have ul: "u \<in> set (usecase_list s)" using usecases.lookup_SomeD [OF u] by simp
  obtain d where d: "stream_out_devices P s (uc_stream u) = Some d"
    using ptr ul stream_reads(1) unfolding pointers_ok_def by blast
  let ?s = "upd_uc (uc_addr u) (set_mask d) s"
  note inv' = routing_inv_mask [OF inv] and ptr' = pointers_ok_frame [OF ptr set_mask_frame]
  have ok: "targets_ok u (playback_target P s u) SND_DEVICE_NONE"
    using call_snd_devices_ok(1) [OF inv] ty get_output_snd_device_ok
    by (simp add: targets_ok_def playback_target_def in_snd_device_ok_def)
  have route: "wp (route_usecase P (uc_addr u) (playback_target P s u) SND_DEVICE_NONE t)
      (selected u (playback_target P s u) SND_DEVICE_NONE s)"
    if "routing_inv t" "routing_frame s t" for t
    by (rule route_usecase_selected [OF that(2,1) pointers_ok_frame [OF ptr that(2)] ul ok])
  show ?thesis
  proof (cases "fst (call_snd_devices P s) = SND_DEVICE_NONE")
    case False
    then have "select_devices P uid s = route_usecase P (uc_addr u) (playback_target P s u) SND_DEVICE_NONE ?s"
      by (subst select_devices.simps) (simp add: u ty d Let_def playback_target_def)
    then show ?thesis using route [OF inv' set_mask_frame] by simp
  next
    case True
    then have target: "playback_target P s u = get_output_snd_device P ?s d"
      using get_output_snd_device_frame [OF set_mask_frame] d
      by (simp add: playback_target_def stream_mask_def)
    let ?active = "if map_option OutRef (primary_output s) = Some (uc_stream u)
        then get_usecase_from_type (usecase_list s)
               (usecase_type_val PCM_CAPTURE OR usecase_type_val VOICE_CALL)
        else None"
    let ?pre = "case ?active of
         None \<Rightarrow> Some ?s
       | Some active \<Rightarrow> do {
           active_input \<leftarrow> stream_as_in P ?s (uc_stream active);
           if iv_source active_input = AUDIO_SOURCE_VOICE_COMMUNICATION P
           then do { r \<leftarrow> select_devices P (iv_usecase active_input) ?s; Some (snd r) }
           else Some ?s
         }"
    have eq: "select_devices P uid s =
        Option.bind ?pre (route_usecase P (uc_addr u) (playback_target P s u) SND_DEVICE_NONE)"
      using True by (subst select_devices.simps) (simp add: u ty d Let_def target)
    have pre: "wp ?pre (\<lambda>t. routing_inv t \<and> routing_frame s t)"
    proof (cases ?active)
      case None
      then show ?thesis using inv' set_mask_frame by simp
    next
      case (Some active)
      then have act: "get_usecase_from_type (usecase_list s)
          (usecase_type_val PCM_CAPTURE OR usecase_type_val VOICE_CALL) = Some active"
        by (simp split: if_splits)
      then have "active \<in> set (usecase_list s)" using get_usecase_from_type_capture_voice by blast
      then have "stream_live s (uc_stream active)" using ptr by (simp add: pointers_ok_def)
      then obtain v where v: "stream_as_in P s (uc_stream active) = Some v" using stream_reads(2) by blast
      then have v': "stream_as_in P ?s (uc_stream active) = Some v"
        by (simp add: stream_as_in_def split: stream_ref.splits)
      show ?thesis
      proof (cases "iv_source v = AUDIO_SOURCE_VOICE_COMMUNICATION P")
        case False
        then show ?thesis using Some v' inv' set_mask_frame by simp
      next
        case vc: True
        have np: "uc_type w \<noteq> PCM_PLAYBACK"
          if "get_usecase_from_id (usecase_list ?s) (iv_usecase v) = Some w" for w
          using that rec act v vc
          by (auto simp: recursion_ok_def id_lookup_mask split: if_splits)
        have "wp (select_devices P (iv_usecase v) ?s) (\<lambda>(r, t). routing_inv t \<and> routing_frame ?s t)"
          using select_not_playback [OF inv' ptr' np] .
        then have "wp (select_devices P (iv_usecase v) ?s) (\<lambda>r. routing_inv (snd r) \<and> routing_frame s (snd r))"
          by (rule wp_mono) (auto intro: routing_frame_trans [OF set_mask_frame])
        then show ?thesis using Some v' vc by simp
      qed
    qed
    show ?thesis
      unfolding eq by (rule wp_mono_bind [OF pre]) (use route in blast)
  qed
qed

text \<open>In all cases the invariant is kept.\<close>

lemma select_devices_wp:
  assumes inv: "routing_inv s" and ptr: "pointers_ok P s" and rec: "recursion_ok P s"
  shows "wp (select_devices P uid s) (\<lambda>(r, s'). routing_inv s' \<and> routing_frame s s' \<and>
    r = (if get_usecase_from_id (usecase_list s) uid = None then - EINVAL else 0))"
proof (cases "get_usecase_from_id (usecase_list s) uid")
  case None
  then show ?thesis using inv by (subst select_devices.simps) simp
next
  case (Some u)
  then show ?thesis
    using select_playback [OF inv ptr rec Some] select_capture [OF inv ptr Some]
      select_voice_call [OF inv ptr Some]
    by (cases "uc_type u") (auto simp: selected_def elim!: wp_mono)
qed

end
