(* ===== verification/RoutingClaims.thy ===== *)
theory RoutingClaims
  imports RoutingSelect Demo
begin

text \<open>
  The properties of routing.  The abstract view of the hardware is the set of mixer paths that
  are applied; the specification says that it is the set of paths of the devices that the
  active use cases are assigned to.
\<close>

section \<open>Checking the invariant on concrete states\<close>

lemma valid_dev_list: "valid_dev d \<longleftrightarrow> d \<in> set [1..38]"
  by (auto simp: valid_dev_def)

lemma counts_check:
  "counts f s \<longleftrightarrow> length (snd_dev_ref_cnt s) = 39 \<and> snd_dev_ref_cnt s ! 0 = 0 \<and>
     list_all (\<lambda>d. refs s d = f d) [1..38]"
  by (simp only: counts_def valid_dev_list list_all_iff Ball_def)

lemmas routing_inv_check = routing_inv_def ids_distinct_def cards_ok_def uc_ok_def
  shared_backend_def counts_check refs_def uses_def uses1_def uc_snd_device_def
  out_snd_device_ok_def in_snd_device_ok_def

lemmas demo_state = demo_playing_def demo_hal_def demo_usecase_def demo_card_def demo_out_def

lemma upto_1_38: "[1..38] = [1, 2, 3, 4, 5, 6, 7, 8, 9, 10, 11, 12, 13, 14, 15, 16, 17, 18, 19, 20,
   21, 22, 23, 24, 25, 26, 27, 28, 29, 30, 31, 32, 33, 34, 35, 36, 37, 38 :: int]"
  by code_simp

lemma demo_playing_inv: "routing_inv demo_playing"
  by (simp add: routing_inv_check demo_state upto_1_38)

lemma demo_playing_pointers: "pointers_ok demo demo_playing"
  by (simp add: pointers_ok_def stream_live_def demo_state)

lemma demo_playing_recursion: "recursion_ok demo demo_playing"
  by (simp add: recursion_ok_def get_usecase_from_type_def demo_state)

lemma demo_playing_card: "all_on_card demo_playing"
  by (simp add: all_on_card_def demo_state)

lemma demo_playing_routes: "routes_ok demo_playing"
proof -
  have "{d. valid_dev d \<and> 0 < refs demo_playing d} = set (filter (\<lambda>d. 0 < refs demo_playing d) [1..38])"
    unfolding valid_dev_list by auto
  also have "\<dots> = {2}"
    by (simp add: upto_1_38 refs_def demo_state)
  finally have d: "valid_dev d \<and> 0 < refs demo_playing d \<longleftrightarrow> d = 2" for d by blast
  have "list_all (\<lambda>d. 0 \<le> refs demo_playing d) [1..38]"
    by (simp add: upto_1_38 refs_def demo_state)
  then have "0 \<le> refs demo_playing d" if "valid_dev d" for d
    using that by (simp add: valid_dev_list list_all_iff)
  moreover have "adev_get_mixer_for_card (mixer_list demo_playing) SOUND_CARD = Some demo_card"
    by (simp add: adev_get_mixer_for_card_def demo_state)
  moreover have "active_routes (trace demo_playing) = {(11, ''route-speaker'')}"
    by (simp add: demo_state)
  moreover have "length (snd_dev_ref_cnt demo_playing) = 39" by (simp add: demo_state)
  ultimately show ?thesis
    by (simp add: routes_ok_def d) (simp add: demo_card_def device_table_def)
qed

section \<open>The specification\<close>

definition paths_in_use :: "mixer_card \<Rightarrow> audio_usecase list \<Rightarrow> (nat \<times> string) set" where
  "paths_in_use mc us =
     {(mc_audio_route mc, device_table ! nat d) | d u.
        u \<in> set us \<and> valid_dev d \<and> (uc_out_snd_device u = d \<or> uc_in_snd_device u = d)}"

lemma uses_positive: "0 < uses us d \<longleftrightarrow> (\<exists>u \<in> set us. uc_out_snd_device u = d \<or> uc_in_snd_device u = d)"
proof (induction us)
  case (Cons u us)
  have "0 < uses1 u d \<longleftrightarrow> uc_out_snd_device u = d \<or> uc_in_snd_device u = d"
    by (simp add: uses1_def)
  moreover have "0 < uses (u # us) d \<longleftrightarrow> 0 < uses1 u d \<or> 0 < uses us d"
    using uses1_nonneg [of u d] uses_nonneg [of us d] unfolding uses_simps by linarith
  ultimately show ?case using Cons by simp
qed simp

lemma routes_abstract:
  assumes "routing_inv s" "routes_ok s"
  shows "\<exists>mc. adev_get_mixer_for_card (mixer_list s) SOUND_CARD = Some mc \<and>
    active_routes (trace s) = paths_in_use mc (usecase_list s)"
proof -
  have "refs s d = uses (usecase_list s) d" if "valid_dev d" for d
    using assms(1) that by (simp add: routing_inv_def counts_def)
  then have "{(mc_audio_route mc, device_table ! nat d) | d. valid_dev d \<and> 0 < refs s d} =
      paths_in_use mc (usecase_list s)" for mc
    unfolding paths_in_use_def using uses_positive [of "usecase_list s"] by fastforce
  then show ?thesis
    using assms(2) by (auto simp: routes_ok_def)
qed

section \<open>Properties\<close>

text \<open>
  C3. \<open>select_devices\<close> returns for every use case id (its recursion ends and it follows no bad
  pointer), and afterwards the reference count of every sound device is again the number of
  active use cases that use it, with all use cases of one backend on one device.
\<close>

theorem select_devices_keeps_counts:
  assumes "routing_inv s" and "pointers_ok P s" and "recursion_ok P s"
  shows "\<exists>r s'. select_devices P uid s = Some (r, s') \<and> routing_inv s' \<and>
    (\<forall>d. valid_dev d \<longrightarrow> refs s' d = uses (usecase_list s') d)"
  using select_devices_wp [OF assms, of uid]
  by (auto simp: wp_exists routing_inv_def counts_def)

theorem select_devices_keeps_counts_witness:
  "\<exists>r s'. select_devices demo USECASE_AUDIO_PLAYBACK demo_playing = Some (r, s') \<and> routing_inv s' \<and>
    (\<forall>d. valid_dev d \<longrightarrow> refs s' d = uses (usecase_list s') d)"
  using select_devices_keeps_counts
    [OF demo_playing_inv demo_playing_pointers demo_playing_recursion, of USECASE_AUDIO_PLAYBACK] .

text \<open>
  Refinement: with the abstract state of the mixer taken to be the set of applied paths, a
  state in which these are the paths of the devices in use is taken by \<open>select_devices\<close> to a
  state in which they are again exactly the paths of the devices in use.
\<close>

lemma select_devices_refines_paths:
  assumes "routing_inv s" and "pointers_ok P s" and "recursion_ok P s"
    and "all_on_card s" and "routes_ok s"
  shows "\<exists>r s' mc. select_devices P uid s = Some (r, s') \<and>
    adev_get_mixer_for_card (mixer_list s') SOUND_CARD = Some mc \<and>
    active_routes (trace s') = paths_in_use mc (usecase_list s')"
proof -
  obtain r s' where s': "select_devices P uid s = Some (r, s')" "routing_inv s'" "routing_frame s s'"
    using select_devices_wp [OF assms(1-3), of uid] by (auto simp: wp_exists)
  then have "routes_ok s'" using assms(4,5) by (simp add: routing_frame_def)
  then show ?thesis using s'(1) routes_abstract [OF s'(2)] by blast
qed

text \<open>
  C18. The result for a playback use case: it is routed to the device of the voice call while one
  is active, and to the device that \<open>get_output_snd_device\<close> gives for its stream otherwise; every
  other playback use case that is routed at all is then routed to the same device.
\<close>

theorem select_devices_playback_target:
  assumes "routing_inv s" and "pointers_ok P s" and "recursion_ok P s"
    and "get_usecase_from_id (usecase_list s) uid = Some u" and "uc_type u = PCM_PLAYBACK"
    and "playback_target P s u \<noteq> SND_DEVICE_NONE"
  shows "\<exists>s' v. select_devices P uid s = Some (0, s') \<and>
    get_usecase_from_id (usecase_list s') uid = Some v \<and>
    uc_out_snd_device v = playback_target P s u \<and> uc_in_snd_device v = SND_DEVICE_NONE \<and>
    (\<forall>w \<in> set (usecase_list s'). uc_type w = PCM_PLAYBACK \<longrightarrow>
       uc_out_snd_device w = SND_DEVICE_NONE \<or> uc_out_snd_device w = playback_target P s u)"
proof -
  obtain s' v where s': "select_devices P uid s = Some (0, s')" "routing_inv s'"
    and v: "v \<in> set (usecase_list s')" "uc_shape v = uc_shape u"
      "uc_out_snd_device v = playback_target P s u" "uc_in_snd_device v = SND_DEVICE_NONE"
    using select_playback [OF assms(1-5)] by (auto simp: wp_exists selected_def)
  have ids: "distinct (map uc_id (usecase_list s'))"
    using s'(2) by (simp add: routing_inv_def ids_distinct_def)
  have id: "uc_id v = uid" and ty: "uc_type v = PCM_PLAYBACK"
    using v(2) usecases.lookup_SomeD [OF assms(4)] assms(5) by (auto simp: uc_shape_def)
  have "get_usecase_from_id (usecase_list s') uid = Some v"
    using usecases.lookup_unique [OF ids v(1)] id by simp
  moreover have "shared_backend PCM_PLAYBACK s'" using s'(2) by (simp add: routing_inv_def)
  ultimately show ?thesis
    using s'(1) v ty assms(6) by (fastforce simp: shared_backend_def uc_snd_device_def)
qed

lemma demo_playing_target: "playback_target demo demo_playing demo_usecase = SND_DEVICE_OUT_HEADPHONES"
proof -
  have "popcount 4 = 1" by code_simp
  then show ?thesis
    by (simp add: playback_target_def call_snd_devices_def stream_mask_def stream_out_devices_def
        get_output_snd_device_def demo_state demo_def Let_def)
qed

theorem select_devices_playback_target_witness:
  "\<exists>s' v. select_devices demo USECASE_AUDIO_PLAYBACK demo_playing = Some (0, s') \<and>
    get_usecase_from_id (usecase_list s') USECASE_AUDIO_PLAYBACK = Some v \<and>
    uc_out_snd_device v = SND_DEVICE_OUT_HEADPHONES \<and> uc_in_snd_device v = SND_DEVICE_NONE \<and>
    (\<forall>w \<in> set (usecase_list s'). uc_type w = PCM_PLAYBACK \<longrightarrow>
       uc_out_snd_device w = SND_DEVICE_NONE \<or> uc_out_snd_device w = SND_DEVICE_OUT_HEADPHONES)"
proof -
  have u: "get_usecase_from_id (usecase_list demo_playing) USECASE_AUDIO_PLAYBACK = Some demo_usecase"
    "uc_type demo_usecase = PCM_PLAYBACK"
    by (simp_all add: get_usecase_from_id_def demo_state)
  show ?thesis
    using select_devices_playback_target [OF demo_playing_inv demo_playing_pointers
        demo_playing_recursion u] demo_playing_target by simp
qed

end
