(* ===== verification/OutPath.thy ===== *)
theory OutPath
  imports Routing
begin

text \<open>
  The path of an output stream in \<open>audio/audio_hw.c\<close>: its use case and PCM devices, from
  \<open>uc_select_pcm_devices\<close> to \<open>start_output_stream\<close> and \<open>stop_output_stream\<close>.  All of it runs
  with the stream's mutex and the device mutex held.
\<close>

section \<open>Objects of the heap\<close>

definition upd_out :: "nat \<Rightarrow> (stream_out \<Rightarrow> stream_out) \<Rightarrow> hal \<Rightarrow> hal" where
  "upd_out a f s = s\<lparr>outs := (outs s)(a := map_option f (outs s a))\<rparr>"

definition upd_in :: "nat \<Rightarrow> (stream_in \<Rightarrow> stream_in) \<Rightarrow> hal \<Rightarrow> hal" where
  "upd_in a f s = s\<lparr>ins := (ins s)(a := map_option f (ins s a))\<rparr>"

definition add_usecase :: "audio_usecase \<Rightarrow> hal \<Rightarrow> hal" where
  "add_usecase u s = s\<lparr>usecase_list := usecase_list s @ [u]\<rparr>"

definition remove_usecase :: "nat \<Rightarrow> hal \<Rightarrow> hal" where
  "remove_usecase a s = s\<lparr>usecase_list := filter (\<lambda>u. uc_addr u \<noteq> a) (usecase_list s)\<rparr>"

text \<open>\<open>calloc\<close>: whether it succeeds, and a fresh address.\<close>

definition calloc :: "platform \<Rightarrow> string \<Rightarrow> hal \<Rightarrow> nat option \<times> hal" where
  "calloc P what s =
     (if calloc_ok P (trace s) what
      then (Some (next_addr s), emit (Calloc what) (s\<lparr>next_addr := next_addr s + 1\<rparr>))
      else (None, emit (Calloc what) s))"

definition new_pcm_device :: "nat \<Rightarrow> pcm_device" where
  "new_pcm_device i = \<lparr>pd_profile = i, pd_pcm = None, pd_status = 0\<rparr>"

text \<open>A new use case as \<open>calloc\<close> and the assignments of its fields leave it.\<close>

definition new_usecase ::
  "nat \<Rightarrow> audio_usecase_t \<Rightarrow> usecase_type_t \<Rightarrow> stream_ref \<Rightarrow> u32 \<Rightarrow> audio_usecase" where
  "new_usecase a uid ty r devices =
     \<lparr>uc_addr = a, uc_id = uid, uc_type = ty, uc_devices = devices,
      uc_out_snd_device = SND_DEVICE_NONE, uc_in_snd_device = SND_DEVICE_NONE,
      uc_stream = r, uc_mixer_list = []\<rparr>"

section \<open>PCM devices of a use case\<close>

definition out_of_usecase :: "audio_usecase \<Rightarrow> nat option" where
  "out_of_usecase u = (case uc_stream u of OutRef a \<Rightarrow> Some a | InRef a \<Rightarrow> None)"

definition uc_release_pcm_devices :: "audio_usecase \<Rightarrow> hal \<Rightarrow> hal option" where
  "uc_release_pcm_devices usecase s = do {
     a \<leftarrow> out_of_usecase usecase;
     out \<leftarrow> outs s a;
     devs \<leftarrow> so_pcm_dev_list out;
     Some (upd_uc (uc_addr usecase) (\<lambda>u. u\<lparr>uc_mixer_list := []\<rparr>)
            (upd_out a (\<lambda>out. out\<lparr>so_pcm_dev_list := Some []\<rparr>) s))
   }"

definition uc_select_pcm_devices ::
  "platform \<Rightarrow> audio_usecase \<Rightarrow> hal \<Rightarrow> (audio_usecase \<times> hal) option" where
  "uc_select_pcm_devices P usecase s = do {
     a \<leftarrow> out_of_usecase usecase;
     out \<leftarrow> outs s a;
     let usecase = usecase\<lparr>uc_mixer_list := []\<rparr>;
     let s = upd_out a (\<lambda>out. out\<lparr>so_pcm_dev_list := Some []\<rparr>) s;
     case get_pcm_device P (pcm_devices s) (uc_type usecase) (uc_devices usecase) of
       None \<Rightarrow> Some (usecase, s)
     | Some i \<Rightarrow>
         let (p, s) = calloc P ''pcm_device'' s in
         if p = None then None
         else
           let s = upd_out a (\<lambda>out. out\<lparr>so_pcm_dev_list :=
                     map_option (\<lambda>l. l @ [new_pcm_device i]) (so_pcm_dev_list out)\<rparr>) s;
               card = pp_card (pcm_devices s ! i)
           in (case uc_get_mixer_for_card usecase card of
                 Some m \<Rightarrow> Some (usecase, s)
               | None \<Rightarrow> do {
                   mixer_card \<leftarrow> adev_get_mixer_for_card (mixer_list s) card;
                   Some (usecase\<lparr>uc_mixer_list := uc_mixer_list usecase @ [mc_card mixer_card]\<rparr>, s)
                 })
   }"

section \<open>Opening and closing the PCMs\<close>

text \<open>The loop that closes the handles of a list of devices; the list keeps its devices.\<close>

definition close_pcms :: "pcm_device list \<Rightarrow> hal \<Rightarrow> hal" where
  "close_pcms devs s =
     fold (\<lambda>d s. if pd_pcm d \<noteq> None then emit (PcmClose (pd_pcm d)) s else s) devs s"

definition no_pcm :: "pcm_device \<Rightarrow> pcm_device" where
  "no_pcm d = d\<lparr>pd_pcm := None\<rparr>"

definition out_close_pcm_devices :: "nat \<Rightarrow> hal \<Rightarrow> hal option" where
  "out_close_pcm_devices a s = do {
     out \<leftarrow> outs s a;
     devs \<leftarrow> so_pcm_dev_list out;
     Some (upd_out a (\<lambda>out. out\<lparr>so_pcm_dev_list := Some (map no_pcm devs)\<rparr>) (close_pcms devs s))
   }"

fun open_pcm_devices ::
  "platform \<Rightarrow> stream_out \<Rightarrow> pcm_device list \<Rightarrow> hal \<Rightarrow> int \<times> pcm_device list \<times> hal" where
  "open_pcm_devices P out [] s = (0, [], s)"
| "open_pcm_devices P out (d # ds) s =
     (let profile = pcm_devices s ! pd_profile d;
          pcm_device_card = pp_card profile;
          pcm_device_id = (if has_bits (so_flags out) (AUDIO_OUTPUT_FLAG_DEEP_BUFFER P)
                           then pp_id (pcm_device_deep_buffer P) else pp_id profile);
          flags = PCM_OUT P OR PCM_MONOTONIC P;
          h = pcm_open P (trace s) pcm_device_card pcm_device_id flags (so_config out);
          s = emit (PcmOpen pcm_device_card pcm_device_id flags (so_config out) h) s
      in if h \<noteq> None \<and> \<not> pcm_is_ready (the h)
         then (- EIO, d\<lparr>pd_pcm := None\<rparr> # ds, s)
         else
           let (ret, ds', s') = open_pcm_devices P out ds s
           in (ret, d\<lparr>pd_pcm := h\<rparr> # ds', s'))"

definition out_open_pcm_devices :: "platform \<Rightarrow> nat \<Rightarrow> hal \<Rightarrow> (int \<times> hal) option" where
  "out_open_pcm_devices P a s = do {
     out \<leftarrow> outs s a;
     devs \<leftarrow> so_pcm_dev_list out;
     let (ret, devs, s) = open_pcm_devices P out devs s;
     let s = upd_out a (\<lambda>out. out\<lparr>so_pcm_dev_list := Some devs\<rparr>) s;
     if ret \<noteq> 0 then do { s \<leftarrow> out_close_pcm_devices a s; Some (ret, s) }
     else Some (ret, s)
   }"

section \<open>The output path\<close>

definition disable_output_path_l :: "nat \<Rightarrow> hal \<Rightarrow> (int \<times> hal) option" where
  "disable_output_path_l a s = do {
     out \<leftarrow> outs s a;
     case get_usecase_from_id (usecase_list s) (so_usecase out) of
       None \<Rightarrow> Some (- EINVAL, s)
     | Some uc_info \<Rightarrow> do {
         r \<leftarrow> disable_snd_device uc_info (uc_out_snd_device uc_info) s;
         s \<leftarrow> uc_release_pcm_devices uc_info (snd r);
         Some (0, remove_usecase (uc_addr uc_info) s)
       }
   }"

definition enable_output_path_l :: "platform \<Rightarrow> nat \<Rightarrow> hal \<Rightarrow> (int \<times> hal) option" where
  "enable_output_path_l P a s = do {
     out \<leftarrow> outs s a;
     let (p, s) = calloc P ''audio_usecase'' s;
     case p of
       None \<Rightarrow> Some (- ENOMEM, s)
     | Some u \<Rightarrow> do {
         r \<leftarrow> uc_select_pcm_devices P
                (new_usecase u (so_usecase out) PCM_PLAYBACK (OutRef a) (so_devices out)) s;
         let s = add_usecase (fst r) (snd r);
         r \<leftarrow> select_devices P (so_usecase out) s;
         Some (0, snd r)
       }
   }"

definition stop_output_stream :: "nat \<Rightarrow> hal \<Rightarrow> (int \<times> hal) option" where
  "stop_output_stream a s = disable_output_path_l a s"

definition start_output_stream :: "platform \<Rightarrow> nat \<Rightarrow> hal \<Rightarrow> (int \<times> hal) option" where
  "start_output_stream P a s = do {
     r \<leftarrow> enable_output_path_l P a s;
     if fst r \<noteq> 0 then Some r
     else do {
       r \<leftarrow> out_open_pcm_devices P a (snd r);
       if fst r \<noteq> 0 then do {
         q \<leftarrow> stop_output_stream a (snd r);
         Some (fst r, snd q)
       } else Some (0, snd r)
     }
   }"

definition do_out_standby_l :: "nat \<Rightarrow> hal \<Rightarrow> (int \<times> hal) option" where
  "do_out_standby_l a s = do {
     s \<leftarrow> out_close_pcm_devices a (upd_out a (\<lambda>out. out\<lparr>so_standby := True\<rparr>) s);
     stop_output_stream a s
   }"

end
