(* ===== verification/InPath.thy ===== *)
theory InPath
  imports OutPath
begin

text \<open>
  The path of an input stream in \<open>audio/audio_hw.c\<close>: starting and stopping it, and the pull of
  frames from the kernel through \<open>get_next_buffer\<close>, with or without the resampler.

  A buffer is the list of its frames; \<open>read_buf\<close> holds the frames of the last period and
  \<open>read_buf_frames\<close> says how many at its end have not been handed out.
\<close>

section \<open>Starting and stopping\<close>

definition in_release_pcm_devices :: "nat \<Rightarrow> hal \<Rightarrow> hal option" where
  "in_release_pcm_devices a s = do {
     i \<leftarrow> ins s a;
     devs \<leftarrow> si_pcm_dev_list i;
     Some (upd_in a (\<lambda>i. i\<lparr>si_pcm_dev_list := Some []\<rparr>) s)
   }"

definition in_close_pcm_devices :: "nat \<Rightarrow> hal \<Rightarrow> hal option" where
  "in_close_pcm_devices a s = do {
     i \<leftarrow> ins s a;
     devs \<leftarrow> si_pcm_dev_list i;
     Some (upd_in a (\<lambda>i. i\<lparr>si_pcm_dev_list := Some (map no_pcm devs)\<rparr>) (close_pcms devs s))
   }"

definition stop_input_stream :: "nat \<Rightarrow> hal \<Rightarrow> (int \<times> hal) option" where
  "stop_input_stream a s = do {
     i \<leftarrow> ins s a;
     let s = s\<lparr>active_input := None\<rparr>;
     case get_usecase_from_id (usecase_list s) (si_usecase i) of
       None \<Rightarrow> Some (- EINVAL, s)
     | Some uc_info \<Rightarrow> do {
         r \<leftarrow> disable_snd_device uc_info (uc_in_snd_device uc_info) s;
         let s = remove_usecase (uc_addr uc_info) (snd r);
         if si_pcm_dev_list i = Some [] then Some (- EINVAL, s)
         else do { s \<leftarrow> in_release_pcm_devices a s; Some (0, s) }
       }
   }"

definition release_resampler :: "nat \<Rightarrow> hal \<Rightarrow> hal option" where
  "release_resampler a s = do {
     i \<leftarrow> ins s a;
     case si_resampler i of
       None \<Rightarrow> Some s
     | Some r \<Rightarrow> Some (upd_in a (\<lambda>i. i\<lparr>si_resampler := None\<rparr>) (emit (ReleaseResampler r) s))
   }"

text \<open>The block that takes over the configuration and makes a new resampler where needed.\<close>

definition update_input_config :: "platform \<Rightarrow> nat \<Rightarrow> pcm_config \<Rightarrow> hal \<Rightarrow> (int \<times> hal) option" where
  "update_input_config P a cfg s = do {
     i \<leftarrow> ins s a;
     let recreate_resampler = (pc_rate (si_config i) \<noteq> pc_rate cfg \<or> si_requested_rate i \<noteq> pc_rate cfg);
     let s = upd_in a (\<lambda>i. i\<lparr>si_config := cfg\<rparr>) s;
     if recreate_resampler then do {
       s \<leftarrow> release_resampler a s;
       let (ret, r) = create_resampler P (trace s) (pc_rate cfg) (si_requested_rate i) (pc_channels cfg);
       let s = emit (CreateResampler (pc_rate cfg) (si_requested_rate i) (pc_channels cfg)) s;
       Some (ret, upd_in a (\<lambda>i. i\<lparr>si_resampler := r\<rparr>) s)
     } else Some (0, s)
   }"

definition set_head_pcm :: "pcm option \<Rightarrow> pcm_device list \<Rightarrow> pcm_device list" where
  "set_head_pcm h devs = (case devs of [] \<Rightarrow> [] | d # ds \<Rightarrow> d\<lparr>pd_pcm := h\<rparr> # ds)"

definition open_input_pcm :: "platform \<Rightarrow> nat \<Rightarrow> nat \<Rightarrow> int \<Rightarrow> hal \<Rightarrow> (int \<times> hal) option" where
  "open_input_pcm P a k ret s = do {
     let profile = pcm_devices s ! k;
     let flags = PCM_IN P OR PCM_MONOTONIC P;
     let h = pcm_open P (trace s) (pp_card profile) (pp_id profile) flags (pp_config profile);
     let s = emit (PcmOpen (pp_card profile) (pp_id profile) flags (pp_config profile) h) s;
     if h \<noteq> None \<and> \<not> pcm_is_ready (the h) then do {
       s \<leftarrow> release_resampler a (emit (PcmClose h) s);
       r \<leftarrow> stop_input_stream a s;
       Some (- EIO, (snd r)\<lparr>active_input := None\<rparr>)
     } else do {
       let s = upd_in a (\<lambda>i. i\<lparr>si_pcm_dev_list := map_option (set_head_pcm h) (si_pcm_dev_list i),
                               si_proc_buf_size := 0, si_read_buf_size := 0,
                               si_read_buf_frames := 0\<rparr>) s;
       i \<leftarrow> ins s a;
       Some (ret, case si_resampler i of None \<Rightarrow> s | Some r \<Rightarrow> emit (ResetResampler r) s)
     }
   }"

definition set_period_size :: "nat \<Rightarrow> u32 \<Rightarrow> hal \<Rightarrow> hal" where
  "set_period_size k n s =
     s\<lparr>pcm_devices := (pcm_devices s)[k := (pcm_devices s ! k)
         \<lparr>pp_config := (pp_config (pcm_devices s ! k))\<lparr>pc_period_size := n\<rparr>\<rparr>]\<rparr>"

definition start_input_stream :: "platform \<Rightarrow> nat \<Rightarrow> hal \<Rightarrow> (int \<times> hal) option" where
  "start_input_stream P a s = do {
     i \<leftarrow> ins s a;
     let s = s\<lparr>active_input := Some a\<rparr>;
     case get_pcm_device P (pcm_devices s) (si_usecase_type i) (si_devices i) of
       None \<Rightarrow> Some (- EINVAL, s\<lparr>active_input := None\<rparr>)
     | Some k \<Rightarrow> do {
         let s = (if has_bits (si_input_flags i) (AUDIO_INPUT_FLAG_FAST P)
                  then set_period_size k CAPTURE_PERIOD_SIZE_LOW_LATENCY s else s);
         let (p, s) = calloc P ''audio_usecase'' s;
         case p of
           None \<Rightarrow> Some (- ENOMEM, s\<lparr>active_input := None\<rparr>)
         | Some u \<Rightarrow> do {
             let (q, s) = calloc P ''pcm_device'' s;
             if q = None then Some (- ENOMEM, s\<lparr>active_input := None\<rparr>)
             else do {
               let s = upd_in a (\<lambda>i. i\<lparr>si_pcm_dev_list := Some [new_pcm_device k]\<rparr>) s;
               mc \<leftarrow> adev_get_mixer_for_card (mixer_list s) (pp_card (pcm_devices s ! k));
               let uc_info = (new_usecase u (si_usecase i) PCM_CAPTURE (InRef a) (si_devices i))
                             \<lparr>uc_mixer_list := [mc_card mc]\<rparr>;
               r \<leftarrow> select_devices P (si_usecase i) (add_usecase uc_info s);
               let s = snd r;
               r \<leftarrow> update_input_config P a (pp_config (pcm_devices s ! k)) s;
               open_input_pcm P a k (fst r) (snd r)
             }
           }
       }
   }"

definition do_in_standby_l :: "nat \<Rightarrow> hal \<Rightarrow> (int \<times> hal) option" where
  "do_in_standby_l a s = do {
     i \<leftarrow> ins s a;
     s \<leftarrow> (if \<not> si_standby i then do {
             s \<leftarrow> in_close_pcm_devices a s;
             r \<leftarrow> stop_input_stream a s;
             Some (upd_in a (\<lambda>i. i\<lparr>si_read_buf := [], si_standby := True\<rparr>) (snd r))
           } else Some s);
     Some (0, upd_in a (\<lambda>i. i\<lparr>si_last_read_time_us := 0\<rparr>) s)
   }"

section \<open>Pulling frames\<close>

text \<open>
  The provider's buffer is returned as \<open>Some frames\<close> (its \<open>raw\<close> and \<open>frame_count\<close>), or as \<open>None\<close>
  when \<open>raw\<close> is null and \<open>frame_count\<close> is 0.
\<close>

definition get_next_buffer ::
  "platform \<Rightarrow> nat \<Rightarrow> nat \<Rightarrow> hal \<Rightarrow> (frame list option \<times> hal) option" where
  "get_next_buffer P a frame_count s = do {
     i \<leftarrow> ins s a;
     devs \<leftarrow> si_pcm_dev_list i;
     (case devs of
        [] \<Rightarrow> Some (None, upd_in a (\<lambda>i. i\<lparr>si_read_status := - ENODEV\<rparr>) s)
      | d # _ \<Rightarrow> do {
          let n = unat (pc_period_size (si_config i));
          s \<leftarrow> (if si_read_buf_frames i = 0 then do {
                  h \<leftarrow> pd_pcm d;
                  let (status, frames) = pcm_read_rc P (trace s) h n;
                  let s = emit (PcmRead h n) s;
                  Some (upd_in a (\<lambda>i. i\<lparr>
                      si_read_buf_size := max n (si_read_buf_size i),
                      si_read_status := status,
                      si_read_buf := (if status = 0 then frames else si_read_buf i),
                      si_read_buf_frames := (if status = 0 then n else 0)\<rparr>) s)
                } else Some s);
          j \<leftarrow> ins s a;
          if si_read_buf_frames i = 0 \<and> si_read_status j \<noteq> 0 then Some (None, s)
          else
            let count = (if frame_count > si_read_buf_frames j then si_read_buf_frames j else frame_count)
            in Some (Some (take count (drop (n - si_read_buf_frames j) (si_read_buf j))), s)
        })
   }"

definition release_buffer :: "nat \<Rightarrow> nat \<Rightarrow> hal \<Rightarrow> hal" where
  "release_buffer a frame_count s =
     upd_in a (\<lambda>i. i\<lparr>si_read_buf_frames := si_read_buf_frames i - frame_count\<rparr>) s"

text \<open>
  \<open>resample_from_provider\<close> of the resampler library asks the provider for frames, as many
  times as it likes, until the provider has none.
\<close>

fun provide :: "platform \<Rightarrow> nat \<Rightarrow> nat list \<Rightarrow> hal \<Rightarrow> (frame list \<times> hal) option" where
  "provide P a [] s = Some ([], s)"
| "provide P a (n # ns) s = do {
     (buf, s) \<leftarrow> get_next_buffer P a n s;
     (case buf of
        None \<Rightarrow> Some ([], s)
      | Some frames \<Rightarrow> do {
          (rest, s) \<leftarrow> provide P a ns (release_buffer a (length frames) s);
          Some (frames @ rest, s)
        })
   }"

definition resample_from_provider ::
  "platform \<Rightarrow> nat \<Rightarrow> nat \<Rightarrow> nat \<Rightarrow> hal \<Rightarrow> (frame list \<times> hal) option" where
  "resample_from_provider P a r n s = do {
     (frames, s) \<leftarrow> provide P a (resample_requests P (trace s) r n) s;
     Some (resample_output P (trace s) r n frames, emit (Resample r n) s)
   }"

text \<open>
  One pass of the loop of \<open>read_frames\<close>: the frames that were added to the buffer.
\<close>

definition read_pass :: "platform \<Rightarrow> nat \<Rightarrow> nat \<Rightarrow> hal \<Rightarrow> (frame list \<times> hal) option" where
  "read_pass P a frames_rd s = do {
     i \<leftarrow> ins s a;
     (case si_resampler i of
        Some r \<Rightarrow> resample_from_provider P a r frames_rd s
      | None \<Rightarrow> do {
          (buf, s) \<leftarrow> get_next_buffer P a frames_rd s;
          (case buf of
             None \<Rightarrow> Some ([], release_buffer a 0 s)
           | Some frames \<Rightarrow> Some (frames, release_buffer a (length frames) s))
        })
   }"

text \<open>
  The loop may run forever (a resampler that delivers nothing, a period of no frames), so it
  is partial.  It returns a status and the frames that are in the buffer.
\<close>

partial_function (option) read_loop ::
  "platform \<Rightarrow> nat \<Rightarrow> nat \<Rightarrow> frame list \<Rightarrow> hal \<Rightarrow> ((int \<times> frame list) \<times> hal) option" where
  "read_loop P a frames buffer s =
     (if length buffer < frames then do {
        (new, s) \<leftarrow> read_pass P a (frames - length buffer) s;
        i \<leftarrow> ins s a;
        (if si_read_status i \<noteq> 0 then Some ((si_read_status i, buffer @ new), s)
         else read_loop P a frames (buffer @ new) s)
      }
      else Some ((int (length buffer), buffer), s))"

definition read_frames ::
  "platform \<Rightarrow> nat \<Rightarrow> nat \<Rightarrow> hal \<Rightarrow> ((int \<times> frame list) \<times> hal) option" where
  "read_frames P a frames s = do {
     i \<leftarrow> ins s a;
     devs \<leftarrow> si_pcm_dev_list i;
     (case devs of
        [] \<Rightarrow> Some ((- EINVAL, []), s)
      | d # _ \<Rightarrow>
          if 0 < frames \<and> pd_pcm d = None then None
          else read_loop P a frames [] s)
   }"

definition read_and_process_frames ::
  "platform \<Rightarrow> nat \<Rightarrow> nat \<Rightarrow> hal \<Rightarrow> ((int \<times> frame list) \<times> hal) option" where
  "read_and_process_frames P a frames_num s = do {
     i \<leftarrow> ins s a;
     let bytes_per_sample = audio_bytes_per_sample P (AUDIO_FORMAT_PCM_16_BIT P);
     let src_channels = unat (pc_channels (si_config i));
     let dst_channels = audio_channel_count_from_in_mask P (si_main_channels i);
     let channel_remapping_needed = (dst_channels \<noteq> src_channels);
     let src_buffer_size = frames_num * (src_channels * bytes_per_sample);
     let s = (if channel_remapping_needed \<and> si_proc_buf_size i < src_buffer_size
              then upd_in a (\<lambda>i. i\<lparr>si_proc_buf_size := src_buffer_size\<rparr>) s else s);
     ((frames_wr, frames), s) \<leftarrow> read_frames P a frames_num s;
     Some ((frames_wr,
            if channel_remapping_needed \<and> frames_wr > 0
            then adjust_channels P frames src_channels dst_channels else frames), s)
   }"

end
