(* ===== verification/VoiceCall.thy ===== *)
theory VoiceCall
  imports OutPath
begin

text \<open>
  Voice sessions in \<open>audio/audio_hw.c\<close>: the PCMs of a Bluetooth SCO link, and a voice call with
  its use case, PCMs and voice processor.  All of it runs with the device mutex held.
\<close>

section \<open>Handles\<close>

text \<open>
  \<open>pcm_start\<close> and \<open>pcm_close\<close> dereference their handle, so calling them with the null pointer
  is a fault.  \<open>pcm_open\<close> may return the null pointer, when it runs out of memory.
\<close>

definition pcm_start :: "pcm option \<Rightarrow> hal \<Rightarrow> hal option" where
  "pcm_start h s = (case h of None \<Rightarrow> None | Some p \<Rightarrow> Some (emit (PcmStart (Some p)) s))"

definition pcm_close :: "pcm option \<Rightarrow> hal \<Rightarrow> hal option" where
  "pcm_close h s = (case h of None \<Rightarrow> None | Some p \<Rightarrow> Some (emit (PcmClose (Some p)) s))"

lemma pcm_handle_simps [simp]:
  "pcm_start None s = None" "pcm_start (Some p) s = Some (emit (PcmStart (Some p)) s)"
  "pcm_close None s = None" "pcm_close (Some p) s = Some (emit (PcmClose (Some p)) s)"
  by (simp_all add: pcm_start_def pcm_close_def)

section \<open>Bluetooth SCO\<close>

text \<open>The block \<open>pcm_stop; pcm_close; ... = NULL\<close> for one handle, if it is open.\<close>

definition stop_and_close :: "pcm option \<Rightarrow> hal \<Rightarrow> hal" where
  "stop_and_close h s =
     (if h \<noteq> None then emit (PcmClose h) (emit (PcmStop h) s) else s)"

definition stop_voice_session_bt_sco :: "hal \<Rightarrow> hal" where
  "stop_voice_session_bt_sco s =
     (let s = (stop_and_close (pcm_sco_rx s) s)\<lparr>pcm_sco_rx := None\<rparr>;
          s = (stop_and_close (pcm_sco_tx s) s)\<lparr>pcm_sco_tx := None\<rparr>
      in s\<lparr>in_call_sco := False\<rparr>)"

definition open_pcm ::
  "platform \<Rightarrow> nat \<Rightarrow> u32 \<Rightarrow> pcm_config \<Rightarrow> hal \<Rightarrow> pcm option \<times> bool \<times> hal" where
  "open_pcm P dev flags cfg s =
     (let h = pcm_open P (trace s) SOUND_CARD dev flags cfg;
          s = emit (PcmOpen SOUND_CARD dev flags cfg h) s;
          failed = (h \<noteq> None \<and> \<not> pcm_is_ready (the h))
      in (h, failed, s))"

definition start_voice_session_bt_sco :: "platform \<Rightarrow> hal \<Rightarrow> hal option" where
  "start_voice_session_bt_sco P s =
     (if in_call_sco s then Some s
      else if pcm_sco_rx s \<noteq> None \<or> pcm_sco_tx s \<noteq> None then Some s
      else do {
        let s = (if in_comm_sco s then stop_voice_session_bt_sco s else s);
        let s = s\<lparr>in_call_sco := True\<rparr>;
        let voice_sco_config = (if bluetooth_wb s then pcm_config_voice_sco_wb else pcm_config_voice_sco);
        let (tx, failed, s) = open_pcm P SOUND_CAPTURE_SCO_DEVICE (PCM_IN P OR PCM_MONOTONIC P)
                                voice_sco_config s;
        let s = s\<lparr>pcm_sco_tx := tx\<rparr>;
        if failed then do {
          s \<leftarrow> pcm_close (pcm_sco_tx s) s;
          Some (s\<lparr>pcm_sco_tx := None, in_call_sco := False\<rparr>)
        } else do {
          let (rx, failed, s) = open_pcm P SOUND_PLAYBACK_SCO_DEVICE (PCM_OUT P OR PCM_MONOTONIC P)
                                  voice_sco_config s;
          let s = s\<lparr>pcm_sco_rx := rx\<rparr>;
          if failed then do {
            s \<leftarrow> pcm_close (pcm_sco_rx s) s;
            let s = s\<lparr>pcm_sco_rx := None\<rparr>;
            s \<leftarrow> pcm_close (pcm_sco_tx s) s;
            Some (s\<lparr>pcm_sco_tx := None, in_call_sco := False\<rparr>)
          } else do {
            s \<leftarrow> pcm_start (pcm_sco_tx s) s;
            pcm_start (pcm_sco_rx s) s
          }
        }
      })"

section \<open>A voice call\<close>

definition stop_voice_call :: "platform \<Rightarrow> hal \<Rightarrow> (int \<times> hal) option" where
  "stop_voice_call P s = do {
     let s = (if in_call_sco s then stop_voice_session_bt_sco s else s);
     let s = (stop_and_close (pcm_voice_rx s) s)\<lparr>pcm_voice_rx := None\<rparr>;
     let s = (stop_and_close (pcm_voice_tx s) s)\<lparr>pcm_voice_tx := None\<rparr>;
     let s = (if audience_enabled s then es_stop_voice_session P s else s);
     case get_usecase_from_id (usecase_list s) USECASE_VOICE_CALL of
       None \<Rightarrow> Some (- EINVAL, s)
     | Some uc_info \<Rightarrow> do {
         r \<leftarrow> disable_snd_device uc_info (uc_out_snd_device uc_info) s;
         r \<leftarrow> disable_snd_device uc_info (uc_in_snd_device uc_info) (snd r);
         Some (0, (remove_usecase (uc_addr uc_info) (snd r))\<lparr>in_call := False\<rparr>)
       }
   }"

text \<open>The code after the label \<open>exit\<close> of \<open>start_voice_call\<close>.\<close>

definition start_voice_call_exit :: "platform \<Rightarrow> int \<Rightarrow> hal \<Rightarrow> (int \<times> hal) option" where
  "start_voice_call_exit P ret s = do {
     s \<leftarrow> pcm_close (pcm_voice_rx s) s;
     let s = s\<lparr>pcm_voice_rx := None\<rparr>;
     s \<leftarrow> pcm_close (pcm_voice_tx s) s;
     let s = s\<lparr>pcm_voice_tx := None\<rparr>;
     let s = (if in_call_sco s then stop_voice_session_bt_sco s else s);
     let s = snd (ril_set_call_clock_sync P SOUND_CLOCK_STOP s);
     Some (ret, s\<lparr>in_call := False\<rparr>)
   }"

text \<open>The part after the device is selected: the PCMs and the voice processor.\<close>

definition start_voice_pcms :: "platform \<Rightarrow> hal \<Rightarrow> (int \<times> hal) option" where
  "start_voice_pcms P s = do {
     devices \<leftarrow> primary_devices s;
     s \<leftarrow> (if has_bits devices (AUDIO_DEVICE_OUT_ALL_SCO P)
          then start_voice_session_bt_sco P s else Some s);
     let (tx, failed, s) = open_pcm P SOUND_CAPTURE_VOICE_DEVICE (PCM_IN P) pcm_config_voicecall s;
     let s = s\<lparr>pcm_voice_tx := tx\<rparr>;
     if failed then start_voice_call_exit P 0 s
     else do {
       let (rx, failed, s) = open_pcm P SOUND_PLAYBACK_VOICE_DEVICE (PCM_OUT P) pcm_config_voicecall s;
       let s = s\<lparr>pcm_voice_rx := rx\<rparr>;
       if failed then start_voice_call_exit P 0 s
       else do {
         s \<leftarrow> pcm_start (pcm_voice_tx s) s;
         s \<leftarrow> pcm_start (pcm_voice_rx s) s;
         s \<leftarrow> (if audience_enabled s then map_option snd (es_start_voice_session P s) else Some s);
         Some (0, s)
       }
     }
   }"

definition start_voice_call :: "platform \<Rightarrow> hal \<Rightarrow> (int \<times> hal) option" where
  "start_voice_call P s = do {
     let (p, s) = calloc P ''audio_usecase'' s;
     case p of
       None \<Rightarrow> start_voice_call_exit P (- ENOMEM) s
     | Some u \<Rightarrow> do {
         a \<leftarrow> primary_output s;
         out \<leftarrow> outs s a;
         mc \<leftarrow> adev_get_mixer_for_card (mixer_list s) SOUND_CARD;
         let uc_info = (new_usecase u USECASE_VOICE_CALL VOICE_CALL (OutRef a) (so_devices out))
                       \<lparr>uc_mixer_list := [mc_card mc]\<rparr>;
         r \<leftarrow> select_devices P USECASE_VOICE_CALL (add_usecase uc_info s);
         let s = (snd r)\<lparr>in_call := True\<rparr>;
         if pcm_voice_rx s \<noteq> None \<or> pcm_voice_tx s \<noteq> None then Some (0, s)
         else start_voice_pcms P s
       }
   }"

end
