(* ===== verification/PathInv.thy ===== *)
theory PathInv
  imports RoutingSelect InPath VoiceCall
begin

text \<open>
  How the list of use cases grows and shrinks: a new use case that uses no device yet and the
  removal of one whose devices have been disabled both keep the routing invariant and the
  agreement of mixer paths and counts.  With \<open>select_devices\<close> between them these are the
  blocks that starting and stopping a stream or a call are made of.
\<close>

section \<open>Adding a use case\<close>

lemma add_usecase_fields [simp]:
  "usecase_list (add_usecase u s) = usecase_list s @ [u]" "trace (add_usecase u s) = trace s"
  "snd_dev_ref_cnt (add_usecase u s) = snd_dev_ref_cnt s" "mixer_list (add_usecase u s) = mixer_list s"
  "outs (add_usecase u s) = outs s" "ins (add_usecase u s) = ins s" "mode (add_usecase u s) = mode s"
  "primary_output (add_usecase u s) = primary_output s" "in_call (add_usecase u s) = in_call s"
  "next_addr (add_usecase u s) = next_addr s" "refs (add_usecase u s) = refs s"
  "pcm_devices (add_usecase u s) = pcm_devices s" "counts f (add_usecase u s) = counts f s"
  by (simp_all add: add_usecase_def refs_def fun_eq_iff counts_def)

text \<open>A use case as the code creates it: no device yet, and a card of the mixer list.\<close>

definition idle_usecase :: "hal \<Rightarrow> audio_usecase \<Rightarrow> bool" where
  "idle_usecase s u \<longleftrightarrow>
     uc_out_snd_device u = SND_DEVICE_NONE \<and> uc_in_snd_device u = SND_DEVICE_NONE \<and>
     set (uc_mixer_list u) \<subseteq> mc_card ` set (mixer_list s) \<and>
     uc_addr u \<notin> uc_addr ` set (usecase_list s) \<and> uc_id u \<notin> uc_id ` set (usecase_list s)"

lemma routing_inv_add:
  assumes inv: "routing_inv s" and u: "idle_usecase s u"
  shows "routing_inv (add_usecase u s)"
proof -
  have "uses (usecase_list s @ [u]) d = uses (usecase_list s) d" if "valid_dev d" for d
    using u that by (auto simp: uses1_def idle_usecase_def valid_dev_def)
  then have "counts (uses (usecase_list s @ [u])) s = counts (uses (usecase_list s)) s"
    by (rule counts_cong)
  moreover have "shared_backend ty (add_usecase u s)" if "shared_backend ty s" for ty
    using that u by (auto simp: shared_backend_def uc_snd_device_def idle_usecase_def)
  ultimately show ?thesis
    using inv u
    by (auto simp: routing_inv_def ids_distinct_def cards_ok_def uc_ok_def idle_usecase_def
        out_snd_device_ok_def in_snd_device_ok_def)
qed

lemma routes_ok_add [simp]: "routes_ok (add_usecase u s) = routes_ok s"
  by (rule routes_ok_cong) simp_all

lemma all_on_card_add [simp]:
  "all_on_card (add_usecase u s) \<longleftrightarrow> all_on_card s \<and> uc_mixer_list u = [SOUND_CARD]"
  by (auto simp: all_on_card_def)

section \<open>Removing a use case\<close>

lemma remove_usecase_fields [simp]:
  "usecase_list (remove_usecase a s) = others a (usecase_list s)" "trace (remove_usecase a s) = trace s"
  "snd_dev_ref_cnt (remove_usecase a s) = snd_dev_ref_cnt s" "mixer_list (remove_usecase a s) = mixer_list s"
  "outs (remove_usecase a s) = outs s" "ins (remove_usecase a s) = ins s" "mode (remove_usecase a s) = mode s"
  "primary_output (remove_usecase a s) = primary_output s" "in_call (remove_usecase a s) = in_call s"
  "next_addr (remove_usecase a s) = next_addr s" "refs (remove_usecase a s) = refs s"
  "pcm_devices (remove_usecase a s) = pcm_devices s" "counts f (remove_usecase a s) = counts f s"
  by (simp_all add: remove_usecase_def refs_def fun_eq_iff counts_def others_def)

lemma disable_any_wp:
  assumes m: "moving_inv a g s" and u: "uc_mixer_list u \<in> uc_mixer_list ` set (usecase_list s)"
    and d: "d \<noteq> SND_DEVICE_NONE \<Longrightarrow> valid_dev d \<and> 0 < g d"
  shows "wp (disable_snd_device u d s) (\<lambda>(r, s'). usecase_list s' = usecase_list s \<and>
    moving_inv a (\<lambda>e. g e - holds d e) s' \<and> routing_frame s s')"
proof (cases "d = SND_DEVICE_NONE")
  case True
  have "snd_dev_ref_cnt s ! 0 = 0" using m by (simp add: moving_inv_def counts_def)
  moreover have "(\<lambda>e. g e - holds d e) = g" using True by (auto simp: fun_eq_iff valid_dev_def)
  ultimately show ?thesis using m True disable_snd_device_idle [of s d u] by simp
next
  case False
  then show ?thesis
    using release_device_wp [OF m u d] by (auto simp: release_snd_device_def elim!: wp_mono)
qed

text \<open>Disabling both devices of a use case, or the only one of a stream.\<close>

lemma disable_devices_wp:
  assumes inv: "routing_inv s" and u: "u \<in> set (usecase_list s)"
  shows "wp (do { r \<leftarrow> disable_snd_device u (uc_out_snd_device u) s;
                  disable_snd_device u (uc_in_snd_device u) (snd r) })
    (\<lambda>(r, s'). usecase_list s' = usecase_list s \<and>
       moving_inv (uc_addr u) (\<lambda>e. uses1 u e - holds (uc_out_snd_device u) e - holds (uc_in_snd_device u) e) s' \<and>
       routing_frame s s')"
proof -
  have ok: "uc_ok u" using inv u by (simp add: routing_inv_def)
  have dev: "d \<noteq> SND_DEVICE_NONE \<Longrightarrow> valid_dev d" if "d = uc_out_snd_device u \<or> d = uc_in_snd_device u" for d
    using ok that by (auto simp: uc_ok_def out_snd_device_ok_def in_snd_device_ok_def valid_dev_def)
  let ?g = "\<lambda>e. uses1 u e - holds (uc_out_snd_device u) e"
  have 1: "wp (disable_snd_device u (uc_out_snd_device u) s) (\<lambda>(r, s'). usecase_list s' = usecase_list s \<and>
      moving_inv (uc_addr u) ?g s' \<and> routing_frame s s')"
    using u dev by (intro disable_any_wp moving_inv_start [OF inv u]) (auto simp: uses1_def)
  have 2: "wp (disable_snd_device u (uc_in_snd_device u) t) (\<lambda>(r, s'). usecase_list s' = usecase_list s \<and>
      moving_inv (uc_addr u) (\<lambda>e. ?g e - holds (uc_in_snd_device u) e) s' \<and> routing_frame s s')"
    if t: "usecase_list t = usecase_list s" "moving_inv (uc_addr u) ?g t" "routing_frame s t" for t
  proof -
    have "wp (disable_snd_device u (uc_in_snd_device u) t) (\<lambda>(r, s'). usecase_list s' = usecase_list t \<and>
        moving_inv (uc_addr u) (\<lambda>e. ?g e - holds (uc_in_snd_device u) e) s' \<and> routing_frame t s')"
      using u dev t(1) by (intro disable_any_wp t(2)) (auto simp: uses1_def)
    then show ?thesis
      by (rule wp_mono) (use t in \<open>auto intro: routing_frame_trans\<close>)
  qed
  show ?thesis
    unfolding wp_bind by (rule wp_mono [OF 1]) (use 2 in auto)
qed

lemma shared_backend_subset:
  "shared_backend ty s \<Longrightarrow> set (usecase_list s') \<subseteq> set (usecase_list s) \<Longrightarrow> shared_backend ty s'"
  unfolding shared_backend_def by blast

lemma routing_inv_remove:
  assumes inv: "routing_inv s" and l: "usecase_list t = usecase_list s"
    and m: "moving_inv a g t" and g: "\<And>e. valid_dev e \<Longrightarrow> g e = 0"
  shows "routing_inv (remove_usecase a t)"
proof -
  have sub: "set (others a (usecase_list s)) \<subseteq> set (usecase_list s)" by (auto simp: others_def)
  have "counts (uses (others a (usecase_list t))) t = counts (\<lambda>e. uses (others a (usecase_list t)) e + g e) t"
    by (rule counts_cong) (simp add: g)
  then have "counts (uses (others a (usecase_list t))) t"
    using m by (simp add: moving_inv_def)
  moreover have "shared_backend ty (remove_usecase a t)" if "shared_backend ty s" for ty
    using shared_backend_subset [OF that] sub by (simp add: l)
  ultimately show ?thesis
    using inv m sub unfolding routing_inv_def moving_inv_def
    by (auto simp: ids_distinct_def cards_ok_def l others_def distinct_map_filter)
qed

lemma routes_ok_remove [simp]: "routes_ok (remove_usecase a s) = routes_ok s"
  by (rule routes_ok_cong) simp_all

lemma all_on_card_remove: "all_on_card s \<Longrightarrow> all_on_card (remove_usecase a s)"
  by (auto simp: all_on_card_def others_def)

text \<open>What a use case that has given up its devices still counts for: nothing.\<close>

lemma released_counts:
  assumes "valid_dev e"
  shows "uses1 u e - holds (uc_out_snd_device u) e - holds (uc_in_snd_device u) e = 0"
  using assms by (auto simp: uses1_def)

text \<open>A playback use case only holds an output device, a capture only an input device.\<close>

lemma disable_playback_wp:
  assumes inv: "routing_inv s" and u: "u \<in> set (usecase_list s)" "uc_type u = PCM_PLAYBACK"
  shows "wp (disable_snd_device u (uc_out_snd_device u) s) (\<lambda>(r, s'). usecase_list s' = usecase_list s \<and>
    routing_inv (remove_usecase (uc_addr u) s') \<and> routing_frame s s')"
proof -
  have ok: "uc_ok u" using inv u by (simp add: routing_inv_def)
  have "wp (disable_snd_device u (uc_out_snd_device u) s) (\<lambda>(r, s'). usecase_list s' = usecase_list s \<and>
      moving_inv (uc_addr u) (\<lambda>e. uses1 u e - holds (uc_out_snd_device u) e) s' \<and> routing_frame s s')"
    using u ok by (intro disable_any_wp moving_inv_start [OF inv u(1)])
      (auto simp: uses1_def uc_ok_def out_snd_device_ok_def valid_dev_def)
  then show ?thesis
    using ok u by (elim wp_mono)
      (auto intro!: routing_inv_remove [OF inv] simp: uses1_def uc_ok_def valid_dev_def)
qed

lemma disable_capture_wp:
  assumes inv: "routing_inv s" and u: "u \<in> set (usecase_list s)" "uc_type u = PCM_CAPTURE"
  shows "wp (disable_snd_device u (uc_in_snd_device u) s) (\<lambda>(r, s'). usecase_list s' = usecase_list s \<and>
    routing_inv (remove_usecase (uc_addr u) s') \<and> routing_frame s s')"
proof -
  have ok: "uc_ok u" using inv u by (simp add: routing_inv_def)
  have "wp (disable_snd_device u (uc_in_snd_device u) s) (\<lambda>(r, s'). usecase_list s' = usecase_list s \<and>
      moving_inv (uc_addr u) (\<lambda>e. uses1 u e - holds (uc_in_snd_device u) e) s' \<and> routing_frame s s')"
    using u ok by (intro disable_any_wp moving_inv_start [OF inv u(1)])
      (auto simp: uses1_def uc_ok_def in_snd_device_ok_def valid_dev_def)
  then show ?thesis
    using ok u by (elim wp_mono)
      (auto intro!: routing_inv_remove [OF inv] simp: uses1_def uc_ok_def valid_dev_def)
qed

end
