(* ===== verification/OutStream.thy ===== *)
theory OutStream
  imports VoiceCall
begin

text \<open>
  The operations of an output stream in \<open>audio/audio_hw.c\<close> (\<open>struct audio_stream_out\<close>).
\<close>

section \<open>Mutexes\<close>

definition lock :: "mutex \<Rightarrow> hal \<Rightarrow> hal" where
  "lock m s = emit (Lock m) s"

definition unlock :: "mutex \<Rightarrow> hal \<Rightarrow> hal" where
  "unlock m s = emit (Unlock m) s"

definition lock_output_stream :: "nat \<Rightarrow> hal \<Rightarrow> hal" where
  "lock_output_stream a s = unlock (OutPreLock a) (lock (OutLock a) (lock (OutPreLock a) s))"

definition lock_input_stream :: "nat \<Rightarrow> hal \<Rightarrow> hal" where
  "lock_input_stream a s = unlock (InPreLock a) (lock (InLock a) (lock (InPreLock a) s))"

section \<open>Getters and setters\<close>

definition out_get_sample_rate :: "stream_out \<Rightarrow> u32" where
  "out_get_sample_rate out = so_sample_rate out"

definition out_set_sample_rate :: "stream_out \<Rightarrow> u32 \<Rightarrow> int" where
  "out_set_sample_rate out rate = - ENOSYS"

definition out_get_channels :: "stream_out \<Rightarrow> u32" where
  "out_get_channels out = so_channel_mask out"

definition out_get_format :: "stream_out \<Rightarrow> u32" where
  "out_get_format out = so_format out"

definition out_set_format :: "stream_out \<Rightarrow> u32 \<Rightarrow> int" where
  "out_set_format out format = - ENOSYS"

definition out_get_buffer_size :: "platform \<Rightarrow> stream_out \<Rightarrow> nat" where
  "out_get_buffer_size P out =
     unat (pc_period_size (so_config out)) *
     audio_stream_out_frame_size P (out_get_channels out) (out_get_format out)"

text \<open>The arithmetic is on \<open>unsigned int\<close>; a rate of 0 divides by zero.\<close>

definition out_get_latency :: "stream_out \<Rightarrow> u32 option" where
  "out_get_latency out =
     (let cfg = so_config out in
      if pc_rate cfg = 0 then None
      else Some ((pc_period_count cfg * pc_period_size cfg * 1000) div pc_rate cfg))"

definition out_set_volume :: "f32 \<Rightarrow> f32 \<Rightarrow> nat \<Rightarrow> hal \<Rightarrow> (int \<times> hal) option" where
  "out_set_volume left right a s = do {
     out \<leftarrow> outs s a;
     if so_usecase out = USECASE_AUDIO_PLAYBACK_MULTI_CH
     then Some (0, upd_out a (\<lambda>out. out\<lparr>so_muted := f32_is_zero left\<rparr>) s)
     else Some (- ENOSYS, s)
   }"

text \<open>
  \<open>out_channels_name_to_enum_table\<close>, and the reply to a query for the supported channel masks:
  the names of the masks before the first 0, separated by bars.
\<close>

definition out_channels_name_to_enum_table :: "platform \<Rightarrow> (string \<times> u32) list" where
  "out_channels_name_to_enum_table P =
     [(''AUDIO_CHANNEL_OUT_STEREO'', AUDIO_CHANNEL_OUT_STEREO P),
      (''AUDIO_CHANNEL_OUT_5POINT1'', AUDIO_CHANNEL_OUT_5POINT1 P),
      (''AUDIO_CHANNEL_OUT_7POINT1'', AUDIO_CHANNEL_OUT_7POINT1 P)]"

fun sup_channels_value :: "(string \<times> u32) list \<Rightarrow> u32 list \<Rightarrow> bool \<Rightarrow> string \<Rightarrow> string" where
  "sup_channels_value table [] is_first val = val"
| "sup_channels_value table (m # ms) is_first val =
     (if m = 0 then val
      else
        case List.find (\<lambda>(name, mask). mask = m) table of
          None \<Rightarrow> sup_channels_value table ms is_first val
        | Some (name, _) \<Rightarrow>
            sup_channels_value table ms False ((if \<not> is_first then val @ ''|'' else val) @ name))"

text \<open>The result is the value of the reply's only key, or the copy of \<open>keys\<close>.\<close>

definition out_get_parameters ::
  "platform \<Rightarrow> stream_out \<Rightarrow> string \<Rightarrow> (parm_key \<times> string) + string" where
  "out_get_parameters P out keys =
     (case str_parms_get_str P keys AUDIO_PARAMETER_STREAM_SUP_CHANNELS of
        Some v \<Rightarrow> Inl (AUDIO_PARAMETER_STREAM_SUP_CHANNELS,
                    sup_channels_value (out_channels_name_to_enum_table P)
                      (so_supported_channel_masks out) True [])
      | None \<Rightarrow> Inr keys)"

definition out_get_render_position :: "stream_out \<Rightarrow> int \<times> u32" where
  "out_get_render_position out = (- ENODATA, 0)"

definition out_add_audio_effect :: "stream_out \<Rightarrow> int" where
  "out_add_audio_effect out = 0"

definition out_remove_audio_effect :: "stream_out \<Rightarrow> int" where
  "out_remove_audio_effect out = 0"

definition out_get_next_write_timestamp :: "stream_out \<Rightarrow> int" where
  "out_get_next_write_timestamp out = - ENOSYS"

section \<open>Standby\<close>

definition out_standby :: "nat \<Rightarrow> hal \<Rightarrow> (int \<times> hal) option" where
  "out_standby a s = do {
     let s = lock_output_stream a s;
     out \<leftarrow> outs s a;
     s \<leftarrow> (if \<not> so_standby out then do {
             r \<leftarrow> do_out_standby_l a (lock AdevLock s);
             Some (unlock AdevLock (snd r))
           } else Some s);
     Some (0, unlock (OutLock a) s)
   }"

section \<open>Routing\<close>

text \<open>The part of \<open>out_set_parameters\<close> that runs with the mutexes held and \<open>val\<close> not 0.\<close>

definition out_set_routing :: "platform \<Rightarrow> nat \<Rightarrow> int \<Rightarrow> hal \<Rightarrow> hal option" where
  "out_set_routing P a val s = do {
     out \<leftarrow> outs s a;
     let devices = (word_of_int val :: u32);
     let devices_changed = (so_devices out \<noteq> devices);
     let s = upd_out a (\<lambda>out. out\<lparr>so_devices := devices\<rparr>) s;
     s \<leftarrow> (if \<not> so_standby out
           then if devices_changed then map_option snd (do_out_standby_l a s)
                else map_option snd (select_devices P (so_usecase out) s)
           else Some s);
     let sco = has_bits devices (AUDIO_DEVICE_OUT_ALL_SCO P);
     s \<leftarrow> (if mode s = AUDIO_MODE_IN_COMMUNICATION P \<and> sco \<and> \<not> in_call_sco s \<and> \<not> in_comm_sco s
          then start_voice_session_bt_sco P (s\<lparr>in_comm_sco := True\<rparr>)
          else Some (if \<not> sco \<and> in_call_sco s
                     then stop_voice_session_bt_sco (s\<lparr>in_comm_sco := False\<rparr>)
                     else s));
     if mode s = AUDIO_MODE_IN_CALL P \<and> \<not> in_call s \<and> primary_output s = Some a
     then map_option snd (start_voice_call P s)
     else if mode s = AUDIO_MODE_IN_CALL P \<and> devices_changed \<and> in_call s \<and> primary_output s = Some a
     then do {
       r \<leftarrow> stop_voice_call P s;
       r \<leftarrow> start_voice_call P (snd r);
       Some (snd r)
     }
     else Some s
   }"

definition out_set_parameters :: "platform \<Rightarrow> nat \<Rightarrow> string \<Rightarrow> hal \<Rightarrow> (int \<times> hal) option" where
  "out_set_parameters P a kvpairs s =
     (case str_parms_get_str P kvpairs AUDIO_PARAMETER_STREAM_ROUTING of
        None \<Rightarrow> Some (0, s)
      | Some v \<Rightarrow> do {
          let val = atoi v;
          let s = lock AdevLock (lock_output_stream a (lock LockInputs s));
          s \<leftarrow> (if val \<noteq> SND_DEVICE_NONE then out_set_routing P a val s else Some s);
          Some (0, unlock LockInputs (unlock (OutLock a) (unlock AdevLock s)))
        })"

section \<open>Writing\<close>

text \<open>
  One device of the loop of \<open>out_write\<close>: its new status, the new value of \<open>ret\<close> and what is
  added to \<open>written\<close>.  A division by zero is a fault.
\<close>

definition write_device ::
  "platform \<Rightarrow> nat \<Rightarrow> frame list \<Rightarrow> nat \<Rightarrow> pcm_device \<Rightarrow> int \<Rightarrow> hal \<Rightarrow> (pcm_device \<times> int \<times> hal) option" where
  "write_device P a buffer bytes d ret s = do {
     out \<leftarrow> outs s a;
     (d, ret, s) \<leftarrow>
       (case pd_pcm d of
          None \<Rightarrow> Some (d, ret, s)
        | Some h \<Rightarrow> do {
            let src_channels = audio_channel_count_from_out_mask P (so_channel_mask out);
            let dst_channels = unat (pc_channels (pp_config (pcm_devices s ! pd_profile d)));
            let channel_remapping_needed = (dst_channels \<noteq> src_channels);
            if channel_remapping_needed \<and> src_channels = 0 then None
            else do {
              let dest_buffer_size = bytes * dst_channels div src_channels;
              let s = (if channel_remapping_needed \<and> so_proc_buf_size out < dest_buffer_size
                       then upd_out a (\<lambda>out. out\<lparr>so_proc_buf_size := dest_buffer_size\<rparr>) s else s);
              let audio_data = (if channel_remapping_needed
                                then adjust_channels P buffer src_channels dst_channels else buffer);
              let audio_bytes = (if channel_remapping_needed then dest_buffer_size else bytes);
              let status = pcm_write_rc P (trace s) h audio_bytes;
              Some (d\<lparr>pd_status := status\<rparr>, if status \<noteq> 0 then status else ret,
                    emit (PcmWrite h audio_data audio_bytes) s)
            }
          });
     if ret = 0 then
       let k = unat (pc_channels (so_config out)) * 2 in
       if k = 0 then None
       else Some (d, ret, upd_out a (\<lambda>out. out\<lparr>so_written := so_written out + of_nat (bytes div k)\<rparr>) s)
     else Some (d, ret, s)
   }"

fun write_devices ::
  "platform \<Rightarrow> nat \<Rightarrow> frame list \<Rightarrow> nat \<Rightarrow> pcm_device list \<Rightarrow> int \<Rightarrow> hal \<Rightarrow>
   (pcm_device list \<times> int \<times> hal) option" where
  "write_devices P a buffer bytes [] ret s = Some ([], ret, s)"
| "write_devices P a buffer bytes (d # ds) ret s = do {
     (d, ret, s) \<leftarrow> write_device P a buffer bytes d ret s;
     (ds, ret, s) \<leftarrow> write_devices P a buffer bytes ds ret s;
     Some (d # ds, ret, s)
   }"

text \<open>
  The simulated drain of the buffer after an error: 1000000 times the number of frames, per
  second of the sample rate, less the time since the last write.
\<close>

definition sleep_after_error :: "platform \<Rightarrow> nat \<Rightarrow> nat \<Rightarrow> hal \<Rightarrow> hal option" where
  "sleep_after_error P a bytes s = do {
     out \<leftarrow> outs s a;
     let now = clock_us P (trace s);
     let s = emit ClockGettime s;
     let elapsed = now - so_last_write_time_us out;
     let frame_size = audio_stream_out_frame_size P (out_get_channels out) (out_get_format out);
     let rate = unat (out_get_sample_rate out);
     if frame_size = 0 \<or> rate = 0 then None
     else do {
       let sleep_time = int (bytes * 1000000 div frame_size div rate) - elapsed;
       let s = (if sleep_time > 0 then emit (Usleep sleep_time) s else s);
       let sleep_time = (if sleep_time > 0 then sleep_time else 0);
       Some (upd_out a (\<lambda>out. out\<lparr>so_last_write_time_us := now + sleep_time\<rparr>) s)
     }
   }"

definition silence :: "frame list \<Rightarrow> frame list" where
  "silence buffer = map (map (\<lambda>x. 0)) buffer"

text \<open>The block that leaves standby, and the loop over the devices.\<close>

definition out_leave_standby :: "platform \<Rightarrow> nat \<Rightarrow> hal \<Rightarrow> (int \<times> hal) option" where
  "out_leave_standby P a s = do {
     out \<leftarrow> outs s a;
     if so_standby out then do {
       r \<leftarrow> start_output_stream P a (lock AdevLock s);
       let (ret, s) = r;
       if ret \<noteq> 0 then Some (ret, unlock AdevLock s)
       else Some (0, unlock AdevLock (upd_out a (\<lambda>out. out\<lparr>so_standby := False\<rparr>) s))
     } else Some (0, s)
   }"

definition out_write_devices ::
  "platform \<Rightarrow> nat \<Rightarrow> frame list \<Rightarrow> nat \<Rightarrow> hal \<Rightarrow> (int \<times> hal) option" where
  "out_write_devices P a buffer bytes s = do {
     out \<leftarrow> outs s a;
     devs \<leftarrow> so_pcm_dev_list out;
     (devs, ret, s) \<leftarrow> write_devices P a (if so_muted out then silence buffer else buffer) bytes devs 0 s;
     Some (ret, upd_out a (\<lambda>out. out\<lparr>so_pcm_dev_list := Some devs\<rparr>) s)
   }"

definition out_write :: "platform \<Rightarrow> nat \<Rightarrow> frame list \<Rightarrow> nat \<Rightarrow> hal \<Rightarrow> (int \<times> hal) option" where
  "out_write P a buffer bytes s = do {
     let s = lock_output_stream a s;
     (ret, s) \<leftarrow> out_leave_standby P a s;
     (ret, s) \<leftarrow> (if ret \<noteq> 0 then Some (ret, s) else out_write_devices P a buffer bytes s);
     let s = unlock (OutLock a) s;
     if ret \<noteq> 0 then do {
       out \<leftarrow> outs s a;
       devs \<leftarrow> so_pcm_dev_list out;
       r \<leftarrow> out_standby a s;
       s \<leftarrow> sleep_after_error P a bytes (snd r);
       Some (int bytes, s)
     } else Some (int bytes, s)
   }"

section \<open>Printing\<close>

text \<open>\<open>out_dump\<close> writes nothing.\<close>

definition out_dump :: "stream_out \<Rightarrow> int \<Rightarrow> int" where
  "out_dump out fd = 0"

section \<open>Presentation position\<close>

definition render_latency :: "audio_usecase_t \<Rightarrow> int" where
  "render_latency usecase = 0"

text \<open>
  \<open>signed_frames\<close> is computed on \<open>uint64_t\<close> and read as \<open>int64_t\<close>.  The first device whose
  timestamp gives a position that is not negative decides; the result is the frames and the
  timestamp.
\<close>

definition signed_frames :: "stream_out \<Rightarrow> u32 \<Rightarrow> int" where
  "signed_frames out avail =
     sint (so_written out - ucast (pc_period_size (so_config out) * pc_period_count (so_config out)) +
           ucast avail)
     - (render_latency (so_usecase out) * uint (so_sample_rate out)) div 1000000"

fun position_of_devices ::
  "platform \<Rightarrow> stream_out \<Rightarrow> pcm_device list \<Rightarrow> hal \<Rightarrow> (int \<times> int) option \<times> hal" where
  "position_of_devices P out [] s = (None, s)"
| "position_of_devices P out (d # ds) s =
     (case pd_pcm d of
        None \<Rightarrow> position_of_devices P out ds s
      | Some h \<Rightarrow>
          let r = pcm_get_htimestamp P (trace s) h; s = emit (PcmTimestamp h) s in
          (case r of
             None \<Rightarrow> position_of_devices P out ds s
           | Some (avail, timestamp) \<Rightarrow>
               if signed_frames out avail \<ge> 0 then (Some (signed_frames out avail, timestamp), s)
               else position_of_devices P out ds s))"

definition out_get_presentation_position ::
  "platform \<Rightarrow> nat \<Rightarrow> hal \<Rightarrow> ((int \<times> (int \<times> int) option) \<times> hal) option" where
  "out_get_presentation_position P a s = do {
     let s = lock_output_stream a s;
     out \<leftarrow> outs s a;
     devs \<leftarrow> so_pcm_dev_list out;
     let (r, s) = position_of_devices P out devs s;
     Some ((if r = None then - ENODATA else 0, r), unlock (OutLock a) s)
   }"

end
