(* ===== verification/InStream.thy ===== *)
theory InStream
  imports OutStream InPath
begin

text \<open>
  The operations of an input stream in \<open>audio/audio_hw.c\<close> (\<open>struct audio_stream_in\<close>).
\<close>

section \<open>Parameters of a capture\<close>

definition check_input_parameters :: "platform \<Rightarrow> u32 \<Rightarrow> u32 \<Rightarrow> int \<Rightarrow> int" where
  "check_input_parameters P sample_rate format channel_count =
     (if format \<noteq> AUDIO_FORMAT_PCM_16_BIT P then - EINVAL
      else if channel_count < 1 \<or> channel_count > 2 then - EINVAL
      else if sample_rate \<in> {8000, 11025, 12000, 16000, 22050, 24000, 32000, 44100, 48000} then 0
      else - EINVAL)"

text \<open>
  The product of the period size and the rate is taken on \<open>unsigned int\<close>, the rest on \<open>size_t\<close>;
  a profile whose rate is 0 would divide by zero.
\<close>

definition get_input_buffer_size ::
  "platform \<Rightarrow> pcm_device_profile list \<Rightarrow> u32 \<Rightarrow> u32 \<Rightarrow> nat \<Rightarrow> usecase_type_t \<Rightarrow> u32 \<Rightarrow> nat option" where
  "get_input_buffer_size P profiles sample_rate format channel_count usecase_type devices =
     (if check_input_parameters P sample_rate format (int channel_count) \<noteq> 0 then Some 0
      else
        case get_pcm_device P profiles usecase_type devices of
          None \<Rightarrow> Some 0
        | Some i \<Rightarrow>
            let cfg = pp_config (profiles ! i) in
            if pc_rate cfg = 0 then None
            else
              let size = unat ((pc_period_size cfg * sample_rate) div pc_rate cfg);
                  size = ((size + 15) div 16) * 16
              in Some (size * channel_count * audio_bytes_per_sample P format))"

section \<open>Getters and setters\<close>

definition in_get_sample_rate :: "stream_in \<Rightarrow> u32" where
  "in_get_sample_rate i = si_requested_rate i"

definition in_set_sample_rate :: "stream_in \<Rightarrow> u32 \<Rightarrow> int" where
  "in_set_sample_rate i rate = - ENOSYS"

definition in_get_channels :: "stream_in \<Rightarrow> u32" where
  "in_get_channels i = si_main_channels i"

definition in_get_format :: "platform \<Rightarrow> stream_in \<Rightarrow> u32" where
  "in_get_format P i = AUDIO_FORMAT_PCM_16_BIT P"

definition in_set_format :: "stream_in \<Rightarrow> u32 \<Rightarrow> int" where
  "in_set_format i format = - ENOSYS"

definition in_get_buffer_size :: "platform \<Rightarrow> pcm_device_profile list \<Rightarrow> stream_in \<Rightarrow> nat option" where
  "in_get_buffer_size P profiles i =
     get_input_buffer_size P profiles (si_requested_rate i) (in_get_format P i)
       (audio_channel_count_from_in_mask P (si_main_channels i)) (si_usecase_type i) (si_devices i)"

definition in_get_parameters :: "stream_in \<Rightarrow> string \<Rightarrow> string" where
  "in_get_parameters i keys = []"

definition in_set_gain :: "stream_in \<Rightarrow> f32 \<Rightarrow> int" where
  "in_set_gain i gain = 0"

definition in_get_input_frames_lost :: "stream_in \<Rightarrow> u32" where
  "in_get_input_frames_lost i = 0"

definition in_add_audio_effect :: "stream_in \<Rightarrow> int" where
  "in_add_audio_effect i = 0"

definition in_remove_audio_effect :: "stream_in \<Rightarrow> int" where
  "in_remove_audio_effect i = 0"

definition in_dump :: "stream_in \<Rightarrow> int \<Rightarrow> int" where
  "in_dump i fd = 0"

section \<open>Standby\<close>

definition in_standby_l :: "nat \<Rightarrow> hal \<Rightarrow> (int \<times> hal) option" where
  "in_standby_l a s = do {
     let s = lock_input_stream a s;
     i \<leftarrow> ins s a;
     (status, s) \<leftarrow> (if \<not> si_standby i then do {
             r \<leftarrow> do_in_standby_l a (lock AdevLock s);
             Some (fst r, unlock AdevLock (snd r))
           } else Some (0, s));
     Some (status, unlock (InLock a) s)
   }"

definition in_standby :: "nat \<Rightarrow> hal \<Rightarrow> (int \<times> hal) option" where
  "in_standby a s = do {
     (status, s) \<leftarrow> in_standby_l a (lock LockInputs s);
     Some (status, unlock LockInputs s)
   }"

section \<open>Routing\<close>

text \<open>\<open>in->source = val\<close> when the key is present, the value is not 0 and differs.\<close>

definition in_set_source :: "string option \<Rightarrow> nat \<Rightarrow> hal \<Rightarrow> hal" where
  "in_set_source v a s =
     (case v of
        None \<Rightarrow> s
      | Some v \<Rightarrow>
          upd_in a (\<lambda>i. if si_source i \<noteq> atoi v \<and> atoi v \<noteq> 0 then i\<lparr>si_source := atoi v\<rparr> else i) s)"

text \<open>
  Whether the stream has to be restarted to change its device: its first PCM device cannot
  record from it.
\<close>

definition in_needs_standby :: "platform \<Rightarrow> nat \<Rightarrow> u32 \<Rightarrow> hal \<Rightarrow> bool option" where
  "in_needs_standby P a val s = do {
     i \<leftarrow> ins s a;
     case get_usecase_from_id (usecase_list s) (si_usecase i) of
       None \<Rightarrow> Some False
     | Some uc_info \<Rightarrow>
         (case si_pcm_dev_list i of
            None \<Rightarrow> None
          | Some [] \<Rightarrow> Some False
          | Some (d # _) \<Rightarrow>
              Some (pp_devices (pcm_devices s ! pd_profile d) AND val AND NOT (AUDIO_DEVICE_BIT_IN P) = 0))
   }"

definition in_set_routing :: "platform \<Rightarrow> nat \<Rightarrow> int \<Rightarrow> hal \<Rightarrow> hal option" where
  "in_set_routing P a val s = do {
     i \<leftarrow> ins s a;
     let devices = (word_of_int val :: u32);
     if si_devices i \<noteq> devices \<and> val \<noteq> 0 then do {
       let s = upd_in a (\<lambda>i. i\<lparr>si_devices := devices\<rparr>) s;
       if \<not> si_standby i then do {
         do_standby \<leftarrow> in_needs_standby P a devices s;
         if do_standby then map_option snd (do_in_standby_l a s)
         else map_option snd (select_devices P (si_usecase i) s)
       } else Some s
     } else Some s
   }"

definition in_set_parameters :: "platform \<Rightarrow> nat \<Rightarrow> string \<Rightarrow> hal \<Rightarrow> (int \<times> hal) option" where
  "in_set_parameters P a kvpairs s = do {
     let s = lock AdevLock (lock_input_stream a (lock LockInputs s));
     let s = in_set_source (str_parms_get_str P kvpairs AUDIO_PARAMETER_STREAM_INPUT_SOURCE) a s;
     s \<leftarrow> (case str_parms_get_str P kvpairs AUDIO_PARAMETER_STREAM_ROUTING of
             None \<Rightarrow> Some s
           | Some v \<Rightarrow> in_set_routing P a (atoi v) s);
     Some (0, unlock LockInputs (unlock (InLock a) (unlock AdevLock s)))
   }"

section \<open>Reading\<close>

text \<open>
  The block that leaves standby.  The stream mutex is dropped and taken again below
  \<open>lock_inputs\<close>; another thread may have started the stream in between, which the model does
  not interleave, so the second test of \<open>standby\<close> sees the value of the first.
\<close>

definition in_leave_standby :: "platform \<Rightarrow> nat \<Rightarrow> hal \<Rightarrow> (int \<times> hal) option" where
  "in_leave_standby P a s = do {
     i \<leftarrow> ins s a;
     if si_standby i then do {
       let s = lock_input_stream a (lock LockInputs (unlock (InLock a) s));
       i \<leftarrow> ins s a;
       if \<not> si_standby i then Some (0, unlock LockInputs s)
       else do {
         (ret, s) \<leftarrow> start_input_stream P a (lock AdevLock s);
         let s = unlock LockInputs (unlock AdevLock s);
         if ret \<noteq> 0 then Some (ret, s)
         else Some (0, upd_in a (\<lambda>i. i\<lparr>si_standby := False\<rparr>) s)
       }
     } else Some (0, s)
   }"

definition zero_buffer :: "nat \<Rightarrow> nat \<Rightarrow> frame list" where
  "zero_buffer frames channels = replicate frames (replicate channels 0)"

text \<open>The simulated fill of the buffer after a failed read.\<close>

definition sleep_after_failed_read :: "platform \<Rightarrow> nat \<Rightarrow> nat \<Rightarrow> nat \<Rightarrow> hal \<Rightarrow> hal option" where
  "sleep_after_failed_read P a bytes frame_size s = do {
     i \<leftarrow> ins s a;
     let now = clock_us P (trace s);
     let s = emit ClockGettime s;
     let elapsed = (if si_last_read_time_us i = 0 then 0 else now - si_last_read_time_us i);
     let rate = unat (in_get_sample_rate i);
     if rate = 0 then None
     else do {
       let sleep_time = int (bytes * 1000000 div frame_size div rate) - elapsed;
       let s = (if sleep_time > 0 then emit (Usleep sleep_time) s else s);
       let sleep_time = (if sleep_time > 0 then sleep_time else 0);
       Some (upd_in a (\<lambda>i. i\<lparr>si_last_read_time_us := now + sleep_time\<rparr>) s)
     }
   }"

text \<open>
  \<open>in_read\<close> returns \<open>bytes\<close> whatever happens; with it comes the content of the buffer.
\<close>

definition in_read :: "platform \<Rightarrow> nat \<Rightarrow> nat \<Rightarrow> hal \<Rightarrow> ((int \<times> frame list) \<times> hal) option" where
  "in_read P a bytes s = do {
     i \<leftarrow> ins s a;
     let frame_size = audio_stream_in_frame_size P (in_get_channels i) (in_get_format P i);
     let channels = audio_channel_count_from_in_mask P (si_main_channels i);
     if frame_size = 0 then None
     else do {
       let frames_rq = bytes div frame_size;
       let s = lock_input_stream a s;
       (ret, s) \<leftarrow> in_leave_standby P a s;
       ((frames, buffer), s) \<leftarrow>
         (if ret \<noteq> 0 then Some ((-1, []), s)
          else do {
            i \<leftarrow> ins s a;
            if si_pcm_dev_list i = Some [] then Some ((-1, []), s)
            else read_and_process_frames P a frames_rq s
          });
       let ok = (frames \<ge> 0);
       let buffer = (if ok \<and> mic_mute s then zero_buffer frames_rq channels else buffer);
       let s = unlock (InLock a) s;
       (buffer, s) \<leftarrow>
         (if \<not> ok then do {
            r \<leftarrow> in_standby a s;
            s \<leftarrow> sleep_after_failed_read P a bytes frame_size (snd r);
            Some (zero_buffer frames_rq channels, s)
          } else Some (buffer, s));
       let s = (if bytes > 0
                then upd_in a (\<lambda>i. i\<lparr>si_frames_read := si_frames_read i + int (bytes div frame_size)\<rparr>) s
                else s);
       Some ((int bytes, buffer), s)
     }
   }"

section \<open>Capture position\<close>

text \<open>
  The first device is taken from the list without a test: an empty list (its head is read as a
  device) and one that was never initialised are faults.
\<close>

definition in_get_capture_position ::
  "platform \<Rightarrow> nat \<Rightarrow> hal \<Rightarrow> ((int \<times> (int \<times> int) option) \<times> hal) option" where
  "in_get_capture_position P a s = do {
     i \<leftarrow> ins s a;
     devs \<leftarrow> si_pcm_dev_list i;
     (case devs of
        [] \<Rightarrow> None
      | d # _ \<Rightarrow>
          let s = lock (InLock a) s;
              (r, s) =
                (case pd_pcm d of
                   None \<Rightarrow> (None, s)
                 | Some h \<Rightarrow>
                     (map_option (\<lambda>(avail, timestamp). (si_frames_read i + uint avail, timestamp))
                        (pcm_get_htimestamp P (trace s) h), emit (PcmTimestamp h) s))
          in Some ((if r = None then - ENOSYS else 0, r), unlock (InLock a) s))
   }"

end
