(* ===== verification/DeviceInv.thy ===== *)
theory DeviceInv
  imports PathInv InStream
begin

text \<open>
  The invariant of the device between the steps of its operations (\<open>core_inv\<close>): routing agrees
  with the use cases, every use case belongs to a live object, and the tables are intact.  It
  is enough for \<open>select_devices\<close> to return; the blocks that change the heap keep it.
\<close>

section \<open>The invariant\<close>

definition uc_linked :: "hal \<Rightarrow> audio_usecase \<Rightarrow> bool" where
  "uc_linked s u \<longleftrightarrow>
     (case uc_type u of
        PCM_PLAYBACK \<Rightarrow> (\<exists>a out. uc_stream u = OutRef a \<and> outs s a = Some out \<and> so_usecase out = uc_id u)
      | PCM_CAPTURE \<Rightarrow> (\<exists>a i. uc_stream u = InRef a \<and> ins s a = Some i \<and> si_usecase i = uc_id u)
      | VOICE_CALL \<Rightarrow> uc_id u = USECASE_VOICE_CALL \<and>
                      (\<exists>p. uc_stream u = OutRef p \<and> primary_output s = Some p))"

lemma uc_linked_simps:
  "uc_type u = PCM_PLAYBACK \<Longrightarrow>
   uc_linked s u = (\<exists>a. uc_stream u = OutRef a \<and> (\<exists>x. outs s a = Some x \<and> so_usecase x = uc_id u))"
  "uc_type u = PCM_CAPTURE \<Longrightarrow>
   uc_linked s u = (\<exists>a. uc_stream u = InRef a \<and> (\<exists>x. ins s a = Some x \<and> si_usecase x = uc_id u))"
  "uc_type u = VOICE_CALL \<Longrightarrow>
   uc_linked s u = (uc_id u = USECASE_VOICE_CALL \<and>
                    (\<exists>p. uc_stream u = OutRef p \<and> primary_output s = Some p))"
  by (simp_all add: uc_linked_def)

lemma uc_linked_cong:
  "outs t = outs s \<Longrightarrow> ins t = ins s \<Longrightarrow> primary_output t = primary_output s \<Longrightarrow>
   uc_linked t u = uc_linked s u"
  by (cases "uc_type u") (simp_all add: uc_linked_simps)

definition linked :: "hal \<Rightarrow> bool" where
  "linked s \<longleftrightarrow> (\<forall>u \<in> set (usecase_list s). uc_linked s u)"

text \<open>Addresses that are in use are below the next one to be handed out.\<close>

definition addrs_ok :: "hal \<Rightarrow> bool" where
  "addrs_ok s \<longleftrightarrow>
     (\<forall>u \<in> set (usecase_list s). uc_addr u < next_addr s) \<and>
     (\<forall>a. outs s a \<noteq> None \<longrightarrow> a < next_addr s) \<and> (\<forall>a. ins s a \<noteq> None \<longrightarrow> a < next_addr s)"

text \<open>The profiles are those of the source, but for the period sizes, which stay positive.\<close>

definition same_profile :: "pcm_device_profile \<Rightarrow> pcm_device_profile \<Rightarrow> bool" where
  "same_profile p q \<longleftrightarrow> (\<exists>n. n \<noteq> 0 \<and> p = q\<lparr>pp_config := (pp_config q)\<lparr>pc_period_size := n\<rparr>\<rparr>)"

definition profiles_ok :: "platform \<Rightarrow> hal \<Rightarrow> bool" where
  "profiles_ok P s \<longleftrightarrow> list_all2 same_profile (pcm_devices s) (pcm_devices_init P)"

definition primary_ok :: "hal \<Rightarrow> bool" where
  "primary_ok s \<longleftrightarrow>
     (\<forall>p. primary_output s = Some p \<longrightarrow> outs s p \<noteq> None) \<and> (in_call s \<longrightarrow> primary_output s \<noteq> None)"

text \<open>Open streams have different use cases, of the kinds the code gives them.\<close>

definition streams_ok :: "hal \<Rightarrow> bool" where
  "streams_ok s \<longleftrightarrow>
     (\<forall>a b x y. outs s a = Some x \<and> outs s b = Some y \<and> so_usecase x = so_usecase y \<longrightarrow> a = b) \<and>
     (\<forall>a b x y. ins s a = Some x \<and> ins s b = Some y \<longrightarrow> a = b) \<and>
     (\<forall>a x. outs s a = Some x \<longrightarrow> so_usecase x \<in> {USECASE_AUDIO_PLAYBACK, USECASE_AUDIO_PLAYBACK_DEEP_BUFFER}) \<and>
     (\<forall>a x. ins s a = Some x \<longrightarrow> si_usecase x = USECASE_AUDIO_CAPTURE \<and> si_usecase_type x = PCM_CAPTURE)"

definition core_inv :: "platform \<Rightarrow> hal \<Rightarrow> bool" where
  "core_inv P s \<longleftrightarrow>
     routing_inv s \<and> all_on_card s \<and> routes_ok s \<and> linked s \<and> addrs_ok s \<and> profiles_ok P s \<and>
     primary_ok s \<and> streams_ok s"

text \<open>
  The condition on the layout of the structures: the field \<open>source\<close> of a \<open>stream_in\<close>, read from
  the memory of a \<open>stream_out\<close>, is not \<open>AUDIO_SOURCE_VOICE_COMMUNICATION\<close>.
\<close>

definition cast_ok :: "platform \<Rightarrow> bool" where
  "cast_ok P \<longleftrightarrow> (\<forall>out. iv_source (out_as_in P out) \<noteq> AUDIO_SOURCE_VOICE_COMMUNICATION P)"

section \<open>It is enough for routing\<close>

lemma linked_live:
  assumes "linked s" "primary_ok s" "u \<in> set (usecase_list s)"
  shows "stream_live s (uc_stream u)"
proof -
  have "uc_linked s u" using assms by (simp add: linked_def)
  then show ?thesis
    using assms(2) by (cases "uc_type u") (auto simp: uc_linked_simps stream_live_def primary_ok_def)
qed

lemma core_pointers:
  assumes "core_inv P s"
  shows "pointers_ok P s"
proof -
  have "primary_output s \<noteq> None" if "u \<in> set (usecase_list s)" "uc_type u = VOICE_CALL" for u
    using that assms uc_linked_simps(3) [OF that(2), of s] by (auto simp: core_inv_def linked_def)
  then show ?thesis
    using assms linked_live unfolding pointers_ok_def core_inv_def primary_ok_def by blast
qed

lemma core_recursion:
  assumes c: "core_inv P s" and cast: "cast_ok P"
  shows "recursion_ok P s"
  unfolding recursion_ok_def
proof (intro allI impI)
  fix u v w
  assume a: "get_usecase_from_type (usecase_list s)
      (usecase_type_val PCM_CAPTURE OR usecase_type_val VOICE_CALL) = Some u"
    and v: "stream_as_in P s (uc_stream u) = Some v" "iv_source v = AUDIO_SOURCE_VOICE_COMMUNICATION P"
    and w: "get_usecase_from_id (usecase_list s) (iv_usecase v) = Some w"
  have u: "u \<in> set (usecase_list s)" "uc_type u \<noteq> PCM_PLAYBACK"
    using get_usecase_from_type_capture_voice [OF a] by auto
  have "uc_linked s u" using c u(1) by (simp add: core_inv_def linked_def)
  then obtain i x where i: "uc_stream u = InRef i" "ins s i = Some x" "si_usecase x = uc_id u"
    using u(2) v cast
    by (cases "uc_type u") (auto simp: uc_linked_simps stream_as_in_def cast_ok_def)
  then have "iv_usecase v = uc_id u" using v(1) by (auto simp: stream_as_in_def view_of_in_def)
  then have "uc_id w = uc_id u" "w \<in> set (usecase_list s)" using usecases.lookup_SomeD [OF w] by auto
  then have "w = u"
    using c u(1) distinct_map_unique unfolding core_inv_def routing_inv_def ids_distinct_def by metis
  then show "uc_type w \<noteq> PCM_PLAYBACK" using u(2) by simp
qed

lemma core_select_devices:
  assumes "core_inv P s" "cast_ok P"
  shows "wp (select_devices P uid s) (\<lambda>(r, s'). routing_inv s' \<and> routing_frame s s')"
  using select_devices_wp [OF _ core_pointers [OF assms(1)] core_recursion [OF assms], of uid] assms(1)
  by (auto simp: core_inv_def elim!: wp_mono)

section \<open>The blocks that keep it\<close>

lemma member_shape:
  assumes "map uc_shape us = map uc_shape vs" "u \<in> set us"
  obtains v where "v \<in> set vs" "uc_shape v = uc_shape u"
proof -
  have "uc_shape u \<in> set (map uc_shape vs)" using assms by (metis image_eqI list.set_map)
  then show ?thesis using that by auto
qed

lemma linked_cong:
  assumes "map uc_shape (usecase_list s') = map uc_shape (usecase_list s)"
    and "\<And>a. map_option so_usecase (outs s' a) = map_option so_usecase (outs s a)"
    and "\<And>a. map_option si_usecase (ins s' a) = map_option si_usecase (ins s a)"
    and "primary_output s' = primary_output s" "linked s"
  shows "linked s'"
  unfolding linked_def
proof
  fix u assume "u \<in> set (usecase_list s')"
  then obtain v where v: "v \<in> set (usecase_list s)" "uc_shape v = uc_shape u"
    using member_shape [OF assms(1)] by blast
  have o: "(\<exists>x. outs s' a = Some x \<and> so_usecase x = i) = (\<exists>x. outs s a = Some x \<and> so_usecase x = i)" for a i
    using assms(2) [of a] by (cases "outs s' a"; cases "outs s a") auto
  have i: "(\<exists>x. ins s' a = Some x \<and> si_usecase x = i) = (\<exists>x. ins s a = Some x \<and> si_usecase x = i)" for a i
    using assms(3) [of a] by (cases "ins s' a"; cases "ins s a") auto
  have l: "uc_linked s v" using assms(5) v(1) by (simp add: linked_def)
  have eq: "uc_type v = uc_type u" "uc_stream v = uc_stream u" "uc_id v = uc_id u"
    using v(2) by (simp_all add: uc_shape_def)
  show "uc_linked s' u"
    using l eq by (cases "uc_type u") (simp_all add: uc_linked_simps o i assms(4))
qed

lemma addrs_ok_shape:
  assumes "map uc_shape (usecase_list s') = map uc_shape (usecase_list s)"
    and "outs s' = outs s" "ins s' = ins s" "next_addr s' = next_addr s" "addrs_ok s"
  shows "addrs_ok s'"
proof -
  have "uc_addr u < next_addr s" if u: "u \<in> set (usecase_list s')" for u
  proof -
    obtain v where "v \<in> set (usecase_list s)" "uc_shape v = uc_shape u"
      using member_shape [OF assms(1) u] .
    then show ?thesis using assms(5) by (auto simp: addrs_ok_def uc_shape_def)
  qed
  then show ?thesis using assms by (simp add: addrs_ok_def)
qed

definition core_rest :: "platform \<Rightarrow> hal \<Rightarrow> bool" where
  "core_rest P s \<longleftrightarrow>
     all_on_card s \<and> routes_ok s \<and> linked s \<and> addrs_ok s \<and> profiles_ok P s \<and> primary_ok s \<and> streams_ok s"

lemma core_inv_split: "core_inv P s \<longleftrightarrow> routing_inv s \<and> core_rest P s"
  by (simp add: core_inv_def core_rest_def)

lemma core_rest_frame:
  assumes c: "core_rest P s" and f: "routing_frame s s'"
  shows "core_rest P s'"
proof -
  note sh = routing_frame_shape [OF f] and eqs = routing_frame_fields [OF f]
  have "all_on_card s'" using c all_on_card_shape [OF sh] by (simp add: core_rest_def)
  moreover have "routes_ok s'" using c f by (simp add: core_rest_def routing_frame_def)
  moreover have "linked s'" using c eqs by (intro linked_cong [OF sh]) (simp_all add: core_rest_def)
  moreover have "addrs_ok s'" using c eqs by (intro addrs_ok_shape [OF sh]) (simp_all add: core_rest_def)
  ultimately show ?thesis
    using c eqs by (simp add: core_rest_def profiles_ok_def primary_ok_def streams_ok_def)
qed

lemma core_inv_frame: "core_inv P s \<Longrightarrow> routing_frame s s' \<Longrightarrow> routing_inv s' \<Longrightarrow> core_inv P s'"
  using core_rest_frame by (auto simp: core_inv_split)

text \<open>Two states that differ only in what the invariant does not mention.\<close>

definition core_same :: "platform \<Rightarrow> hal \<Rightarrow> hal \<Rightarrow> bool" where
  "core_same P s s' \<longleftrightarrow>
     usecase_list s' = usecase_list s \<and> snd_dev_ref_cnt s' = snd_dev_ref_cnt s \<and>
     mixer_list s' = mixer_list s \<and> active_routes (trace s') = active_routes (trace s) \<and>
     (\<forall>a. map_option so_usecase (outs s' a) = map_option so_usecase (outs s a)) \<and>
     (\<forall>a. map_option si_usecase (ins s' a) = map_option si_usecase (ins s a)) \<and>
     (\<forall>a. map_option si_usecase_type (ins s' a) = map_option si_usecase_type (ins s a)) \<and>
     next_addr s \<le> next_addr s' \<and> primary_output s' = primary_output s \<and>
     (in_call s' \<longrightarrow> in_call s \<or> primary_output s \<noteq> None) \<and> (profiles_ok P s \<longrightarrow> profiles_ok P s')"

lemma core_same_refl [simp]: "core_same P s s"
  by (simp add: core_same_def)

lemma core_same_trans [trans]: "core_same P s s' \<Longrightarrow> core_same P s' s'' \<Longrightarrow> core_same P s s''"
  by (auto simp: core_same_def)

lemma map_option_dom: "map_option f x = map_option g y \<Longrightarrow> (x = None) = (y = None)"
  by (cases x; cases y) auto

lemma core_inv_same:
  assumes c: "core_inv P s" and same: "core_same P s s'"
  shows "core_inv P s'"
proof -
  have eq: "usecase_list s' = usecase_list s" "snd_dev_ref_cnt s' = snd_dev_ref_cnt s"
    "mixer_list s' = mixer_list s" "active_routes (trace s') = active_routes (trace s)"
    "primary_output s' = primary_output s" and n: "next_addr s \<le> next_addr s'"
    and o: "\<And>a. map_option so_usecase (outs s' a) = map_option so_usecase (outs s a)"
    and i: "\<And>a. map_option si_usecase (ins s' a) = map_option si_usecase (ins s a)"
    and t: "\<And>a. map_option si_usecase_type (ins s' a) = map_option si_usecase_type (ins s a)"
    and call: "in_call s' \<longrightarrow> in_call s \<or> primary_output s \<noteq> None"
    and prof: "profiles_ok P s \<longrightarrow> profiles_ok P s'"
    using same by (auto simp: core_same_def)
  have "routing_inv s'"
    using c eq by (simp add: core_inv_def routing_inv_def ids_distinct_def cards_ok_def counts_def
        refs_def shared_backend_def)
  moreover have "all_on_card s'" "routes_ok s'"
    using c eq routes_ok_cong [of s' s] by (simp_all add: core_inv_def all_on_card_def)
  moreover have "linked s'"
    using c eq o i by (intro linked_cong [of s' s]) (simp_all add: core_inv_def)
  moreover have "addrs_ok s'"
  proof -
    have "uc_addr u < next_addr s'" if "u \<in> set (usecase_list s')" for u
      using that c eq n by (auto simp: core_inv_def addrs_ok_def intro: less_le_trans)
    moreover have "a < next_addr s'" if "outs s' a \<noteq> None" for a
      using that c n map_option_dom [OF o [of a]]
      by (auto simp: core_inv_def addrs_ok_def intro: less_le_trans)
    moreover have "a < next_addr s'" if "ins s' a \<noteq> None" for a
      using that c n map_option_dom [OF i [of a]]
      by (auto simp: core_inv_def addrs_ok_def intro: less_le_trans)
    ultimately show ?thesis by (simp add: addrs_ok_def)
  qed
  moreover have "primary_ok s'"
    using c eq call map_option_dom [OF o] unfolding core_inv_def primary_ok_def by metis
  moreover have "streams_ok s'"
  proof -
    have ox: "\<exists>y. outs s a = Some y \<and> so_usecase y = so_usecase x" if "outs s' a = Some x" for a x
      using o [of a] that by (cases "outs s a") auto
    have ix: "\<exists>y. ins s a = Some y \<and> si_usecase y = si_usecase x \<and> si_usecase_type y = si_usecase_type x"
      if "ins s' a = Some x" for a x
      using i [of a] t [of a] that by (cases "ins s a") auto
    have st: "streams_ok s" using c by (simp add: core_inv_def)
    have "a = b" if "outs s' a = Some x" "outs s' b = Some y" "so_usecase x = so_usecase y" for a b x y
      using ox [OF that(1)] ox [OF that(2)] that(3) st unfolding streams_ok_def by metis
    moreover have "a = b" if "ins s' a = Some x" "ins s' b = Some y" for a b x y
      using ix [OF that(1)] ix [OF that(2)] st unfolding streams_ok_def by metis
    moreover have "so_usecase x \<in> {USECASE_AUDIO_PLAYBACK, USECASE_AUDIO_PLAYBACK_DEEP_BUFFER}"
      if "outs s' a = Some x" for a x
      using ox [OF that] st unfolding streams_ok_def by metis
    moreover have "si_usecase x = USECASE_AUDIO_CAPTURE \<and> si_usecase_type x = PCM_CAPTURE"
      if "ins s' a = Some x" for a x
      using ix [OF that] st unfolding streams_ok_def by metis
    ultimately show ?thesis unfolding streams_ok_def by blast
  qed
  moreover have "profiles_ok P s'" using c prof by (simp add: core_inv_def)
  ultimately show ?thesis by (simp add: core_inv_def)
qed

text \<open>The elementary changes.\<close>

lemma only_calls_core: "only_calls s s' \<Longrightarrow> core_same P s s'"
  using only_calls_fields [of s s'] by (simp add: core_same_def quiet_def profiles_ok_def)

lemma emit_core: "\<not> is_route_call c \<Longrightarrow> core_same P s (emit c s)"
  by (simp add: core_same_def profiles_ok_def)

lemma upd_out_fields [simp]:
  "usecase_list (upd_out a f s) = usecase_list s" "snd_dev_ref_cnt (upd_out a f s) = snd_dev_ref_cnt s"
  "mixer_list (upd_out a f s) = mixer_list s" "trace (upd_out a f s) = trace s"
  "outs (upd_out a f s) = (outs s)(a := map_option f (outs s a))" "ins (upd_out a f s) = ins s"
  "next_addr (upd_out a f s) = next_addr s" "primary_output (upd_out a f s) = primary_output s"
  "in_call (upd_out a f s) = in_call s" "pcm_devices (upd_out a f s) = pcm_devices s"
  "mode (upd_out a f s) = mode s"
  by (simp_all add: upd_out_def)

lemma upd_in_fields [simp]:
  "usecase_list (upd_in a f s) = usecase_list s" "snd_dev_ref_cnt (upd_in a f s) = snd_dev_ref_cnt s"
  "mixer_list (upd_in a f s) = mixer_list s" "trace (upd_in a f s) = trace s"
  "ins (upd_in a f s) = (ins s)(a := map_option f (ins s a))" "outs (upd_in a f s) = outs s"
  "next_addr (upd_in a f s) = next_addr s" "primary_output (upd_in a f s) = primary_output s"
  "in_call (upd_in a f s) = in_call s" "pcm_devices (upd_in a f s) = pcm_devices s"
  "mode (upd_in a f s) = mode s"
  by (simp_all add: upd_in_def)

lemma upd_out_core: "(\<And>x. so_usecase (f x) = so_usecase x) \<Longrightarrow> core_same P s (upd_out a f s)"
  by (simp add: core_same_def profiles_ok_def option.map_comp comp_def)

lemma upd_in_core:
  "(\<And>x. si_usecase (f x) = si_usecase x) \<Longrightarrow> (\<And>x. si_usecase_type (f x) = si_usecase_type x) \<Longrightarrow>
   core_same P s (upd_in a f s)"
  by (simp add: core_same_def profiles_ok_def option.map_comp comp_def)

lemma core_inv_add:
  assumes c: "core_inv P s" and u: "idle_usecase s u" and l: "uc_linked s u"
    and m: "uc_mixer_list u = [SOUND_CARD]" and n: "uc_addr u < next_addr s"
  shows "core_inv P (add_usecase u s)"
proof -
  have "linked (add_usecase u s)"
    using c l uc_linked_cong [of "add_usecase u s" s] by (auto simp: core_inv_def linked_def)
  then show ?thesis
    using c routing_inv_add [OF _ u] m n
    by (auto simp: core_inv_def addrs_ok_def profiles_ok_def primary_ok_def streams_ok_def)
qed

lemma core_rest_remove:
  assumes c: "core_rest P s"
  shows "core_rest P (remove_usecase a s)"
proof -
  have "linked (remove_usecase a s)"
    using c uc_linked_cong [of "remove_usecase a s" s] by (auto simp: core_rest_def linked_def others_def)
  then show ?thesis
    using c all_on_card_remove
    by (auto simp: core_rest_def addrs_ok_def profiles_ok_def primary_ok_def streams_ok_def others_def)
qed

text \<open>After the devices of a use case have been disabled it is taken out of the list.\<close>

lemma core_inv_remove:
  "core_inv P s \<Longrightarrow> routing_frame s t \<Longrightarrow> routing_inv (remove_usecase a t) \<Longrightarrow>
   core_inv P (remove_usecase a t)"
  using core_rest_frame core_rest_remove by (auto simp: core_inv_split)

end
