(* ===== verification/StreamInv.thy ===== *)
theory StreamInv
  imports DeviceInv
begin

text \<open>
  Starting and stopping streams, against the invariant of \<open>DeviceInv\<close>: the use case that
  appears or goes, the PCM handle that is opened or closed, and everything that stays.
\<close>

section \<open>What may fail\<close>

text \<open>
  Memory and resamplers can be had and \<open>pcm_open\<close> returns a handle, which for the PCMs of a voice call is
  ready.  Every other PCM may fail to open.
\<close>

definition healthy :: "platform \<Rightarrow> bool" where
  "healthy P \<longleftrightarrow>
     (\<forall>t x. calloc_ok P t x) \<and>
     (\<forall>t c d f cfg. \<exists>h. pcm_open P t c d f cfg = Some h \<and>
        (d \<in> {SOUND_PLAYBACK_VOICE_DEVICE, SOUND_CAPTURE_VOICE_DEVICE} \<longrightarrow> pcm_is_ready h)) \<and>
     (\<forall>t a b c. fst (create_resampler P t a b c) = 0)"

lemma healthy_calloc:
  "healthy P \<Longrightarrow> calloc P x s = (Some (next_addr s), emit (Calloc x) (s\<lparr>next_addr := next_addr s + 1\<rparr>))"
  by (simp add: healthy_def calloc_def)

lemma healthy_open:
  assumes "healthy P"
  obtains h where "pcm_open P t c d f cfg = Some h"
  using assms unfolding healthy_def by meson

lemma healthy_voice:
  assumes "healthy P" and "d \<in> {SOUND_PLAYBACK_VOICE_DEVICE, SOUND_CAPTURE_VOICE_DEVICE}"
  obtains h where "pcm_open P t c d f cfg = Some h" "pcm_is_ready h"
  using assms unfolding healthy_def by meson

text \<open>A handle that came from the opening of one of the PCMs for playback.\<close>

definition playback_handle :: "platform \<Rightarrow> pcm \<Rightarrow> bool" where
  "playback_handle P p \<longleftrightarrow>
     (\<exists>t c f cfg n. n \<in> {SOUND_PLAYBACK_DEVICE, SOUND_DEEP_BUFFER_DEVICE} \<and> pcm_open P t c n f cfg = Some p)"

section \<open>Frames\<close>

text \<open>The mutexes, and the fields that belong to the device as a whole.\<close>

definition locks_same :: "hal \<Rightarrow> hal \<Rightarrow> bool" where
  "locks_same s s' \<longleftrightarrow>
     held (trace s') = held (trace s) \<and> lock_order_ok (trace s') = lock_order_ok (trace s)"

definition rest_same :: "hal \<Rightarrow> hal \<Rightarrow> bool" where
  "rest_same s s' \<longleftrightarrow>
     mixer_list s' = mixer_list s \<and> mode s' = mode s \<and> primary_output s' = primary_output s \<and>
     mic_mute s' = mic_mute s \<and> in_call s' = in_call s \<and> in_call_sco s' = in_call_sco s \<and>
     in_comm_sco s' = in_comm_sco s \<and> volume s' = volume s \<and> bluetooth_nrec s' = bluetooth_nrec s \<and>
     bluetooth_wb s' = bluetooth_wb s \<and> audience_enabled s' = audience_enabled s \<and>
     wb_amr_type s' = wb_amr_type s \<and> ril s' = ril s \<and>
     pcm_voice_rx s' = pcm_voice_rx s \<and> pcm_voice_tx s' = pcm_voice_tx s \<and>
     pcm_sco_rx s' = pcm_sco_rx s \<and> pcm_sco_tx s' = pcm_sco_tx s \<and> next_addr s \<le> next_addr s'"

lemma locks_same_refl [simp]: "locks_same s s"
  by (simp add: locks_same_def)

lemma locks_same_trans [trans]: "locks_same s s' \<Longrightarrow> locks_same s' s'' \<Longrightarrow> locks_same s s''"
  by (simp add: locks_same_def)

lemma rest_same_refl [simp]: "rest_same s s"
  by (simp add: rest_same_def)

lemma rest_same_trans [trans]: "rest_same s s' \<Longrightarrow> rest_same s' s'' \<Longrightarrow> rest_same s s''"
  by (simp add: rest_same_def)

lemma frame_same:
  assumes "routing_frame s s'"
  shows "locks_same s s'" "rest_same s s'"
  using routing_frame_fields [OF assms] by (simp_all add: locks_same_def rest_same_def)

lemma emit_same [simp]:
  "rest_same s (emit c s)" "\<not> is_lock_call c \<Longrightarrow> locks_same s (emit c s)"
  by (simp_all add: rest_same_def locks_same_def)

lemma upd_same [simp]:
  "rest_same s (upd_out a f s)" "locks_same s (upd_out a f s)"
  "rest_same s (upd_in a g s)" "locks_same s (upd_in a g s)"
  "rest_same s (add_usecase u s)" "locks_same s (add_usecase u s)"
  "rest_same s (remove_usecase b s)" "locks_same s (remove_usecase b s)"
  by (simp_all add: rest_same_def locks_same_def upd_out_def upd_in_def add_usecase_def remove_usecase_def)

section \<open>PCM handles of a stream\<close>

definition list_pcms :: "pcm_device list \<Rightarrow> pcm multiset" where
  "list_pcms devs = sum_list (map (\<lambda>d. pcm_set (pd_pcm d)) devs)"

definition stream_pcms :: "pcm_device list option \<Rightarrow> pcm multiset" where
  "stream_pcms l = (case l of None \<Rightarrow> {#} | Some devs \<Rightarrow> list_pcms devs)"

lemma list_pcms_simps [simp]:
  "list_pcms [] = {#}" "list_pcms (d # ds) = pcm_set (pd_pcm d) + list_pcms ds"
  by (simp_all add: list_pcms_def)

lemma list_pcms_closed [simp]: "list_pcms (map no_pcm devs) = {#}"
  by (induction devs) (simp_all add: no_pcm_def)

lemma close_pcms_Cons: "close_pcms (d # ds) s =
    close_pcms ds (if pd_pcm d \<noteq> None then emit (PcmClose (pd_pcm d)) s else s)"
  by (simp add: close_pcms_def)

lemma close_pcms_trace:
  "\<exists>l. close_pcms devs s = s\<lparr>trace := l @ trace s\<rparr> \<and> (\<forall>c \<in> set l. \<exists>h. c = PcmClose h) \<and>
       open_pcms (l @ trace s) = open_pcms (trace s) - list_pcms devs"
proof (induction devs arbitrary: s)
  case Nil
  show ?case by (rule exI [of _ "[]"]) (simp add: close_pcms_def)
next
  case (Cons d ds)
  show ?case
  proof (cases "pd_pcm d")
    case None
    then show ?thesis using Cons.IH [of s] by (simp add: close_pcms_Cons)
  next
    case (Some h)
    obtain l where l: "close_pcms ds (emit (PcmClose (Some h)) s) =
        (emit (PcmClose (Some h)) s)\<lparr>trace := l @ trace (emit (PcmClose (Some h)) s)\<rparr>"
      "\<forall>c \<in> set l. \<exists>h. c = PcmClose h"
      "open_pcms (l @ trace (emit (PcmClose (Some h)) s)) =
       open_pcms (trace (emit (PcmClose (Some h)) s)) - list_pcms ds"
      using Cons.IH [of "emit (PcmClose (Some h)) s"] by blast
    show ?thesis
      by (rule exI [of _ "l @ [PcmClose (Some h)]"])
        (use Some l in \<open>auto simp: close_pcms_Cons emit_def diff_diff_add_mset\<close>)
  qed
qed

lemma close_calls:
  assumes "\<forall>c \<in> set l. \<exists>h. c = PcmClose h"
  shows "held (l @ t) = held t" "lock_order_ok (l @ t) = lock_order_ok t"
    "active_routes (l @ t) = active_routes t"
  using assms by (induction l) auto

lemma close_pcms_same:
  "core_same P s (close_pcms devs s)" "rest_same s (close_pcms devs s)" "locks_same s (close_pcms devs s)"
  "open_pcms (trace (close_pcms devs s)) = open_pcms (trace s) - list_pcms devs"
  "outs (close_pcms devs s) = outs s" "ins (close_pcms devs s) = ins s"
  "usecase_list (close_pcms devs s) = usecase_list s" "active_input (close_pcms devs s) = active_input s"
  "pcm_devices (close_pcms devs s) = pcm_devices s"
proof -
  obtain l where l: "close_pcms devs s = s\<lparr>trace := l @ trace s\<rparr>" "\<forall>c \<in> set l. \<exists>h. c = PcmClose h"
    "open_pcms (l @ trace s) = open_pcms (trace s) - list_pcms devs"
    using close_pcms_trace by blast
  note cc = close_calls [OF l(2)]
  show "core_same P s (close_pcms devs s)" "rest_same s (close_pcms devs s)" "locks_same s (close_pcms devs s)"
    "open_pcms (trace (close_pcms devs s)) = open_pcms (trace s) - list_pcms devs"
    "outs (close_pcms devs s) = outs s" "ins (close_pcms devs s) = ins s"
    "usecase_list (close_pcms devs s) = usecase_list s" "active_input (close_pcms devs s) = active_input s"
    "pcm_devices (close_pcms devs s) = pcm_devices s"
    using cc l(3) by (simp_all add: l(1) core_same_def rest_same_def locks_same_def profiles_ok_def)
qed

section \<open>The PCM device of an output stream\<close>

lemma profile_card:
  assumes "profiles_ok P s" "k < length (pcm_devices s)"
  shows "pp_card (pcm_devices s ! k) = SOUND_CARD"
proof -
  have "same_profile (pcm_devices s ! k) (pcm_devices_init P ! k)" "k < length (pcm_devices_init P)"
    using assms by (auto simp: profiles_ok_def list_all2_conv_all_nth)
  moreover have "pp_card p = SOUND_CARD" if "p \<in> set (pcm_devices_init P)" for p
    using that by (auto simp: pcm_devices_init_def pcm_device_playback_def pcm_device_capture_def
        pcm_device_playback_spk_and_headset_def)
  ultimately show ?thesis by (auto simp: same_profile_def)
qed

lemma profile_playback_id:
  assumes "profiles_ok P s" "get_pcm_device P (pcm_devices s) PCM_PLAYBACK devices = Some k"
  shows "pp_id (pcm_devices s ! k) = SOUND_PLAYBACK_DEVICE"
proof -
  have "same_profile (pcm_devices s ! k) (pcm_devices_init P ! k)" "k < length (pcm_devices_init P)"
    "pp_type (pcm_devices s ! k) = PCM_PLAYBACK"
    using assms(1) get_pcm_device_SomeD(1,2) [OF assms(2)] by (auto simp: profiles_ok_def list_all2_conv_all_nth)
  moreover have "pp_id p = SOUND_PLAYBACK_DEVICE" if "p \<in> set (pcm_devices_init P)" "pp_type p = PCM_PLAYBACK" for p
    using that by (auto simp: pcm_devices_init_def pcm_device_playback_def pcm_device_capture_def
        pcm_device_playback_spk_and_headset_def)
  ultimately show ?thesis by (auto simp: same_profile_def)
qed

lemma core_mixer:
  assumes "core_inv P s"
  obtains mc where "adev_get_mixer_for_card (mixer_list s) SOUND_CARD = Some mc" "mc_card mc = SOUND_CARD"
    "SOUND_CARD \<in> mc_card ` set (mixer_list s)"
proof -
  obtain mc where mc: "adev_get_mixer_for_card (mixer_list s) SOUND_CARD = Some mc"
    using assms by (auto simp: core_inv_def routes_ok_def)
  then show ?thesis using that mixers.lookup_SomeD [OF mc] by force
qed

lemma uc_select_pcm_devices_eq:
  assumes c: "core_inv P s" and h: "healthy P" and a: "outs s a = Some out"
    and r: "uc_stream u = OutRef a"
    and k: "get_pcm_device P (pcm_devices s) (uc_type u) (uc_devices u) = Some k"
  shows "uc_select_pcm_devices P u s = Some (u\<lparr>uc_mixer_list := [SOUND_CARD]\<rparr>,
    (emit (Calloc ''pcm_device'') (s\<lparr>next_addr := next_addr s + 1\<rparr>))
    \<lparr>outs := (outs s)(a \<mapsto> out\<lparr>so_pcm_dev_list := Some [new_pcm_device k]\<rparr>)\<rparr>)"
proof -
  obtain mc where mc: "adev_get_mixer_for_card (mixer_list s) SOUND_CARD = Some mc" "mc_card mc = SOUND_CARD"
    using core_mixer [OF c] by blast
  have card: "pp_card (pcm_devices s ! k) = SOUND_CARD"
    using profile_card [of P s k] c get_pcm_device_SomeD(1) [OF k] by (simp add: core_inv_def)
  show ?thesis
    by (simp add: uc_select_pcm_devices_def out_of_usecase_def r a k healthy_calloc [OF h] card mc
        uc_get_mixer_for_card_def)
      (simp add: upd_out_def emit_def a)
qed

lemma alloc_same:
  "core_same P s (emit (Calloc x) (s\<lparr>next_addr := next_addr s + 1\<rparr>))"
  "rest_same s (emit (Calloc x) (s\<lparr>next_addr := next_addr s + 1\<rparr>))"
  "locks_same s (emit (Calloc x) (s\<lparr>next_addr := next_addr s + 1\<rparr>))"
  by (simp_all add: core_same_def rest_same_def locks_same_def profiles_ok_def)

lemma set_out_same:
  "outs s a = Some x \<Longrightarrow> so_usecase y = so_usecase x \<Longrightarrow> core_same P s (s\<lparr>outs := (outs s)(a \<mapsto> y)\<rparr>)"
  "rest_same s (s\<lparr>outs := (outs s)(a \<mapsto> y)\<rparr>)" "locks_same s (s\<lparr>outs := (outs s)(a \<mapsto> y)\<rparr>)"
  by (simp_all add: core_same_def rest_same_def locks_same_def profiles_ok_def)

text \<open>The one device of the list opens, or the error path leaves it without a handle.\<close>

lemma out_open_pcm_devices_eq:
  assumes h: "healthy P" and a: "outs s a = Some out" and d: "so_pcm_dev_list out = Some [new_pcm_device k]"
  shows "\<exists>c f cfg n p. pcm_open P (trace s) c n f cfg = Some p \<and>
      n \<in> {SOUND_DEEP_BUFFER_DEVICE, pp_id (pcm_devices s ! k)} \<and> out_open_pcm_devices P a s =
    (if pcm_is_ready p
     then Some (0, (emit (PcmOpen c n f cfg (Some p)) s)\<lparr>outs := (outs s)(a \<mapsto>
       out\<lparr>so_pcm_dev_list := Some [(new_pcm_device k)\<lparr>pd_pcm := Some p\<rparr>]\<rparr>)\<rparr>)
     else Some (- EIO, (emit (PcmOpen c n f cfg (Some p)) s)\<lparr>outs := (outs s)(a \<mapsto> out)\<rparr>))"
proof -
  define c where "c = pp_card (pcm_devices s ! k)"
  define n where "n = (if has_bits (so_flags out) (AUDIO_OUTPUT_FLAG_DEEP_BUFFER P)
                       then pp_id (pcm_device_deep_buffer P) else pp_id (pcm_devices s ! k))"
  define f where "f = PCM_OUT P OR PCM_MONOTONIC P"
  obtain p where p: "pcm_open P (trace s) c n f (so_config out) = Some p"
    using healthy_open [OF h] .
  have none: "(new_pcm_device k)\<lparr>pd_pcm := None\<rparr> = new_pcm_device k" "pd_pcm (new_pcm_device k) = None"
    "pd_profile (new_pcm_device k) = k"
    by (simp_all add: new_pcm_device_def)
  have out: "out\<lparr>so_pcm_dev_list := Some [new_pcm_device k]\<rparr> = out" using d by simp
  have "open_pcm_devices P out [new_pcm_device k] s =
      (if pcm_is_ready p
       then (0, [(new_pcm_device k)\<lparr>pd_pcm := Some p\<rparr>], emit (PcmOpen c n f (so_config out) (Some p)) s)
       else (- EIO, [new_pcm_device k], emit (PcmOpen c n f (so_config out) (Some p)) s))"
    using p none by (simp add: Let_def c_def n_def f_def)
  then have "out_open_pcm_devices P a s =
    (if pcm_is_ready p
     then Some (0, (emit (PcmOpen c n f (so_config out) (Some p)) s)\<lparr>outs := (outs s)(a \<mapsto>
       out\<lparr>so_pcm_dev_list := Some [(new_pcm_device k)\<lparr>pd_pcm := Some p\<rparr>]\<rparr>)\<rparr>)
     else Some (- EIO, (emit (PcmOpen c n f (so_config out) (Some p)) s)\<lparr>outs := (outs s)(a \<mapsto> out)\<rparr>))"
    by (simp add: out_open_pcm_devices_def out_close_pcm_devices_def close_pcms_def no_pcm_def none out a d upd_out_def
        emit_def)
  moreover have "n \<in> {SOUND_DEEP_BUFFER_DEVICE, pp_id (pcm_devices s ! k)}"
    by (simp add: n_def pcm_device_deep_buffer_def)
  ultimately show ?thesis using p by blast
qed

section \<open>Stopping an output stream\<close>

text \<open>The use case that plays a stream.\<close>

definition plays :: "hal \<Rightarrow> nat \<Rightarrow> audio_usecase \<Rightarrow> bool" where
  "plays s a u \<longleftrightarrow> u \<in> set (usecase_list s) \<and> uc_type u = PCM_PLAYBACK \<and> uc_stream u = OutRef a"

definition records :: "hal \<Rightarrow> nat \<Rightarrow> audio_usecase \<Rightarrow> bool" where
  "records s a u \<longleftrightarrow> u \<in> set (usecase_list s) \<and> uc_type u = PCM_CAPTURE \<and> uc_stream u = InRef a"

lemma plays_lookup:
  assumes c: "core_inv P s" and u: "plays s a u" and a: "outs s a = Some out"
  shows "get_usecase_from_id (usecase_list s) (so_usecase out) = Some u"
proof -
  have "uc_linked s u" using c u by (simp add: core_inv_def linked_def plays_def)
  then have "uc_id u = so_usecase out" using u a by (auto simp: uc_linked_simps plays_def)
  moreover have "get_usecase_from_id (usecase_list s) (uc_id u) = Some u"
    using c u by (intro usecases.lookup_unique) (auto simp: core_inv_def routing_inv_def ids_distinct_def plays_def)
  ultimately show ?thesis by simp
qed

lemma records_lookup:
  assumes c: "core_inv P s" and u: "records s a u" and a: "ins s a = Some i"
  shows "get_usecase_from_id (usecase_list s) (si_usecase i) = Some u"
proof -
  have "uc_linked s u" using c u by (simp add: core_inv_def linked_def records_def)
  then have "uc_id u = si_usecase i" using u a by (auto simp: uc_linked_simps records_def)
  moreover have "get_usecase_from_id (usecase_list s) (uc_id u) = Some u"
    using c u by (intro usecases.lookup_unique) (auto simp: core_inv_def routing_inv_def ids_distinct_def records_def)
  ultimately show ?thesis by simp
qed

text \<open>The list of use cases without the one at an address, up to the devices in use.\<close>

definition stopped :: "hal \<Rightarrow> nat \<Rightarrow> hal \<Rightarrow> bool" where
  "stopped s b s' \<longleftrightarrow>
     map uc_shape (usecase_list s') = filter (\<lambda>(a, _). a \<noteq> b) (map uc_shape (usecase_list s))"

lemma stopped_remove:
  assumes "map uc_shape (usecase_list t) = map uc_shape (usecase_list s)"
  shows "stopped s b (remove_usecase b t)"
proof -
  have "map uc_shape (others b us) = filter (\<lambda>(a, _). a \<noteq> b) (map uc_shape us)" for us
    by (induction us) (simp_all add: others_def uc_shape_def)
  then show ?thesis using assms by (simp add: stopped_def)
qed

lemma remove_after_upd:
  "(\<And>u. uc_addr (f u) = uc_addr u) \<Longrightarrow> remove_usecase b (upd_uc b f s) = remove_usecase b s"
proof -
  assume f: "\<And>u. uc_addr (f u) = uc_addr u"
  have "filter (\<lambda>u. uc_addr u \<noteq> b) (update_where (\<lambda>u. uc_addr u = b) f us) = filter (\<lambda>u. uc_addr u \<noteq> b) us" for us
    by (induction us) (simp_all add: f)
  then show ?thesis by (simp add: remove_usecase_def upd_uc_def)
qed

lemma remove_upd_out: "remove_usecase b (upd_out a f s) = upd_out a f (remove_usecase b s)"
  by (simp add: remove_usecase_def upd_out_def)

text \<open>The use case of a stream goes, with its devices; the handles are the caller's business.\<close>

lemma stop_output_wp:
  assumes c: "core_inv P s" and u: "plays s a u" and a: "outs s a = Some out"
    and devs: "so_pcm_dev_list out = Some devs"
  shows "wp (stop_output_stream a s) (\<lambda>(r, s'). r = 0 \<and> core_inv P s' \<and> rest_same s s' \<and>
    locks_same s s' \<and> stopped s (uc_addr u) s' \<and> ins s' = ins s \<and> pcm_devices s' = pcm_devices s \<and>
    active_input s' = active_input s \<and> outs s' = (outs s)(a \<mapsto> out\<lparr>so_pcm_dev_list := Some []\<rparr>) \<and>
    open_pcms (trace s') = open_pcms (trace s))"
proof -
  have look: "get_usecase_from_id (usecase_list s) (so_usecase out) = Some u" by (rule plays_lookup [OF c u a])
  obtain r3 s3 where s3: "disable_snd_device u (uc_out_snd_device u) s = Some (r3, s3)"
    "usecase_list s3 = usecase_list s" "routing_inv (remove_usecase (uc_addr u) s3)" "routing_frame s s3"
    using disable_playback_wp [of s u] c u by (auto simp: wp_exists core_inv_def plays_def)
  note f3 = routing_frame_fields [OF s3(4)]
  define s4 where "s4 = upd_out a (\<lambda>out. out\<lparr>so_pcm_dev_list := Some []\<rparr>) (remove_usecase (uc_addr u) s3)"
  have "stop_output_stream a s = Some (0, s4)"
    using u by (simp add: stop_output_stream_def disable_output_path_l_def a look s3(1) uc_release_pcm_devices_def
        out_of_usecase_def plays_def f3 devs remove_after_upd remove_upd_out s4_def)
  moreover have "core_inv P s4"
    unfolding s4_def
    by (rule core_inv_same [OF core_inv_remove [OF c s3(4,3)] upd_out_core]) simp
  moreover have "rest_same s s4"
    unfolding s4_def by (rule rest_same_trans [OF frame_same(2) [OF s3(4)] rest_same_trans [OF upd_same(7) upd_same(1)]])
  moreover have "locks_same s s4"
    unfolding s4_def by (rule locks_same_trans [OF frame_same(1) [OF s3(4)] locks_same_trans [OF upd_same(8) upd_same(2)]])
  moreover have "stopped s (uc_addr u) s4"
    using stopped_remove [of s3 s "uc_addr u"] s3(2) by (simp add: stopped_def s4_def)
  moreover have "outs s4 = (outs s)(a \<mapsto> out\<lparr>so_pcm_dev_list := Some []\<rparr>)"
    by (simp add: s4_def f3 a)
  moreover have "open_pcms (trace s4) = open_pcms (trace s)" "ins s4 = ins s" "pcm_devices s4 = pcm_devices s"
    by (simp_all add: s4_def f3)
  moreover have "active_input s4 = active_input s"
    using f3(4) by (simp add: s4_def upd_out_def remove_usecase_def)
  ultimately show ?thesis by simp
qed

section \<open>Starting an output stream\<close>

text \<open>The shape of the use case that starting a stream adds.\<close>

definition started :: "hal \<Rightarrow> nat \<Rightarrow> audio_usecase_t \<Rightarrow> usecase_type_t \<Rightarrow> stream_ref \<Rightarrow> hal \<Rightarrow> bool" where
  "started s n uid ty r s' \<longleftrightarrow>
     map uc_shape (usecase_list s') = map uc_shape (usecase_list s) @ [(n, uid, ty, r, [SOUND_CARD])]"

lemma fresh_id:
  "get_usecase_from_id us uid = None \<Longrightarrow> uid \<notin> uc_id ` set us"
  by (simp add: usecases.lookup_None_iff)

text \<open>The use case is entered and its devices are selected.\<close>

lemma enter_usecase_wp:
  assumes c: "core_inv P s" and cast: "cast_ok P"
    and u: "uc_out_snd_device u = SND_DEVICE_NONE" "uc_in_snd_device u = SND_DEVICE_NONE"
      "uc_mixer_list u = [SOUND_CARD]" "uc_linked s u"
    and fresh: "get_usecase_from_id (usecase_list s) (uc_id u) = None"
      "uc_addr u < next_addr s" "uc_addr u \<notin> uc_addr ` set (usecase_list s)"
  shows "wp (select_devices P uid (add_usecase u s)) (\<lambda>(r, s'). core_inv P s' \<and>
    started s (uc_addr u) (uc_id u) (uc_type u) (uc_stream u) s' \<and>
    routing_frame (add_usecase u s) s')"
proof -
  have "SOUND_CARD \<in> mc_card ` set (mixer_list s)" using core_mixer [OF c] by blast
  then have "idle_usecase s u"
    using u fresh fresh_id by (simp add: idle_usecase_def)
  then have c1: "core_inv P (add_usecase u s)"
    using core_inv_add [OF c] u fresh(2) by blast
  have "started s (uc_addr u) (uc_id u) (uc_type u) (uc_stream u) s'"
    if "routing_frame (add_usecase u s) s'" for s'
    using routing_frame_shape [OF that] u(3) by (simp add: started_def uc_shape_def)
  then show ?thesis
    using core_select_devices [OF c1 cast, of uid] core_inv_frame [OF c1] by (auto elim!: wp_mono)
qed

lemma below_fresh: "core_inv P s \<Longrightarrow> next_addr s \<notin> uc_addr ` set (usecase_list s)"
  by (force simp: core_inv_def addrs_ok_def)

lemma started_member:
  assumes "started s n uid ty r s'"
  obtains v where "v \<in> set (usecase_list s')" "uc_shape v = (n, uid, ty, r, [SOUND_CARD])"
proof -
  have "(n, uid, ty, r, [SOUND_CARD]) \<in> set (map uc_shape (usecase_list s'))" using assms by (simp add: started_def)
  then show ?thesis using that by auto
qed

text \<open>A use case that is entered and removed again leaves the others.\<close>

lemma started_stopped:
  assumes "core_inv P s" and "started s (next_addr s) uid ty r s1" and "stopped s1 (next_addr s) s2"
  shows "map uc_shape (usecase_list s2) = map uc_shape (usecase_list s)"
proof -
  have "filter (\<lambda>(b, _). b \<noteq> next_addr s) (map uc_shape (usecase_list s)) = map uc_shape (usecase_list s)"
    using below_fresh [OF assms(1)] by (intro filter_True) (force simp: uc_shape_def)
  then show ?thesis using assms(2,3) by (simp add: started_def stopped_def)
qed

text \<open>The PCM device of a new use case is put into the list of its stream.\<close>

lemma list_pcm_device_same:
  fixes s :: hal and x :: string and l :: "pcm_device list option"
  assumes "outs s a = Some out"
  defines "s' \<equiv> (emit (Calloc x) (s\<lparr>next_addr := next_addr s + 1\<rparr>))\<lparr>outs := (outs s)(a \<mapsto> out\<lparr>so_pcm_dev_list := l\<rparr>)\<rparr>"
  shows "core_same P s s'" "rest_same s s'" "locks_same s s'"
proof -
  define t where "t = emit (Calloc x) (s\<lparr>next_addr := next_addr s + 1\<rparr>)"
  have al: "core_same P s t" "rest_same s t" "locks_same s t" unfolding t_def by (rule alloc_same)+
  have o: "outs t a = Some out" using assms(1) by (simp add: t_def)
  have s': "s' = t\<lparr>outs := (outs t)(a \<mapsto> out\<lparr>so_pcm_dev_list := l\<rparr>)\<rparr>" by (simp add: s'_def t_def)
  have ts: "core_same P t s'" "rest_same t s'" "locks_same t s'"
    unfolding s' using set_out_same(1) [OF o, of "out\<lparr>so_pcm_dev_list := l\<rparr>"] set_out_same(2,3) by simp_all
  show "core_same P s s'" "rest_same s s'" "locks_same s s'"
    using al ts core_same_trans rest_same_trans locks_same_trans by blast+
qed

lemma enable_output_path_wp:
  assumes c: "core_inv P s" and cast: "cast_ok P" and h: "healthy P"
    and a: "outs s a = Some out" and fresh: "get_usecase_from_id (usecase_list s) (so_usecase out) = None"
    and k: "get_pcm_device P (pcm_devices s) PCM_PLAYBACK (so_devices out) = Some k"
  shows "wp (enable_output_path_l P a s) (\<lambda>(r, s'). r = 0 \<and> core_inv P s' \<and> rest_same s s' \<and>
    locks_same s s' \<and> ins s' = ins s \<and> pcm_devices s' = pcm_devices s \<and> active_input s' = active_input s \<and>
    started s (next_addr s) (so_usecase out) PCM_PLAYBACK (OutRef a) s' \<and>
    outs s' = (outs s)(a \<mapsto> out\<lparr>so_pcm_dev_list := Some [new_pcm_device k]\<rparr>) \<and>
    open_pcms (trace s') = open_pcms (trace s))"
proof -
  define s0 where "s0 = emit (Calloc ''audio_usecase'') (s\<lparr>next_addr := next_addr s + 1\<rparr>)"
  define out1 where "out1 = out\<lparr>so_pcm_dev_list := Some [new_pcm_device k]\<rparr>"
  define s1 where "s1 = (emit (Calloc ''pcm_device'') (s0\<lparr>next_addr := next_addr s0 + 1\<rparr>))
    \<lparr>outs := (outs s0)(a \<mapsto> out1)\<rparr>"
  define u where "u = (new_usecase (next_addr s) (so_usecase out) PCM_PLAYBACK (OutRef a) (so_devices out))
    \<lparr>uc_mixer_list := [SOUND_CARD]\<rparr>"
  have a0: "outs s0 a = Some out" using a by (simp add: s0_def)
  have same0: "core_same P s s0" "rest_same s s0" "locks_same s s0"
    unfolding s0_def by (rule alloc_same)+
  have sel: "uc_select_pcm_devices P (new_usecase (next_addr s) (so_usecase out) PCM_PLAYBACK (OutRef a)
      (so_devices out)) s0 = Some (u, s1)"
    using uc_select_pcm_devices_eq [OF core_inv_same [OF c same0(1)] h a0, of "new_usecase (next_addr s)
      (so_usecase out) PCM_PLAYBACK (OutRef a) (so_devices out)" k] k
    by (simp add: new_usecase_def s0_def s1_def out1_def u_def)
  note same = list_pcm_device_same [where x = "''pcm_device''" and l = "Some [new_pcm_device k]", OF a0, folded out1_def, folded s1_def]
  have c1: "core_inv P s1" using core_inv_same [OF c core_same_trans [OF same0(1) same(1)]] .
  have "wp (select_devices P (so_usecase out) (add_usecase u s1)) (\<lambda>(r, s'). core_inv P s' \<and>
    started s1 (uc_addr u) (uc_id u) (uc_type u) (uc_stream u) s' \<and> routing_frame (add_usecase u s1) s')"
    using fresh below_fresh [OF c]
    by (intro enter_usecase_wp [OF c1 cast])
      (auto simp: u_def new_usecase_def uc_linked_simps s1_def s0_def out1_def)
  then obtain r2 s2 where s2: "select_devices P (so_usecase out) (add_usecase u s1) = Some (r2, s2)"
    "core_inv P s2" "started s1 (uc_addr u) (uc_id u) (uc_type u) (uc_stream u) s2"
    "routing_frame (add_usecase u s1) s2"
    by (auto simp: wp_exists)
  have "enable_output_path_l P a s = Some (0, s2)"
    using sel s2(1) by (simp add: enable_output_path_l_def a healthy_calloc [OF h] s0_def [symmetric, simplified])
  moreover have "rest_same s s2"
    by (rule rest_same_trans [OF rest_same_trans [OF rest_same_trans [OF same0(2) same(2)] upd_same(5)] frame_same(2) [OF s2(4)]])
  moreover have "locks_same s s2"
    by (rule locks_same_trans [OF locks_same_trans [OF locks_same_trans [OF same0(3) same(3)] upd_same(6)] frame_same(1) [OF s2(4)]])
  moreover have "started s (next_addr s) (so_usecase out) PCM_PLAYBACK (OutRef a) s2"
    using s2(3) by (simp add: started_def u_def new_usecase_def s1_def s0_def)
  ultimately show ?thesis
    using s2(2) routing_frame_fields [OF s2(4)] by (simp add: s1_def s0_def add_usecase_def out1_def)
qed

lemma start_output_wp:
  assumes c: "core_inv P s" and cast: "cast_ok P" and h: "healthy P"
    and a: "outs s a = Some out" and fresh: "get_usecase_from_id (usecase_list s) (so_usecase out) = None"
    and k: "get_pcm_device P (pcm_devices s) PCM_PLAYBACK (so_devices out) = Some k"
  shows "wp (start_output_stream P a s) (\<lambda>(r, s'). core_inv P s' \<and> rest_same s s' \<and>
    locks_same s s' \<and> ins s' = ins s \<and> pcm_devices s' = pcm_devices s \<and> active_input s' = active_input s \<and>
    (if r = 0
     then started s (next_addr s) (so_usecase out) PCM_PLAYBACK (OutRef a) s' \<and>
       (\<exists>d p. outs s' = (outs s)(a \<mapsto> out\<lparr>so_pcm_dev_list := Some [d]\<rparr>) \<and> pd_pcm d = Some p \<and> pcm_is_ready p \<and>
          open_pcms (trace s') = add_mset p (open_pcms (trace s)) \<and> playback_handle P p)
     else r = - EIO \<and> map uc_shape (usecase_list s') = map uc_shape (usecase_list s) \<and>
       outs s' = (outs s)(a \<mapsto> out\<lparr>so_pcm_dev_list := Some []\<rparr>) \<and>
       open_pcms (trace s') = open_pcms (trace s)))"
proof -
  obtain s2 where s2: "enable_output_path_l P a s = Some (0, s2)" "core_inv P s2" "rest_same s s2" "locks_same s s2"
    "ins s2 = ins s" "pcm_devices s2 = pcm_devices s" "active_input s2 = active_input s"
    "started s (next_addr s) (so_usecase out) PCM_PLAYBACK (OutRef a) s2"
    "outs s2 = (outs s)(a \<mapsto> out\<lparr>so_pcm_dev_list := Some [new_pcm_device k]\<rparr>)" "open_pcms (trace s2) = open_pcms (trace s)"
    using enable_output_path_wp [OF c cast h a fresh k] by (auto simp: wp_exists)
  define out1 where "out1 = out\<lparr>so_pcm_dev_list := Some [new_pcm_device k]\<rparr>"
  have a2: "outs s2 a = Some out1" by (simp add: s2(9) out1_def)
  obtain cd f cfg n p where po: "pcm_open P (trace s2) cd n f cfg = Some p"
      "n \<in> {SOUND_DEEP_BUFFER_DEVICE, pp_id (pcm_devices s2 ! k)}" and op: "out_open_pcm_devices P a s2 =
    (if pcm_is_ready p
     then Some (0, (emit (PcmOpen cd n f cfg (Some p)) s2)\<lparr>outs := (outs s2)(a \<mapsto>
       out1\<lparr>so_pcm_dev_list := Some [(new_pcm_device k)\<lparr>pd_pcm := Some p\<rparr>]\<rparr>)\<rparr>)
     else Some (- EIO, (emit (PcmOpen cd n f cfg (Some p)) s2)\<lparr>outs := (outs s2)(a \<mapsto> out1)\<rparr>))"
    using out_open_pcm_devices_eq [OF h a2, of k] unfolding out1_def by auto
  have "pp_id (pcm_devices s ! k) = SOUND_PLAYBACK_DEVICE"
    using profile_playback_id [OF _ k] c by (simp add: core_inv_def)
  then have "n \<in> {SOUND_PLAYBACK_DEVICE, SOUND_DEEP_BUFFER_DEVICE}" using po(2) s2(6) by auto
  then have pb: "playback_handle P p" using po(1) unfolding playback_handle_def by blast
  define out2 where "out2 = (if pcm_is_ready p
    then out1\<lparr>so_pcm_dev_list := Some [(new_pcm_device k)\<lparr>pd_pcm := Some p\<rparr>]\<rparr> else out1)"
  define s3 where "s3 = (emit (PcmOpen cd n f cfg (Some p)) s2)\<lparr>outs := (outs s2)(a \<mapsto> out2)\<rparr>"
  have start: "start_output_stream P a s =
      (if pcm_is_ready p then Some (0, s3) else do { q \<leftarrow> stop_output_stream a s3; Some (- EIO, snd q) })"
    using s2(1) op by (simp add: start_output_stream_def s3_def out2_def)
  have same3: "core_same P s2 s3" "rest_same s2 s3" "locks_same s2 s3"
    using a2 by (simp_all add: s3_def core_same_def rest_same_def locks_same_def profiles_ok_def out1_def out2_def)
  note r3 = rest_same_trans [OF s2(3) same3(2)] and l3 = locks_same_trans [OF s2(4) same3(3)]
    and c3 = core_inv_same [OF s2(2) same3(1)]
  have st3: "started s (next_addr s) (so_usecase out) PCM_PLAYBACK (OutRef a) s3"
    using s2(8) by (simp add: started_def s3_def)
  have f3: "active_input s3 = active_input s" "ins s3 = ins s" "pcm_devices s3 = pcm_devices s"
    "open_pcms (trace s3) = pcm_set (Some p) + open_pcms (trace s)" "outs s3 = (outs s)(a \<mapsto> out2)"
    using s2 by (simp_all add: s3_def)
  show ?thesis
  proof (cases "pcm_is_ready p")
    case True
    then have "outs s3 = (outs s)(a \<mapsto> out\<lparr>so_pcm_dev_list := Some [(new_pcm_device k)\<lparr>pd_pcm := Some p\<rparr>]\<rparr>)"
      using f3(5) by (simp add: out2_def out1_def)
    then show ?thesis
      unfolding start using True c3 r3 l3 st3 f3 pb
      by (auto intro!: exI [of _ "(new_pcm_device k)\<lparr>pd_pcm := Some p\<rparr>"])
  next
    case False
    have o3: "outs s3 a = Some out1" "so_pcm_dev_list out1 = Some [new_pcm_device k]"
      using False f3(5) by (simp_all add: out2_def out1_def)
    obtain v where "v \<in> set (usecase_list s3)"
      "uc_shape v = (next_addr s, so_usecase out, PCM_PLAYBACK, OutRef a, [SOUND_CARD])" by (rule started_member [OF st3])
    then have v: "plays s3 a v" "uc_addr v = next_addr s" by (simp_all add: plays_def uc_shape_def)
    obtain s4 where s4: "stop_output_stream a s3 = Some (0, s4)" "core_inv P s4" "rest_same s3 s4" "locks_same s3 s4"
      "stopped s3 (uc_addr v) s4" "ins s4 = ins s3" "pcm_devices s4 = pcm_devices s3" "active_input s4 = active_input s3"
      "outs s4 = (outs s3)(a \<mapsto> out1\<lparr>so_pcm_dev_list := Some []\<rparr>)" "open_pcms (trace s4) = open_pcms (trace s3)"
      using stop_output_wp [OF c3 v(1) o3] by (auto simp: wp_exists)
    have "map uc_shape (usecase_list s4) = map uc_shape (usecase_list s)"
      by (rule started_stopped [OF c st3 s4(5) [unfolded v(2)]])
    moreover have "outs s4 = (outs s)(a \<mapsto> out\<lparr>so_pcm_dev_list := Some []\<rparr>)" by (simp add: s4(9) f3(5) out1_def)
    moreover have "open_pcms (trace s4) = open_pcms (trace s)" using s4(10) f3(4) False by simp
    ultimately show ?thesis
      unfolding start using False s4 f3 rest_same_trans [OF r3 s4(3)] locks_same_trans [OF l3 s4(4)] by simp
  qed
qed

section \<open>Standby\<close>

lemma do_out_standby_wp:
  assumes c: "core_inv P s" and u: "plays s a u" and a: "outs s a = Some out"
    and devs: "so_pcm_dev_list out = Some devs"
  shows "wp (do_out_standby_l a s) (\<lambda>(r, s'). r = 0 \<and> core_inv P s' \<and> rest_same s s' \<and>
    locks_same s s' \<and> stopped s (uc_addr u) s' \<and> ins s' = ins s \<and> pcm_devices s' = pcm_devices s \<and>
    active_input s' = active_input s \<and>
    outs s' = (outs s)(a \<mapsto> out\<lparr>so_standby := True, so_pcm_dev_list := Some []\<rparr>) \<and>
    open_pcms (trace s') = open_pcms (trace s) - list_pcms devs)"
proof -
  define s1 where "s1 = upd_out a (\<lambda>out. out\<lparr>so_standby := True\<rparr>) s"
  define s2 where "s2 = upd_out a (\<lambda>out. out\<lparr>so_pcm_dev_list := Some (map no_pcm devs)\<rparr>) (close_pcms devs s1)"
  have close: "out_close_pcm_devices a s1 = Some s2"
    by (simp add: out_close_pcm_devices_def s1_def s2_def a devs)
  have a2: "outs s2 = (outs s)(a \<mapsto> out\<lparr>so_standby := True, so_pcm_dev_list := Some (map no_pcm devs)\<rparr>)"
    by (simp add: s2_def close_pcms_same s1_def a)
  have same1: "core_same P s s1" "rest_same s s1" "locks_same s s1"
    unfolding s1_def by (simp_all add: upd_out_core)
  have same2: "core_same P s1 s2" "rest_same s1 s2" "locks_same s1 s2"
  proof -
    show "core_same P s1 s2"
      unfolding s2_def by (rule core_same_trans [OF close_pcms_same(1) upd_out_core]) simp
    show "rest_same s1 s2"
      unfolding s2_def by (rule rest_same_trans [OF close_pcms_same(2) upd_same(1)])
    show "locks_same s1 s2"
      unfolding s2_def by (rule locks_same_trans [OF close_pcms_same(3) upd_same(2)])
  qed
  have c2: "core_inv P s2"
    by (rule core_inv_same [OF core_inv_same [OF c same1(1)] same2(1)])
  have l2: "usecase_list s2 = usecase_list s" by (simp add: s2_def close_pcms_same s1_def)
  have u2: "plays s2 a u" using u l2 by (simp add: plays_def)
  define out2 where "out2 = out\<lparr>so_standby := True, so_pcm_dev_list := Some (map no_pcm devs)\<rparr>"
  have a2': "outs s2 a = Some out2" "so_pcm_dev_list out2 = Some (map no_pcm devs)" using a2 by (simp_all add: out2_def)
  obtain s4 where s4: "stop_output_stream a s2 = Some (0, s4)" "core_inv P s4" "rest_same s2 s4" "locks_same s2 s4"
    "stopped s2 (uc_addr u) s4" "ins s4 = ins s2" "pcm_devices s4 = pcm_devices s2" "active_input s4 = active_input s2"
    "outs s4 = (outs s2)(a \<mapsto> out2\<lparr>so_pcm_dev_list := Some []\<rparr>)" "open_pcms (trace s4) = open_pcms (trace s2)"
    using stop_output_wp [OF c2 u2 a2'] by (auto simp: wp_exists)
  have "do_out_standby_l a s = Some (0, s4)"
    by (simp add: do_out_standby_l_def s1_def [symmetric] close s4(1))
  moreover have "rest_same s s4" by (rule rest_same_trans [OF rest_same_trans [OF same1(2) same2(2)] s4(3)])
  moreover have "locks_same s s4" by (rule locks_same_trans [OF locks_same_trans [OF same1(3) same2(3)] s4(4)])
  moreover have "stopped s (uc_addr u) s4" using s4(5) l2 by (simp add: stopped_def)
  moreover have "outs s4 = (outs s)(a \<mapsto> out\<lparr>so_standby := True, so_pcm_dev_list := Some []\<rparr>)"
    by (simp add: s4(9) a2 out2_def)
  moreover have "open_pcms (trace s4) = open_pcms (trace s) - list_pcms devs"
    by (simp add: s4(10) s2_def close_pcms_same s1_def)
  moreover have "ins s4 = ins s" "pcm_devices s4 = pcm_devices s" "active_input s4 = active_input s"
    using s4(6-8) by (simp_all add: s2_def s1_def close_pcms_same upd_out_def)
  ultimately show ?thesis using s4(2) by simp
qed

end
