(* ===== verification/InputInv.thy ===== *)
theory InputInv
  imports StreamInv
begin

text \<open>Starting and stopping an input stream, against the invariant of \<open>DeviceInv\<close>.\<close>

section \<open>Steps that only concern the stream\<close>

text \<open>
  The state changes in the input stream at \<open>a\<close>, which keeps its identity, and makes calls that
  concern neither mutexes, mixer paths nor PCM handles.
\<close>

definition same_stream :: "stream_in \<Rightarrow> stream_in \<Rightarrow> bool" where
  "same_stream i j \<longleftrightarrow>
     si_usecase j = si_usecase i \<and> si_usecase_type j = si_usecase_type i \<and>
     si_standby j = si_standby i \<and> si_devices j = si_devices i \<and> si_source j = si_source i \<and>
     si_requested_rate j = si_requested_rate i \<and> si_main_channels j = si_main_channels i"

definition in_step :: "platform \<Rightarrow> nat \<Rightarrow> hal \<Rightarrow> hal \<Rightarrow> bool" where
  "in_step P a s s' \<longleftrightarrow>
     core_same P s s' \<and> rest_same s s' \<and> locks_same s s' \<and>
     usecase_list s' = usecase_list s \<and> outs s' = outs s \<and> pcm_devices s' = pcm_devices s \<and>
     active_input s' = active_input s \<and> (\<forall>b. b \<noteq> a \<longrightarrow> ins s' b = ins s b) \<and>
     (\<exists>i j. ins s a = Some i \<and> ins s' a = Some j \<and> same_stream i j)"

lemma same_stream_refl [simp]: "same_stream i i"
  by (simp add: same_stream_def)

lemma same_stream_trans: "same_stream i j \<Longrightarrow> same_stream j k \<Longrightarrow> same_stream i k"
  by (simp add: same_stream_def)

lemma in_step_trans:
  assumes x: "in_step P a s s'" and y: "in_step P a s' s''"
  shows "in_step P a s s''"
proof -
  have "core_same P s s''" "rest_same s s''" "locks_same s s''"
    using x y core_same_trans rest_same_trans locks_same_trans unfolding in_step_def by blast+
  then show ?thesis
    using x y same_stream_trans unfolding in_step_def by (metis option.inject)
qed

lemma in_step_refl: "ins s a = Some i \<Longrightarrow> in_step P a s s"
  by (simp add: in_step_def)

lemma in_step_emit:
  "ins s a = Some i \<Longrightarrow> \<not> is_route_call c \<Longrightarrow> \<not> is_lock_call c \<Longrightarrow> in_step P a s (emit c s)"
  by (simp add: in_step_def emit_core)

lemma in_step_upd:
  assumes "ins s a = Some i" "\<And>x. same_stream x (f x)"
  shows "in_step P a s (upd_in a f s)"
proof -
  have "core_same P s (upd_in a f s)"
    using assms(2) by (intro upd_in_core) (simp_all add: same_stream_def)
  then show ?thesis
    using assms by (simp add: in_step_def upd_in_def locks_same_def rest_same_def)
qed

lemma in_step_same:
  assumes "in_step P a s s'" "ins s a = Some i" "ins s' a = Some j"
  shows "same_stream i j"
  using assms unfolding in_step_def by fastforce

definition same_all :: "platform \<Rightarrow> hal \<Rightarrow> hal \<Rightarrow> bool" where
  "same_all P s s' \<longleftrightarrow> core_same P s s' \<and> rest_same s s' \<and> locks_same s s'"

lemma same_all_refl: "same_all P s s"
  by (simp add: same_all_def)

lemma same_all_trans [trans]: "same_all P s s' \<Longrightarrow> same_all P s' s'' \<Longrightarrow> same_all P s s''"
  unfolding same_all_def using core_same_trans rest_same_trans locks_same_trans by blast

lemma same_all_alloc: "same_all P s (emit (Calloc x) (s\<lparr>next_addr := next_addr s + 1\<rparr>))"
  using alloc_same by (simp add: same_all_def)

lemma same_all_active: "same_all P s (s\<lparr>active_input := x\<rparr>)"
  by (simp add: same_all_def core_same_def rest_same_def locks_same_def profiles_ok_def)

section \<open>Stopping\<close>

text \<open>The use case of a stream goes, with its devices; the handles are the caller's business.\<close>

lemma stop_input_wp:
  assumes c: "core_inv P s" and u: "records s a u" and i: "ins s a = Some i"
    and devs: "si_pcm_dev_list i = Some (d # ds)"
  shows "wp (stop_input_stream a s) (\<lambda>(r, s'). r = 0 \<and> core_inv P s' \<and> rest_same s s' \<and>
    locks_same s s' \<and> stopped s (uc_addr u) s' \<and> outs s' = outs s \<and> pcm_devices s' = pcm_devices s \<and>
    active_input s' = None \<and> ins s' = (ins s)(a \<mapsto> i\<lparr>si_pcm_dev_list := Some []\<rparr>) \<and>
    open_pcms (trace s') = open_pcms (trace s))"
proof -
  define s2 where "s2 = s\<lparr>active_input := None\<rparr>"
  have same: "same_all P s s2" unfolding s2_def by (rule same_all_active)
  have c2: "core_inv P s2" using core_inv_same [OF c] same by (simp add: same_all_def)
  have u2: "records s2 a u" using u by (simp add: records_def s2_def)
  have look: "get_usecase_from_id (usecase_list s2) (si_usecase i) = Some u"
    using records_lookup [OF c2 u2] i by (simp add: s2_def)
  obtain r3 s3 where s3: "disable_snd_device u (uc_in_snd_device u) s2 = Some (r3, s3)"
    "usecase_list s3 = usecase_list s2" "routing_inv (remove_usecase (uc_addr u) s3)" "routing_frame s2 s3"
    using disable_capture_wp [of s2 u] c2 u2 by (auto simp: wp_exists core_inv_def records_def)
  note f3 = routing_frame_fields [OF s3(4)]
  define s4 where "s4 = upd_in a (\<lambda>i. i\<lparr>si_pcm_dev_list := Some []\<rparr>) (remove_usecase (uc_addr u) s3)"
  have "stop_input_stream a s = Some (0, s4)"
    by (simp add: stop_input_stream_def i devs s2_def [symmetric] look s3(1) in_release_pcm_devices_def f3 s4_def
        look [unfolded s2_def, simplified]) (simp add: s2_def i devs)
  moreover have "core_inv P s4"
    unfolding s4_def by (rule core_inv_same [OF core_inv_remove [OF c2 s3(4,3)] upd_in_core]) simp_all
  moreover have "rest_same s s4"
  proof -
    have "rest_same s s2" using same by (simp add: same_all_def)
    also have "rest_same s2 s3" using frame_same(2) [OF s3(4)] .
    also have "rest_same s3 s4" unfolding s4_def by (rule rest_same_trans [OF upd_same(7) upd_same(3)])
    finally show ?thesis .
  qed
  moreover have "locks_same s s4"
  proof -
    have "locks_same s s2" using same by (simp add: same_all_def)
    also have "locks_same s2 s3" using frame_same(1) [OF s3(4)] .
    also have "locks_same s3 s4" unfolding s4_def by (rule locks_same_trans [OF upd_same(8) upd_same(4)])
    finally show ?thesis .
  qed
  moreover have "stopped s (uc_addr u) s4"
    using stopped_remove [of s3 s "uc_addr u"] s3(2) by (simp add: stopped_def s4_def s2_def)
  moreover have "ins s4 = (ins s)(a \<mapsto> i\<lparr>si_pcm_dev_list := Some []\<rparr>)" by (simp add: s4_def f3 s2_def i)
  moreover have "open_pcms (trace s4) = open_pcms (trace s)" "outs s4 = outs s" "pcm_devices s4 = pcm_devices s"
    by (simp_all add: s4_def f3 s2_def)
  moreover have "active_input s4 = None"
    using f3(4) by (simp add: s4_def s2_def upd_in_def remove_usecase_def)
  ultimately show ?thesis by simp
qed

section \<open>Starting\<close>

lemma release_resampler_step:
  assumes "ins s a = Some i"
  shows "wp (release_resampler a s) (\<lambda>s'. in_step P a s s' \<and> open_pcms (trace s') = open_pcms (trace s) \<and>
    (\<exists>j. ins s' a = Some j \<and> si_pcm_dev_list j = si_pcm_dev_list i \<and> si_config j = si_config i))"
proof (cases "si_resampler i")
  case None
  then show ?thesis using assms in_step_refl [OF assms] by (simp add: release_resampler_def)
next
  case (Some r)
  have "in_step P a (emit (ReleaseResampler r) s) (upd_in a (\<lambda>i. i\<lparr>si_resampler := None\<rparr>) (emit (ReleaseResampler r) s))"
    by (rule in_step_upd [of _ _ i]) (simp_all add: assms same_stream_def)
  then have "in_step P a s (upd_in a (\<lambda>i. i\<lparr>si_resampler := None\<rparr>) (emit (ReleaseResampler r) s))"
    using in_step_trans in_step_emit [OF assms, of "ReleaseResampler r"] by simp blast
  then show ?thesis using assms Some by (simp add: release_resampler_def)
qed

lemma update_input_config_step:
  assumes i: "ins s a = Some i" and h: "healthy P"
  shows "wp (update_input_config P a cfg s) (\<lambda>(r, s'). r = 0 \<and> in_step P a s s' \<and>
    open_pcms (trace s') = open_pcms (trace s) \<and>
    (\<exists>j. ins s' a = Some j \<and> si_pcm_dev_list j = si_pcm_dev_list i \<and> si_config j = cfg))"
proof -
  define s1 where "s1 = upd_in a (\<lambda>i. i\<lparr>si_config := cfg\<rparr>) s"
  have step1: "in_step P a s s1"
    unfolding s1_def by (rule in_step_upd [OF i]) (simp add: same_stream_def)
  have i1: "ins s1 a = Some (i\<lparr>si_config := cfg\<rparr>)" by (simp add: s1_def i)
  show ?thesis
  proof (cases "pc_rate (si_config i) \<noteq> pc_rate cfg \<or> si_requested_rate i \<noteq> pc_rate cfg")
    case False
    then show ?thesis using step1 i1 by (simp add: update_input_config_def i s1_def [symmetric]) (simp add: s1_def)
  next
    case True
    obtain s2 j where s2: "release_resampler a s1 = Some s2" "in_step P a s1 s2"
      "open_pcms (trace s2) = open_pcms (trace s1)" "ins s2 a = Some j"
      "si_pcm_dev_list j = si_pcm_dev_list i" "si_config j = cfg"
      using release_resampler_step [OF i1, of P] by (auto simp: wp_exists)
    define c where "c = CreateResampler (pc_rate cfg) (si_requested_rate i) (pc_channels cfg)"
    define r where "r = snd (create_resampler P (trace s2) (pc_rate cfg) (si_requested_rate i) (pc_channels cfg))"
    define s3 where "s3 = upd_in a (\<lambda>i. i\<lparr>si_resampler := r\<rparr>) (emit c s2)"
    have "in_step P a s2 (emit c s2)" by (rule in_step_emit [OF s2(4)]) (simp_all add: c_def)
    moreover have "in_step P a (emit c s2) s3"
      unfolding s3_def by (rule in_step_upd [of _ _ j]) (simp_all add: s2(4) same_stream_def)
    ultimately have "in_step P a s s3"
      using in_step_trans [OF in_step_trans [OF step1 s2(2)]] in_step_trans by blast
    moreover have "update_input_config P a cfg s = Some (0, s3)"
      using True h s2(1)
      by (simp add: update_input_config_def i s1_def [symmetric] split_beta healthy_def s3_def c_def r_def)
    moreover have "open_pcms (trace s3) = open_pcms (trace s)"
      using s2(3) by (simp add: s3_def c_def s1_def)
    ultimately show ?thesis using s2 by (simp add: s3_def)
  qed
qed

text \<open>The handle is ready and the stream has it, or it is closed and the use case goes.\<close>

lemma open_input_pcm_wp:
  assumes c: "core_inv P s" and u: "records s a u" and i: "ins s a = Some i"
    and d: "si_pcm_dev_list i = Some [d]" and h: "healthy P"
  shows "wp (open_input_pcm P a k 0 s) (\<lambda>(r, s'). core_inv P s' \<and> rest_same s s' \<and> locks_same s s' \<and>
    outs s' = outs s \<and> pcm_devices s' = pcm_devices s \<and> (\<forall>b. b \<noteq> a \<longrightarrow> ins s' b = ins s b) \<and>
    (\<exists>j. ins s' a = Some j \<and> same_stream i j \<and>
      (if r = 0
       then usecase_list s' = usecase_list s \<and> active_input s' = active_input s \<and>
         si_config j = si_config i \<and> si_read_buf_frames j = 0 \<and>
         (\<exists>p. si_pcm_dev_list j = Some [d\<lparr>pd_pcm := Some p\<rparr>] \<and> pcm_is_ready p \<and>
            open_pcms (trace s') = add_mset p (open_pcms (trace s)))
       else r = - EIO \<and> stopped s (uc_addr u) s' \<and> active_input s' = None \<and>
         si_pcm_dev_list j = Some [] \<and> open_pcms (trace s') = open_pcms (trace s))))"
proof -
  define prof where "prof = pcm_devices s ! k"
  define f where "f = PCM_IN P OR PCM_MONOTONIC P"
  obtain p where p: "pcm_open P (trace s) (pp_card prof) (pp_id prof) f (pp_config prof) = Some p"
    using healthy_open [OF h] .
  define s1 where "s1 = emit (PcmOpen (pp_card prof) (pp_id prof) f (pp_config prof) (Some p)) s"
  have i1: "ins s1 a = Some i" by (simp add: s1_def i)
  have step1: "in_step P a s s1" unfolding s1_def by (rule in_step_emit [OF i]) simp_all
  show ?thesis
  proof (cases "pcm_is_ready p")
    case True
    define g where "g = (\<lambda>i :: stream_in. i\<lparr>si_pcm_dev_list := map_option (set_head_pcm (Some p)) (si_pcm_dev_list i),
      si_proc_buf_size := 0, si_read_buf_size := 0, si_read_buf_frames := 0\<rparr>)"
    define s2 where "s2 = upd_in a g s1"
    define s3 where "s3 = (case si_resampler (g i) of None \<Rightarrow> s2 | Some r \<Rightarrow> emit (ResetResampler r) s2)"
    have i2: "ins s2 a = Some (g i)" by (simp add: s2_def i1)
    have "in_step P a s1 s2"
      unfolding s2_def by (rule in_step_upd [OF i1]) (simp add: g_def same_stream_def)
    moreover have "in_step P a s2 s3"
      unfolding s3_def using in_step_refl [OF i2] in_step_emit [OF i2] by (auto split: option.split)
    ultimately have step: "in_step P a s s3" using in_step_trans step1 by blast
    have "open_input_pcm P a k 0 s = Some (0, s3)"
      using p True i1 i2 by (simp add: open_input_pcm_def prof_def [symmetric] f_def [symmetric] s1_def [symmetric]
          g_def [symmetric] s2_def [symmetric] s3_def)
    moreover have "ins s3 a = Some (g i)" using i2 by (simp add: s3_def split: option.split)
    moreover have "open_pcms (trace s3) = add_mset p (open_pcms (trace s))"
      using True by (simp add: s3_def s2_def s1_def split: option.split)
    moreover have "core_inv P s3" using core_inv_same [OF c] step by (simp add: in_step_def)
    ultimately show ?thesis using step True
      by (simp add: g_def d set_head_pcm_def in_step_def same_stream_def)
  next
    case False
    define s2 where "s2 = emit (PcmClose (Some p)) s1"
    have i2: "ins s2 a = Some i" by (simp add: s2_def i1)
    have step2: "in_step P a s s2"
      unfolding s2_def by (rule in_step_trans [OF step1 in_step_emit [OF i1]]) simp_all
    obtain s3 j where s3: "release_resampler a s2 = Some s3" "in_step P a s2 s3"
      "open_pcms (trace s3) = open_pcms (trace s2)" "ins s3 a = Some j" "si_pcm_dev_list j = si_pcm_dev_list i"
      using release_resampler_step [OF i2, of P] by (auto simp: wp_exists)
    have step: "in_step P a s s3" by (rule in_step_trans [OF step2 s3(2)])
    then have c3: "core_inv P s3" and l3: "usecase_list s3 = usecase_list s"
      using core_inv_same [OF c] by (simp_all add: in_step_def)
    have u3: "records s3 a u" using u l3 by (simp add: records_def)
    have j: "si_pcm_dev_list j = Some [d]" using s3(5) d by simp
    have ij: "same_stream i j" by (rule in_step_same [OF step i s3(4)])
    obtain s4 where s4: "stop_input_stream a s3 = Some (0, s4)" "core_inv P s4" "rest_same s3 s4" "locks_same s3 s4"
      "stopped s3 (uc_addr u) s4" "outs s4 = outs s3" "pcm_devices s4 = pcm_devices s3" "active_input s4 = None"
      "ins s4 = (ins s3)(a \<mapsto> j\<lparr>si_pcm_dev_list := Some []\<rparr>)" "open_pcms (trace s4) = open_pcms (trace s3)"
      using stop_input_wp [OF c3 u3 s3(4) j] by (auto simp: wp_exists)
    have "s4\<lparr>active_input := None\<rparr> = s4" using s4(8) by simp
    then have "open_input_pcm P a k 0 s = Some (- EIO, s4)"
      using p False s3(1) s4(1)
      by (simp add: open_input_pcm_def prof_def [symmetric] f_def [symmetric] s1_def [symmetric] s2_def [symmetric])
    moreover have "rest_same s s4"
      by (rule rest_same_trans [OF _ s4(3)]) (use step in \<open>simp add: in_step_def\<close>)
    moreover have "locks_same s s4"
      by (rule locks_same_trans [OF _ s4(4)]) (use step in \<open>simp add: in_step_def\<close>)
    moreover have "open_pcms (trace s4) = open_pcms (trace s)"
      using False by (simp add: s4(10) s3(3) s2_def s1_def)
    moreover have "same_stream i (j\<lparr>si_pcm_dev_list := Some []\<rparr>)" using ij by (simp add: same_stream_def)
    ultimately show ?thesis
      using s4 step l3 by (simp add: in_step_def stopped_def)
  qed
qed

text \<open>The FAST flag changes the period size of the profile.\<close>

lemma set_period_size_same:
  assumes "k < length (pcm_devices s)" and n: "n \<noteq> 0"
  shows "core_same P s (set_period_size k n s)" "rest_same s (set_period_size k n s)"
    "locks_same s (set_period_size k n s)"
proof -
  have "same_profile (p\<lparr>pp_config := (pp_config p)\<lparr>pc_period_size := n\<rparr>\<rparr>) q" if "same_profile p q" for p q
    using that n unfolding same_profile_def by (auto intro!: exI [of _ n])
  then have "profiles_ok P s \<Longrightarrow> profiles_ok P (set_period_size k n s)"
    using assms by (auto simp: profiles_ok_def set_period_size_def list_all2_conv_all_nth nth_list_update)
  then show "core_same P s (set_period_size k n s)" by (simp add: core_same_def set_period_size_def)
  show "rest_same s (set_period_size k n s)" "locks_same s (set_period_size k n s)"
    by (simp_all add: rest_same_def locks_same_def set_period_size_def)
qed

lemma set_period_size_fields [simp]:
  "ins (set_period_size k n s) = ins s" "outs (set_period_size k n s) = outs s"
  "usecase_list (set_period_size k n s) = usecase_list s" "trace (set_period_size k n s) = trace s"
  "active_input (set_period_size k n s) = active_input s" "next_addr (set_period_size k n s) = next_addr s"
  "mixer_list (set_period_size k n s) = mixer_list s"
  "length (pcm_devices (set_period_size k n s)) = length (pcm_devices s)"
  by (simp_all add: set_period_size_def)

text \<open>The state before the devices of a capture are selected, and its use case.\<close>

definition capture_entry :: "platform \<Rightarrow> nat \<Rightarrow> nat \<Rightarrow> stream_in \<Rightarrow> hal \<Rightarrow> hal" where
  "capture_entry P a k i s =
     (let s = s\<lparr>active_input := Some a\<rparr>;
          s = (if has_bits (si_input_flags i) (AUDIO_INPUT_FLAG_FAST P)
               then set_period_size k CAPTURE_PERIOD_SIZE_LOW_LATENCY s else s);
          s = emit (Calloc ''audio_usecase'') (s\<lparr>next_addr := next_addr s + 1\<rparr>);
          s = emit (Calloc ''pcm_device'') (s\<lparr>next_addr := next_addr s + 1\<rparr>)
      in upd_in a (\<lambda>i. i\<lparr>si_pcm_dev_list := Some [new_pcm_device k]\<rparr>) s)"

lemma capture_entry_same:
  assumes "k < length (pcm_devices s)"
  shows "same_all P s (capture_entry P a k i s)"
proof -
  define s1 where "s1 = s\<lparr>active_input := Some a\<rparr>"
  define s2 where "s2 = (if has_bits (si_input_flags i) (AUDIO_INPUT_FLAG_FAST P)
               then set_period_size k CAPTURE_PERIOD_SIZE_LOW_LATENCY s1 else s1)"
  define s3 where "s3 = emit (Calloc ''audio_usecase'') (s2\<lparr>next_addr := next_addr s2 + 1\<rparr>)"
  define s4 where "s4 = emit (Calloc ''pcm_device'') (s3\<lparr>next_addr := next_addr s3 + 1\<rparr>)"
  have "same_all P s s1" unfolding s1_def by (rule same_all_active)
  also have "same_all P s1 s2"
    using assms set_period_size_same [of k s1] by (simp add: s2_def same_all_refl same_all_def s1_def)
  also have "same_all P s2 s3" unfolding s3_def by (rule same_all_alloc)
  also have "same_all P s3 s4" unfolding s4_def by (rule same_all_alloc)
  also have "same_all P s4 (upd_in a (\<lambda>i. i\<lparr>si_pcm_dev_list := Some [new_pcm_device k]\<rparr>) s4)"
    by (simp add: same_all_def upd_in_core)
  finally show ?thesis
    unfolding s4_def s3_def s2_def s1_def capture_entry_def Let_def .
qed

lemma capture_entry_fields:
  "ins (capture_entry P a k i s) = (ins s)(a := map_option (\<lambda>i. i\<lparr>si_pcm_dev_list := Some [new_pcm_device k]\<rparr>) (ins s a))"
  "outs (capture_entry P a k i s) = outs s" "usecase_list (capture_entry P a k i s) = usecase_list s"
  "next_addr (capture_entry P a k i s) = next_addr s + 2" "active_input (capture_entry P a k i s) = Some a"
  "open_pcms (trace (capture_entry P a k i s)) = open_pcms (trace s)"
  "length (pcm_devices (capture_entry P a k i s)) = length (pcm_devices s)"
  by (simp_all add: capture_entry_def Let_def upd_in_def)

text \<open>
  Entering a capture: the use case is added, its devices are selected and the resampler is set up;
  then the PCM is opened.
\<close>

lemma start_input_entry:
  assumes c: "core_inv P s" and cast: "cast_ok P" and h: "healthy P"
    and i: "ins s a = Some i" and fresh: "get_usecase_from_id (usecase_list s) (si_usecase i) = None"
    and k: "get_pcm_device P (pcm_devices s) (si_usecase_type i) (si_devices i) = Some k"
  obtains s6 j where "start_input_stream P a s = open_input_pcm P a k 0 s6" "core_inv P s6" "rest_same s s6" "locks_same s s6"
    "outs s6 = outs s" "length (pcm_devices s6) = length (pcm_devices s)" "\<forall>b. b \<noteq> a \<longrightarrow> ins s6 b = ins s b"
    "active_input s6 = Some a" "open_pcms (trace s6) = open_pcms (trace s)"
    "started s (next_addr s) (si_usecase i) PCM_CAPTURE (InRef a) s6"
    "ins s6 a = Some j" "same_stream i j" "si_pcm_dev_list j = Some [new_pcm_device k]"
    "si_config j = pp_config (pcm_devices s6 ! k)"
proof -
  define s4 where "s4 = capture_entry P a k i s"
  note f4 = capture_entry_fields [of P a k i s, folded s4_def]
  have kl: "k < length (pcm_devices s)" using get_pcm_device_SomeD(1) [OF k] .
  have same4: "same_all P s s4" unfolding s4_def by (rule capture_entry_same [OF kl])
  have c4: "core_inv P s4" using core_inv_same [OF c] same4 by (simp add: same_all_def)
  have card: "pp_card (pcm_devices s4 ! k) = SOUND_CARD"
    using profile_card [of P s4 k] c4 kl f4(7) by (simp add: core_inv_def)
  obtain mc where mc: "adev_get_mixer_for_card (mixer_list s4) SOUND_CARD = Some mc" "mc_card mc = SOUND_CARD"
    using core_mixer [OF c4] by blast
  define u where "u = (new_usecase (next_addr s) (si_usecase i) PCM_CAPTURE (InRef a) (si_devices i))
    \<lparr>uc_mixer_list := [SOUND_CARD]\<rparr>"
  have "wp (select_devices P (si_usecase i) (add_usecase u s4)) (\<lambda>(r, s'). core_inv P s' \<and>
    started s4 (uc_addr u) (uc_id u) (uc_type u) (uc_stream u) s' \<and> routing_frame (add_usecase u s4) s')"
    using fresh below_fresh [OF c] f4 i
    by (intro enter_usecase_wp [OF c4 cast]) (auto simp: u_def new_usecase_def uc_linked_simps)
  then obtain r5 s5 where s5: "select_devices P (si_usecase i) (add_usecase u s4) = Some (r5, s5)"
    "core_inv P s5" "started s4 (uc_addr u) (uc_id u) (uc_type u) (uc_stream u) s5"
    "routing_frame (add_usecase u s4) s5"
    by (auto simp: wp_exists)
  note f5 = routing_frame_fields [OF s5(4)]
  have i5: "ins s5 a = Some (i\<lparr>si_pcm_dev_list := Some [new_pcm_device k]\<rparr>)" using f5 f4 i by simp
  define cfg where "cfg = pp_config (pcm_devices s5 ! k)"
  obtain s6 j where s6: "update_input_config P a cfg s5 = Some (0, s6)" "in_step P a s5 s6"
    "open_pcms (trace s6) = open_pcms (trace s5)" "ins s6 a = Some j"
    "si_pcm_dev_list j = Some [new_pcm_device k]" "si_config j = cfg"
    using update_input_config_step [OF i5 h, of cfg] by (auto simp: wp_exists)
  have step: "usecase_list s6 = usecase_list s5" "pcm_devices s6 = pcm_devices s5" "active_input s6 = active_input s5"
    "rest_same s5 s6" "locks_same s5 s6" "outs s6 = outs s5" "\<forall>b. b \<noteq> a \<longrightarrow> ins s6 b = ins s5 b"
    using s6(2) by (simp_all add: in_step_def)
  have run: "start_input_stream P a s = open_input_pcm P a k 0 s6"
  proof -
    define t0 where "t0 = (if has_bits (si_input_flags i) (AUDIO_INPUT_FLAG_FAST P)
      then set_period_size k CAPTURE_PERIOD_SIZE_LOW_LATENCY (s\<lparr>active_input := Some a\<rparr>)
      else s\<lparr>active_input := Some a\<rparr>)"
    define t1 where "t1 = emit (Calloc ''audio_usecase'') (t0\<lparr>next_addr := next_addr t0 + 1\<rparr>)"
    have "next_addr t0 = next_addr s" by (simp add: t0_def)
    moreover have "s4 = upd_in a (\<lambda>i. i\<lparr>si_pcm_dev_list := Some [new_pcm_device k]\<rparr>)
        (emit (Calloc ''pcm_device'') (t1\<lparr>next_addr := next_addr t1 + 1\<rparr>))"
      by (simp add: s4_def capture_entry_def Let_def t0_def t1_def)
    ultimately show ?thesis
      using i k s5(1) s6(1) mc card
      by (simp add: start_input_stream_def t0_def [symmetric] healthy_calloc [OF h] t1_def
          u_def cfg_def Let_def)
  qed
  have same: "rest_same s s6" "locks_same s s6"
    using same4 rest_same_trans [OF rest_same_trans [OF rest_same_trans [OF _ upd_same(5)] frame_same(2) [OF s5(4)]] step(4)]
      locks_same_trans [OF locks_same_trans [OF locks_same_trans [OF _ upd_same(6)] frame_same(1) [OF s5(4)]] step(5)]
    by (simp_all add: same_all_def)
  have "core_inv P s6" using core_inv_same [OF s5(2)] s6(2) by (simp add: in_step_def)
  moreover have "same_stream i j"
    using in_step_same [OF s6(2) i5 s6(4)] by (simp add: same_stream_def)
  moreover have "started s (next_addr s) (si_usecase i) PCM_CAPTURE (InRef a) s6"
    using s5(3) step(1) f4 by (simp add: started_def u_def new_usecase_def)
  moreover have "outs s6 = outs s" "\<forall>b. b \<noteq> a \<longrightarrow> ins s6 b = ins s b" "active_input s6 = Some a"
    "length (pcm_devices s6) = length (pcm_devices s)" "open_pcms (trace s6) = open_pcms (trace s)"
    using step s6(3) f5 f4 by (simp_all add: add_usecase_def)
  ultimately show ?thesis using that [OF run] same s6(4-6) step(2) by (simp add: cfg_def)
qed

lemma start_input_wp:
  assumes c: "core_inv P s" and cast: "cast_ok P" and h: "healthy P"
    and i: "ins s a = Some i" and fresh: "get_usecase_from_id (usecase_list s) (si_usecase i) = None"
    and k: "get_pcm_device P (pcm_devices s) (si_usecase_type i) (si_devices i) = Some k"
  shows "wp (start_input_stream P a s) (\<lambda>(r, s'). core_inv P s' \<and> rest_same s s' \<and> locks_same s s' \<and>
    outs s' = outs s \<and> length (pcm_devices s') = length (pcm_devices s) \<and>
    (\<forall>b. b \<noteq> a \<longrightarrow> ins s' b = ins s b) \<and>
    (\<exists>j. ins s' a = Some j \<and> same_stream i j \<and>
      (if r = 0
       then started s (next_addr s) (si_usecase i) PCM_CAPTURE (InRef a) s' \<and> active_input s' = Some a \<and>
         si_config j = pp_config (pcm_devices s' ! k) \<and> si_read_buf_frames j = 0 \<and>
         (\<exists>d p. si_pcm_dev_list j = Some [d] \<and> pd_pcm d = Some p \<and> pcm_is_ready p \<and>
            open_pcms (trace s') = add_mset p (open_pcms (trace s)))
       else r = - EIO \<and> map uc_shape (usecase_list s') = map uc_shape (usecase_list s) \<and>
         active_input s' = None \<and> si_pcm_dev_list j = Some [] \<and>
         open_pcms (trace s') = open_pcms (trace s))))"
proof -
  obtain s6 j where s6: "start_input_stream P a s = open_input_pcm P a k 0 s6" "core_inv P s6" "rest_same s s6" "locks_same s s6"
    "outs s6 = outs s" "length (pcm_devices s6) = length (pcm_devices s)" "\<forall>b. b \<noteq> a \<longrightarrow> ins s6 b = ins s b"
    "active_input s6 = Some a" "open_pcms (trace s6) = open_pcms (trace s)"
    and st: "started s (next_addr s) (si_usecase i) PCM_CAPTURE (InRef a) s6"
    and j: "ins s6 a = Some j" "same_stream i j" "si_pcm_dev_list j = Some [new_pcm_device k]"
    "si_config j = pp_config (pcm_devices s6 ! k)"
    by (rule start_input_entry [OF assms])
  obtain v where "v \<in> set (usecase_list s6)"
    "uc_shape v = (next_addr s, si_usecase i, PCM_CAPTURE, InRef a, [SOUND_CARD])" by (rule started_member [OF st])
  then have v: "records s6 a v" "uc_addr v = next_addr s" by (simp_all add: records_def uc_shape_def)
  obtain r s7 j' where s7: "open_input_pcm P a k 0 s6 = Some (r, s7)" "core_inv P s7" "rest_same s6 s7" "locks_same s6 s7"
    "outs s7 = outs s6" "pcm_devices s7 = pcm_devices s6" "\<forall>b. b \<noteq> a \<longrightarrow> ins s7 b = ins s6 b"
    "ins s7 a = Some j'" "same_stream j j'"
    "if r = 0
     then usecase_list s7 = usecase_list s6 \<and> active_input s7 = active_input s6 \<and>
       si_config j' = si_config j \<and> si_read_buf_frames j' = 0 \<and>
       (\<exists>p. si_pcm_dev_list j' = Some [(new_pcm_device k)\<lparr>pd_pcm := Some p\<rparr>] \<and> pcm_is_ready p \<and>
          open_pcms (trace s7) = add_mset p (open_pcms (trace s6)))
     else r = - EIO \<and> stopped s6 (uc_addr v) s7 \<and> active_input s7 = None \<and>
       si_pcm_dev_list j' = Some [] \<and> open_pcms (trace s7) = open_pcms (trace s6)"
    using open_input_pcm_wp [OF s6(2) v(1) j(1,3) h, of k] by (auto simp: wp_exists simp del: if_split)
  have "map uc_shape (usecase_list s7) = map uc_shape (usecase_list s)" if "stopped s6 (uc_addr v) s7"
    by (rule started_stopped [OF c st that [unfolded v(2)]])
  moreover have "rest_same s s7" "locks_same s s7" "same_stream i j'"
    using rest_same_trans [OF s6(3) s7(3)] locks_same_trans [OF s6(4) s7(4)] same_stream_trans [OF j(2) s7(9)] by simp_all
  ultimately show ?thesis
    using s6 s7 st j(4) by (auto simp: started_def split: if_splits)
qed

section \<open>Standby\<close>

lemma do_in_standby_wp:
  assumes c: "core_inv P s" and u: "records s a u" and i: "ins s a = Some i"
    and active: "\<not> si_standby i" and devs: "si_pcm_dev_list i = Some (d # ds)"
  shows "wp (do_in_standby_l a s) (\<lambda>(r, s'). r = 0 \<and> core_inv P s' \<and> rest_same s s' \<and>
    locks_same s s' \<and> stopped s (uc_addr u) s' \<and> outs s' = outs s \<and> pcm_devices s' = pcm_devices s \<and>
    active_input s' = None \<and>
    ins s' = (ins s)(a \<mapsto> i\<lparr>si_pcm_dev_list := Some [], si_read_buf := [], si_standby := True,
                             si_last_read_time_us := 0\<rparr>) \<and>
    open_pcms (trace s') = open_pcms (trace s) - list_pcms (d # ds))"
proof -
  define closed where "closed = map no_pcm (d # ds)"
  define s1 where "s1 = upd_in a (\<lambda>i. i\<lparr>si_pcm_dev_list := Some closed\<rparr>) (close_pcms (d # ds) s)"
  have close: "in_close_pcm_devices a s = Some s1"
    by (simp add: in_close_pcm_devices_def s1_def closed_def i devs)
  have i1: "ins s1 = (ins s)(a \<mapsto> i\<lparr>si_pcm_dev_list := Some closed\<rparr>)"
    by (simp add: s1_def close_pcms_same i)
  have same: "same_all P s s1"
  proof -
    have "same_all P s (close_pcms (d # ds) s)"
      using close_pcms_same(1-3) unfolding same_all_def by blast
    also have "same_all P (close_pcms (d # ds) s) s1"
      unfolding s1_def same_all_def by (simp add: upd_in_core)
    finally show ?thesis .
  qed
  have c1: "core_inv P s1" using core_inv_same [OF c] same by (simp add: same_all_def)
  have l1: "usecase_list s1 = usecase_list s" by (simp add: s1_def close_pcms_same)
  have u1: "records s1 a u" using u l1 by (simp add: records_def)
  define i' where "i' = i\<lparr>si_pcm_dev_list := Some closed\<rparr>"
  have i1': "ins s1 a = Some i'" "si_pcm_dev_list i' = Some (no_pcm d # map no_pcm ds)"
    using i1 by (simp_all add: i'_def closed_def)
  obtain s2 where s2: "stop_input_stream a s1 = Some (0, s2)" "core_inv P s2" "rest_same s1 s2" "locks_same s1 s2"
    "stopped s1 (uc_addr u) s2" "outs s2 = outs s1" "pcm_devices s2 = pcm_devices s1" "active_input s2 = None"
    "ins s2 = (ins s1)(a \<mapsto> i'\<lparr>si_pcm_dev_list := Some []\<rparr>)" "open_pcms (trace s2) = open_pcms (trace s1)"
    using stop_input_wp [OF c1 u1 i1'] by (auto simp: wp_exists)
  define g where "g = (\<lambda>i. i\<lparr>si_read_buf := [], si_standby := True, si_last_read_time_us := 0\<rparr> :: stream_in)"
  define s3 where "s3 = upd_in a g s2"
  have merge: "upd_in a f (upd_in a f' t) = upd_in a (f \<circ> f') t" for f f' t
    by (simp add: upd_in_def option.map_comp)
  have "do_in_standby_l a s = Some (0, s3)"
    using active
    by (simp add: do_in_standby_l_def i close s2(1) merge s3_def g_def comp_def del: upd_in_fields)
  moreover have "core_inv P s3"
    unfolding s3_def by (rule core_inv_same [OF s2(2) upd_in_core]) (simp_all add: g_def)
  moreover have "rest_same s s3"
  proof -
    have "rest_same s s1" using same by (simp add: same_all_def)
    also note s2(3)
    also have "rest_same s2 s3" unfolding s3_def by (rule upd_same(3))
    finally show ?thesis .
  qed
  moreover have "locks_same s s3"
  proof -
    have "locks_same s s1" using same by (simp add: same_all_def)
    also note s2(4)
    also have "locks_same s2 s3" unfolding s3_def by (rule upd_same(4))
    finally show ?thesis .
  qed
  moreover have "stopped s (uc_addr u) s3" using s2(5) l1 by (simp add: stopped_def s3_def)
  moreover have "ins s3 = (ins s)(a \<mapsto> i\<lparr>si_pcm_dev_list := Some [], si_read_buf := [], si_standby := True,
      si_last_read_time_us := 0\<rparr>)"
    by (simp add: s3_def s2(9) i1 i'_def g_def)
  moreover have "open_pcms (trace s3) = open_pcms (trace s) - list_pcms (d # ds)"
    by (simp add: s3_def s2(10) s1_def close_pcms_same del: list_pcms_simps)
  moreover have "outs s3 = outs s" "pcm_devices s3 = pcm_devices s"
    by (simp_all add: s3_def s2(6,7) s1_def close_pcms_same)
  moreover have "active_input s3 = None" using s2(8) by (simp add: s3_def upd_in_def)
  ultimately show ?thesis by simp
qed

end
