(* ===== verification/Adev.thy ===== *)
theory Adev
  imports InStream
begin

text \<open>
  The device operations of \<open>audio/audio_hw.c\<close> (\<open>struct audio_hw_device\<close>): opening and closing
  the device and its streams, mode, volume, mute and parameters, the callbacks of the radio,
  and \<open>mixer_init\<close>.
\<close>

section \<open>Mixer cards\<close>

definition RETRY_NUMBER :: nat where [simp]: "RETRY_NUMBER = 10"
definition RETRY_US :: int where [simp]: "RETRY_US = 500000"

text \<open>The loop that opens a mixer: the first attempt and \<open>RETRY_NUMBER\<close> more.\<close>

definition try_mixer :: "platform \<Rightarrow> nat \<Rightarrow> hal \<Rightarrow> nat option \<times> hal" where
  "try_mixer P crd s = (mixer_open P (trace s) crd, emit (MixerOpen crd) s)"

fun open_mixer_retry :: "platform \<Rightarrow> nat \<Rightarrow> nat \<Rightarrow> hal \<Rightarrow> nat option \<times> hal" where
  "open_mixer_retry P crd 0 s = try_mixer P crd s"
| "open_mixer_retry P crd (Suc n) s =
     (let (m, s) = try_mixer P crd s in
      case m of
        Some mixer \<Rightarrow> (Some mixer, s)
      | None \<Rightarrow> open_mixer_retry P crd n (emit (Usleep RETRY_US) s))"

definition mixer_path_of :: "platform \<Rightarrow> string \<Rightarrow> hal \<Rightarrow> string \<times> hal" where
  "mixer_path_of P mixer_type s =
     (let vendor = ''/vendor/etc/mixer_paths'' @ mixer_type @ ''.xml'';
          found = file_exists P (trace s) vendor;
          s = emit (Access vendor) s
      in if found then (vendor, s)
         else let legacy = ''/system/etc/mixer_paths'' @ mixer_type @ ''.xml''
              in (legacy, emit (Access legacy) s))"

fun free_mixer_cards :: "mixer_card list \<Rightarrow> hal \<Rightarrow> hal" where
  "free_mixer_cards [] s = s"
| "free_mixer_cards (m # ms) s = free_mixer_cards ms (emit (RouteFree (mc_audio_route m)) s)"

definition free_mixer_list :: "hal \<Rightarrow> hal" where
  "free_mixer_list s = (free_mixer_cards (mixer_list s) s)\<lparr>mixer_list := []\<rparr>"

text \<open>One turn of the loop over the profiles: a status and the state, with the card added.\<close>

definition add_mixer_card :: "platform \<Rightarrow> string \<Rightarrow> nat \<Rightarrow> hal \<Rightarrow> int \<times> hal" where
  "add_mixer_card P mixer_type crd s =
     (let (m, s) = open_mixer_retry P crd RETRY_NUMBER s in
      case m of
        None \<Rightarrow> (- ENODEV, s)
      | Some mixer \<Rightarrow>
          let (mixer_path, s) = mixer_path_of P mixer_type s;
              r = audio_route_init P (trace s) crd mixer_path;
              s = emit (RouteInit crd mixer_path) s
          in (case r of
                None \<Rightarrow> (- ENODEV, s)
              | Some route \<Rightarrow>
                  let (p, s) = calloc P ''mixer_card'' s in
                  if p = None then (- ENOMEM, s)
                  else (0, s\<lparr>mixer_list := mixer_list s @
                         [\<lparr>mc_card = crd, mc_mixer = mixer, mc_audio_route = route,
                           mc_dsp_poweroff_time = 1\<rparr>]\<rparr>)))"

fun mixer_init_cards :: "platform \<Rightarrow> string \<Rightarrow> nat list \<Rightarrow> hal \<Rightarrow> int \<times> hal" where
  "mixer_init_cards P mixer_type [] s = (0, s)"
| "mixer_init_cards P mixer_type (crd # cards) s =
     (if adev_get_mixer_for_card (mixer_list s) crd = None
      then
        let (ret, s) = add_mixer_card P mixer_type crd s
        in if ret \<noteq> 0 then (ret, s) else mixer_init_cards P mixer_type cards s
      else mixer_init_cards P mixer_type cards s)"

definition mixer_init :: "platform \<Rightarrow> hal \<Rightarrow> int \<times> hal" where
  "mixer_init P s =
     (let s = s\<lparr>mixer_list := []\<rparr>;
          mixer_type = (if audience_enabled s then ''_audience'' else []);
          (ret, s) = mixer_init_cards P mixer_type (map pp_card (pcm_devices s)) s
      in if ret \<noteq> 0 then (ret, free_mixer_list s) else (0, s))"

section \<open>Opening and closing the device\<close>

text \<open>
  The device as the assignments of \<open>adev_open\<close> leave it.  The memory of the process (the
  profiles, the streams' heap and the history) is that of the state it starts from.
\<close>

definition fresh_adev :: "hal \<Rightarrow> hal" where
  "fresh_adev s = s\<lparr>
     mixer_list := [], mode := 0, active_input := None, primary_output := None,
     mic_mute := False, in_call := False, in_call_sco := False, in_comm_sco := False,
     volume := F32 1 0, bluetooth_nrec := False, bluetooth_wb := False,
     audience_enabled := False, forced_voice_config := False, wb_amr_type := 0,
     ril := \<lparr>client = None, volume_steps_max = 0\<rparr>,
     pcm_voice_rx := None, pcm_voice_tx := None, pcm_sco_rx := None, pcm_sco_tx := None,
     usecase_list := []\<rparr>"

definition is_prefix :: "string \<Rightarrow> string \<Rightarrow> bool" where
  "is_prefix p v \<longleftrightarrow> take (length p) v = p"

text \<open>\<open>property_get_bool\<close> with the default \<open>false\<close> of the C library.\<close>

definition property_is_true :: "string option \<Rightarrow> bool" where
  "property_is_true v = (v \<in> {Some ''1'', Some ''y'', Some ''yes'', Some ''on'', Some ''true''})"

definition read_voice_config :: "platform \<Rightarrow> hal \<Rightarrow> hal" where
  "read_voice_config P s =
     (let uses_audience = property_is_true (property_get P (trace s) ''audio_hal.uses.audience'');
          s = emit (PropertyGet ''audio_hal.uses.audience'') s;
          s = (if uses_audience then s\<lparr>audience_enabled := True\<rparr> else s);
          voice_config = (case property_get P (trace s) ''audio_hal.force_voice_config'' of
                            None \<Rightarrow> [] | Some v \<Rightarrow> v);
          s = emit (PropertyGet ''audio_hal.force_voice_config'') s
      in if audience_enabled s then s\<lparr>wb_amr_type := 0\<rparr>
         else if voice_config \<noteq> [] then
           s\<lparr>forced_voice_config := True,
             wb_amr_type := (if is_prefix ''narrow'' voice_config then 0
                             else if is_prefix ''wide'' voice_config then 1
                             else wb_amr_type s)\<rparr>
         else s)"

definition adev_open :: "platform \<Rightarrow> string \<Rightarrow> hal \<Rightarrow> int \<times> hal" where
  "adev_open P name s =
     (if name \<noteq> AUDIO_HARDWARE_INTERFACE P then (- EINVAL, s)
      else
        let (p, s) = calloc P ''audio_device'' s in
        if p = None then (- ENOMEM, s)
        else
          let s = (fresh_adev s)\<lparr>mode := AUDIO_MODE_NORMAL P\<rparr>;
              (p, s) = calloc P ''snd_dev_ref_cnt'' s
          in if p = None then (- ENOMEM, s)
             else
               let s = s\<lparr>snd_dev_ref_cnt := replicate (nat SND_DEVICE_MAX) 0\<rparr>;
                   (ret, s) = mixer_init P s
               in if ret \<noteq> 0 then (- EINVAL, s)
                  else
                    let (ret, s) = ril_open P s in
                    if ret \<noteq> 0 then (- EINVAL, s)
                    else
                      let s = read_voice_config P s
                      in (0, s\<lparr>audio_device_ref_count := audio_device_ref_count s + 1\<rparr>))"

definition adev_close :: "hal \<Rightarrow> int \<times> hal" where
  "adev_close s =
     (let s = s\<lparr>audio_device_ref_count := audio_device_ref_count s - 1\<rparr>
      in (0, free_mixer_list (s\<lparr>snd_dev_ref_cnt := []\<rparr>)))"

definition adev_dump :: "hal \<Rightarrow> int \<Rightarrow> int" where
  "adev_dump s fd = 0"

definition adev_init_check :: "hal \<Rightarrow> int" where
  "adev_init_check s = 0"

section \<open>Volume, mute, mode\<close>

definition adev_set_voice_volume :: "platform \<Rightarrow> f32 \<Rightarrow> hal \<Rightarrow> (int \<times> hal) option" where
  "adev_set_voice_volume P vol s = do {
     let s = (lock AdevLock s)\<lparr>volume := vol\<rparr>;
     (ret, s) \<leftarrow> set_voice_volume P (volume s) s;
     Some (ret, unlock AdevLock s)
   }"

definition adev_set_master_volume :: "f32 \<Rightarrow> hal \<Rightarrow> int" where
  "adev_set_master_volume vol s = - ENOSYS"

definition adev_get_master_volume :: "hal \<Rightarrow> int" where
  "adev_get_master_volume s = - ENOSYS"

definition adev_set_master_mute :: "bool \<Rightarrow> hal \<Rightarrow> int" where
  "adev_set_master_mute muted s = - ENOSYS"

definition adev_get_master_mute :: "hal \<Rightarrow> int" where
  "adev_get_master_mute s = - ENOSYS"

text \<open>The callbacks.  The body of the first is commented out in the source.\<close>

definition audio_set_pcm_clock_callback :: "int \<Rightarrow> hal \<Rightarrow> hal" where
  "audio_set_pcm_clock_callback clock_state s = s"

definition audio_set_wb_amr_callback :: "int \<Rightarrow> hal \<Rightarrow> hal" where
  "audio_set_wb_amr_callback wb_amr s =
     (if wb_amr \<noteq> 0 \<and> \<not> audience_enabled s \<and> \<not> forced_voice_config s then
        (if wb_amr \<noteq> 0 \<and> wb_amr_type s = 0 then s\<lparr>wb_amr_type := 1\<rparr>
         else if wb_amr = 0 \<and> wb_amr_type s \<noteq> 0 then s\<lparr>wb_amr_type := 0\<rparr>
         else s)
      else s)"

text \<open>
  The handlers that the RIL client library calls (\<open>ril_internal_*_callback\<close> in
  \<open>audio/ril_interface.c\<close>): \<open>read_int\<close> is the value of the \<open>int\<close> they read at the address of a
  message whose length must be 1.
\<close>

definition run_callback :: "ril_callback \<Rightarrow> int \<Rightarrow> hal \<Rightarrow> hal" where
  "run_callback cb v s =
     (case cb of
        audio_set_pcm_clock_cb \<Rightarrow> audio_set_pcm_clock_callback v s
      | audio_set_wb_amr_cb \<Rightarrow> audio_set_wb_amr_callback v s)"

definition ril_internal_wb_amr_callback :: "nat \<Rightarrow> int \<Rightarrow> hal \<Rightarrow> int \<times> hal" where
  "ril_internal_wb_amr_callback datalen read_int s =
     (case wb_amr_callback s of
        None \<Rightarrow> (-1, s)
      | Some cb \<Rightarrow> if datalen \<noteq> 1 then (-1, s) else (0, run_callback cb read_int s))"

definition ril_internal_pcm_clock_callback :: "nat \<Rightarrow> int \<Rightarrow> hal \<Rightarrow> int \<times> hal" where
  "ril_internal_pcm_clock_callback datalen read_int s =
     (case clock_state_callback s of
        None \<Rightarrow> (-1, s)
      | Some cb \<Rightarrow> if datalen \<noteq> 1 then (-1, s) else (0, run_callback cb read_int s))"

definition adev_set_mode :: "platform \<Rightarrow> int \<Rightarrow> hal \<Rightarrow> (int \<times> hal) option" where
  "adev_set_mode P m s = do {
     let s = lock AdevLock s;
     let s = (if mode s \<noteq> m then
                let s = (if m = AUDIO_MODE_IN_CALL P then
                           let s = snd (ril_connect_if_required P s);
                               s = snd (ril_set_pcm_clock_callback P (Some audio_set_pcm_clock_cb) s)
                           in snd (ril_set_wb_amr_callback P (Some audio_set_wb_amr_cb) s)
                         else s)
                in s\<lparr>mode := m\<rparr>
              else s);
     s \<leftarrow> (if mode s = AUDIO_MODE_NORMAL P \<and> in_call s
           then map_option snd (stop_voice_call P (snd (ril_set_call_clock_sync P SOUND_CLOCK_STOP s)))
           else Some s);
     Some (0, unlock AdevLock s)
   }"

definition adev_set_mic_mute :: "platform \<Rightarrow> bool \<Rightarrow> hal \<Rightarrow> int \<times> hal" where
  "adev_set_mic_mute P state s =
     (let s = (lock AdevLock s)\<lparr>mic_mute := state\<rparr>;
          (err, s) = (if mode s = AUDIO_MODE_IN_CALL P
                      then ril_set_mute P (if state then TX_MUTE else TX_UNMUTE) s
                      else (0, s))
      in (err, unlock AdevLock s))"

definition adev_get_mic_mute :: "hal \<Rightarrow> int \<times> bool" where
  "adev_get_mic_mute s = (0, mic_mute s)"

definition adev_set_parameters :: "platform \<Rightarrow> string \<Rightarrow> hal \<Rightarrow> int \<times> hal" where
  "adev_set_parameters P kvpairs s =
     (let s = (case str_parms_get_str P kvpairs AUDIO_PARAMETER_KEY_BT_NREC of
                 None \<Rightarrow> s
               | Some v \<Rightarrow> s\<lparr>bluetooth_nrec := (v = AUDIO_PARAMETER_VALUE_ON P)\<rparr>);
          s = (case str_parms_get_str P kvpairs AUDIO_PARAMETER_KEY_BT_SCO_WB of
                 None \<Rightarrow> s
               | Some v \<Rightarrow> s\<lparr>bluetooth_wb := (v = AUDIO_PARAMETER_VALUE_ON P)\<rparr>)
      in (0, s))"

definition adev_get_parameters :: "hal \<Rightarrow> string \<Rightarrow> string" where
  "adev_get_parameters s keys = []"

section \<open>Output streams\<close>

text \<open>A stream as \<open>calloc\<close> and the assignments of \<open>adev_open_output_stream\<close> leave it.\<close>

definition new_stream_out ::
  "platform \<Rightarrow> int \<Rightarrow> u32 \<Rightarrow> u32 \<Rightarrow> u32 \<Rightarrow> audio_usecase_t \<Rightarrow> pcm_config \<Rightarrow> stream_out" where
  "new_stream_out P handle devices flags format usecase cfg = \<lparr>
     so_config = cfg, so_pcm_dev_list = None, so_standby = True, so_sample_rate = pc_rate cfg,
     so_channel_mask = AUDIO_CHANNEL_OUT_STEREO P, so_format = format, so_devices = devices,
     so_flags = flags, so_usecase = usecase,
     so_supported_channel_masks = [AUDIO_CHANNEL_OUT_STEREO P, 0, 0],
     so_muted = False, so_written = 0, so_handle = handle, so_proc_buf_size = 0,
     so_last_write_time_us = 0\<rparr>"

text \<open>
  The result is a status, the address of the new stream, and the state.  After an error the
  memory of the stream is freed, whatever still points to it.
\<close>

definition adev_open_output_stream ::
  "platform \<Rightarrow> int \<Rightarrow> u32 \<Rightarrow> u32 \<Rightarrow> u32 \<Rightarrow> hal \<Rightarrow> int \<times> nat option \<times> hal" where
  "adev_open_output_stream P handle devices flags format s =
     (let (p, s) = calloc P ''stream_out'' s in
      case p of
        None \<Rightarrow> (- ENOMEM, None, s)
      | Some a \<Rightarrow>
          let devices = (if devices = AUDIO_DEVICE_NONE P then AUDIO_DEVICE_OUT_SPEAKER P else devices) in
          case get_pcm_device P (pcm_devices s) PCM_PLAYBACK devices of
            None \<Rightarrow> (- EINVAL, None, s)
          | Some k \<Rightarrow>
              let deep = has_bits flags (AUDIO_OUTPUT_FLAG_DEEP_BUFFER P);
                  usecase = (if deep then USECASE_AUDIO_PLAYBACK_DEEP_BUFFER else USECASE_AUDIO_PLAYBACK);
                  cfg = (if deep then pp_config (pcm_device_deep_buffer P)
                         else pp_config (pcm_devices s ! k));
                  primary = has_bits flags (AUDIO_OUTPUT_FLAG_PRIMARY P)
              in if primary \<and> primary_output s \<noteq> None then (- EEXIST, None, s)
                 else
                   let s = (if primary then s\<lparr>primary_output := Some a\<rparr> else s);
                       s = lock AdevLock s;
                       present = (get_usecase_from_id (usecase_list s) usecase \<noteq> None);
                       s = unlock AdevLock s
                   in if present then (- EEXIST, None, s)
                      else (0, Some a,
                            s\<lparr>outs := (outs s)(a \<mapsto>
                                new_stream_out P handle devices flags format usecase cfg)\<rparr>))"

definition adev_close_output_stream :: "nat \<Rightarrow> hal \<Rightarrow> hal option" where
  "adev_close_output_stream a s = do {
     r \<leftarrow> out_standby a s;
     Some ((snd r)\<lparr>outs := (outs (snd r))(a := None)\<rparr>)
   }"

section \<open>Input streams\<close>

definition new_stream_in ::
  "int \<Rightarrow> u32 \<Rightarrow> u32 \<Rightarrow> u32 \<Rightarrow> u32 \<Rightarrow> pcm_config \<Rightarrow> stream_in" where
  "new_stream_in source devices channel_mask rate flags cfg = \<lparr>
     si_config = cfg, si_pcm_dev_list = None, si_standby = True, si_source = source,
     si_devices = devices, si_main_channels = channel_mask, si_usecase = USECASE_AUDIO_CAPTURE,
     si_usecase_type = PCM_CAPTURE, si_input_flags = flags, si_requested_rate = rate,
     si_resampler = None, si_read_status = 0, si_read_buf = [], si_read_buf_size = 0,
     si_read_buf_frames = 0, si_proc_buf_size = 0, si_last_read_time_us = 0, si_frames_read = 0\<rparr>"

definition adev_get_input_buffer_size ::
  "platform \<Rightarrow> u32 \<Rightarrow> u32 \<Rightarrow> u32 \<Rightarrow> hal \<Rightarrow> nat option" where
  "adev_get_input_buffer_size P sample_rate format channel_mask s =
     get_input_buffer_size P (pcm_devices s) sample_rate format
       (audio_channel_count_from_in_mask P channel_mask) PCM_CAPTURE (AUDIO_DEVICE_IN_BUILTIN_MIC P)"

definition adev_open_input_stream ::
  "platform \<Rightarrow> u32 \<Rightarrow> u32 \<Rightarrow> u32 \<Rightarrow> u32 \<Rightarrow> u32 \<Rightarrow> int \<Rightarrow> hal \<Rightarrow> int \<times> nat option \<times> hal" where
  "adev_open_input_stream P devices sample_rate format channel_mask flags source s =
     (if check_input_parameters P sample_rate format
           (int (audio_channel_count_from_in_mask P channel_mask)) \<noteq> 0 then (- EINVAL, None, s)
      else
        case get_pcm_device P (pcm_devices s) PCM_CAPTURE devices of
          None \<Rightarrow> (- EINVAL, None, s)
        | Some k \<Rightarrow>
            let (p, s) = calloc P ''stream_in'' s in
            case p of
              None \<Rightarrow> (- ENOMEM, None, s)
            | Some a \<Rightarrow>
                let flags = (if sample_rate \<noteq> CAPTURE_DEFAULT_SAMPLING_RATE
                             then flags AND NOT (AUDIO_INPUT_FLAG_FAST P) else flags)
                in (0, Some a,
                    s\<lparr>ins := (ins s)(a \<mapsto> new_stream_in source devices channel_mask sample_rate flags
                                          (pp_config (pcm_devices s ! k)))\<rparr>))"

definition adev_close_input_stream :: "nat \<Rightarrow> hal \<Rightarrow> hal option" where
  "adev_close_input_stream a s = do {
     r \<leftarrow> in_standby_l a (lock LockInputs s);
     Some (unlock LockInputs ((snd r)\<lparr>ins := (ins (snd r))(a := None)\<rparr>))
   }"

end
