(* ===== verification/CallInv.thy ===== *)
theory CallInv
  imports StreamInv Adev
begin

text \<open>
  Voice sessions against the invariant of \<open>DeviceInv\<close>: what starting and stopping a SCO session
  or a call does to the PCM handles, the list of use cases and everything else.
\<close>

section \<open>SCO sessions\<close>

definition sco_pcms :: "hal \<Rightarrow> pcm multiset" where
  "sco_pcms s = pcm_set (pcm_sco_rx s) + pcm_set (pcm_sco_tx s)"

text \<open>Outside a session no SCO handle is held.\<close>

definition sco_ok :: "hal \<Rightarrow> bool" where
  "sco_ok s \<longleftrightarrow> (\<not> in_call_sco s \<longrightarrow> pcm_sco_rx s = None \<and> pcm_sco_tx s = None)"

text \<open>A step that concerns the SCO session only and accounts for its handles.\<close>

definition sco_step :: "hal \<Rightarrow> hal \<Rightarrow> bool" where
  "sco_step s s' \<longleftrightarrow>
     s' = s\<lparr>trace := trace s', pcm_sco_rx := pcm_sco_rx s', pcm_sco_tx := pcm_sco_tx s',
            in_call_sco := in_call_sco s'\<rparr> \<and>
     held (trace s') = held (trace s) \<and> lock_order_ok (trace s') = lock_order_ok (trace s) \<and>
     active_routes (trace s') = active_routes (trace s) \<and>
     open_pcms (trace s') + sco_pcms s = open_pcms (trace s) + sco_pcms s'"

lemma sco_step_refl [simp]: "sco_step s s"
  by (simp add: sco_step_def)

lemma sco_step_fields:
  assumes "sco_step s s'"
  shows "mixer_list s' = mixer_list s" "mode s' = mode s" "active_input s' = active_input s"
    "primary_output s' = primary_output s" "mic_mute s' = mic_mute s" "in_call s' = in_call s"
    "in_comm_sco s' = in_comm_sco s" "volume s' = volume s" "bluetooth_nrec s' = bluetooth_nrec s"
    "bluetooth_wb s' = bluetooth_wb s" "audience_enabled s' = audience_enabled s"
    "wb_amr_type s' = wb_amr_type s" "ril s' = ril s" "pcm_voice_rx s' = pcm_voice_rx s"
    "pcm_voice_tx s' = pcm_voice_tx s" "snd_dev_ref_cnt s' = snd_dev_ref_cnt s"
    "usecase_list s' = usecase_list s" "pcm_devices s' = pcm_devices s" "outs s' = outs s"
    "ins s' = ins s" "next_addr s' = next_addr s" "held (trace s') = held (trace s)"
    "lock_order_ok (trace s') = lock_order_ok (trace s)"
    "active_routes (trace s') = active_routes (trace s)"
    "open_pcms (trace s') + sco_pcms s = open_pcms (trace s) + sco_pcms s'"
proof -
  obtain t r x c where t: "s' = s\<lparr>trace := t, pcm_sco_rx := r, pcm_sco_tx := x, in_call_sco := c\<rparr>"
    using assms unfolding sco_step_def by blast
  show "mixer_list s' = mixer_list s" "mode s' = mode s" "active_input s' = active_input s"
    "primary_output s' = primary_output s" "mic_mute s' = mic_mute s" "in_call s' = in_call s"
    "in_comm_sco s' = in_comm_sco s" "volume s' = volume s" "bluetooth_nrec s' = bluetooth_nrec s"
    "bluetooth_wb s' = bluetooth_wb s" "audience_enabled s' = audience_enabled s"
    "wb_amr_type s' = wb_amr_type s" "ril s' = ril s" "pcm_voice_rx s' = pcm_voice_rx s"
    "pcm_voice_tx s' = pcm_voice_tx s" "snd_dev_ref_cnt s' = snd_dev_ref_cnt s"
    "usecase_list s' = usecase_list s" "pcm_devices s' = pcm_devices s" "outs s' = outs s"
    "ins s' = ins s" "next_addr s' = next_addr s"
    by (simp_all add: t)
  show "held (trace s') = held (trace s)" "lock_order_ok (trace s') = lock_order_ok (trace s)"
    "active_routes (trace s') = active_routes (trace s)"
    "open_pcms (trace s') + sco_pcms s = open_pcms (trace s) + sco_pcms s'"
    using assms unfolding sco_step_def by blast+
qed

lemma sco_step_core: "sco_step s s' \<Longrightarrow> core_same P s s'"
  using sco_step_fields [of s s'] by (simp add: core_same_def profiles_ok_def)

lemma sco_step_locks: "sco_step s s' \<Longrightarrow> locks_same s s'"
  using sco_step_fields [of s s'] by (simp add: locks_same_def)

lemma stop_and_close_eq:
  "stop_and_close h s = s\<lparr>trace := (case h of None \<Rightarrow> [] | Some p \<Rightarrow> [PcmClose h, PcmStop h]) @ trace s\<rparr>"
  by (cases h) (simp_all add: stop_and_close_def emit_def)

lemma pcm_set_subset: "pcm_set h \<subseteq># A \<Longrightarrow> A - pcm_set h + pcm_set h = A"
  by simp

lemma stop_sco_step:
  assumes "sco_pcms s \<subseteq># open_pcms (trace s)"
  shows "sco_step s (stop_voice_session_bt_sco s)"
    "in_call_sco (stop_voice_session_bt_sco s) = False"
    "pcm_sco_rx (stop_voice_session_bt_sco s) = None" "pcm_sco_tx (stop_voice_session_bt_sco s) = None"
proof -
  have eq: "open_pcms (trace (stop_voice_session_bt_sco s)) =
      open_pcms (trace s) - pcm_set (pcm_sco_rx s) - pcm_set (pcm_sco_tx s)"
    by (cases "pcm_sco_rx s"; cases "pcm_sco_tx s")
      (simp_all add: stop_voice_session_bt_sco_def stop_and_close_eq Let_def)
  have "open_pcms (trace s) - pcm_set (pcm_sco_rx s) - pcm_set (pcm_sco_tx s) = open_pcms (trace s) - sco_pcms s"
    by (simp add: sco_pcms_def)
  with assms eq have o: "open_pcms (trace (stop_voice_session_bt_sco s)) + sco_pcms s = open_pcms (trace s)"
    by simp
  show "in_call_sco (stop_voice_session_bt_sco s) = False"
    and rx: "pcm_sco_rx (stop_voice_session_bt_sco s) = None"
    and tx: "pcm_sco_tx (stop_voice_session_bt_sco s) = None"
    by (simp_all add: stop_voice_session_bt_sco_def stop_and_close_eq Let_def)
  show "sco_step s (stop_voice_session_bt_sco s)"
    unfolding sco_step_def
    using o by (cases "pcm_sco_rx s"; cases "pcm_sco_tx s")
      (simp_all add: stop_voice_session_bt_sco_def stop_and_close_eq Let_def sco_pcms_def)
qed

text \<open>
  All the handles opened and closed along a trace, whether they were ready or not.
\<close>

fun handle_set :: "pcm option \<Rightarrow> pcm multiset" where
  "handle_set None = {#}"
| "handle_set (Some h) = {#h#}"

fun opened_handles :: "call list \<Rightarrow> pcm multiset" where
  "opened_handles [] = {#}"
| "opened_handles (PcmOpen cd dv fl cfg h # t) = handle_set h + opened_handles t"
| "opened_handles (_ # t) = opened_handles t"

fun closed_handles :: "call list \<Rightarrow> pcm multiset" where
  "closed_handles [] = {#}"
| "closed_handles (PcmClose h # t) = handle_set h + closed_handles t"
| "closed_handles (_ # t) = closed_handles t"

definition sco_handles :: "hal \<Rightarrow> pcm multiset" where
  "sco_handles s = handle_set (pcm_sco_rx s) + handle_set (pcm_sco_tx s)"

text \<open>Every handle opened from \<open>s\<close> to \<open>s'\<close> has been closed or is held by one of the two pointers.\<close>

definition sco_accounted :: "hal \<Rightarrow> hal \<Rightarrow> bool" where
  "sco_accounted s s' \<longleftrightarrow>
     opened_handles (trace s') + closed_handles (trace s) + sco_handles s =
     opened_handles (trace s) + closed_handles (trace s') + sco_handles s'"

text \<open>
  The session is started, and nothing leaks whether or not the two devices open.  The only way to
  fail is that \<open>pcm_open\<close> returns the null pointer.
\<close>

lemma start_sco_cases:
  assumes "sco_ok s"
  obtains (null) t d f cfg where "start_voice_session_bt_sco P s = None" "pcm_open P t SOUND_CARD d f cfg = None"
  | (started) s' where "start_voice_session_bt_sco P s = Some s'" "sco_step s s'" "sco_ok s'" "sco_accounted s s'"
proof (cases "in_call_sco s")
  case True
  have "start_voice_session_bt_sco P s = Some s" using True by (simp add: start_voice_session_bt_sco_def)
  then show ?thesis using started [of s] assms by (simp add: sco_accounted_def)
next
  case False
  have idle: "stop_voice_session_bt_sco s = s"
    using False assms by (cases s) (simp add: stop_voice_session_bt_sco_def stop_and_close_def sco_ok_def Let_def)
  have no: "pcm_sco_rx s = None" "pcm_sco_tx s = None" using False assms by (simp_all add: sco_ok_def)
  define cfg where "cfg = (if bluetooth_wb s then pcm_config_voice_sco_wb else pcm_config_voice_sco)"
  define fi where "fi = PCM_IN P OR PCM_MONOTONIC P"
  define fo where "fo = PCM_OUT P OR PCM_MONOTONIC P"
  define tx where "tx = pcm_open P (trace s) SOUND_CARD SOUND_CAPTURE_SCO_DEVICE fi cfg"
  define t1 where "t1 = PcmOpen SOUND_CARD SOUND_CAPTURE_SCO_DEVICE fi cfg tx # trace s"
  define rx where "rx = pcm_open P t1 SOUND_CARD SOUND_PLAYBACK_SCO_DEVICE fo cfg"
  define t2 where "t2 = PcmOpen SOUND_CARD SOUND_PLAYBACK_SCO_DEVICE fo cfg rx # t1"
  note folds = cfg_def [symmetric] fi_def [symmetric] fo_def [symmetric] tx_def [symmetric]
    rx_def [unfolded t1_def, symmetric] t1_def t2_def
  have idle2: "(if in_comm_sco s then stop_voice_session_bt_sco s else s) = s" using idle by simp
  note run = start_voice_session_bt_sco_def idle2 open_pcm_def Let_def False no
  note accounts = no sco_step_def sco_ok_def sco_pcms_def sco_accounted_def sco_handles_def t1_def t2_def
  consider (tx) p where "tx = Some p" "\<not> pcm_is_ready p"
    | (rx) p q where "tx = Some q" "pcm_is_ready q" "rx = Some p" "\<not> pcm_is_ready p"
    | (both) p q where "tx = Some q" "pcm_is_ready q" "rx = Some p" "pcm_is_ready p"
    | (none) "tx = None" | (none2) "rx = None" "tx \<noteq> None \<longrightarrow> pcm_is_ready (the tx)"
    by (cases tx; cases rx) auto
  then show ?thesis
  proof cases
    case tx
    define s' where "s' = s\<lparr>in_call_sco := False, pcm_sco_tx := None, trace := PcmClose tx # t1\<rparr>"
    have "start_voice_session_bt_sco P s = Some s'" unfolding s'_def
      using tx by (simp add: run folds emit_def cong: conj_cong split del: if_split)
    moreover have "sco_step s s'" "sco_ok s'" "sco_accounted s s'" using tx by (simp_all add: accounts s'_def)
    ultimately show ?thesis by (rule started)
  next
    case rx
    define s' where "s' = s\<lparr>in_call_sco := False, pcm_sco_tx := None, pcm_sco_rx := None,
      trace := PcmClose tx # PcmClose rx # t2\<rparr>"
    have "start_voice_session_bt_sco P s = Some s'" unfolding s'_def
      using rx rx_def [unfolded t1_def rx(1)] by (simp add: run folds emit_def cong: conj_cong split del: if_split)
    moreover have "sco_step s s'" "sco_ok s'" "sco_accounted s s'" using rx by (simp_all add: accounts s'_def)
    ultimately show ?thesis by (rule started)
  next
    case both
    define s' where "s' = s\<lparr>in_call_sco := True, pcm_sco_tx := tx, pcm_sco_rx := rx,
      trace := PcmStart rx # PcmStart tx # t2\<rparr>"
    have "start_voice_session_bt_sco P s = Some s'" unfolding s'_def
      using both rx_def [unfolded t1_def both(1)] by (simp add: run folds emit_def cong: conj_cong split del: if_split)
    moreover have "sco_step s s'" "sco_ok s'" "sco_accounted s s'" using both by (simp_all add: accounts s'_def)
    ultimately show ?thesis by (rule started)
  next
    case none
    have "start_voice_session_bt_sco P s = None"
    proof (cases rx)
      case None
      then show ?thesis using none rx_def [unfolded t1_def none None, symmetric]
        by (simp add: run folds emit_def cong: conj_cong split del: if_split)
    next
      case (Some p)
      then show ?thesis using none rx_def [unfolded t1_def none Some, symmetric]
        by (cases "pcm_is_ready p") (simp_all add: run folds emit_def cong: conj_cong split del: if_split)
    qed
    then show ?thesis using null none by (metis tx_def)
  next
    case none2
    have "start_voice_session_bt_sco P s = None"
    proof (cases tx)
      case (Some q)
      then show ?thesis using none2 rx_def [unfolded t1_def Some]
        by (simp add: run folds emit_def cong: conj_cong split del: if_split)
    qed (use none2 rx_def [unfolded t1_def] in \<open>simp add: run folds emit_def cong: conj_cong split del: if_split\<close>)
    then show ?thesis using null none2 by (metis rx_def)
  qed
qed

lemma start_sco_wp:
  assumes "sco_ok s" and "\<And>t d f cfg. pcm_open P t SOUND_CARD d f cfg \<noteq> None"
  shows "wp (start_voice_session_bt_sco P s) (\<lambda>s'. sco_step s s' \<and> sco_ok s')"
  using start_sco_cases [OF assms(1), of P] assms(2) by (metis wp_Some)

lemma start_sco_if:
  assumes "sco_ok s" and "\<And>t d f cfg. pcm_open P t SOUND_CARD d f cfg \<noteq> None"
  obtains s' where "(if b then start_voice_session_bt_sco P s else Some s) = Some s'" "sco_step s s'" "sco_ok s'"
  using start_sco_wp [OF assms] assms(1) by (cases b) (auto simp: wp_exists)

section \<open>Calls\<close>

definition call_pcms :: "hal \<Rightarrow> pcm multiset" where
  "call_pcms s = pcm_set (pcm_voice_rx s) + pcm_set (pcm_voice_tx s)"

text \<open>A step of a call: the streams stay, and the handles are accounted for.\<close>

definition voice_step :: "hal \<Rightarrow> hal \<Rightarrow> bool" where
  "voice_step s s' \<longleftrightarrow>
     outs s' = outs s \<and> ins s' = ins s \<and> active_input s' = active_input s \<and>
     pcm_devices s' = pcm_devices s \<and> mode s' = mode s \<and> primary_output s' = primary_output s \<and>
     mixer_list s' = mixer_list s \<and> locks_same s s' \<and> next_addr s \<le> next_addr s' \<and>
     open_pcms (trace s') + (call_pcms s + sco_pcms s) = open_pcms (trace s) + (call_pcms s' + sco_pcms s')"

lemma voice_step_refl [simp]: "voice_step s s"
  by (simp add: voice_step_def)

lemma voice_step_trans [trans]:
  assumes x: "voice_step s s'" and y: "voice_step s' s''"
  shows "voice_step s s''"
proof -
  have "open_pcms (trace s'') + (call_pcms s + sco_pcms s) + (call_pcms s' + sco_pcms s') =
        open_pcms (trace s) + (call_pcms s'' + sco_pcms s'') + (call_pcms s' + sco_pcms s')"
    using x y by (simp add: voice_step_def ac_simps)
  then have "open_pcms (trace s'') + (call_pcms s + sco_pcms s) = open_pcms (trace s) + (call_pcms s'' + sco_pcms s'')"
    by simp
  moreover have "locks_same s s''" using x y locks_same_trans by (auto simp: voice_step_def)
  ultimately show ?thesis using x y by (simp add: voice_step_def)
qed

lemma voice_step_simple:
  "sco_step s s' \<Longrightarrow> voice_step s s'" "routing_frame s s' \<Longrightarrow> voice_step s s'"
  "only_calls s s' \<Longrightarrow> voice_step s s'"
proof -
  show "sco_step s s' \<Longrightarrow> voice_step s s'"
    using sco_step_fields [of s s'] by (simp add: voice_step_def locks_same_def call_pcms_def ac_simps)
  show r: "routing_frame s s' \<Longrightarrow> voice_step s s'" for s s'
    using routing_frame_fields [of s s'] by (simp add: voice_step_def locks_same_def call_pcms_def sco_pcms_def)
  show "only_calls s s' \<Longrightarrow> voice_step s s'"
    using r only_calls_routing_frame by blast
qed

text \<open>Closing the two handles of a call.\<close>

definition close_voice :: "hal \<Rightarrow> hal" where
  "close_voice s =
     (let s = (stop_and_close (pcm_voice_rx s) s)\<lparr>pcm_voice_rx := None\<rparr>
      in (stop_and_close (pcm_voice_tx s) s)\<lparr>pcm_voice_tx := None\<rparr>)"

lemma close_voice_step:
  assumes "call_pcms s \<subseteq># open_pcms (trace s)"
  shows "voice_step s (close_voice s)" "core_same P s (close_voice s)"
    "pcm_voice_rx (close_voice s) = None" "pcm_voice_tx (close_voice s) = None"
    "in_call_sco (close_voice s) = in_call_sco s" "pcm_sco_rx (close_voice s) = pcm_sco_rx s"
    "pcm_sco_tx (close_voice s) = pcm_sco_tx s" "usecase_list (close_voice s) = usecase_list s"
    "in_call (close_voice s) = in_call s"
proof -
  have "open_pcms (trace (close_voice s)) = open_pcms (trace s) - pcm_set (pcm_voice_rx s) - pcm_set (pcm_voice_tx s)"
    by (cases "pcm_voice_rx s"; cases "pcm_voice_tx s") (simp_all add: close_voice_def stop_and_close_eq Let_def)
  moreover have "open_pcms (trace s) - pcm_set (pcm_voice_rx s) - pcm_set (pcm_voice_tx s) =
      open_pcms (trace s) - call_pcms s"
    by (simp add: call_pcms_def)
  ultimately have o: "open_pcms (trace (close_voice s)) + call_pcms s = open_pcms (trace s)"
    using assms by simp
  show rx: "pcm_voice_rx (close_voice s) = None" and tx: "pcm_voice_tx (close_voice s) = None"
    and sc: "in_call_sco (close_voice s) = in_call_sco s" "pcm_sco_rx (close_voice s) = pcm_sco_rx s"
    "pcm_sco_tx (close_voice s) = pcm_sco_tx s" "usecase_list (close_voice s) = usecase_list s"
    "in_call (close_voice s) = in_call s"
    by (simp_all add: close_voice_def stop_and_close_eq Let_def)
  have "held (trace (close_voice s)) = held (trace s)"
    "lock_order_ok (trace (close_voice s)) = lock_order_ok (trace s)"
    "active_routes (trace (close_voice s)) = active_routes (trace s)"
    by (cases "pcm_voice_rx s"; cases "pcm_voice_tx s"; simp add: close_voice_def stop_and_close_eq Let_def)+
  then show "voice_step s (close_voice s)" "core_same P s (close_voice s)"
    using o rx tx sc
    by (simp_all add: voice_step_def core_same_def close_voice_def stop_and_close_eq Let_def locks_same_def
        sco_pcms_def call_pcms_def profiles_ok_def ac_simps)
qed

lemma stop_voice_call_eq:
  "stop_voice_call P s = do {
     let s = close_voice (if in_call_sco s then stop_voice_session_bt_sco s else s);
     let s = (if audience_enabled s then es_stop_voice_session P s else s);
     case get_usecase_from_id (usecase_list s) USECASE_VOICE_CALL of
       None \<Rightarrow> Some (- EINVAL, s)
     | Some uc_info \<Rightarrow> do {
         r \<leftarrow> disable_snd_device uc_info (uc_out_snd_device uc_info) s;
         r \<leftarrow> disable_snd_device uc_info (uc_in_snd_device uc_info) (snd r);
         Some (0, (remove_usecase (uc_addr uc_info) (snd r))\<lparr>in_call := False\<rparr>)
       }
   }"
  unfolding stop_voice_call_def close_voice_def Let_def ..

text \<open>First the sessions and the PCMs of the call end; its use case is still there.\<close>

lemma end_sessions:
  assumes c: "core_inv P s" and sco: "sco_ok s" and opened: "call_pcms s + sco_pcms s \<subseteq># open_pcms (trace s)"
  defines "s1 \<equiv> if in_call_sco s then stop_voice_session_bt_sco s else s"
  defines "s3 \<equiv> if audience_enabled (close_voice s1) then es_stop_voice_session P (close_voice s1) else close_voice s1"
  shows "core_inv P s3" "voice_step s s3" "usecase_list s3 = usecase_list s" "pcm_voice_rx s3 = None"
    "pcm_voice_tx s3 = None" "sco_ok s3" "\<not> in_call_sco s3"
proof -
  obtain X where X: "open_pcms (trace s) = call_pcms s + sco_pcms s + X"
    using opened by (metis mset_subset_eq_exists_conv)
  have sub: "sco_pcms s \<subseteq># open_pcms (trace s)" by (simp add: X)
  have 1: "sco_step s s1" "sco_ok s1" "\<not> in_call_sco s1"
    using stop_sco_step [OF sub] sco by (simp_all add: s1_def sco_ok_def)
  note f1 = sco_step_fields [OF 1(1)]
  have "open_pcms (trace s1) + sco_pcms s = (call_pcms s + X + sco_pcms s1) + sco_pcms s"
    using f1(25) X by (simp add: ac_simps)
  then have "call_pcms s1 \<subseteq># open_pcms (trace s1)" using f1 by (simp add: call_pcms_def)
  note cv = close_voice_step [OF this]
  have oc: "only_calls (close_voice s1) s3" by (simp add: s3_def)
  note f3 = only_calls_fields [OF oc]
  show "core_inv P s3"
    by (rule core_inv_same [OF core_inv_same [OF core_inv_same [OF c sco_step_core [OF 1(1)]] cv(2)] only_calls_core [OF oc]])
  show "voice_step s s3"
    by (rule voice_step_trans [OF voice_step_trans [OF voice_step_simple(1) [OF 1(1)] cv(1)] voice_step_simple(3) [OF oc]])
  show "usecase_list s3 = usecase_list s" using f3 f1 cv(8) by simp
  show "pcm_voice_rx s3 = None" "pcm_voice_tx s3 = None" "sco_ok s3" "\<not> in_call_sco s3"
    using f3 cv 1(2,3) by (simp_all add: sco_ok_def)
qed

lemma stop_voice_call_wp:
  assumes c: "core_inv P s" and u: "u \<in> set (usecase_list s)" "uc_type u = VOICE_CALL"
    and sco: "sco_ok s" and opened: "call_pcms s + sco_pcms s \<subseteq># open_pcms (trace s)"
  shows "wp (stop_voice_call P s) (\<lambda>(r, s'). r = 0 \<and> core_inv P s' \<and> voice_step s s' \<and>
    stopped s (uc_addr u) s' \<and> \<not> in_call s' \<and> pcm_voice_rx s' = None \<and> pcm_voice_tx s' = None \<and> sco_ok s' \<and>
    \<not> in_call_sco s')"
proof -
  define s1 where "s1 = (if in_call_sco s then stop_voice_session_bt_sco s else s)"
  define s3 where "s3 = (if audience_enabled (close_voice s1) then es_stop_voice_session P (close_voice s1) else close_voice s1)"
  note s3 = end_sessions [OF c sco opened, folded s1_def, folded s3_def]
  have "uc_linked s u" using c u(1) by (simp add: core_inv_def linked_def)
  then have id: "uc_id u = USECASE_VOICE_CALL" using u(2) by (simp add: uc_linked_simps)
  have look: "get_usecase_from_id (usecase_list s3) USECASE_VOICE_CALL = Some u"
    using usecases.lookup_unique [of "usecase_list s3" u] s3(1,3) u(1) id
    by (simp add: core_inv_def routing_inv_def ids_distinct_def)
  have "routing_inv s3" "u \<in> set (usecase_list s3)" using s3(1,3) u(1) by (simp_all add: core_inv_def)
  from disable_devices_wp [OF this] obtain q4 s4 r where
    s4: "disable_snd_device u (uc_out_snd_device u) s3 = Some r"
      "disable_snd_device u (uc_in_snd_device u) (snd r) = Some (q4, s4)"
    "usecase_list s4 = usecase_list s3" "routing_frame s3 s4"
    "moving_inv (uc_addr u) (\<lambda>e. uses1 u e - holds (uc_out_snd_device u) e - holds (uc_in_snd_device u) e) s4"
    by (auto simp: wp_exists bind_eq_Some_conv)
  have inv4: "routing_inv (remove_usecase (uc_addr u) s4)"
    using routing_inv_remove [OF _ s4(3,5) released_counts] s3(1) by (simp add: core_inv_def)
  define s5 where "s5 = (remove_usecase (uc_addr u) s4)\<lparr>in_call := False\<rparr>"
  note f4 = routing_frame_fields [OF s4(4)]
  have "stop_voice_call P s = Some (0, s5)"
    unfolding stop_voice_call_eq Let_def s1_def [symmetric] s3_def [symmetric] using s4(1,2) by (simp add: look s5_def)
  moreover have "core_inv P s5"
  proof -
    have "core_same P (remove_usecase (uc_addr u) s4) s5"
      by (simp add: s5_def core_same_def profiles_ok_def)
    then show ?thesis using core_inv_same [OF core_inv_remove [OF s3(1) s4(4) inv4]] by blast
  qed
  moreover have "voice_step s s5"
  proof -
    note s3(2)
    also have "voice_step s3 s4" by (rule voice_step_simple(2) [OF s4(4)])
    also have "voice_step s4 s5"
      by (simp add: voice_step_def s5_def remove_usecase_def locks_same_def call_pcms_def sco_pcms_def)
    finally show ?thesis .
  qed
  moreover have "stopped s (uc_addr u) s5"
    using stopped_remove [of s4 s "uc_addr u"] s4(3) s3(3) by (simp add: stopped_def s5_def)
  moreover have "\<not> in_call s5" "pcm_voice_rx s5 = None" "pcm_voice_tx s5 = None" "sco_ok s5"
    "\<not> in_call_sco s5"
    using f4 s3(4-7) by (simp_all add: s5_def remove_usecase_def sco_ok_def)
  ultimately show ?thesis by simp
qed

lemma start_voice_pcms_wp:
  assumes h: "healthy P" and d: "primary_devices s = Some devices"
    and none: "pcm_voice_rx s = None" "pcm_voice_tx s = None" and sco: "sco_ok s"
  shows "wp (start_voice_pcms P s) (\<lambda>(r, s'). r = 0 \<and> core_same P s s' \<and> voice_step s s' \<and>
    usecase_list s' = usecase_list s \<and> in_call s' = in_call s \<and>
    pcm_voice_rx s' \<noteq> None \<and> pcm_voice_tx s' \<noteq> None \<and> sco_ok s')"
proof -
  have "\<And>t d f cfg. pcm_open P t SOUND_CARD d f cfg \<noteq> None" using h by (metis healthy_def option.distinct(1))
  with sco obtain s1 where s1: "(if has_bits devices (AUDIO_DEVICE_OUT_ALL_SCO P)
      then start_voice_session_bt_sco P s else Some s) = Some s1" and 1: "sco_step s s1" "sco_ok s1"
    by (rule start_sco_if)
  note f1 = sco_step_fields [OF 1(1)]
  obtain tx where tx: "pcm_open P (trace s1) SOUND_CARD SOUND_CAPTURE_VOICE_DEVICE (PCM_IN P) pcm_config_voicecall = Some tx"
    "pcm_is_ready tx"
    by (rule healthy_voice [OF h, of SOUND_CAPTURE_VOICE_DEVICE "trace s1" SOUND_CARD "PCM_IN P" pcm_config_voicecall])
      simp_all
  define s2 where "s2 = (emit (PcmOpen SOUND_CARD SOUND_CAPTURE_VOICE_DEVICE (PCM_IN P) pcm_config_voicecall (Some tx)) s1)
    \<lparr>pcm_voice_tx := Some tx\<rparr>"
  obtain rx where rx: "pcm_open P (trace s2) SOUND_CARD SOUND_PLAYBACK_VOICE_DEVICE (PCM_OUT P) pcm_config_voicecall = Some rx"
    "pcm_is_ready rx"
    by (rule healthy_voice [OF h, of SOUND_PLAYBACK_VOICE_DEVICE "trace s2" SOUND_CARD "PCM_OUT P" pcm_config_voicecall])
      simp_all
  define s3 where "s3 = emit (PcmStart (Some rx)) (emit (PcmStart (Some tx))
    ((emit (PcmOpen SOUND_CARD SOUND_PLAYBACK_VOICE_DEVICE (PCM_OUT P) pcm_config_voicecall (Some rx)) s2)
      \<lparr>pcm_voice_rx := Some rx\<rparr>))"
  have "voice_step s s1" using voice_step_simple(1) [OF 1(1)] .
  also have "voice_step s1 s3"
    using f1 none by (simp add: voice_step_def s3_def s2_def locks_same_def call_pcms_def sco_pcms_def)
  finally have step: "voice_step s s3" .
  have core: "core_same P s s3"
  proof -
    have "core_same P s1 s3" by (simp add: core_same_def s3_def s2_def profiles_ok_def)
    then show ?thesis using core_same_trans [OF sco_step_core [OF 1(1)]] by blast
  qed
  have s3: "usecase_list s3 = usecase_list s" "in_call s3 = in_call s" "pcm_voice_rx s3 = Some rx"
    "pcm_voice_tx s3 = Some tx" "sco_ok s3"
    using f1 1(2) by (simp_all add: s3_def s2_def sco_ok_def)
  have o1: "open_pcm P SOUND_CAPTURE_VOICE_DEVICE (PCM_IN P) pcm_config_voicecall s1 = (Some tx, False,
      emit (PcmOpen SOUND_CARD SOUND_CAPTURE_VOICE_DEVICE (PCM_IN P) pcm_config_voicecall (Some tx)) s1)"
    using tx by (simp add: open_pcm_def Let_def)
  have o2: "open_pcm P SOUND_PLAYBACK_VOICE_DEVICE (PCM_OUT P) pcm_config_voicecall s2 = (Some rx, False,
      emit (PcmOpen SOUND_CARD SOUND_PLAYBACK_VOICE_DEVICE (PCM_OUT P) pcm_config_voicecall (Some rx)) s2)"
    using rx by (simp add: open_pcm_def Let_def)
  have tx2: "pcm_voice_tx s2 = Some tx" by (simp add: s2_def)
  have run: "start_voice_pcms P s = do {
      s \<leftarrow> (if audience_enabled s3 then map_option snd (es_start_voice_session P s3) else Some s3);
      Some (0, s) }"
    using o1 o2 tx2 unfolding start_voice_pcms_def
    by (simp add: d s1 s2_def [unfolded One_nat_def, symmetric] s3_def Let_def)
  show ?thesis
  proof (cases "audience_enabled s3")
    case False
    then show ?thesis using run step core s3 by simp
  next
    case True
    have "primary_devices s3 = Some devices"
      using d f1 by (simp add: primary_devices_def s3_def s2_def)
    then obtain r where r: "es_start_voice_session P s3 = Some r" "only_calls s3 (snd r)"
      using es_start_only_calls [of s3 devices P] by (auto simp: wp_exists)
    note f = only_calls_fields [OF r(2)]
    have "voice_step s (snd r)" by (rule voice_step_trans [OF step voice_step_simple(3) [OF r(2)]])
    moreover have "core_same P s (snd r)" by (rule core_same_trans [OF core only_calls_core [OF r(2)]])
    ultimately show ?thesis using True run r s3 f by (simp add: sco_ok_def)
  qed
qed

text \<open>The part of \<open>start_voice_call\<close> up to the PCMs: the use case is entered and its devices selected.\<close>

lemma start_voice_usecase:
  assumes c: "core_inv P s" and cast: "cast_ok P" and h: "calloc_ok P (trace s) ''audio_usecase''"
    and a: "primary_output s = Some a" "outs s a = Some out"
    and fresh: "get_usecase_from_id (usecase_list s) USECASE_VOICE_CALL = None"
    and none: "pcm_voice_rx s = None" "pcm_voice_tx s = None" and sco: "sco_ok s"
  obtains s' where "start_voice_call P s = start_voice_pcms P s'" "core_inv P s'" "voice_step s s'"
    "started s (next_addr s) USECASE_VOICE_CALL VOICE_CALL (OutRef a) s'" "in_call s'"
    "pcm_voice_rx s' = None" "pcm_voice_tx s' = None" "sco_ok s'" "primary_devices s' = Some (so_devices out)"
proof -
  define s0 where "s0 = emit (Calloc ''audio_usecase'') (s\<lparr>next_addr := next_addr s + 1\<rparr>)"
  have alloc: "calloc P ''audio_usecase'' s = (Some (next_addr s), s0)" using h by (simp add: calloc_def s0_def)
  have c0: "core_inv P s0" unfolding s0_def by (rule core_inv_same [OF c alloc_same(1)])
  obtain mc where mc: "adev_get_mixer_for_card (mixer_list s0) SOUND_CARD = Some mc" "mc_card mc = SOUND_CARD"
    using core_mixer [OF c0] by blast
  define u where "u = (new_usecase (next_addr s) USECASE_VOICE_CALL VOICE_CALL (OutRef a) (so_devices out))
    \<lparr>uc_mixer_list := [SOUND_CARD]\<rparr>"
  have "wp (select_devices P USECASE_VOICE_CALL (add_usecase u s0)) (\<lambda>(r, s'). core_inv P s' \<and>
    started s0 (uc_addr u) (uc_id u) (uc_type u) (uc_stream u) s' \<and> routing_frame (add_usecase u s0) s')"
    using fresh below_fresh [OF c] a
    by (intro enter_usecase_wp [OF c0 cast]) (auto simp: u_def new_usecase_def uc_linked_simps s0_def)
  then obtain r1 s1 where s1: "select_devices P USECASE_VOICE_CALL (add_usecase u s0) = Some (r1, s1)"
    "core_inv P s1" "started s0 (uc_addr u) (uc_id u) (uc_type u) (uc_stream u) s1"
    "routing_frame (add_usecase u s0) s1"
    by (auto simp: wp_exists)
  note f1 = routing_frame_fields [OF s1(4)]
  define s2 where "s2 = s1\<lparr>in_call := True\<rparr>"
  have fields: "pcm_voice_rx s2 = None" "pcm_voice_tx s2 = None" "sco_ok s2" "primary_devices s2 = Some (so_devices out)"
    "primary_output s2 = Some a"
    using f1 none sco a by (simp_all add: s2_def s0_def sco_ok_def primary_devices_def add_usecase_def)
  have step2: "voice_step s s2"
  proof -
    have "voice_step s (add_usecase u s0)"
      by (simp add: voice_step_def s0_def locks_same_def call_pcms_def sco_pcms_def add_usecase_def)
    also have "voice_step \<dots> s1" by (rule voice_step_simple(2) [OF s1(4)])
    also have "voice_step s1 s2"
      by (simp add: voice_step_def s2_def locks_same_def call_pcms_def sco_pcms_def)
    finally show ?thesis .
  qed
  have "core_same P s1 s2"
    using fields(5) by (simp add: s2_def core_same_def profiles_ok_def)
  then have c2: "core_inv P s2" using core_inv_same [OF s1(2)] by blast
  have a0: "primary_output s0 = Some a" "outs s0 a = Some out" using a by (simp_all add: s0_def)
  have "start_voice_call P s = start_voice_pcms P s2"
    using s1(1) fields(1,2) [unfolded s2_def, simplified] mc a0
    by (simp add: start_voice_call_def alloc u_def [symmetric] s2_def [symmetric] del: One_nat_def)
  moreover have "started s (next_addr s) USECASE_VOICE_CALL VOICE_CALL (OutRef a) s2"
    using s1(3) by (simp add: started_def s2_def s0_def u_def new_usecase_def)
  moreover have "in_call s2" by (simp add: s2_def)
  ultimately show ?thesis using that c2 step2 fields by blast
qed

lemma start_voice_call_wp:
  assumes c: "core_inv P s" and cast: "cast_ok P" and h: "healthy P"
    and a: "primary_output s = Some a" "outs s a = Some out"
    and fresh: "get_usecase_from_id (usecase_list s) USECASE_VOICE_CALL = None"
    and none: "pcm_voice_rx s = None" "pcm_voice_tx s = None" and sco: "sco_ok s"
  shows "wp (start_voice_call P s) (\<lambda>(r, s'). r = 0 \<and> core_inv P s' \<and> voice_step s s' \<and>
    started s (next_addr s) USECASE_VOICE_CALL VOICE_CALL (OutRef a) s' \<and> in_call s' \<and>
    pcm_voice_rx s' \<noteq> None \<and> pcm_voice_tx s' \<noteq> None \<and> sco_ok s')"
proof -
  have "calloc_ok P (trace s) ''audio_usecase''" using h by (simp add: healthy_def)
  from start_voice_usecase [OF c cast this a fresh none sco] obtain s2 where
    2: "start_voice_call P s = start_voice_pcms P s2" "core_inv P s2" "voice_step s s2"
    "started s (next_addr s) USECASE_VOICE_CALL VOICE_CALL (OutRef a) s2" "in_call s2"
    "pcm_voice_rx s2 = None" "pcm_voice_tx s2 = None" "sco_ok s2" "primary_devices s2 = Some (so_devices out)" .
  obtain s3 where s3: "start_voice_pcms P s2 = Some (0, s3)" "core_same P s2 s3" "voice_step s2 s3"
    "usecase_list s3 = usecase_list s2" "in_call s3 = in_call s2" "pcm_voice_rx s3 \<noteq> None"
    "pcm_voice_tx s3 \<noteq> None" "sco_ok s3"
    using start_voice_pcms_wp [OF h 2(9,6,7,8)] by (auto simp: wp_exists)
  have "core_inv P s3" by (rule core_inv_same [OF 2(2) s3(2)])
  moreover have "voice_step s s3" by (rule voice_step_trans [OF 2(3) s3(3)])
  ultimately show ?thesis using 2 s3 by (simp add: started_def)
qed

text \<open>
  When a PCM of the call is not ready the error path closes both handles.  After a failed capture
  \<open>pcm_voice_rx\<close> is still null, so its first call faults; after a failed playback it closes both
  and ends the SCO session.
\<close>

lemma start_voice_pcms_no_capture:
  assumes d: "primary_devices s = Some devices" and none: "pcm_voice_rx s = None" and sco: "sco_ok s"
    and fail: "\<And>t h. pcm_open P t SOUND_CARD SOUND_CAPTURE_VOICE_DEVICE (PCM_IN P) pcm_config_voicecall = Some h \<Longrightarrow>
      \<not> pcm_is_ready h"
    and opens: "\<And>t c f cfg. pcm_open P t SOUND_CARD c f cfg \<noteq> None"
  shows "start_voice_pcms P s = None"
proof -
  obtain s1 where s1: "(if has_bits devices (AUDIO_DEVICE_OUT_ALL_SCO P)
      then start_voice_session_bt_sco P s else Some s) = Some s1" and 1: "sco_step s s1" "sco_ok s1"
    using sco opens by (rule start_sco_if)
  obtain h where h: "pcm_open P (trace s1) SOUND_CARD SOUND_CAPTURE_VOICE_DEVICE (PCM_IN P) pcm_config_voicecall = Some h"
    "\<not> pcm_is_ready h"
    using fail opens by blast
  have rx: "pcm_voice_rx s1 = None" using none sco_step_fields(14) [OF 1(1)] by simp
  have "open_pcm P SOUND_CAPTURE_VOICE_DEVICE (PCM_IN P) pcm_config_voicecall s1 = (Some h, True,
      emit (PcmOpen SOUND_CARD SOUND_CAPTURE_VOICE_DEVICE (PCM_IN P) pcm_config_voicecall (Some h)) s1)"
    using h by (simp add: open_pcm_def Let_def)
  then show ?thesis unfolding start_voice_pcms_def by (simp add: d s1 rx start_voice_call_exit_def)
qed

lemma start_voice_pcms_no_playback:
  assumes d: "primary_devices s = Some devices" and none: "pcm_voice_rx s = None" "pcm_voice_tx s = None"
    and sco: "sco_ok s"
    and capture: "\<And>t h. pcm_open P t SOUND_CARD SOUND_CAPTURE_VOICE_DEVICE (PCM_IN P) pcm_config_voicecall = Some h \<Longrightarrow>
      pcm_is_ready h"
    and fail: "\<And>t h. pcm_open P t SOUND_CARD SOUND_PLAYBACK_VOICE_DEVICE (PCM_OUT P) pcm_config_voicecall = Some h \<Longrightarrow>
      \<not> pcm_is_ready h"
    and opens: "\<And>t c f cfg. pcm_open P t SOUND_CARD c f cfg \<noteq> None"
  shows "\<exists>s'. start_voice_pcms P s = Some (0, s') \<and> usecase_list s' = usecase_list s \<and> \<not> in_call s' \<and>
    pcm_voice_rx s' = None \<and> pcm_voice_tx s' = None"
proof -
  obtain s1 where s1: "(if has_bits devices (AUDIO_DEVICE_OUT_ALL_SCO P)
      then start_voice_session_bt_sco P s else Some s) = Some s1" and sc: "sco_step s s1" "sco_ok s1"
    using sco opens by (rule start_sco_if)
  have 1: "usecase_list s1 = usecase_list s" "pcm_voice_rx s1 = None"
    using none sco_step_fields(14,17) [OF sc(1)] by simp_all
  obtain tx where tx: "pcm_open P (trace s1) SOUND_CARD SOUND_CAPTURE_VOICE_DEVICE (PCM_IN P) pcm_config_voicecall = Some tx"
    "pcm_is_ready tx"
    using capture opens by blast
  define s2 where "s2 = (emit (PcmOpen SOUND_CARD SOUND_CAPTURE_VOICE_DEVICE (PCM_IN P) pcm_config_voicecall (Some tx)) s1)
    \<lparr>pcm_voice_tx := Some tx\<rparr>"
  obtain rx where rx: "pcm_open P (trace s2) SOUND_CARD SOUND_PLAYBACK_VOICE_DEVICE (PCM_OUT P) pcm_config_voicecall = Some rx"
    "\<not> pcm_is_ready rx"
    using fail opens by blast
  define s3 where "s3 = (emit (PcmOpen SOUND_CARD SOUND_PLAYBACK_VOICE_DEVICE (PCM_OUT P) pcm_config_voicecall (Some rx)) s2)
    \<lparr>pcm_voice_rx := Some rx\<rparr>"
  have "open_pcm P SOUND_CAPTURE_VOICE_DEVICE (PCM_IN P) pcm_config_voicecall s1 = (Some tx, False,
      emit (PcmOpen SOUND_CARD SOUND_CAPTURE_VOICE_DEVICE (PCM_IN P) pcm_config_voicecall (Some tx)) s1)"
    using tx by (simp add: open_pcm_def Let_def)
  moreover have "open_pcm P SOUND_PLAYBACK_VOICE_DEVICE (PCM_OUT P) pcm_config_voicecall s2 = (Some rx, True,
      emit (PcmOpen SOUND_CARD SOUND_PLAYBACK_VOICE_DEVICE (PCM_OUT P) pcm_config_voicecall (Some rx)) s2)"
    using rx by (simp add: open_pcm_def Let_def)
  ultimately have "start_voice_pcms P s = start_voice_call_exit P 0 s3"
    unfolding start_voice_pcms_def
    by (simp add: d s1 s2_def [unfolded One_nat_def, symmetric] s3_def [unfolded One_nat_def, symmetric])
  moreover define s4 where "s4 = (emit (PcmClose (Some tx)) ((emit (PcmClose (Some rx)) s3)\<lparr>pcm_voice_rx := None\<rparr>))
    \<lparr>pcm_voice_tx := None\<rparr>"
  moreover define s5 where "s5 = (if in_call_sco s4 then stop_voice_session_bt_sco s4 else s4)"
  ultimately have run: "start_voice_pcms P s = Some (0, (snd (ril_set_call_clock_sync P SOUND_CLOCK_STOP s5))\<lparr>in_call := False\<rparr>)"
    by (simp add: start_voice_call_exit_def Let_def s3_def s2_def)
  have "usecase_list s5 = usecase_list s" "pcm_voice_rx s5 = None" "pcm_voice_tx s5 = None"
    using 1 by (simp_all add: s5_def s4_def s3_def s2_def stop_voice_session_bt_sco_def stop_and_close_def Let_def)
  moreover have "only_calls s5 (snd (ril_set_call_clock_sync P SOUND_CLOCK_STOP s5))" by (rule ril_only_calls)
  ultimately show ?thesis using run only_calls_fields by force
qed

end
