(* ===== verification/OpInv.thy ===== *)
theory OpInv
  imports InputInv CallInv
begin

text \<open>
  The invariant of the device between the operations of its interface (\<open>op_inv\<close>): beyond the
  agreement of routing with the use cases, a stream is out of standby exactly when a use case
  runs it, a call is active exactly when its use case is there, and the open PCM handles are
  those that the streams, the call and the SCO session hold.
\<close>

section \<open>Which streams run\<close>

definition active :: "hal \<Rightarrow> usecase_type_t \<Rightarrow> stream_ref \<Rightarrow> bool" where
  "active s ty r \<longleftrightarrow> (\<exists>u \<in> set (usecase_list s). uc_type u = ty \<and> uc_stream u = r)"

definition calling :: "hal \<Rightarrow> bool" where
  "calling s \<longleftrightarrow> (\<exists>u \<in> set (usecase_list s). uc_type u = VOICE_CALL)"

definition sh_type :: "nat \<times> audio_usecase_t \<times> usecase_type_t \<times> stream_ref \<times> nat list \<Rightarrow> usecase_type_t" where
  "sh_type x = fst (snd (snd x))"

definition sh_stream :: "nat \<times> audio_usecase_t \<times> usecase_type_t \<times> stream_ref \<times> nat list \<Rightarrow> stream_ref" where
  "sh_stream x = fst (snd (snd (snd x)))"

lemma shape_simps [simp]:
  "sh_type (uc_shape u) = uc_type u" "sh_stream (uc_shape u) = uc_stream u" "fst (uc_shape u) = uc_addr u"
  by (simp_all add: sh_type_def sh_stream_def uc_shape_def)

lemma active_by_shape:
  "active s ty r \<longleftrightarrow> (\<exists>x \<in> set (map uc_shape (usecase_list s)). sh_type x = ty \<and> sh_stream x = r)"
  by (simp add: active_def)

lemma calling_by_shape:
  "calling s \<longleftrightarrow> (\<exists>x \<in> set (map uc_shape (usecase_list s)). sh_type x = VOICE_CALL)"
  by (simp add: calling_def)

lemma active_frame:
  assumes "map uc_shape (usecase_list s') = map uc_shape (usecase_list s)"
  shows "active s' = active s" "calling s' = calling s"
  unfolding active_by_shape calling_by_shape fun_eq_iff assms by simp_all

lemma active_started:
  assumes "started s n uid ty r s'"
  shows "active s' ty' r' \<longleftrightarrow> active s ty' r' \<or> ty' = ty \<and> r' = r"
    and "calling s' \<longleftrightarrow> calling s \<or> ty = VOICE_CALL"
  using assms unfolding active_by_shape calling_by_shape started_def
  by (auto simp: sh_type_def sh_stream_def simp del: set_map)

text \<open>A use case is known by its type and its stream.\<close>

lemma linked_id:
  assumes "uc_linked s u" "uc_linked s v" "uc_type u = uc_type v" "uc_stream u = uc_stream v"
  shows "uc_id u = uc_id v"
  using assms by (cases "uc_type v") (auto simp: uc_linked_simps)

lemma usecase_keys:
  assumes c: "core_inv P s" and u: "u \<in> set (usecase_list s)" and v: "v \<in> set (usecase_list s)"
  shows "uc_addr u = uc_addr v \<Longrightarrow> u = v" "uc_id u = uc_id v \<Longrightarrow> u = v"
proof -
  have "distinct (map uc_addr (usecase_list s))" "distinct (map uc_id (usecase_list s))"
    using c by (simp_all add: core_inv_def routing_inv_def ids_distinct_def)
  then show "uc_addr u = uc_addr v \<Longrightarrow> u = v" "uc_id u = uc_id v \<Longrightarrow> u = v"
    using distinct_map_unique u v by metis+
qed

lemma usecase_unique:
  assumes c: "core_inv P s" and u: "u \<in> set (usecase_list s)" and v: "v \<in> set (usecase_list s)"
    and eq: "uc_type u = uc_type v" "uc_stream u = uc_stream v"
  shows "u = v"
proof -
  have "uc_id u = uc_id v"
    using c u v by (intro linked_id [OF _ _ eq, of s]) (simp_all add: core_inv_def linked_def)
  then show ?thesis by (rule usecase_keys(2) [OF c u v])
qed

lemma stopped_bex:
  assumes "stopped s b s'"
  shows "(\<exists>x \<in> set (map uc_shape (usecase_list s')). Q x) \<longleftrightarrow>
    (\<exists>v \<in> set (usecase_list s). Q (uc_shape v) \<and> uc_addr v \<noteq> b)"
proof -
  have "(\<lambda>(a, _). a \<noteq> b) = (\<lambda>x :: nat \<times> audio_usecase_t \<times> usecase_type_t \<times> stream_ref \<times> nat list. fst x \<noteq> b)"
    by auto
  then have "set (map uc_shape (usecase_list s')) =
      set (filter (\<lambda>x. fst x \<noteq> b) (map uc_shape (usecase_list s)))"
    using assms by (simp only: stopped_def)
  also have "\<dots> = uc_shape ` {v \<in> set (usecase_list s). uc_addr v \<noteq> b}"
    by auto
  finally show ?thesis by auto
qed

lemma active_stopped:
  assumes c: "core_inv P s" and u: "u \<in> set (usecase_list s)" and st: "stopped s (uc_addr u) s'"
  shows "active s' ty r \<longleftrightarrow> active s ty r \<and> \<not> (uc_type u = ty \<and> uc_stream u = r)"
proof -
  have same: "v = u" if "v \<in> set (usecase_list s)" "uc_addr v = uc_addr u" for v
    using usecase_keys(1) [OF c that(1) u that(2)] .
  have "active s' ty r \<longleftrightarrow> (\<exists>v \<in> set (usecase_list s). uc_type v = ty \<and> uc_stream v = r \<and> uc_addr v \<noteq> uc_addr u)"
    unfolding active_by_shape [of s'] stopped_bex [OF st] by (simp add: conj_assoc)
  also have "\<dots> \<longleftrightarrow> active s ty r \<and> \<not> (uc_type u = ty \<and> uc_stream u = r)"
  proof
    assume "\<exists>v \<in> set (usecase_list s). uc_type v = ty \<and> uc_stream v = r \<and> uc_addr v \<noteq> uc_addr u"
    then obtain v where v: "v \<in> set (usecase_list s)" "uc_type v = ty" "uc_stream v = r" "uc_addr v \<noteq> uc_addr u"
      by blast
    have "\<not> (uc_type u = ty \<and> uc_stream u = r)"
    proof
      assume "uc_type u = ty \<and> uc_stream u = r"
      then have "v = u" using v(2,3) by (intro usecase_unique [OF c v(1) u]) simp_all
      then show False using v(4) by simp
    qed
    then show "active s ty r \<and> \<not> (uc_type u = ty \<and> uc_stream u = r)"
      using v(1-3) by (auto simp: active_def)
  next
    assume a: "active s ty r \<and> \<not> (uc_type u = ty \<and> uc_stream u = r)"
    then obtain v where v: "v \<in> set (usecase_list s)" "uc_type v = ty" "uc_stream v = r"
      by (auto simp: active_def)
    have "v \<noteq> u" using a v by blast
    then have "uc_addr v \<noteq> uc_addr u" using same [OF v(1)] by blast
    then show "\<exists>v \<in> set (usecase_list s). uc_type v = ty \<and> uc_stream v = r \<and> uc_addr v \<noteq> uc_addr u"
      using v by blast
  qed
  finally show ?thesis .
qed

lemma calling_stopped:
  assumes c: "core_inv P s" and u: "u \<in> set (usecase_list s)" and st: "stopped s (uc_addr u) s'"
  shows "calling s' \<longleftrightarrow> calling s \<and> uc_type u \<noteq> VOICE_CALL"
proof -
  have one: "v = u" if v: "v \<in> set (usecase_list s)" "uc_type v = VOICE_CALL" "uc_type u = VOICE_CALL" for v
  proof -
    have "uc_linked s v" "uc_linked s u" using c u v(1) by (simp_all add: core_inv_def linked_def)
    then have "uc_stream v = uc_stream u" using v by (auto simp: uc_linked_simps)
    then show ?thesis using usecase_unique [OF c v(1) u] v by simp
  qed
  have same: "v = u" if "v \<in> set (usecase_list s)" "uc_addr v = uc_addr u" for v
    using usecase_keys(1) [OF c that(1) u that(2)] .
  have "calling s' \<longleftrightarrow> (\<exists>v \<in> set (usecase_list s). uc_type v = VOICE_CALL \<and> uc_addr v \<noteq> uc_addr u)"
    unfolding calling_by_shape [of s'] stopped_bex [OF st] by simp
  also have "\<dots> \<longleftrightarrow> calling s \<and> uc_type u \<noteq> VOICE_CALL"
  proof
    assume "\<exists>v \<in> set (usecase_list s). uc_type v = VOICE_CALL \<and> uc_addr v \<noteq> uc_addr u"
    then show "calling s \<and> uc_type u \<noteq> VOICE_CALL" using one by (auto simp: calling_def)
  next
    assume a: "calling s \<and> uc_type u \<noteq> VOICE_CALL"
    then obtain v where v: "v \<in> set (usecase_list s)" "uc_type v = VOICE_CALL"
      by (auto simp: calling_def)
    have "v \<noteq> u" using a v by blast
    then have "uc_addr v \<noteq> uc_addr u" using same [OF v(1)] by blast
    then show "\<exists>v \<in> set (usecase_list s). uc_type v = VOICE_CALL \<and> uc_addr v \<noteq> uc_addr u"
      using v by blast
  qed
  finally show ?thesis .
qed

section \<open>Who holds a PCM handle\<close>

definition out_pcms :: "hal \<Rightarrow> nat \<Rightarrow> pcm multiset" where
  "out_pcms s a = (case outs s a of None \<Rightarrow> {#} | Some out \<Rightarrow> stream_pcms (so_pcm_dev_list out))"

definition in_pcms :: "hal \<Rightarrow> nat \<Rightarrow> pcm multiset" where
  "in_pcms s a = (case ins s a of None \<Rightarrow> {#} | Some i \<Rightarrow> stream_pcms (si_pcm_dev_list i))"

definition stream_handles :: "hal \<Rightarrow> pcm multiset" where
  "stream_handles s = (\<Sum>a<next_addr s. out_pcms s a + in_pcms s a)"

lemma stream_handles_cong:
  assumes ad: "addrs_ok s" and n: "next_addr s \<le> next_addr s'"
    and "\<And>b. out_pcms s' b = out_pcms s b" "\<And>b. in_pcms s' b = in_pcms s b"
  shows "stream_handles s' = stream_handles s"
proof -
  have "out_pcms s b + in_pcms s b = {#}" if "b \<in> {..<next_addr s'} - {..<next_addr s}" for b
    using ad that by (cases "outs s b"; cases "ins s b")
      (auto simp: addrs_ok_def out_pcms_def in_pcms_def dest: spec [of _ b])
  then have "(\<Sum>b<next_addr s'. out_pcms s b + in_pcms s b) = (\<Sum>b<next_addr s. out_pcms s b + in_pcms s b)"
    using n by (intro sum.mono_neutral_right) auto
  then show ?thesis using assms(3,4) by (simp add: stream_handles_def)
qed

lemma stream_handles_move:
  assumes ad: "addrs_ok s" and n: "next_addr s \<le> next_addr s'" and a: "a < next_addr s'"
    and o: "\<And>b. b \<noteq> a \<Longrightarrow> out_pcms s' b = out_pcms s b" and i: "\<And>b. b \<noteq> a \<Longrightarrow> in_pcms s' b = in_pcms s b"
  shows "stream_handles s' + (out_pcms s a + in_pcms s a) = stream_handles s + (out_pcms s' a + in_pcms s' a)"
proof -
  define N where "N = {..<next_addr s'}"
  have z: "out_pcms s b + in_pcms s b = {#}" if "b \<in> N - {..<next_addr s}" for b
    using ad that by (cases "outs s b"; cases "ins s b")
      (auto simp: addrs_ok_def out_pcms_def in_pcms_def N_def dest: spec [of _ b])
  have "stream_handles s = (\<Sum>b\<in>N. out_pcms s b + in_pcms s b)"
    unfolding stream_handles_def N_def using n z by (intro sum.mono_neutral_left) (auto simp: N_def)
  also have "\<dots> = (out_pcms s a + in_pcms s a) + (\<Sum>b\<in>N - {a}. out_pcms s b + in_pcms s b)"
    using a by (intro sum.remove) (auto simp: N_def)
  also have "(\<Sum>b\<in>N - {a}. out_pcms s b + in_pcms s b) = (\<Sum>b\<in>N - {a}. out_pcms s' b + in_pcms s' b)"
    using o i by (intro sum.cong) auto
  finally have s: "stream_handles s = (out_pcms s a + in_pcms s a) + (\<Sum>b\<in>N - {a}. out_pcms s' b + in_pcms s' b)" .
  have "stream_handles s' = (out_pcms s' a + in_pcms s' a) + (\<Sum>b\<in>N - {a}. out_pcms s' b + in_pcms s' b)"
    unfolding stream_handles_def N_def [symmetric] using a by (intro sum.remove) (auto simp: N_def)
  then show ?thesis using s by (simp add: ac_simps)
qed

section \<open>The invariant\<close>

definition supported :: "platform \<Rightarrow> usecase_type_t \<Rightarrow> u32 \<Rightarrow> bool" where
  "supported P ty devices \<longleftrightarrow> get_pcm_device P (pcm_devices_init P) ty devices \<noteq> None"

text \<open>What a stream's list of PCM devices looks like while it runs, and in standby.\<close>

definition running_list :: "pcm_device list option \<Rightarrow> bool" where
  "running_list l \<longleftrightarrow> (\<exists>d p. l = Some [d] \<and> pd_pcm d = Some p \<and> pcm_is_ready p)"

definition idle_list :: "pcm_device list option \<Rightarrow> bool" where
  "idle_list l \<longleftrightarrow> l = None \<or> l = Some []"

definition out_ok :: "platform \<Rightarrow> hal \<Rightarrow> nat \<Rightarrow> stream_out \<Rightarrow> bool" where
  "out_ok P s a out \<longleftrightarrow>
     active s PCM_PLAYBACK (OutRef a) = (\<not> so_standby out) \<and>
     (if so_standby out then idle_list (so_pcm_dev_list out) else running_list (so_pcm_dev_list out)) \<and>
     supported P PCM_PLAYBACK (so_devices out) \<and>
     pc_channels (so_config out) = 2 \<and> so_sample_rate out \<noteq> 0 \<and>
     so_channel_mask out = AUDIO_CHANNEL_OUT_STEREO P"

text \<open>The frames that a running capture still has to hand out are at the end of its last period.\<close>

definition buf_ok :: "stream_in \<Rightarrow> bool" where
  "buf_ok i \<longleftrightarrow>
     0 < pc_period_size (si_config i) \<and> si_read_buf_frames i \<le> unat (pc_period_size (si_config i)) \<and>
     (0 < si_read_buf_frames i \<longrightarrow>
        length (si_read_buf i) = unat (pc_period_size (si_config i)) \<and> si_read_status i = 0)"

definition in_ok :: "platform \<Rightarrow> hal \<Rightarrow> nat \<Rightarrow> stream_in \<Rightarrow> bool" where
  "in_ok P s a i \<longleftrightarrow>
     active s PCM_CAPTURE (InRef a) = (\<not> si_standby i) \<and>
     (if si_standby i then idle_list (si_pcm_dev_list i)
      else running_list (si_pcm_dev_list i) \<and> buf_ok i) \<and>
     (active_input s = Some a) = (\<not> si_standby i) \<and>
     si_requested_rate i \<noteq> 0 \<and> 0 < audio_channel_count_from_in_mask P (si_main_channels i)"

text \<open>The call, its handles and the SCO session.\<close>

definition call_ok :: "hal \<Rightarrow> bool" where
  "call_ok s \<longleftrightarrow>
     in_call s = calling s \<and>
     (\<not> in_call s \<longrightarrow> pcm_voice_rx s = None \<and> pcm_voice_tx s = None) \<and> sco_ok s"

definition pcms_ok :: "hal \<Rightarrow> bool" where
  "pcms_ok s \<longleftrightarrow> open_pcms (trace s) = stream_handles s + (call_pcms s + sco_pcms s)"

text \<open>\<open>active_input\<close> points to a stream that is open.\<close>

definition input_ok :: "hal \<Rightarrow> bool" where
  "input_ok s \<longleftrightarrow> (\<forall>a. active_input s = Some a \<longrightarrow> ins s a \<noteq> None)"

definition op_inv :: "platform \<Rightarrow> hal \<Rightarrow> bool" where
  "op_inv P s \<longleftrightarrow>
     core_inv P s \<and> (\<forall>a out. outs s a = Some out \<longrightarrow> out_ok P s a out) \<and>
     (\<forall>a i. ins s a = Some i \<longrightarrow> in_ok P s a i) \<and> call_ok s \<and> pcms_ok s \<and>
     input_ok s"

text \<open>
  What the invariant needs of the platform: calls succeed, the cast condition of \<open>DeviceInv\<close>,
  and the sizes that the code divides by are not 0.
\<close>

definition sound :: "platform \<Rightarrow> bool" where
  "sound P \<longleftrightarrow>
     healthy P \<and> cast_ok P \<and>
     audio_channel_count_from_out_mask P (AUDIO_CHANNEL_OUT_STEREO P) \<noteq> 0 \<and>
     (\<forall>f. audio_stream_out_frame_size P (AUDIO_CHANNEL_OUT_STEREO P) f \<noteq> 0) \<and>
     (\<forall>m f. 0 < audio_channel_count_from_in_mask P m \<longrightarrow> audio_stream_in_frame_size P m f \<noteq> 0)"

lemma sound_frame_size: "sound P \<Longrightarrow> audio_stream_out_frame_size P (AUDIO_CHANNEL_OUT_STEREO P) f \<noteq> 0"
  by (simp add: sound_def)

lemma get_pcm_device_profiles:
  assumes "profiles_ok P s"
  shows "get_pcm_device P (pcm_devices s) ty dv = get_pcm_device P (pcm_devices_init P) ty dv"
proof -
  have len: "length (pcm_devices s) = length (pcm_devices_init P)"
    using assms by (auto simp: profiles_ok_def dest: list_all2_lengthD)
  have "pp_type (pcm_devices s ! i) = pp_type (pcm_devices_init P ! i) \<and>
      pp_devices (pcm_devices s ! i) = pp_devices (pcm_devices_init P ! i)"
    if "i < length (pcm_devices s)" for i
  proof -
    have "same_profile (pcm_devices s ! i) (pcm_devices_init P ! i)"
      using assms that by (simp add: profiles_ok_def list_all2_conv_all_nth)
    then show ?thesis by (auto simp: same_profile_def)
  qed
  then have "List.find (\<lambda>i. pp_type (pcm_devices s ! i) = ty \<and> d AND pp_devices (pcm_devices s ! i) = d)
        [0..<length (pcm_devices s)] =
      List.find (\<lambda>i. pp_type (pcm_devices_init P ! i) = ty \<and> d AND pp_devices (pcm_devices_init P ! i) = d)
        [0..<length (pcm_devices s)]" for d
    by (intro find_cong) auto
  then show ?thesis by (simp add: get_pcm_device_def Let_def len)
qed

lemma op_fields:
  assumes "op_inv P s"
  shows "core_inv P s" "outs s a = Some out \<Longrightarrow> out_ok P s a out" "ins s b = Some i \<Longrightarrow> in_ok P s b i"
    "call_ok s" "pcms_ok s" "input_ok s"
  using assms by (simp_all add: op_inv_def)

lemma op_profile:
  assumes "op_inv P s" "supported P ty dv"
  obtains k where "get_pcm_device P (pcm_devices s) ty dv = Some k"
  using assms get_pcm_device_profiles [of P s ty dv] by (auto simp: supported_def op_inv_def core_inv_def)

text \<open>A stream in standby has no use case, so none with its id is in the list.\<close>

lemma playback_fresh:
  assumes op: "op_inv P s" and a: "outs s a = Some out" and st: "so_standby out"
  shows "get_usecase_from_id (usecase_list s) (so_usecase out) = None"
proof (rule ccontr)
  assume "get_usecase_from_id (usecase_list s) (so_usecase out) \<noteq> None"
  then obtain u where u: "u \<in> set (usecase_list s)" "uc_id u = so_usecase out"
    using usecases.lookup_SomeD by blast
  have c: "core_inv P s" using op by (simp add: op_inv_def)
  have l: "uc_linked s u" and so: "streams_ok s" using c u(1) by (simp_all add: core_inv_def linked_def)
  have id: "so_usecase out \<in> {USECASE_AUDIO_PLAYBACK, USECASE_AUDIO_PLAYBACK_DEEP_BUFFER}"
    using so a by (auto simp: streams_ok_def)
  show False
  proof (cases "uc_type u")
    case PCM_PLAYBACK
    then obtain b x where b: "uc_stream u = OutRef b" "outs s b = Some x" "so_usecase x = uc_id u"
      using l by (auto simp: uc_linked_simps)
    then have "b = a" using so a u(2) unfolding streams_ok_def by metis
    then have "active s PCM_PLAYBACK (OutRef a)" using u(1) b(1) PCM_PLAYBACK by (auto simp: active_def)
    then show ?thesis using op a st by (auto simp: op_inv_def out_ok_def)
  next
    case PCM_CAPTURE
    then obtain b x where "ins s b = Some x" "si_usecase x = uc_id u"
      using l by (auto simp: uc_linked_simps)
    then show ?thesis using so id u(2) unfolding streams_ok_def by force
  next
    case VOICE_CALL
    then show ?thesis using l id u(2) by (auto simp: uc_linked_simps)
  qed
qed

lemma capture_fresh:
  assumes op: "op_inv P s" and a: "ins s a = Some i" and st: "si_standby i"
  shows "get_usecase_from_id (usecase_list s) (si_usecase i) = None"
proof (rule ccontr)
  assume "get_usecase_from_id (usecase_list s) (si_usecase i) \<noteq> None"
  then obtain u where u: "u \<in> set (usecase_list s)" "uc_id u = si_usecase i"
    using usecases.lookup_SomeD by blast
  have c: "core_inv P s" using op by (simp add: op_inv_def)
  have l: "uc_linked s u" and so: "streams_ok s" using c u(1) by (simp_all add: core_inv_def linked_def)
  have id: "si_usecase i = USECASE_AUDIO_CAPTURE" using so a by (auto simp: streams_ok_def)
  show False
  proof (cases "uc_type u")
    case PCM_PLAYBACK
    then obtain b x where "outs s b = Some x" "so_usecase x = uc_id u"
      using l by (auto simp: uc_linked_simps)
    then show ?thesis using so id u(2) unfolding streams_ok_def by force
  next
    case PCM_CAPTURE
    then obtain b x where b: "uc_stream u = InRef b" "ins s b = Some x"
      using l by (auto simp: uc_linked_simps)
    then have "b = a" using so a unfolding streams_ok_def by metis
    then have "active s PCM_CAPTURE (InRef a)" using u(1) b(1) PCM_CAPTURE by (auto simp: active_def)
    then show ?thesis using op a st by (auto simp: op_inv_def in_ok_def)
  next
    case VOICE_CALL
    then show ?thesis using l id u(2) by (auto simp: uc_linked_simps)
  qed
qed

lemma voice_fresh:
  assumes op: "op_inv P s" and "\<not> in_call s"
  shows "get_usecase_from_id (usecase_list s) USECASE_VOICE_CALL = None"
proof (rule ccontr)
  assume "get_usecase_from_id (usecase_list s) USECASE_VOICE_CALL \<noteq> None"
  then obtain u where u: "u \<in> set (usecase_list s)" "uc_id u = USECASE_VOICE_CALL"
    using usecases.lookup_SomeD by blast
  have c: "core_inv P s" using op by (simp add: op_inv_def)
  have l: "uc_linked s u" and so: "streams_ok s" using c u(1) by (simp_all add: core_inv_def linked_def)
  have "uc_type u = VOICE_CALL"
    using l so u(2) by (cases "uc_type u") (auto simp: uc_linked_simps streams_ok_def; force)+
  then have "calling s" using u(1) by (auto simp: calling_def)
  then show False using assms by (auto simp: op_inv_def call_ok_def)
qed

section \<open>The handles of the parts are open\<close>

lemma stream_handles_mem:
  assumes "a < next_addr s"
  shows "out_pcms s a + in_pcms s a \<subseteq># stream_handles s"
proof -
  have "stream_handles s = (out_pcms s a + in_pcms s a) + (\<Sum>b\<in>{..<next_addr s} - {a}. out_pcms s b + in_pcms s b)"
    unfolding stream_handles_def using assms by (intro sum.remove) auto
  then show ?thesis by simp
qed

lemma op_holds:
  assumes op: "op_inv P s"
  shows "outs s a = Some out \<Longrightarrow> stream_pcms (so_pcm_dev_list out) \<subseteq># open_pcms (trace s)"
    and "ins s b = Some i \<Longrightarrow> stream_pcms (si_pcm_dev_list i) \<subseteq># open_pcms (trace s)"
    and "call_pcms s + sco_pcms s \<subseteq># open_pcms (trace s)"
proof -
  have o: "open_pcms (trace s) = stream_handles s + (call_pcms s + sco_pcms s)"
    and ad: "addrs_ok s"
    using op by (simp_all add: op_inv_def pcms_ok_def core_inv_def)
  have sub: "A \<subseteq># open_pcms (trace s)" if "A \<subseteq># stream_handles s" for A
    using that o by (metis mset_subset_eq_add_left subset_mset.order_trans)
  show "stream_pcms (so_pcm_dev_list out) \<subseteq># open_pcms (trace s)" if "outs s a = Some out"
  proof -
    have "a < next_addr s" using ad that by (auto simp: addrs_ok_def)
    from stream_handles_mem [OF this] have "out_pcms s a \<subseteq># stream_handles s"
      by (metis mset_subset_eq_add_left subset_mset.order_trans)
    then show ?thesis using sub that by (simp add: out_pcms_def)
  qed
  show "stream_pcms (si_pcm_dev_list i) \<subseteq># open_pcms (trace s)" if "ins s b = Some i"
  proof -
    have "b < next_addr s" using ad that by (auto simp: addrs_ok_def)
    from stream_handles_mem [OF this] have "in_pcms s b \<subseteq># stream_handles s"
      by (metis mset_subset_eq_add_right subset_mset.order_trans)
    then show ?thesis using sub that by (simp add: in_pcms_def)
  qed
  show "call_pcms s + sco_pcms s \<subseteq># open_pcms (trace s)" by (simp add: o)
qed

end
