(* ===== verification/OpSteps.thy ===== *)
theory OpSteps
  imports OpInv
begin

text \<open>
  The steps of the operations against \<open>op_inv\<close>: changing one stream, starting and stopping it,
  changing the SCO session, starting and ending a call.
\<close>

section \<open>Changing one stream\<close>

lemma op_inv_move_out:
  assumes op: "op_inv P s" and c: "core_inv P s'" and rest: "rest_same s s'" and call: "calling s' = calling s"
    and ai: "active_input s' = active_input s" and ins: "ins s' = ins s"
    and a: "outs s a = Some x" and outs: "outs s' = (outs s)(a \<mapsto> y)"
    and act: "\<And>ty r. active s' ty r =
      (if ty = PCM_PLAYBACK \<and> r = OutRef a then \<not> so_standby y else active s ty r)"
    and list: "if so_standby y then idle_list (so_pcm_dev_list y) else running_list (so_pcm_dev_list y)"
    and sup: "supported P PCM_PLAYBACK (so_devices y)"
    and same: "so_config y = so_config x" "so_sample_rate y = so_sample_rate x"
      "so_channel_mask y = so_channel_mask x"
    and pcms: "open_pcms (trace s') + stream_pcms (so_pcm_dev_list x) =
      open_pcms (trace s) + stream_pcms (so_pcm_dev_list y)"
  shows "op_inv P s'"
proof -
  have n: "next_addr s \<le> next_addr s'" using rest by (simp add: rest_same_def)
  have ad: "addrs_ok s" "addrs_ok s'" using op c by (simp_all add: op_inv_def core_inv_def)
  have lt: "a < next_addr s'" using ad(2) outs by (auto simp: addrs_ok_def)
  have "out_ok P s' b out" if "outs s' b = Some out" for b out
  proof (cases "b = a")
    case True
    then have "out = y" using that outs by simp
    moreover have "out_ok P s a x" using op a by (simp add: op_inv_def)
    ultimately show ?thesis using True act list sup same by (simp add: out_ok_def)
  next
    case False
    then have "out_ok P s b out" using that outs op by (simp add: op_inv_def)
    then show ?thesis using False act by (simp add: out_ok_def)
  qed
  moreover have "in_ok P s' b i" if "ins s' b = Some i" for b i
  proof -
    have "in_ok P s b i" using that ins op by (simp add: op_inv_def)
    then show ?thesis using act ai by (simp add: in_ok_def)
  qed
  moreover have "call_ok s'"
    using op rest call by (simp add: op_inv_def call_ok_def rest_same_def sco_ok_def)
  moreover have "pcms_ok s'"
  proof -
    have "stream_handles s' + (out_pcms s a + in_pcms s a) = stream_handles s + (out_pcms s' a + in_pcms s' a)"
      using outs ins by (intro stream_handles_move [OF ad(1) n lt]) (simp_all add: out_pcms_def in_pcms_def)
    then have h: "stream_handles s' + stream_pcms (so_pcm_dev_list x) =
        stream_handles s + stream_pcms (so_pcm_dev_list y)"
      using a outs ins by (simp add: out_pcms_def in_pcms_def)
    define K where "K = call_pcms s + sco_pcms s"
    have K: "call_pcms s' + sco_pcms s' = K"
      using rest by (simp add: K_def rest_same_def call_pcms_def sco_pcms_def)
    have "open_pcms (trace s) = stream_handles s + K" using op by (simp add: op_inv_def pcms_ok_def K_def)
    then have "open_pcms (trace s') + stream_pcms (so_pcm_dev_list x) =
        stream_handles s' + K + stream_pcms (so_pcm_dev_list x)"
      using pcms h by (simp add: ac_simps)
    then show ?thesis using K by (simp add: pcms_ok_def)
  qed
  moreover have "input_ok s'" using op ai ins by (simp add: op_inv_def input_ok_def)
  ultimately show ?thesis using c by (simp add: op_inv_def)
qed

lemma op_inv_move_in:
  assumes op: "op_inv P s" and c: "core_inv P s'" and rest: "rest_same s s'" and call: "calling s' = calling s"
    and ai: "(active_input s' = Some a) = (\<not> si_standby y)" and outs: "outs s' = outs s"
    and ai2: "active_input s' \<in> {active_input s, None, Some a}"
    and a: "ins s a = Some x" and ins: "ins s' = (ins s)(a \<mapsto> y)"
    and act: "\<And>ty r. active s' ty r =
      (if ty = PCM_CAPTURE \<and> r = InRef a then \<not> si_standby y else active s ty r)"
    and list: "if si_standby y then idle_list (si_pcm_dev_list y)
      else running_list (si_pcm_dev_list y) \<and> buf_ok y"
    and same: "si_requested_rate y = si_requested_rate x" "si_main_channels y = si_main_channels x"
    and pcms: "open_pcms (trace s') + stream_pcms (si_pcm_dev_list x) =
      open_pcms (trace s) + stream_pcms (si_pcm_dev_list y)"
  shows "op_inv P s'"
proof -
  have n: "next_addr s \<le> next_addr s'" using rest by (simp add: rest_same_def)
  have ad: "addrs_ok s" "addrs_ok s'" using op c by (simp_all add: op_inv_def core_inv_def)
  have lt: "a < next_addr s'" using ad(2) ins by (auto simp: addrs_ok_def)
  have "out_ok P s' b out" if "outs s' b = Some out" for b out
  proof -
    have "out_ok P s b out" using that outs op by (simp add: op_inv_def)
    then show ?thesis using act by (simp add: out_ok_def)
  qed
  moreover have "in_ok P s' b i" if "ins s' b = Some i" for b i
  proof -
    have "streams_ok s'" using c by (simp add: core_inv_def)
    then have b: "b = a" using that ins unfolding streams_ok_def by (metis fun_upd_same)
    then have y: "i = y" using that ins by simp
    have "in_ok P s a x" using op a by (simp add: op_inv_def)
    then show ?thesis unfolding b y using act list same ai by (simp add: in_ok_def)
  qed
  moreover have "call_ok s'"
    using op rest call by (simp add: op_inv_def call_ok_def rest_same_def sco_ok_def)
  moreover have "pcms_ok s'"
  proof -
    have "stream_handles s' + (out_pcms s a + in_pcms s a) = stream_handles s + (out_pcms s' a + in_pcms s' a)"
      using outs ins by (intro stream_handles_move [OF ad(1) n lt]) (simp_all add: out_pcms_def in_pcms_def)
    then have h: "stream_handles s' + stream_pcms (si_pcm_dev_list x) =
        stream_handles s + stream_pcms (si_pcm_dev_list y)"
      using a outs ins by (simp add: out_pcms_def in_pcms_def)
    define K where "K = call_pcms s + sco_pcms s"
    have K: "call_pcms s' + sco_pcms s' = K"
      using rest by (simp add: K_def rest_same_def call_pcms_def sco_pcms_def)
    have "open_pcms (trace s) = stream_handles s + K" using op by (simp add: op_inv_def pcms_ok_def K_def)
    then have "open_pcms (trace s') + stream_pcms (si_pcm_dev_list x) =
        stream_handles s' + K + stream_pcms (si_pcm_dev_list x)"
      using pcms h by (simp add: ac_simps)
    then show ?thesis using K by (simp add: pcms_ok_def)
  qed
  moreover have "input_ok s'" using op ai2 ins by (auto simp: op_inv_def input_ok_def)
  ultimately show ?thesis using c by (simp add: op_inv_def)
qed

text \<open>Steps that change nothing the invariant mentions.\<close>

definition op_same :: "platform \<Rightarrow> hal \<Rightarrow> hal \<Rightarrow> bool" where
  "op_same P s s' \<longleftrightarrow>
     core_same P s s' \<and> outs s' = outs s \<and> ins s' = ins s \<and> active_input s' = active_input s \<and>
     in_call s' = in_call s \<and> in_call_sco s' = in_call_sco s \<and>
     pcm_voice_rx s' = pcm_voice_rx s \<and> pcm_voice_tx s' = pcm_voice_tx s \<and>
     pcm_sco_rx s' = pcm_sco_rx s \<and> pcm_sco_tx s' = pcm_sco_tx s \<and>
     open_pcms (trace s') = open_pcms (trace s)"

lemma op_inv_same:
  assumes op: "op_inv P s" and same: "op_same P s s'"
  shows "op_inv P s'"
proof -
  have c: "core_inv P s'" using core_inv_same [of P s s'] op same by (simp add: op_inv_def op_same_def)
  have l: "usecase_list s' = usecase_list s" "next_addr s \<le> next_addr s'"
    using same by (simp_all add: op_same_def core_same_def)
  have act: "active s' = active s" "calling s' = calling s" using active_frame [of s' s] l(1) by simp_all
  have "stream_handles s' = stream_handles s"
    using op l(2) same by (intro stream_handles_cong)
      (simp_all add: op_inv_def core_inv_def op_same_def out_pcms_def in_pcms_def)
  then have "pcms_ok s'"
    using op same by (simp add: op_inv_def op_same_def pcms_ok_def call_pcms_def sco_pcms_def)
  moreover have "call_ok s'"
    using op same act by (simp add: op_inv_def op_same_def call_ok_def sco_ok_def)
  moreover have "input_ok s'" using op same by (simp add: op_inv_def op_same_def input_ok_def)
  ultimately show ?thesis
    using op same act c by (simp add: op_inv_def op_same_def out_ok_def in_ok_def)
qed

lemma op_same_emit: "\<not> is_route_call c \<Longrightarrow> \<not> is_pcm_call c \<Longrightarrow> op_same P s (emit c s)"
  by (simp add: op_same_def emit_core)

lemma op_inv_emit: "op_inv P s \<Longrightarrow> \<not> is_route_call c \<Longrightarrow> \<not> is_pcm_call c \<Longrightarrow> op_inv P (emit c s)"
  using op_inv_same op_same_emit by blast

lemma op_same_only_calls: "only_calls s s' \<Longrightarrow> op_same P s s'"
  using only_calls_fields [of s s'] by (simp add: op_same_def only_calls_core quiet_def)

lemma op_inv_frame:
  assumes op: "op_inv P s" and c: "core_inv P s'" and f: "routing_frame s s'"
  shows "op_inv P s'"
proof -
  note ff = routing_frame_fields [OF f]
  note act = active_frame [OF ff(26)]
  have "stream_handles s' = stream_handles s"
    using op ff by (intro stream_handles_cong) (simp_all add: op_inv_def core_inv_def out_pcms_def in_pcms_def)
  then have "pcms_ok s'"
    using op ff by (simp add: op_inv_def pcms_ok_def call_pcms_def sco_pcms_def)
  moreover have "call_ok s'" using op ff act by (simp add: op_inv_def call_ok_def sco_ok_def)
  moreover have "input_ok s'" using op ff by (simp add: op_inv_def input_ok_def)
  ultimately show ?thesis using op ff act c by (simp add: op_inv_def out_ok_def in_ok_def)
qed

lemma op_select:
  assumes op: "op_inv P s" and P: "sound P"
  shows "wp (select_devices P uid s) (\<lambda>(r, s'). op_inv P s' \<and> routing_frame s s')"
proof -
  have c: "core_inv P s" using op by (simp add: op_inv_def)
  show ?thesis
    using core_select_devices [OF c, of uid] P op_inv_frame [OF op] core_inv_frame [OF c]
    by (auto simp: sound_def elim!: wp_mono)
qed

section \<open>Output streams\<close>

text \<open>Fields that the invariant does not mention, or that stay within it.\<close>

lemma running_not_idle: "running_list l \<Longrightarrow> \<not> idle_list l"
  by (auto simp: running_list_def idle_list_def)

lemma idle_pcms: "idle_list l \<Longrightarrow> stream_pcms l = {#}"
  by (auto simp: idle_list_def stream_pcms_def)

lemma op_upd_out:
  assumes op: "op_inv P s" and a: "outs s a = Some x"
    and f: "\<And>z. so_usecase (f z) = so_usecase z" "so_standby (f x) = so_standby x"
      "so_config (f x) = so_config x" "so_sample_rate (f x) = so_sample_rate x"
      "so_channel_mask (f x) = so_channel_mask x" "supported P PCM_PLAYBACK (so_devices (f x))"
    and l: "so_pcm_dev_list (f x) = so_pcm_dev_list x \<or>
      running_list (so_pcm_dev_list x) \<and> running_list (so_pcm_dev_list (f x)) \<and>
      stream_pcms (so_pcm_dev_list (f x)) = stream_pcms (so_pcm_dev_list x) \<or>
      idle_list (so_pcm_dev_list x) \<and> idle_list (so_pcm_dev_list (f x))"
  shows "op_inv P (upd_out a f s)"
proof -
  have c: "core_inv P s" and ok: "out_ok P s a x" using op a by (simp_all add: op_inv_def)
  show ?thesis
  proof (rule op_inv_move_out [OF op, where a = a and x = x and y = "f x"])
    show "core_inv P (upd_out a f s)" using core_inv_same [OF c upd_out_core] f(1) by blast
    show "active (upd_out a f s) ty r =
      (if ty = PCM_PLAYBACK \<and> r = OutRef a then \<not> so_standby (f x) else active s ty r)" for ty r
      using ok f(2) by (simp add: active_def out_ok_def)
    show "if so_standby (f x) then idle_list (so_pcm_dev_list (f x)) else running_list (so_pcm_dev_list (f x))"
      using ok f(2) l running_not_idle by (auto simp: out_ok_def split: if_splits)
    show "active_input (upd_out a f s) = active_input s" by (simp add: upd_out_def)
    show "open_pcms (trace (upd_out a f s)) + stream_pcms (so_pcm_dev_list x) =
        open_pcms (trace s) + stream_pcms (so_pcm_dev_list (f x))"
      using l by (auto simp: idle_pcms)
  qed (use a f in \<open>simp_all add: calling_def\<close>)
qed

lemma running_listE:
  assumes "running_list l"
  obtains d p where "l = Some [d]" "pd_pcm d = Some p" "pcm_is_ready p"
  using assms by (auto simp: running_list_def)

lemma op_plays:
  assumes op: "op_inv P s" and a: "outs s a = Some out" and st: "\<not> so_standby out"
  obtains u where "plays s a u"
proof -
  have "active s PCM_PLAYBACK (OutRef a)" using op a st by (simp add: op_inv_def out_ok_def)
  then show ?thesis using that by (auto simp: active_def plays_def)
qed

lemma op_stop_output:
  assumes op: "op_inv P s" and a: "outs s a = Some out" and st: "\<not> so_standby out"
  shows "wp (do_out_standby_l a s) (\<lambda>(r, s'). r = 0 \<and> op_inv P s' \<and> rest_same s s' \<and> locks_same s s' \<and>
    ins s' = ins s \<and> pcm_devices s' = pcm_devices s \<and> active_input s' = active_input s \<and>
    outs s' = (outs s)(a \<mapsto> out\<lparr>so_standby := True, so_pcm_dev_list := Some []\<rparr>))"
proof -
  have c: "core_inv P s" and ok: "out_ok P s a out" using op a by (simp_all add: op_inv_def)
  obtain u where u: "plays s a u" using op_plays [OF op a st] .
  obtain d p where l: "so_pcm_dev_list out = Some [d]" "pd_pcm d = Some p"
    using ok st by (auto simp: out_ok_def running_list_def)
  define y where "y = out\<lparr>so_standby := True, so_pcm_dev_list := Some []\<rparr>"
  obtain s' where s': "do_out_standby_l a s = Some (0, s')" "core_inv P s'" "rest_same s s'" "locks_same s s'"
    "stopped s (uc_addr u) s'" "ins s' = ins s" "pcm_devices s' = pcm_devices s"
    "active_input s' = active_input s" "outs s' = (outs s)(a \<mapsto> y)"
    "open_pcms (trace s') = open_pcms (trace s) - list_pcms [d]"
    using do_out_standby_wp [OF c u a l(1)] by (auto simp: wp_exists y_def)
  have mem: "u \<in> set (usecase_list s)" and ty: "uc_type u = PCM_PLAYBACK" "uc_stream u = OutRef a"
    using u by (simp_all add: plays_def)
  have sub: "list_pcms [d] \<subseteq># open_pcms (trace s)"
    using op_holds(1) [OF op a] l by (simp add: stream_pcms_def)
  have "op_inv P s'"
  proof (rule op_inv_move_out [OF op s'(2,3) _ s'(8,6) a s'(9)])
    show "calling s' = calling s" using calling_stopped [OF c mem s'(5)] ty by simp
    show "active s' ty' r' = (if ty' = PCM_PLAYBACK \<and> r' = OutRef a then \<not> so_standby y else active s ty' r')"
      for ty' r'
      using active_stopped [OF c mem s'(5), of ty' r'] ty by (auto simp: y_def)
    show "open_pcms (trace s') + stream_pcms (so_pcm_dev_list out) =
      open_pcms (trace s) + stream_pcms (so_pcm_dev_list y)"
      using s'(10) sub l by (simp add: y_def stream_pcms_def)
  qed (use ok in \<open>simp_all add: y_def out_ok_def idle_list_def\<close>)
  then show ?thesis using s' by (simp add: y_def)
qed

lemma op_start_output:
  assumes op: "op_inv P s" and P: "sound P" and a: "outs s a = Some out" and st: "so_standby out"
  shows "wp (start_output_stream P a s) (\<lambda>(r, s'). rest_same s s' \<and> locks_same s s' \<and>
    ins s' = ins s \<and> active_input s' = active_input s \<and> pcm_devices s' = pcm_devices s \<and>
    (if r = 0
     then op_inv P (upd_out a (\<lambda>out. out\<lparr>so_standby := False\<rparr>) s') \<and>
       (\<exists>d p. outs s' = (outs s)(a \<mapsto> out\<lparr>so_pcm_dev_list := Some [d]\<rparr>) \<and> pcm_is_ready p \<and> playback_handle P p)
     else r = - EIO \<and> op_inv P s' \<and> outs s' = (outs s)(a \<mapsto> out\<lparr>so_pcm_dev_list := Some []\<rparr>) \<and>
       map uc_shape (usecase_list s') = map uc_shape (usecase_list s) \<and>
       open_pcms (trace s') = open_pcms (trace s)))"
proof -
  have c: "core_inv P s" and ok: "out_ok P s a out" using op a by (simp_all add: op_inv_def)
  have Ph: "cast_ok P" "healthy P" using P by (simp_all add: sound_def)
  obtain k where k: "get_pcm_device P (pcm_devices s) PCM_PLAYBACK (so_devices out) = Some k"
    using op_profile [OF op] ok by (auto simp: out_ok_def)
  obtain r s' where r: "start_output_stream P a s = Some (r, s')" and c': "core_inv P s'" "rest_same s s'" "locks_same s s'"
    "ins s' = ins s" "pcm_devices s' = pcm_devices s" and ai: "active_input s' = active_input s"
    and res: "if r = 0
     then started s (next_addr s) (so_usecase out) PCM_PLAYBACK (OutRef a) s' \<and>
       (\<exists>d p. outs s' = (outs s)(a \<mapsto> out\<lparr>so_pcm_dev_list := Some [d]\<rparr>) \<and> pd_pcm d = Some p \<and> pcm_is_ready p \<and>
          open_pcms (trace s') = add_mset p (open_pcms (trace s)) \<and> playback_handle P p)
     else r = - EIO \<and> map uc_shape (usecase_list s') = map uc_shape (usecase_list s) \<and>
       outs s' = (outs s)(a \<mapsto> out\<lparr>so_pcm_dev_list := Some []\<rparr>) \<and>
       open_pcms (trace s') = open_pcms (trace s)"
    using start_output_wp [OF c Ph a playback_fresh [OF op a st] k] unfolding wp_exists split_paired_Ex prod.case by blast
  show ?thesis
  proof (cases "r = 0")
    case False
    define y where "y = out\<lparr>so_pcm_dev_list := Some []\<rparr>"
    have f: "map uc_shape (usecase_list s') = map uc_shape (usecase_list s)" "outs s' = (outs s)(a \<mapsto> y)"
      "open_pcms (trace s') = open_pcms (trace s)" "r = - EIO"
      using res False by (simp_all add: y_def)
    have "op_inv P s'"
    proof (rule op_inv_move_out [OF op c'(1,2) active_frame(2) [OF f(1)] ai c'(4) a f(2)])
      show "active s' ty r = (if ty = PCM_PLAYBACK \<and> r = OutRef a then \<not> so_standby y else active s ty r)" for ty r
        using ok st active_frame(1) [OF f(1)] by (simp add: y_def out_ok_def)
    qed (use ok st f(3) idle_pcms in \<open>simp_all add: y_def out_ok_def idle_list_def stream_pcms_def\<close>)
    then show ?thesis using r c' ai f by (simp add: y_def)
  next
    case True
    obtain d p where s': "core_inv P s'" "rest_same s s'" "locks_same s s'"
      "started s (next_addr s) (so_usecase out) PCM_PLAYBACK (OutRef a) s'" "ins s' = ins s"
      "pcm_devices s' = pcm_devices s" "outs s' = (outs s)(a \<mapsto> out\<lparr>so_pcm_dev_list := Some [d]\<rparr>)"
      "pd_pcm d = Some p" "pcm_is_ready p" "open_pcms (trace s') = add_mset p (open_pcms (trace s))"
      "playback_handle P p"
      using res True c' by auto
    define f where "f = (\<lambda>out :: stream_out. out\<lparr>so_standby := False\<rparr>)"
    define y where "y = f (out\<lparr>so_pcm_dev_list := Some [d]\<rparr>)"
    define t where "t = upd_out a f s'"
    have outs: "outs t = (outs s)(a \<mapsto> y)" using s'(7) by (simp add: t_def y_def)
    have "op_inv P t"
    proof (rule op_inv_move_out [OF op, where a = a and x = out and y = y])
      show "core_inv P t" unfolding t_def by (rule core_inv_same [OF s'(1) upd_out_core]) (simp add: f_def)
      show "rest_same s t" unfolding t_def by (rule rest_same_trans [OF s'(2) upd_same(1)])
      show "calling t = calling s" using active_started(2) [OF s'(4)] by (simp add: t_def calling_def)
      show "active t ty r = (if ty = PCM_PLAYBACK \<and> r = OutRef a then \<not> so_standby y else active s ty r)" for ty r
        using active_started(1) [OF s'(4), of ty r] by (auto simp: y_def f_def t_def active_def)
      show "active_input t = active_input s" using ai by (simp add: t_def upd_out_def)
      show "open_pcms (trace t) + stream_pcms (so_pcm_dev_list out) = open_pcms (trace s) + stream_pcms (so_pcm_dev_list y)"
        using s'(8-10) ok st idle_pcms by (simp add: t_def y_def f_def out_ok_def stream_pcms_def)
    qed (use ok s' a outs in \<open>simp_all add: y_def f_def t_def out_ok_def running_list_def\<close>)
    then show ?thesis using r True s' ai by (auto simp: t_def f_def)
  qed
qed

section \<open>Input streams\<close>

lemma op_upd_in:
  assumes op: "op_inv P s" and a: "ins s a = Some x"
    and f: "\<And>z. si_usecase (f z) = si_usecase z" "\<And>z. si_usecase_type (f z) = si_usecase_type z"
      "si_standby (f x) = si_standby x" "si_requested_rate (f x) = si_requested_rate x"
      "si_main_channels (f x) = si_main_channels x" "si_pcm_dev_list (f x) = si_pcm_dev_list x"
    and buf: "buf_ok x \<Longrightarrow> buf_ok (f x)"
  shows "op_inv P (upd_in a f s)"
proof -
  have c: "core_inv P s" and ok: "in_ok P s a x" using op a by (simp_all add: op_inv_def)
  show ?thesis
  proof (rule op_inv_move_in [OF op, where a = a and x = x and y = "f x"])
    show "core_inv P (upd_in a f s)" using core_inv_same [OF c upd_in_core] f(1,2) by blast
    show "active (upd_in a f s) ty r =
      (if ty = PCM_CAPTURE \<and> r = InRef a then \<not> si_standby (f x) else active s ty r)" for ty r
      using ok f(3) by (simp add: active_def in_ok_def)
    show "if si_standby (f x) then idle_list (si_pcm_dev_list (f x))
        else running_list (si_pcm_dev_list (f x)) \<and> buf_ok (f x)"
      using ok f buf by (simp add: in_ok_def)
    show "(active_input (upd_in a f s) = Some a) = (\<not> si_standby (f x))"
      using ok f by (simp add: upd_in_def in_ok_def)
    show "active_input (upd_in a f s) \<in> {active_input s, None, Some a}" by (simp add: upd_in_def)
  qed (use a f in \<open>simp_all add: calling_def\<close>)
qed

lemma op_records:
  assumes op: "op_inv P s" and a: "ins s a = Some i" and st: "\<not> si_standby i"
  obtains u where "records s a u"
proof -
  have "active s PCM_CAPTURE (InRef a)" using op a st by (simp add: op_inv_def in_ok_def)
  then show ?thesis using that by (auto simp: active_def records_def)
qed

lemma op_stop_input:
  assumes op: "op_inv P s" and a: "ins s a = Some i" and st: "\<not> si_standby i"
  shows "wp (do_in_standby_l a s) (\<lambda>(r, s'). r = 0 \<and> op_inv P s' \<and> rest_same s s' \<and> locks_same s s' \<and>
    outs s' = outs s \<and> pcm_devices s' = pcm_devices s \<and>
    ins s' = (ins s)(a \<mapsto> i\<lparr>si_pcm_dev_list := Some [], si_read_buf := [], si_standby := True,
                            si_last_read_time_us := 0\<rparr>))"
proof -
  have c: "core_inv P s" and ok: "in_ok P s a i" using op a by (simp_all add: op_inv_def)
  obtain u where u: "records s a u" using op_records [OF op a st] .
  obtain d p where l: "si_pcm_dev_list i = Some [d]" "pd_pcm d = Some p"
    using ok st by (auto simp: in_ok_def running_list_def)
  define y where "y = i\<lparr>si_pcm_dev_list := Some [], si_read_buf := [], si_standby := True,
    si_last_read_time_us := 0\<rparr>"
  obtain s' where s': "do_in_standby_l a s = Some (0, s')" "core_inv P s'" "rest_same s s'" "locks_same s s'"
    "stopped s (uc_addr u) s'" "outs s' = outs s" "pcm_devices s' = pcm_devices s"
    "active_input s' = None" "ins s' = (ins s)(a \<mapsto> y)"
    "open_pcms (trace s') = open_pcms (trace s) - list_pcms [d]"
    using do_in_standby_wp [OF c u a st l(1)] by (auto simp: wp_exists y_def)
  have mem: "u \<in> set (usecase_list s)" and ty: "uc_type u = PCM_CAPTURE" "uc_stream u = InRef a"
    using u by (simp_all add: records_def)
  have sub: "list_pcms [d] \<subseteq># open_pcms (trace s)"
    using op_holds(2) [OF op a] l by (simp add: stream_pcms_def)
  have "op_inv P s'"
  proof (rule op_inv_move_in [OF op s'(2,3) _ _ s'(6) _ a s'(9)])
    show "calling s' = calling s" using calling_stopped [OF c mem s'(5)] ty by simp
    show "active s' ty' r' = (if ty' = PCM_CAPTURE \<and> r' = InRef a then \<not> si_standby y else active s ty' r')"
      for ty' r'
      using active_stopped [OF c mem s'(5), of ty' r'] ty by (auto simp: y_def)
    show "open_pcms (trace s') + stream_pcms (si_pcm_dev_list i) =
      open_pcms (trace s) + stream_pcms (si_pcm_dev_list y)"
      using s'(10) sub l by (simp add: y_def stream_pcms_def)
  qed (use ok s'(8) in \<open>simp_all add: y_def in_ok_def idle_list_def\<close>)
  then show ?thesis using s' by (simp add: y_def)
qed

text \<open>No PCM device fits: the input is given up.\<close>

lemma op_no_input:
  assumes op: "op_inv P s" and a: "ins s a = Some i" and st: "si_standby i"
  shows "op_inv P (s\<lparr>active_input := None\<rparr>)"
proof -
  define t where "t = s\<lparr>active_input := None\<rparr>"
  have c: "core_inv P s" and ok: "in_ok P s a i" using op a by (simp_all add: op_inv_def)
  have "op_inv P t"
  proof (rule op_inv_move_in [OF op, where a = a and x = i and y = i])
    show "core_inv P t"
      using core_inv_same [OF c, of t] same_all_active [of P s None] by (simp add: t_def same_all_def)
    show "rest_same s t" "calling t = calling s" by (simp_all add: t_def rest_same_def calling_def)
    show "active t ty r = (if ty = PCM_CAPTURE \<and> r = InRef a then \<not> si_standby i else active s ty r)" for ty r
      using ok by (simp add: t_def active_def in_ok_def)
  qed (use a ok st in \<open>auto simp: t_def in_ok_def\<close>)
  then show ?thesis by (simp add: t_def)
qed

text \<open>A profile has periods that are not empty, so the buffer of a new capture is in order.\<close>

lemma profile_period:
  assumes "profiles_ok P s" and "k < length (pcm_devices s)"
  shows "0 < pc_period_size (pp_config (pcm_devices s ! k))"
proof -
  have "same_profile (pcm_devices s ! k) (pcm_devices_init P ! k)"
    using assms by (simp add: profiles_ok_def list_all2_conv_all_nth)
  then show ?thesis by (auto simp: same_profile_def word_greater_zero_iff)
qed

text \<open>The stream leaves standby over a state that its use case has been entered in.\<close>

lemma op_input_started:
  assumes op: "op_inv P s" and a: "ins s a = Some i" and st: "si_standby i"
    and c': "core_inv P s'" "rest_same s s'" "outs s' = outs s" "\<forall>b. b \<noteq> a \<longrightarrow> ins s' b = ins s b"
    and run: "started s (next_addr s) (si_usecase i) PCM_CAPTURE (InRef a) s'" "active_input s' = Some a"
    and j: "ins s' a = Some j" "same_stream i j" "si_pcm_dev_list j = Some [d]" "pd_pcm d = Some p" "buf_ok j"
    and p: "pcm_is_ready p" "open_pcms (trace s') = add_mset p (open_pcms (trace s))"
  shows "op_inv P (upd_in a (\<lambda>i. i\<lparr>si_standby := False\<rparr>) s')"
proof -
  have ok: "in_ok P s a i" using op a by (simp add: op_inv_def)
  define f where "f = (\<lambda>i :: stream_in. i\<lparr>si_standby := False\<rparr>)"
  define t where "t = upd_in a f s'"
  have ins: "ins t = (ins s)(a \<mapsto> f j)" using c'(4) j(1) by (auto simp: t_def fun_eq_iff)
  have "op_inv P t"
  proof (rule op_inv_move_in [OF op, where a = a and x = i and y = "f j"])
    show "core_inv P t" unfolding t_def by (rule core_inv_same [OF c'(1) upd_in_core]) (simp_all add: f_def)
    show "rest_same s t" unfolding t_def by (rule rest_same_trans [OF c'(2) upd_same(3)])
    show "calling t = calling s" using active_started(2) [OF run(1)] by (simp add: t_def calling_def)
    show "active t ty r = (if ty = PCM_CAPTURE \<and> r = InRef a then \<not> si_standby (f j) else active s ty r)" for ty r
      using active_started(1) [OF run(1), of ty r] by (auto simp: f_def t_def active_def)
    show "(active_input t = Some a) = (\<not> si_standby (f j))" using run(2) by (simp add: t_def upd_in_def f_def)
    show "active_input t \<in> {active_input s, None, Some a}" using run(2) by (simp add: t_def upd_in_def)
    show "open_pcms (trace t) + stream_pcms (si_pcm_dev_list i) =
        open_pcms (trace s) + stream_pcms (si_pcm_dev_list (f j))"
      using j(3,4) p ok st idle_pcms by (simp add: t_def f_def in_ok_def stream_pcms_def)
  qed (use c'(3) a ins j p(1) in \<open>simp_all add: f_def t_def running_list_def same_stream_def buf_ok_def\<close>)
  then show ?thesis by (simp add: t_def f_def)
qed

lemma op_start_input:
  assumes op: "op_inv P s" and P: "sound P" and a: "ins s a = Some i" and st: "si_standby i"
  shows "wp (start_input_stream P a s) (\<lambda>(r, s'). rest_same s s' \<and> locks_same s s' \<and> outs s' = outs s \<and>
    (\<forall>b. b \<noteq> a \<longrightarrow> ins s' b = ins s b) \<and> (\<exists>j. ins s' a = Some j \<and> same_stream i j \<and> si_requested_rate j = si_requested_rate i \<and>
         si_main_channels j = si_main_channels i \<and>
         (r = 0 \<longrightarrow> (\<exists>d p. si_pcm_dev_list j = Some [d] \<and> pd_pcm d = Some p) \<and> si_read_buf_frames j = 0 \<and>
            (\<exists>k. k < length (pcm_devices s') \<and> si_config j = pp_config (pcm_devices s' ! k)))) \<and>
    (if r = 0 then op_inv P (upd_in a (\<lambda>i. i\<lparr>si_standby := False\<rparr>) s') else op_inv P s'))"
proof -
  have c: "core_inv P s" and ok: "in_ok P s a i" using op a by (simp_all add: op_inv_def)
  have Ph: "cast_ok P" "healthy P" using P by (simp_all add: sound_def)
  show ?thesis
  proof (cases "get_pcm_device P (pcm_devices s) (si_usecase_type i) (si_devices i)")
    case None
    have "start_input_stream P a s = Some (- EINVAL, s\<lparr>active_input := None\<rparr>)"
      using None by (simp add: start_input_stream_def a)
    then show ?thesis using op_no_input [OF op a st] a by (simp add: rest_same_def locks_same_def)
  next
    case (Some k)
    obtain r s' j where r: "start_input_stream P a s = Some (r, s')" and c': "core_inv P s'" "rest_same s s'"
      "locks_same s s'" "outs s' = outs s" "\<forall>b. b \<noteq> a \<longrightarrow> ins s' b = ins s b"
      and j: "ins s' a = Some j" "same_stream i j"
      and res: "if r = 0
       then started s (next_addr s) (si_usecase i) PCM_CAPTURE (InRef a) s' \<and> active_input s' = Some a \<and>
         si_config j = pp_config (pcm_devices s' ! k) \<and> si_read_buf_frames j = 0 \<and>
         (\<exists>d p. si_pcm_dev_list j = Some [d] \<and> pd_pcm d = Some p \<and> pcm_is_ready p \<and>
            open_pcms (trace s') = add_mset p (open_pcms (trace s)))
       else r = - EIO \<and> map uc_shape (usecase_list s') = map uc_shape (usecase_list s) \<and>
         active_input s' = None \<and> si_pcm_dev_list j = Some [] \<and>
         open_pcms (trace s') = open_pcms (trace s)"
      using start_input_wp [OF c Ph a capture_fresh [OF op a st] Some] unfolding wp_exists split_paired_Ex prod.case by blast
    show ?thesis
    proof (cases "r = 0")
      case False
      have f: "map uc_shape (usecase_list s') = map uc_shape (usecase_list s)" "active_input s' = None"
        "open_pcms (trace s') = open_pcms (trace s)" "si_pcm_dev_list j = Some []"
        using res False by simp_all
      have ins: "ins s' = (ins s)(a \<mapsto> j)" using c'(5) j(1) by (auto simp: fun_eq_iff)
      have "op_inv P s'"
      proof (rule op_inv_move_in [OF op c'(1,2) active_frame(2) [OF f(1)] _ c'(4) _ a ins])
        show "active s' ty r = (if ty = PCM_CAPTURE \<and> r = InRef a then \<not> si_standby j else active s ty r)" for ty r
          using ok st j(2) active_frame(1) [OF f(1)] by (simp add: in_ok_def same_stream_def)
      qed (use ok st f j(2) idle_pcms in
          \<open>simp_all add: same_stream_def in_ok_def idle_list_def stream_pcms_def\<close>)
      then show ?thesis using r False c' j by (simp add: same_stream_def)
    next
      case True
      obtain d p where d: "si_pcm_dev_list j = Some [d]" "pd_pcm d = Some p" "pcm_is_ready p"
        "open_pcms (trace s') = add_mset p (open_pcms (trace s))"
        and run: "started s (next_addr s) (si_usecase i) PCM_CAPTURE (InRef a) s'" "active_input s' = Some a"
        and cfg: "si_config j = pp_config (pcm_devices s' ! k)" "si_read_buf_frames j = 0"
        using res True by auto
      have prof: "profiles_ok P s" "profiles_ok P s'" using c c'(1) by (simp_all add: core_inv_def)
      then have "length (pcm_devices s') = length (pcm_devices s)"
        unfolding profiles_ok_def using list_all2_lengthD by metis
      then have kl: "k < length (pcm_devices s')" using get_pcm_device_SomeD(1) [OF Some] by simp
      have "buf_ok j" using profile_period [OF prof(2) kl] cfg by (simp add: buf_ok_def)
      then have "op_inv P (upd_in a (\<lambda>i. i\<lparr>si_standby := False\<rparr>) s')"
        by (rule op_input_started [OF op a st c'(1,2,4,5) run j d(1,2) _ d(3,4)])
      then show ?thesis using r True c' j d cfg kl by (auto simp: same_stream_def)
    qed
  qed
qed

section \<open>Sessions and calls\<close>

lemma op_inv_sco:
  assumes op: "op_inv P s" and st: "sco_step s s'" and ok: "sco_ok s'"
  shows "op_inv P s'"
proof -
  note f = sco_step_fields [OF st]
  have c: "core_inv P s'" using core_inv_same [OF _ sco_step_core [OF st]] op by (simp add: op_inv_def)
  have act: "active s' = active s" "calling s' = calling s" using active_frame [of s' s] f by simp_all
  have "stream_handles s' = stream_handles s"
    using op f by (intro stream_handles_cong) (simp_all add: op_inv_def core_inv_def out_pcms_def in_pcms_def)
  moreover have "call_pcms s' = call_pcms s" using f by (simp add: call_pcms_def)
  moreover have "open_pcms (trace s) = stream_handles s + call_pcms s + sco_pcms s"
    using op by (simp add: op_inv_def pcms_ok_def ac_simps)
  ultimately have "open_pcms (trace s') + sco_pcms s = (stream_handles s' + (call_pcms s' + sco_pcms s')) + sco_pcms s"
    using f(25) by (simp add: ac_simps)
  then have "pcms_ok s'" by (simp add: pcms_ok_def)
  moreover have "call_ok s'" using op f act ok by (simp add: op_inv_def call_ok_def)
  moreover have "input_ok s'" using op f by (simp add: op_inv_def input_ok_def)
  ultimately show ?thesis using op f act c by (simp add: op_inv_def out_ok_def in_ok_def)
qed

lemma op_sco_pcms: "op_inv P s \<Longrightarrow> sco_pcms s \<subseteq># open_pcms (trace s)"
  using op_holds(3) [of P s] by (metis mset_subset_eq_add_right subset_mset.order_trans)

lemma op_start_sco:
  assumes op: "op_inv P s" and P: "sound P"
  shows "wp (start_voice_session_bt_sco P s) (\<lambda>s'. op_inv P s' \<and> sco_step s s')"
proof -
  have "sco_ok s" using op by (simp add: op_inv_def call_ok_def)
  moreover have "\<And>t d f cfg. pcm_open P t SOUND_CARD d f cfg \<noteq> None"
    using P by (metis sound_def healthy_def option.distinct(1))
  ultimately show ?thesis
    using op_inv_sco [OF op] by (auto intro: wp_mono [OF start_sco_wp])
qed

lemma op_stop_sco:
  assumes op: "op_inv P s"
  shows "op_inv P (stop_voice_session_bt_sco s)" "sco_step s (stop_voice_session_bt_sco s)"
proof -
  note st = stop_sco_step [OF op_sco_pcms [OF op]]
  show "op_inv P (stop_voice_session_bt_sco s)"
    using op_inv_sco [OF op st(1)] st(2-4) by (simp add: sco_ok_def)
  show "sco_step s (stop_voice_session_bt_sco s)" by (rule st(1))
qed

text \<open>A step of a call keeps the invariant when the call's use case comes and goes with it.\<close>

lemma op_inv_voice:
  assumes op: "op_inv P s" and c: "core_inv P s'" and st: "voice_step s s'" and ok: "call_ok s'"
    and act: "\<And>ty r. ty \<noteq> VOICE_CALL \<Longrightarrow> active s' ty r = active s ty r"
  shows "op_inv P s'"
proof -
  have "stream_handles s' = stream_handles s"
    using op st by (intro stream_handles_cong)
      (simp_all add: op_inv_def core_inv_def out_pcms_def in_pcms_def voice_step_def)
  then have "open_pcms (trace s') + (call_pcms s + sco_pcms s) =
      (stream_handles s' + (call_pcms s' + sco_pcms s')) + (call_pcms s + sco_pcms s)"
    using op st by (simp add: op_inv_def pcms_ok_def voice_step_def ac_simps)
  then have "pcms_ok s'" by (simp add: pcms_ok_def)
  then show ?thesis
    using op st ok c act by (simp add: op_inv_def voice_step_def out_ok_def in_ok_def input_ok_def)
qed

lemma op_stop_call:
  assumes op: "op_inv P s" and call: "in_call s"
  shows "wp (stop_voice_call P s) (\<lambda>(r, s'). r = 0 \<and> op_inv P s' \<and> voice_step s s' \<and> \<not> in_call s' \<and>
    sco_pcms s' = {#})"
proof -
  have c: "core_inv P s" and ok: "call_ok s" using op by (simp_all add: op_inv_def)
  obtain u where u: "u \<in> set (usecase_list s)" "uc_type u = VOICE_CALL"
    using ok call by (auto simp: call_ok_def calling_def)
  obtain s' where s': "stop_voice_call P s = Some (0, s')" "core_inv P s'" "voice_step s s'"
    "stopped s (uc_addr u) s'" "\<not> in_call s'" "pcm_voice_rx s' = None" "pcm_voice_tx s' = None" "sco_ok s'"
    "\<not> in_call_sco s'"
    using stop_voice_call_wp [OF c u _ op_holds(3) [OF op]] ok by (auto simp: wp_exists call_ok_def)
  have "op_inv P s'"
  proof (rule op_inv_voice [OF op s'(2,3)])
    show "call_ok s'" using s' calling_stopped [OF c u(1) s'(4)] u(2) by (simp add: call_ok_def)
    show "active s' ty r = active s ty r" if "ty \<noteq> VOICE_CALL" for ty r
      using active_stopped [OF c u(1) s'(4), of ty r] u(2) that by auto
  qed
  then show ?thesis using s' by (simp add: sco_ok_def sco_pcms_def)
qed

lemma op_start_call:
  assumes op: "op_inv P s" and P: "sound P" and call: "\<not> in_call s" and p: "primary_output s \<noteq> None"
  shows "wp (start_voice_call P s) (\<lambda>(r, s'). r = 0 \<and> op_inv P s' \<and> voice_step s s' \<and> in_call s')"
proof -
  have c: "core_inv P s" and ok: "call_ok s" using op by (simp_all add: op_inv_def)
  have Ph: "cast_ok P" "healthy P" using P by (simp_all add: sound_def)
  obtain a out where a: "primary_output s = Some a" "outs s a = Some out"
    using p c by (auto simp: core_inv_def primary_ok_def)
  obtain s' where s': "start_voice_call P s = Some (0, s')" "core_inv P s'" "voice_step s s'"
    "started s (next_addr s) USECASE_VOICE_CALL VOICE_CALL (OutRef a) s'" "in_call s'" "sco_ok s'"
    using start_voice_call_wp [OF c Ph a voice_fresh [OF op call]] ok call
    by (auto simp: wp_exists call_ok_def)
  have "op_inv P s'"
  proof (rule op_inv_voice [OF op s'(2,3)])
    show "call_ok s'" using s' active_started(2) [OF s'(4)] by (simp add: call_ok_def)
    show "active s' ty r = active s ty r" if "ty \<noteq> VOICE_CALL" for ty r
      using active_started(1) [OF s'(4), of ty r] that by auto
  qed
  then show ?thesis using s' by simp
qed

end
