(* ===== verification/OpOut.thy ===== *)
theory OpOut
  imports OpSteps
begin

text \<open>
  The operations of an output stream against \<open>op_inv\<close>: each returns, keeps the invariant and
  gives back the mutexes it takes, in the documented order.
\<close>

section \<open>Mutexes\<close>

definition lock_neutral :: "hal \<Rightarrow> hal \<Rightarrow> bool" where
  "lock_neutral s s' \<longleftrightarrow>
     (held (trace s) = [] \<longrightarrow>
        held (trace s') = [] \<and> lock_order_ok (trace s') = lock_order_ok (trace s))"

lemma lock_neutral_trans: "lock_neutral s s' \<Longrightarrow> lock_neutral s' s'' \<Longrightarrow> lock_neutral s s''"
  by (simp add: lock_neutral_def)

lemma locks_same_neutral: "locks_same s s' \<Longrightarrow> lock_neutral s s'"
  by (simp add: lock_neutral_def locks_same_def)

lemmas lock_defs = lock_def unlock_def lock_output_stream_def lock_input_stream_def

lemma lock_fields [simp]:
  "outs (lock m s) = outs s" "ins (lock m s) = ins s" "outs (unlock m s) = outs s" "ins (unlock m s) = ins s"
  "mode (lock m s) = mode s" "mode (unlock m s) = mode s"
  "in_call (lock m s) = in_call s" "in_call (unlock m s) = in_call s"
  "primary_output (lock m s) = primary_output s" "primary_output (unlock m s) = primary_output s"
  "outs (lock_output_stream a s) = outs s" "ins (lock_output_stream a s) = ins s"
  "mode (lock_output_stream a s) = mode s" "in_call (lock_output_stream a s) = in_call s"
  "primary_output (lock_output_stream a s) = primary_output s"
  "outs (lock_input_stream a s) = outs s" "ins (lock_input_stream a s) = ins s"
  "mode (lock_input_stream a s) = mode s" "in_call (lock_input_stream a s) = in_call s"
  "primary_output (lock_input_stream a s) = primary_output s"
  "mic_mute (lock m s) = mic_mute s" "mic_mute (unlock m s) = mic_mute s"
  by (simp_all add: lock_defs)

lemma op_inv_locks [intro]:
  "op_inv P s \<Longrightarrow> op_inv P (lock m s)" "op_inv P s \<Longrightarrow> op_inv P (unlock m s)"
  "op_inv P s \<Longrightarrow> op_inv P (lock_output_stream a s)" "op_inv P s \<Longrightarrow> op_inv P (lock_input_stream a s)"
  by (simp_all add: lock_defs op_inv_emit)

lemma held_locks:
  "held (trace (lock m s)) = m # held (trace s)"
  "held (trace (unlock m s)) = remove1 m (held (trace s))"
  "held (trace (lock_output_stream a s)) = OutLock a # held (trace s)"
  "held (trace (lock_input_stream a s)) = InLock a # held (trace s)"
  by (simp_all add: lock_defs)

lemma order_locks:
  "lock_order_ok (trace (lock m s)) =
     (lock_order_ok (trace s) \<and> list_all (\<lambda>l. mutex_rank l < mutex_rank m) (held (trace s)))"
  "lock_order_ok (trace (unlock m s)) = (lock_order_ok (trace s) \<and> List.member (held (trace s)) m)"
  "lock_order_ok (trace (lock_output_stream a s)) =
     (lock_order_ok (trace s) \<and> list_all (\<lambda>l. mutex_rank l < 3) (held (trace s)))"
  "lock_order_ok (trace (lock_input_stream a s)) =
     (lock_order_ok (trace s) \<and> list_all (\<lambda>l. mutex_rank l < 1) (held (trace s)))"
proof -
  have "list_all (\<lambda>l. mutex_rank l < 3) ms \<Longrightarrow> list_all (\<lambda>l. mutex_rank l < 4) ms" for ms
    by (auto simp: list_all_iff)
  then show "lock_order_ok (trace (lock_output_stream a s)) =
     (lock_order_ok (trace s) \<and> list_all (\<lambda>l. mutex_rank l < 3) (held (trace s)))"
    by (auto simp: lock_defs List.member_iff)
  have "list_all (\<lambda>l. mutex_rank l < 1) ms \<Longrightarrow> list_all (\<lambda>l. mutex_rank l < 2) ms" for ms
    by (auto simp: list_all_iff)
  then show "lock_order_ok (trace (lock_input_stream a s)) =
     (lock_order_ok (trace s) \<and> list_all (\<lambda>l. mutex_rank l < 1) (held (trace s)))"
    by (auto simp: lock_defs List.member_iff)
qed (simp_all add: lock_defs)

lemmas lock_simps = held_locks order_locks List.member_iff lock_neutral_def locks_same_def

section \<open>Standby\<close>

definition standby_out :: "stream_out \<Rightarrow> stream_out" where
  "standby_out out =
     (if so_standby out then out else out\<lparr>so_standby := True, so_pcm_dev_list := Some []\<rparr>)"

lemma out_standby_op:
  assumes op: "op_inv P s" and a: "outs s a = Some out"
  shows "wp (out_standby a s) (\<lambda>(r, s'). r = 0 \<and> op_inv P s' \<and> lock_neutral s s' \<and> rest_same s s' \<and>
    ins s' = ins s \<and> outs s' = (outs s)(a \<mapsto> standby_out out))"
proof -
  define s1 where "s1 = lock_output_stream a s"
  have s1: "op_inv P s1" "outs s1 = outs s" "ins s1 = ins s" "rest_same s s1"
    using op by (auto simp: s1_def) (simp add: lock_defs rest_same_def)
  show ?thesis
  proof (cases "so_standby out")
    case True
    have "out_standby a s = Some (0, unlock (OutLock a) s1)"
      using True a by (simp add: out_standby_def s1_def)
    moreover have "rest_same s (unlock (OutLock a) s1)"
      using s1(4) by (simp add: lock_defs rest_same_def)
    ultimately show ?thesis
      using True s1 a by (auto simp: s1_def lock_simps standby_out_def fun_eq_iff)
  next
    case False
    define s2 where "s2 = lock AdevLock s1"
    have op2: "op_inv P s2" and a2: "outs s2 a = Some out" using s1 a by (auto simp: s2_def)
    obtain s3 where s3: "do_out_standby_l a s2 = Some (0, s3)" "op_inv P s3" "rest_same s2 s3" "locks_same s2 s3"
      "ins s3 = ins s2" "outs s3 = (outs s2)(a \<mapsto> out\<lparr>so_standby := True, so_pcm_dev_list := Some []\<rparr>)"
      using op_stop_output [OF op2 a2 False] by (auto simp: wp_exists)
    define s4 where "s4 = unlock (OutLock a) (unlock AdevLock s3)"
    have "out_standby a s = Some (0, s4)"
      using False a s3(1) by (simp add: out_standby_def s1_def [symmetric] s2_def [symmetric] s1(2) s4_def)
    moreover have "rest_same s s4"
      using s1(4) s3(3) by (simp add: s4_def s2_def lock_defs rest_same_def)
    moreover have "lock_neutral s s4"
      using s3(4) by (auto simp: s4_def s2_def s1_def lock_simps)
    ultimately show ?thesis
      using s3 s1 False by (auto simp: s4_def s2_def standby_out_def)
  qed
qed

section \<open>Writing\<close>

text \<open>What a write changes in the stream.\<close>

definition written_to :: "stream_out \<Rightarrow> stream_out \<Rightarrow> bool" where
  "written_to x y \<longleftrightarrow>
     so_config y = so_config x \<and> so_standby y = so_standby x \<and> so_sample_rate y = so_sample_rate x \<and>
     so_channel_mask y = so_channel_mask x \<and> so_format y = so_format x \<and> so_devices y = so_devices x \<and>
     so_flags y = so_flags x \<and> so_usecase y = so_usecase x \<and> so_muted y = so_muted x \<and>
     so_handle y = so_handle x \<and> so_supported_channel_masks y = so_supported_channel_masks x \<and>
     (so_pcm_dev_list y = so_pcm_dev_list x \<or>
      running_list (so_pcm_dev_list x) \<and> running_list (so_pcm_dev_list y) \<and>
      stream_pcms (so_pcm_dev_list y) = stream_pcms (so_pcm_dev_list x))"

lemma written_to_refl [simp]: "written_to x x"
  by (simp add: written_to_def)

lemma written_to_trans: "written_to x y \<Longrightarrow> written_to y z \<Longrightarrow> written_to x z"
  by (auto simp: written_to_def)

text \<open>A step that writes to the stream at \<open>a\<close> and leaves everything else.\<close>

definition write_step :: "platform \<Rightarrow> nat \<Rightarrow> hal \<Rightarrow> hal \<Rightarrow> bool" where
  "write_step P a s s' \<longleftrightarrow>
     op_inv P s' \<and> locks_same s s' \<and> rest_same s s' \<and> ins s' = ins s \<and> pcm_devices s' = pcm_devices s \<and>
     (\<exists>x y. outs s a = Some x \<and> outs s' = (outs s)(a \<mapsto> y) \<and> written_to x y)"

lemma write_step_trans:
  assumes x: "write_step P a s s'" and y: "write_step P a s' s''"
  shows "write_step P a s s''"
proof -
  obtain u v where uv: "outs s a = Some u" "outs s' = (outs s)(a \<mapsto> v)" "written_to u v"
    using x unfolding write_step_def by blast
  obtain w where w: "outs s'' = (outs s')(a \<mapsto> w)" "written_to v w"
    using y uv(2) unfolding write_step_def by auto
  have "outs s'' = (outs s)(a \<mapsto> w)" "written_to u w"
    using uv w written_to_trans by auto
  then show ?thesis
    using x y uv(1) locks_same_trans rest_same_trans unfolding write_step_def by metis
qed

lemma write_step_refl: "op_inv P s \<Longrightarrow> outs s a = Some x \<Longrightarrow> write_step P a s s"
  unfolding write_step_def by (auto intro!: exI [of _ x] fun_upd_triv [symmetric])

lemma write_step_emit:
  "op_inv P s \<Longrightarrow> outs s a = Some x \<Longrightarrow> is_other_call c \<Longrightarrow> write_step P a s (emit c s)"
  unfolding write_step_def is_other_call_def
  by (auto simp: op_inv_emit intro!: exI [of _ x] fun_upd_triv [symmetric])

lemma write_step_upd:
  assumes op: "op_inv P s" and a: "outs s a = Some x" and w: "written_to x (f x)"
    and f: "\<And>z. so_usecase (f z) = so_usecase z"
  shows "write_step P a s (upd_out a f s)"
proof -
  have "op_inv P (upd_out a f s)"
    using w op a by (intro op_upd_out [OF op a f]) (auto simp: written_to_def op_inv_def out_ok_def)
  then show ?thesis using a w by (auto simp: write_step_def intro!: exI [of _ "f x"])
qed

lemma write_step_at:
  assumes "write_step P a s s'" "outs s a = Some x"
  obtains y where "outs s' a = Some y" "written_to x y" "op_inv P s'" "outs s' = (outs s)(a \<mapsto> y)"
  using assms unfolding write_step_def by auto

lemma written_to_fields:
  assumes "written_to x y"
  shows "so_config y = so_config x" "so_channel_mask y = so_channel_mask x" "so_sample_rate y = so_sample_rate x"
    "so_standby y = so_standby x" "so_format y = so_format x" "so_usecase y = so_usecase x"
    "so_devices y = so_devices x" "so_muted y = so_muted x"
  using assms by (simp_all add: written_to_def)

lemma write_device_op:
  assumes op: "op_inv P s" and P: "sound P" and a: "outs s a = Some out"
  shows "wp (write_device P a buffer bytes d ret s)
    (\<lambda>(d', r, s'). pd_pcm d' = pd_pcm d \<and> write_step P a s s' \<and>
       (\<exists>y. outs s' a = Some y \<and> so_pcm_dev_list y = so_pcm_dev_list out))"
proof -
  have ok: "out_ok P s a out" using op a by (simp add: op_inv_def)
  define k where "k = unat (pc_channels (so_config out)) * 2"
  have k: "k = 4" using ok by (simp add: k_def out_ok_def)
  have ch: "audio_channel_count_from_out_mask P (so_channel_mask out) \<noteq> 0"
    using P ok by (simp add: sound_def out_ok_def)
  have count: "wp (if r = 0 then
        let k = unat (pc_channels (so_config out)) * 2 in
        if k = 0 then None
        else Some (e, r, upd_out a (\<lambda>out. out\<lparr>so_written := so_written out + of_nat (bytes div k)\<rparr>) t)
      else Some (e, r, t))
    (\<lambda>(d', r, s'). pd_pcm d' = pd_pcm d \<and> write_step P a s s' \<and>
       (\<exists>y. outs s' a = Some y \<and> so_pcm_dev_list y = so_pcm_dev_list out))"
    if e: "pd_pcm e = pd_pcm d" and t: "write_step P a s t"
      and y: "outs t a = Some y" "so_pcm_dev_list y = so_pcm_dev_list out" for e r t y
  proof -
    have opt: "op_inv P t" using t by (simp add: write_step_def)
    have "write_step P a t (upd_out a (\<lambda>out. out\<lparr>so_written := so_written out + of_nat (bytes div 4)\<rparr>) t)"
      by (rule write_step_upd [OF opt y(1)]) (auto simp: written_to_def)
    then show ?thesis
      using e t y k write_step_trans [OF t] by (auto simp: Let_def k_def [symmetric])
  qed
  show ?thesis
  proof (cases "pd_pcm d")
    case None
    then show ?thesis
      using count [OF refl write_step_refl [OF op a] a refl, of ret]
      by (simp add: write_device_def a)
  next
    case (Some h)
    define n where "n = bytes * unat (pc_channels (pp_config (pcm_devices s ! pd_profile d))) div
      audio_channel_count_from_out_mask P (so_channel_mask out)"
    define remap where "remap = (unat (pc_channels (pp_config (pcm_devices s ! pd_profile d))) \<noteq>
      audio_channel_count_from_out_mask P (so_channel_mask out))"
    define s1 where "s1 = (if remap \<and> so_proc_buf_size out < n
      then upd_out a (\<lambda>out. out\<lparr>so_proc_buf_size := n\<rparr>) s else s)"
    define c where "c = PcmWrite h (if remap then adjust_channels P buffer
        (audio_channel_count_from_out_mask P (so_channel_mask out))
        (unat (pc_channels (pp_config (pcm_devices s ! pd_profile d)))) else buffer) (if remap then n else bytes)"
    define status where "status = pcm_write_rc P (trace s1) h (if remap then n else bytes)"
    have 1: "write_step P a s s1"
      unfolding s1_def using write_step_refl [OF op a]
      by (auto intro!: write_step_upd [OF op a] simp: written_to_def)
    obtain y where y: "outs s1 a = Some y" "so_pcm_dev_list y = so_pcm_dev_list out" "op_inv P s1"
    proof -
      have "op_inv P s1" using 1 by (simp add: write_step_def)
      then show ?thesis using that a by (cases "remap \<and> so_proc_buf_size out < n") (simp_all add: s1_def)
    qed
    have "write_step P a s1 (emit c s1)" by (rule write_step_emit [OF y(3,1)]) (simp add: c_def)
    from write_step_trans [OF 1 this] have 2: "write_step P a s (emit c s1)" .
    have "wp (if (if status \<noteq> 0 then status else ret) = 0 then
        let k = unat (pc_channels (so_config out)) * 2 in
        if k = 0 then None
        else Some (d\<lparr>pd_status := status\<rparr>, if status \<noteq> 0 then status else ret,
          upd_out a (\<lambda>out. out\<lparr>so_written := so_written out + of_nat (bytes div k)\<rparr>) (emit c s1))
      else Some (d\<lparr>pd_status := status\<rparr>, if status \<noteq> 0 then status else ret, emit c s1))
    (\<lambda>(d', r, s'). pd_pcm d' = pd_pcm d \<and> write_step P a s s' \<and>
       (\<exists>y. outs s' a = Some y \<and> so_pcm_dev_list y = so_pcm_dev_list out))"
      using y by (intro count [OF _ 2, where y1 = y]) auto
    moreover have "unat (pc_channels (so_config out)) = 2" using k by (simp add: k_def)
    ultimately show ?thesis
      using Some ch
      by (cases "status = 0"; cases "ret = 0") (simp_all add: write_device_def a remap_def [symmetric] n_def [symmetric] s1_def [symmetric]
          c_def [symmetric] status_def [symmetric] Let_def split del: if_split)
  qed
qed

lemma out_leave_standby_op:
  assumes op: "op_inv P s" and P: "sound P" and a: "outs s a = Some out" and h: "held (trace s) = [OutLock a]"
  shows "wp (out_leave_standby P a s) (\<lambda>(r, s'). op_inv P s' \<and> rest_same s s' \<and> locks_same s s' \<and>
    ins s' = ins s \<and> (\<forall>b. b \<noteq> a \<longrightarrow> outs s' b = outs s b) \<and> (\<exists>y. outs s' a = Some y \<and>
      (if r = 0 then \<not> so_standby y else r = - EIO \<and> so_standby y \<and> so_pcm_dev_list y = Some [])))"
proof (cases "so_standby out")
  case False
  then show ?thesis using op a by (simp add: out_leave_standby_def)
next
  case True
  define s1 where "s1 = lock AdevLock s"
  have op1: "op_inv P s1" and a1: "outs s1 a = Some out" using op a by (auto simp: s1_def)
  define f where "f = (\<lambda>out :: stream_out. out\<lparr>so_standby := False\<rparr>)"
  obtain r s2 where s2: "start_output_stream P a s1 = Some (r, s2)" "rest_same s1 s2" "locks_same s1 s2" "ins s2 = ins s1"
    and res: "if r = 0 then op_inv P (upd_out a f s2) \<and> (\<exists>d p. outs s2 = (outs s1)(a \<mapsto> out\<lparr>so_pcm_dev_list := Some [d]\<rparr>) \<and> pcm_is_ready p \<and> playback_handle P p)
      else r = - EIO \<and> op_inv P s2 \<and> outs s2 = (outs s1)(a \<mapsto> out\<lparr>so_pcm_dev_list := Some []\<rparr>) \<and>
        map uc_shape (usecase_list s2) = map uc_shape (usecase_list s1) \<and> open_pcms (trace s2) = open_pcms (trace s1)"
    using op_start_output [OF op1 P a1 True] unfolding wp_exists split_paired_Ex prod.case f_def by blast
  define s3 where "s3 = unlock AdevLock (if r = 0 then upd_out a f s2 else s2)"
  have "out_leave_standby P a s = Some (r, s3)"
    using True a s2(1) by (simp add: out_leave_standby_def s1_def [symmetric] s3_def f_def)
  moreover have "op_inv P s3" using res by (auto simp: s3_def split: if_splits)
  moreover have "rest_same s s3"
    using s2(2) by (simp add: s3_def s1_def lock_defs rest_same_def upd_out_def)
  moreover have "locks_same s s3"
    using s2(3) h by (auto simp: s3_def s1_def lock_simps)
  moreover have "ins s3 = ins s" using s2(4) by (simp add: s3_def s1_def)
  moreover have "\<forall>b. b \<noteq> a \<longrightarrow> outs s3 b = outs s b" using res by (auto simp: s3_def s1_def split: if_splits)
  moreover have "\<exists>y. outs s3 a = Some y \<and>
      (if r = 0 then \<not> so_standby y else r = - EIO \<and> so_standby y \<and> so_pcm_dev_list y = Some [])"
    using res True by (auto simp: s3_def f_def split: if_splits)
  ultimately show ?thesis by simp
qed

lemma out_write_devices_op:
  assumes op: "op_inv P s" and P: "sound P" and a: "outs s a = Some out" and st: "\<not> so_standby out"
  shows "wp (out_write_devices P a buffer bytes s) (\<lambda>(r, s'). write_step P a s s')"
proof -
  have ok: "out_ok P s a out" using op a by (simp add: op_inv_def)
  obtain d p where d: "so_pcm_dev_list out = Some [d]" "pd_pcm d = Some p" "pcm_is_ready p"
    using ok st by (auto simp: out_ok_def running_list_def)
  define b where "b = (if so_muted out then silence buffer else buffer)"
  obtain d' r s1 y where 1: "write_device P a b bytes d 0 s = Some (d', r, s1)" "pd_pcm d' = pd_pcm d"
    "write_step P a s s1" "outs s1 a = Some y" "so_pcm_dev_list y = so_pcm_dev_list out"
    using write_device_op [OF op P a, of b bytes d 0] by (auto simp: wp_exists)
  have op1: "op_inv P s1" using 1(3) by (simp add: write_step_def)
  have "write_step P a s1 (upd_out a (\<lambda>out. out\<lparr>so_pcm_dev_list := Some [d']\<rparr>) s1)"
    by (rule write_step_upd [OF op1 1(4)])
      (use 1(2,5) d in \<open>auto simp: written_to_def running_list_def stream_pcms_def\<close>)
  then show ?thesis
    using write_step_trans [OF 1(3)] by (simp add: out_write_devices_def a d b_def [symmetric] 1(1))
qed

text \<open>The wait after an error: the clock is read and the stream notes when it ends.\<close>

lemma sleep_after_error_eq:
  assumes ok: "out_ok P s a out" and a: "outs s a = Some out"
    and P: "\<And>f. audio_stream_out_frame_size P (AUDIO_CHANNEL_OUT_STEREO P) f \<noteq> 0"
  obtains l w where "sleep_after_error P a bytes s =
      Some (upd_out a (\<lambda>out. out\<lparr>so_last_write_time_us := w\<rparr>) (s\<lparr>trace := l @ trace s\<rparr>))"
    "l = [ClockGettime] \<or> (\<exists>t. l = [Usleep t, ClockGettime])"
proof -
  define now where "now = clock_us P (trace s)"
  define t where "t = int (bytes * 1000000 div audio_stream_out_frame_size P (so_channel_mask out) (so_format out)
      div unat (so_sample_rate out)) - (now - so_last_write_time_us out)"
  define l where "l = (if t > 0 then [Usleep t, ClockGettime] else [ClockGettime])"
  have "so_sample_rate out \<noteq> 0" "audio_stream_out_frame_size P (so_channel_mask out) (so_format out) \<noteq> 0"
    using ok P by (simp_all add: out_ok_def)
  then have "sleep_after_error P a bytes s =
      Some (upd_out a (\<lambda>out. out\<lparr>so_last_write_time_us := now + (if t > 0 then t else 0)\<rparr>) (s\<lparr>trace := l @ trace s\<rparr>))"
    by (simp add: sleep_after_error_def a now_def [symmetric] out_get_channels_def
        out_get_format_def out_get_sample_rate_def t_def [symmetric] unat_eq_0 Let_def l_def emit_def)
  then show ?thesis using that [of "now + (if t > 0 then t else 0)" l] by (auto simp: l_def)
qed

lemma sleep_after_error_op:
  assumes op: "op_inv P s" and P: "sound P" and a: "outs s a = Some out"
  shows "wp (sleep_after_error P a bytes s) (write_step P a s)"
proof -
  have "out_ok P s a out" using op a by (simp add: op_inv_def)
  from sleep_after_error_eq [OF this a sound_frame_size [OF P]] obtain l w where eq: "sleep_after_error P a bytes s =
      Some (upd_out a (\<lambda>out. out\<lparr>so_last_write_time_us := w\<rparr>) (s\<lparr>trace := l @ trace s\<rparr>))"
    and l: "l = [ClockGettime] \<or> (\<exists>t. l = [Usleep t, ClockGettime])" .
  have 1: "write_step P a s (emit ClockGettime s)" by (rule write_step_emit [OF op a]) simp
  have 2: "write_step P a s (s\<lparr>trace := l @ trace s\<rparr>)"
  proof (cases "l = [ClockGettime]")
    case True
    then show ?thesis using 1 by (simp add: emit_def)
  next
    case False
    then obtain t where "l = [Usleep t, ClockGettime]" using l by blast
    then have t: "s\<lparr>trace := l @ trace s\<rparr> = emit (Usleep t) (emit ClockGettime s)" by (simp add: emit_def)
    have "op_inv P (emit ClockGettime s)" using 1 by (simp add: write_step_def)
    then have "write_step P a (emit ClockGettime s) (emit (Usleep t) (emit ClockGettime s))"
      using a by (intro write_step_emit) simp_all
    then show ?thesis unfolding t by (rule write_step_trans [OF 1])
  qed
  then have "op_inv P (s\<lparr>trace := l @ trace s\<rparr>)" by (simp add: write_step_def)
  then have "write_step P a (s\<lparr>trace := l @ trace s\<rparr>)
      (upd_out a (\<lambda>out. out\<lparr>so_last_write_time_us := w\<rparr>) (s\<lparr>trace := l @ trace s\<rparr>))"
    using a by (intro write_step_upd) (simp_all add: written_to_def)
  then show ?thesis using write_step_trans [OF 2] eq by simp
qed

lemma out_write_op:
  assumes op: "op_inv P s" and P: "sound P" and a: "outs s a = Some out" and h: "held (trace s) = []"
  shows "wp (out_write P a buffer bytes s) (\<lambda>(r, s'). r = int bytes \<and> op_inv P s' \<and> lock_neutral s s' \<and>
    rest_same s s' \<and> ins s' = ins s \<and> outs s' a \<noteq> None \<and> (\<forall>b. b \<noteq> a \<longrightarrow> outs s' b = outs s b))"
proof -
  define s1 where "s1 = lock_output_stream a s"
  have op1: "op_inv P s1" and a1: "outs s1 a = Some out" and h1: "held (trace s1) = [OutLock a]"
    and r1: "rest_same s s1" and i1: "ins s1 = ins s"
    using op a h by (auto simp: s1_def held_locks) (simp add: lock_defs rest_same_def)
  obtain r s2 y where 2: "out_leave_standby P a s1 = Some (r, s2)" "op_inv P s2" "rest_same s1 s2" "locks_same s1 s2"
    "ins s2 = ins s1" "outs s2 a = Some y" "\<forall>b. b \<noteq> a \<longrightarrow> outs s2 b = outs s1 b"
    "if r = 0 then \<not> so_standby y else r = - EIO \<and> so_standby y \<and> so_pcm_dev_list y = Some []"
    using out_leave_standby_op [OF op1 P a1 h1] unfolding wp_exists split_paired_Ex prod.case by blast
  obtain ret s3 z l where 3: "(if r \<noteq> 0 then Some (r, s2) else out_write_devices P a buffer bytes s2) = Some (ret, s3)"
    "write_step P a s2 s3" and z: "outs s3 a = Some z" "op_inv P s3" "so_pcm_dev_list z = Some l"
  proof (cases "r = 0")
    case False
    then show ?thesis using that [of r s2 y "[]"] 2 write_step_refl [OF 2(2,6)] by simp
  next
    case True
    then have st: "\<not> so_standby y" using 2(8) by simp
    obtain ret s3 where w: "out_write_devices P a buffer bytes s2 = Some (ret, s3)" "write_step P a s2 s3"
      using out_write_devices_op [OF 2(2) P 2(6) st, of buffer bytes] by (auto simp: wp_exists)
    obtain z where z: "outs s3 a = Some z" "written_to y z" "op_inv P s3"
      using write_step_at [OF w(2) 2(6)] by blast
    have "\<not> so_standby z" using written_to_fields [OF z(2)] st by simp
    then obtain l where "so_pcm_dev_list z = Some l"
      using op_fields(2) [OF z(3,1)] by (auto simp: out_ok_def running_list_def)
    then show ?thesis using that True w z by simp
  qed
  define s4 where "s4 = unlock (OutLock a) s3"
  have op4: "op_inv P s4" and z4: "outs s4 a = Some z" using z by (auto simp: s4_def)
  have r4: "rest_same s s4"
    using r1 2(3) 3(2) by (simp add: s4_def lock_defs rest_same_def write_step_def)
  have l4: "lock_neutral s s4"
    using 2(4) 3(2) h1 by (auto simp: s4_def s1_def lock_simps write_step_def)
  have i4: "ins s4 = ins s" using i1 2(5) 3(2) by (simp add: s4_def write_step_def)
  have o4: "\<forall>b. b \<noteq> a \<longrightarrow> outs s4 b = outs s b" using 2(7) 3(2) by (auto simp: s4_def s1_def write_step_def)
  show ?thesis
  proof (cases "ret = 0")
    case True
    then have "out_write P a buffer bytes s = Some (int bytes, s4)"
      by (simp add: out_write_def s1_def [symmetric] 2(1) 3(1) s4_def del: if_split)
    then show ?thesis using op4 r4 l4 i4 z4 o4 by simp
  next
    case False
    obtain s5 where 5: "out_standby a s4 = Some (0, s5)" "op_inv P s5" "lock_neutral s4 s5" "rest_same s4 s5"
      "ins s5 = ins s4" "outs s5 = (outs s4)(a \<mapsto> standby_out z)"
      using out_standby_op [OF op4 z4] by (auto simp: wp_exists)
    have a5: "outs s5 a = Some (standby_out z)" using 5(6) by simp
    obtain s6 where 6: "sleep_after_error P a bytes s5 = Some s6" "write_step P a s5 s6"
      using sleep_after_error_op [OF 5(2) P a5] by (auto simp: wp_exists)
    have "out_write P a buffer bytes s = Some (int bytes, s6)"
      using False z4 z 5(1) 6(1)
      by (simp add: out_write_def s1_def [symmetric] 2(1) 3(1) s4_def [symmetric] del: if_split)
    moreover have "lock_neutral s s6"
      using lock_neutral_trans [OF lock_neutral_trans [OF l4 5(3)] locks_same_neutral] 6(2)
      by (simp add: write_step_def)
    moreover have "rest_same s s6"
      using rest_same_trans [OF rest_same_trans [OF r4 5(4)]] 6(2) by (simp add: write_step_def)
    moreover have "\<forall>b. b \<noteq> a \<longrightarrow> outs s6 b = outs s b" using o4 5(6) 6(2) by (auto simp: write_step_def)
    ultimately show ?thesis using 6(2) 5(5) i4 a5 by (auto simp: write_step_def)
  qed
qed

section \<open>Routing\<close>

text \<open>The part of \<open>out_set_routing\<close> that concerns the stream, the SCO session and the call.\<close>

definition route_stream :: "platform \<Rightarrow> nat \<Rightarrow> u32 \<Rightarrow> hal \<Rightarrow> hal option" where
  "route_stream P a devices s = do {
     out \<leftarrow> outs s a;
     let s = upd_out a (\<lambda>out. out\<lparr>so_devices := devices\<rparr>) s;
     if \<not> so_standby out
     then if so_devices out \<noteq> devices then map_option snd (do_out_standby_l a s)
          else map_option snd (select_devices P (so_usecase out) s)
     else Some s
   }"

definition route_sco :: "platform \<Rightarrow> bool \<Rightarrow> hal \<Rightarrow> hal option" where
  "route_sco P sco s =
     (if mode s = AUDIO_MODE_IN_COMMUNICATION P \<and> sco \<and> \<not> in_call_sco s \<and> \<not> in_comm_sco s
      then start_voice_session_bt_sco P (s\<lparr>in_comm_sco := True\<rparr>)
      else Some (if \<not> sco \<and> in_call_sco s
                 then stop_voice_session_bt_sco (s\<lparr>in_comm_sco := False\<rparr>)
                 else s))"

definition route_voice :: "platform \<Rightarrow> nat \<Rightarrow> bool \<Rightarrow> hal \<Rightarrow> hal option" where
  "route_voice P a changed s =
     (if mode s = AUDIO_MODE_IN_CALL P \<and> \<not> in_call s \<and> primary_output s = Some a
      then map_option snd (start_voice_call P s)
      else if mode s = AUDIO_MODE_IN_CALL P \<and> changed \<and> in_call s \<and> primary_output s = Some a
      then do {
        r \<leftarrow> stop_voice_call P s;
        r \<leftarrow> start_voice_call P (snd r);
        Some (snd r)
      }
      else Some s)"

lemma out_set_routing_parts:
  "out_set_routing P a val s = do {
     out \<leftarrow> outs s a;
     let devices = word_of_int val;
     s \<leftarrow> route_stream P a devices s;
     s \<leftarrow> route_sco P (has_bits devices (AUDIO_DEVICE_OUT_ALL_SCO P)) s;
     route_voice P a (so_devices out \<noteq> devices) s
   }"
  by (cases "outs s a")
    (simp_all add: out_set_routing_def route_stream_def route_sco_def route_voice_def Let_def)

text \<open>What all three leave alone.\<close>

definition route_step :: "platform \<Rightarrow> nat \<Rightarrow> hal \<Rightarrow> hal \<Rightarrow> bool" where
  "route_step P a s s' \<longleftrightarrow>
     op_inv P s' \<and> locks_same s s' \<and> ins s' = ins s \<and> mode s' = mode s \<and>
     primary_output s' = primary_output s \<and> (\<forall>b. b \<noteq> a \<longrightarrow> outs s' b = outs s b) \<and>
     (\<exists>x y. outs s a = Some x \<and> outs s' a = Some y \<and> (so_standby x \<longrightarrow> so_standby y))"

lemma route_step_trans: "route_step P a s s' \<Longrightarrow> route_step P a s' s'' \<Longrightarrow> route_step P a s s''"
  unfolding route_step_def using locks_same_trans by auto

lemma route_step_voice: "op_inv P s' \<Longrightarrow> voice_step s s' \<Longrightarrow> outs s a \<noteq> None \<Longrightarrow> route_step P a s s'"
  by (auto simp: route_step_def voice_step_def)

lemma route_stream_op:
  assumes op: "op_inv P s" and P: "sound P" and a: "outs s a = Some out"
    and sup: "supported P PCM_PLAYBACK devices"
  shows "wp (route_stream P a devices s) (route_step P a s)"
proof -
  define f where "f = (\<lambda>out :: stream_out. out\<lparr>so_devices := devices\<rparr>)"
  define s1 where "s1 = upd_out a f s"
  have op1: "op_inv P s1" unfolding s1_def by (rule op_upd_out [OF op a]) (use sup in \<open>simp_all add: f_def\<close>)
  have a1: "outs s1 a = Some (f out)" by (simp add: s1_def a)
  have r1: "route_step P a s s1" using op1 a by (simp add: route_step_def s1_def f_def)
  have eq: "route_stream P a devices s =
      (if \<not> so_standby out
       then if so_devices out \<noteq> devices then map_option snd (do_out_standby_l a s1)
            else map_option snd (select_devices P (so_usecase out) s1)
       else Some s1)"
    by (simp add: route_stream_def a s1_def f_def)
  consider "so_standby out" | "\<not> so_standby out" "so_devices out \<noteq> devices"
    | "\<not> so_standby out" "so_devices out = devices" by blast
  then show ?thesis
  proof cases
    case 1
    then show ?thesis using eq r1 by simp
  next
    case 2
    then obtain s2 where s2: "do_out_standby_l a s1 = Some (0, s2)" "op_inv P s2" "rest_same s1 s2"
      "locks_same s1 s2" "ins s2 = ins s1"
      "outs s2 = (outs s1)(a \<mapsto> (f out)\<lparr>so_standby := True, so_pcm_dev_list := Some []\<rparr>)"
      using op_stop_output [OF op1 a1] by (auto simp: wp_exists f_def)
    then have "route_step P a s1 s2" using a1 by (simp add: route_step_def rest_same_def)
    then show ?thesis using eq 2 s2(1) route_step_trans [OF r1] by simp
  next
    case 3
    obtain r s2 where s2: "select_devices P (so_usecase out) s1 = Some (r, s2)" "op_inv P s2" "routing_frame s1 s2"
      using op_select [OF op1 P, of "so_usecase out"] by (auto simp: wp_exists)
    have "route_step P a s1 s2"
      using s2(2) frame_same [OF s2(3)] routing_frame_fields [OF s2(3)] a1 by (simp add: route_step_def)
    then show ?thesis using eq 3 s2(1) route_step_trans [OF r1] by simp
  qed
qed

lemma route_sco_op:
  assumes op: "op_inv P s" and P: "sound P" and a: "outs s a \<noteq> None"
  shows "wp (route_sco P sco s) (route_step P a s)"
proof -
  have flag: "op_inv P (s\<lparr>in_comm_sco := b\<rparr>)" for b
    by (rule op_inv_same [OF op]) (simp add: op_same_def core_same_def profiles_ok_def)
  have "wp (start_voice_session_bt_sco P (s\<lparr>in_comm_sco := True\<rparr>)) (route_step P a s)"
    using sco_step_fields [of "s\<lparr>in_comm_sco := True\<rparr>"] a
    by (intro wp_mono [OF op_start_sco [OF flag P, of True]]) (auto simp: route_step_def locks_same_def)
  moreover have "route_step P a s (stop_voice_session_bt_sco (s\<lparr>in_comm_sco := False\<rparr>))"
    using op_stop_sco [OF flag, of False] sco_step_fields [of "s\<lparr>in_comm_sco := False\<rparr>"] a
    by (auto simp: route_step_def locks_same_def)
  moreover have "route_step P a s s" using op a by (auto simp: route_step_def)
  ultimately show ?thesis by (simp add: route_sco_def)
qed

lemma route_voice_op:
  assumes op: "op_inv P s" and P: "sound P" and a: "outs s a \<noteq> None"
  shows "wp (route_voice P a changed s) (route_step P a s)"
proof -
  have start: "wp (start_voice_call P t) (\<lambda>(r, s'). route_step P a t s')"
    if "op_inv P t" "\<not> in_call t" "primary_output t \<noteq> None" "outs t a \<noteq> None" for t
    using op_start_call [OF that(1) P that(2,3)] that(4)
    by (auto elim!: wp_mono intro: route_step_voice)
  consider "mode s = AUDIO_MODE_IN_CALL P \<and> \<not> in_call s \<and> primary_output s = Some a"
    | "in_call s" "mode s = AUDIO_MODE_IN_CALL P \<and> changed \<and> primary_output s = Some a"
    | "\<not> (mode s = AUDIO_MODE_IN_CALL P \<and> \<not> in_call s \<and> primary_output s = Some a)"
      "\<not> (mode s = AUDIO_MODE_IN_CALL P \<and> changed \<and> in_call s \<and> primary_output s = Some a)" by blast
  then show ?thesis
  proof cases
    case 1
    then show ?thesis using start [OF op] a by (auto simp: route_voice_def elim!: wp_mono)
  next
    case 2
    obtain s1 where s1: "stop_voice_call P s = Some (0, s1)" "op_inv P s1" "voice_step s s1" "\<not> in_call s1"
      using op_stop_call [OF op 2(1)] by (auto simp: wp_exists)
    have r1: "route_step P a s s1" by (rule route_step_voice [OF s1(2,3) a])
    have "wp (start_voice_call P s1) (\<lambda>(r, s'). route_step P a s1 s')"
      using s1 2 a by (intro start) (auto simp: voice_step_def)
    then show ?thesis
      using 2 s1(1) route_step_trans [OF r1] by (auto simp: route_voice_def elim!: wp_mono)
  next
    case 3
    then have "route_voice P a changed s = Some s" by (simp only: route_voice_def if_False)
    then show ?thesis using op a by (auto simp: route_step_def)
  qed
qed

lemma out_set_routing_op:
  assumes op: "op_inv P s" and P: "sound P" and a: "outs s a = Some out"
    and sup: "supported P PCM_PLAYBACK (word_of_int val)"
  shows "wp (out_set_routing P a val s) (route_step P a s)"
proof -
  define dv where "dv = (word_of_int val :: u32)"
  obtain s1 where 1: "route_stream P a dv s = Some s1" "route_step P a s s1"
    using route_stream_op [OF op P a, of dv] sup by (auto simp: wp_exists dv_def)
  have op1: "op_inv P s1" "outs s1 a \<noteq> None" using 1(2) by (auto simp: route_step_def)
  obtain s2 where s2: "route_sco P (has_bits dv (AUDIO_DEVICE_OUT_ALL_SCO P)) s1 = Some s2" and 2: "route_step P a s1 s2"
    using route_sco_op [OF op1(1) P op1(2)] by (auto simp: wp_exists)
  have op2: "op_inv P s2" "outs s2 a \<noteq> None" using 2 by (auto simp: route_step_def)
  have "wp (route_voice P a (so_devices out \<noteq> dv) s2) (route_step P a s)"
    by (rule wp_mono [OF route_voice_op [OF op2(1) P op2(2)]])
      (rule route_step_trans [OF route_step_trans [OF 1(2) 2]])
  then show ?thesis
    unfolding out_set_routing_parts by (simp add: a dv_def [symmetric] 1(1) s2)
qed

lemma out_set_parameters_op:
  assumes op: "op_inv P s" and P: "sound P" and a: "outs s a = Some out"
    and sup: "\<And>v. str_parms_get_str P kv AUDIO_PARAMETER_STREAM_ROUTING = Some v \<Longrightarrow> atoi v \<noteq> 0 \<Longrightarrow>
      supported P PCM_PLAYBACK (word_of_int (atoi v))"
  shows "wp (out_set_parameters P a kv s) (\<lambda>(r, s'). r = 0 \<and> op_inv P s' \<and> lock_neutral s s' \<and>
    mode s' = mode s \<and> primary_output s' = primary_output s \<and> ins s' = ins s \<and>
    (\<forall>b. b \<noteq> a \<longrightarrow> outs s' b = outs s b) \<and> (\<exists>y. outs s' a = Some y \<and> (so_standby out \<longrightarrow> so_standby y)))"
proof (cases "str_parms_get_str P kv AUDIO_PARAMETER_STREAM_ROUTING")
  case None
  then show ?thesis using op a by (simp add: out_set_parameters_def lock_neutral_def)
next
  case (Some v)
  define s1 where "s1 = lock AdevLock (lock_output_stream a (lock LockInputs s))"
  have op1: "op_inv P s1" and a1: "outs s1 a = Some out" using op a by (auto simp: s1_def)
  obtain s2 where s2: "(if atoi v \<noteq> SND_DEVICE_NONE then out_set_routing P a (atoi v) s1 else Some s1) = Some s2"
    "route_step P a s1 s2"
  proof (cases "atoi v = SND_DEVICE_NONE")
    case True
    then show ?thesis using that [of s1] op1 a1 by (simp add: route_step_def)
  next
    case False
    then show ?thesis using that out_set_routing_op [OF op1 P a1 sup [OF Some]] by (auto simp: wp_exists)
  qed
  define s3 where "s3 = unlock LockInputs (unlock (OutLock a) (unlock AdevLock s2))"
  have "out_set_parameters P a kv s = Some (0, s3)"
    using Some s2(1) by (simp add: out_set_parameters_def s1_def [symmetric] s3_def split del: if_split)
  moreover have "op_inv P s3" using s2(2) by (auto simp: s3_def route_step_def)
  moreover have "lock_neutral s s3"
    using s2(2) by (auto simp: s3_def s1_def route_step_def lock_simps)
  moreover have "mode s3 = mode s" "primary_output s3 = primary_output s" "ins s3 = ins s"
    "\<forall>b. b \<noteq> a \<longrightarrow> outs s3 b = outs s b" "\<exists>y. outs s3 a = Some y \<and> (so_standby out \<longrightarrow> so_standby y)"
    using s2(2) a1 by (auto simp: s3_def s1_def route_step_def)
  ultimately show ?thesis by simp
qed

end
