(* ===== verification/Reading.thy ===== *)
theory Reading
  imports OpSteps
begin

text \<open>
  The pull of frames from the kernel: what \<open>get_next_buffer\<close>, \<open>read_frames\<close> and the resampler's
  provider do to the stream, that the loop of \<open>read_frames\<close> ends, and that without a resampler
  the frames are handed out in the order the kernel delivered them, none lost and none twice.
\<close>

section \<open>The environment\<close>

text \<open>A successful \<open>pcm_read\<close> of \<open>n\<close> frames delivers \<open>n\<close> frames.\<close>

definition reads_ok :: "platform \<Rightarrow> bool" where
  "reads_ok P \<longleftrightarrow>
     (\<forall>t h n. fst (pcm_read_rc P t h n) = 0 \<longrightarrow> length (snd (pcm_read_rc P t h n)) = n)"

text \<open>A resampler that is asked for frames makes progress.\<close>

definition resampler_ok :: "platform \<Rightarrow> bool" where
  "resampler_ok P \<longleftrightarrow> (\<forall>t r n fs. 0 < n \<longrightarrow> resample_output P t r n fs \<noteq> [])"

text \<open>All frames that the kernel has delivered in a history, oldest first.\<close>

fun captured :: "platform \<Rightarrow> call list \<Rightarrow> frame list" where
  "captured P [] = []"
| "captured P (PcmRead h n # t) =
     captured P t @ (if fst (pcm_read_rc P t h n) = 0 then snd (pcm_read_rc P t h n) else [])"
| "captured P (_ # t) = captured P t"

text \<open>The frames of the last period that have not been handed out.\<close>

definition pending :: "stream_in \<Rightarrow> frame list" where
  "pending i = drop (unat (pc_period_size (si_config i)) - si_read_buf_frames i)
     (if si_read_buf_frames i = 0 then [] else si_read_buf i)"

lemma pending_idle [simp]: "si_read_buf_frames i = 0 \<Longrightarrow> pending i = []"
  by (simp add: pending_def)

lemma length_pending: "buf_ok i \<Longrightarrow> length (pending i) = si_read_buf_frames i"
  by (auto simp: pending_def buf_ok_def)

section \<open>Steps that read\<close>

definition read_from :: "stream_in \<Rightarrow> stream_in \<Rightarrow> bool" where
  "read_from i j \<longleftrightarrow>
     si_config j = si_config i \<and> si_pcm_dev_list j = si_pcm_dev_list i \<and> si_standby j = si_standby i \<and>
     si_source j = si_source i \<and> si_devices j = si_devices i \<and> si_main_channels j = si_main_channels i \<and>
     si_usecase j = si_usecase i \<and> si_usecase_type j = si_usecase_type i \<and>
     si_requested_rate j = si_requested_rate i \<and> si_resampler j = si_resampler i \<and> (buf_ok i \<longrightarrow> buf_ok j)"

lemma read_from_refl [simp]: "read_from i i"
  by (simp add: read_from_def)

lemma read_from_trans: "read_from i j \<Longrightarrow> read_from j k \<Longrightarrow> read_from i k"
  by (simp add: read_from_def)

definition read_step :: "nat \<Rightarrow> hal \<Rightarrow> hal \<Rightarrow> bool" where
  "read_step a s s' \<longleftrightarrow>
     s' = s\<lparr>ins := ins s', trace := trace s'\<rparr> \<and> quiet (trace s) (trace s') \<and>
     (\<exists>i j. ins s a = Some i \<and> ins s' = (ins s)(a \<mapsto> j) \<and> read_from i j)"

lemma read_step_refl: "ins s a = Some i \<Longrightarrow> read_step a s s"
  unfolding read_step_def by (auto intro!: exI [of _ i] fun_upd_triv [symmetric])

lemma read_step_trans:
  assumes x: "read_step a s s'" and y: "read_step a s' s''"
  shows "read_step a s s''"
proof -
  have "s'' = s'\<lparr>ins := ins s'', trace := trace s''\<rparr>" using y by (simp add: read_step_def)
  also have "\<dots> = (s\<lparr>ins := ins s', trace := trace s'\<rparr>)\<lparr>ins := ins s'', trace := trace s''\<rparr>"
    using x by (simp add: read_step_def)
  also have "\<dots> = s\<lparr>ins := ins s'', trace := trace s''\<rparr>" by simp
  finally have eq: "s'' = s\<lparr>ins := ins s'', trace := trace s''\<rparr>" .
  obtain i j where "ins s a = Some i" "ins s' = (ins s)(a \<mapsto> j)" "read_from i j"
    using x unfolding read_step_def by blast
  moreover obtain k where "ins s'' = (ins s')(a \<mapsto> k)" "read_from j k"
    using y calculation(2) unfolding read_step_def by auto
  ultimately have "\<exists>i k. ins s a = Some i \<and> ins s'' = (ins s)(a \<mapsto> k) \<and> read_from i k"
    using read_from_trans by auto
  then show ?thesis
    using eq x y quiet_trans unfolding read_step_def by blast
qed

lemma read_step_upd:
  assumes "ins s a = Some i" "read_from i (f i)"
  shows "read_step a s (upd_in a f s)"
  using assms unfolding read_step_def upd_in_def by (auto intro!: exI [of _ i] exI [of _ "f i"])

lemma read_step_emit:
  assumes "ins s a = Some i" "is_other_call c"
  shows "read_step a s (emit c s)"
  using assms unfolding read_step_def
  by (auto simp: emit_def intro!: exI [of _ i] fun_upd_triv [symmetric])

lemma read_step_fields:
  assumes "read_step a s s'"
  shows "core_same P s s'" "rest_same s s'" "locks_same s s'" "outs s' = outs s"
    "active_input s' = active_input s" "usecase_list s' = usecase_list s" "mic_mute s' = mic_mute s"
    "open_pcms (trace s') = open_pcms (trace s)" "pcm_devices s' = pcm_devices s"
proof -
  obtain f t where s': "s' = s\<lparr>ins := f, trace := t\<rparr>" and q: "quiet (trace s) t"
    using assms unfolding read_step_def by metis
  obtain i j where ij: "ins s a = Some i" "f = (ins s)(a \<mapsto> j)" "read_from i j"
    using assms unfolding read_step_def s' by auto
  show "core_same P s s'" "rest_same s s'" "locks_same s s'" "outs s' = outs s"
    "active_input s' = active_input s" "usecase_list s' = usecase_list s" "mic_mute s' = mic_mute s"
    "open_pcms (trace s') = open_pcms (trace s)" "pcm_devices s' = pcm_devices s"
    using q ij by (simp_all add: s' core_same_def rest_same_def locks_same_def quiet_def profiles_ok_def read_from_def)
qed

lemma read_step_op:
  assumes op: "op_inv P s" and st: "read_step a s s'"
  shows "op_inv P s'"
proof -
  obtain i j where ij: "ins s a = Some i" "ins s' = (ins s)(a \<mapsto> j)" "read_from i j"
    using st unfolding read_step_def by blast
  note f = read_step_fields [OF st]
  have c: "core_inv P s" and ok: "in_ok P s a i" using op ij by (simp_all add: op_inv_def)
  show ?thesis
  proof (rule op_inv_move_in [OF op, where a = a and x = i and y = j])
    show "core_inv P s'" by (rule core_inv_same [OF c f(1)])
    show "rest_same s s'" by (rule f(2))
    show "active s' ty r = (if ty = PCM_CAPTURE \<and> r = InRef a then \<not> si_standby j else active s ty r)" for ty r
      using ok ij f(6) by (auto simp: active_def in_ok_def read_from_def)
  qed (use ok ij f in \<open>auto simp: calling_def in_ok_def read_from_def\<close>)
qed

text \<open>A stream that can be read: it is open on a PCM.\<close>

definition readable :: "hal \<Rightarrow> nat \<Rightarrow> stream_in \<Rightarrow> bool" where
  "readable s a i \<longleftrightarrow>
     ins s a = Some i \<and> buf_ok i \<and> (\<exists>d ds h. si_pcm_dev_list i = Some (d # ds) \<and> pd_pcm d = Some h)"

lemma readable_step:
  assumes "readable s a i" "read_step a s s'"
  obtains j where "readable s' a j" "read_from i j" "ins s' = (ins s)(a \<mapsto> j)"
proof -
  obtain x j where x: "ins s a = Some x" "ins s' = (ins s)(a \<mapsto> j)" "read_from x j"
    using assms(2) unfolding read_step_def by blast
  then have "x = i" using assms(1) by (simp add: readable_def)
  then have "readable s' a j" using x assms(1) by (auto simp: readable_def read_from_def)
  then show ?thesis using that x \<open>x = i\<close> by blast
qed

section \<open>One buffer\<close>

text \<open>The frames of the next period, or what is left of the last one.\<close>

lemma get_next_buffer_wp:
  assumes i: "readable s a i" and r: "reads_ok P"
  shows "wp (get_next_buffer P a n s) (\<lambda>(b, s'). read_step a s s' \<and>
    (\<exists>j new. ins s' a = Some j \<and> captured P (trace s') = captured P (trace s) @ new \<and>
       (case b of
          None \<Rightarrow> si_read_status j \<noteq> 0 \<and> new = [] \<and> pending i = [] \<and> pending j = []
        | Some fs \<Rightarrow> si_read_status j = 0 \<and> pending j = pending i @ new \<and> fs = take n (pending j) \<and>
            pending j \<noteq> [])))"
proof -
  obtain d ds h where a: "ins s a = Some i" and b: "buf_ok i" and l: "si_pcm_dev_list i = Some (d # ds)" "pd_pcm d = Some h"
    using i by (auto simp: readable_def)
  define m where "m = unat (pc_period_size (si_config i))"
  have m: "0 < m" using b by (simp add: buf_ok_def m_def word_greater_zero_iff unat_gt_0)
  have sh: "take (min n k) xs = take n xs" if "length xs = k" for k and xs :: "frame list"
    using that by (simp add: min_def)
  show ?thesis
  proof (cases "si_read_buf_frames i = 0")
    case False
    then have st: "si_read_status i = 0" "length (pending i) = si_read_buf_frames i"
      using b length_pending [OF b] by (simp_all add: buf_ok_def)
    then have ne: "pending i \<noteq> []" using False by auto
    have eq: "get_next_buffer P a n s = Some (Some (take n (pending i)), s)"
      using False sh [OF st(2)]
      by (simp add: get_next_buffer_def a l m_def [symmetric] min_def pending_def split: if_splits)
    show ?thesis
      using st ne a read_step_refl [OF a] by (simp add: eq)
  next
    case True
    define status where "status = fst (pcm_read_rc P (trace s) h m)"
    define frames where "frames = snd (pcm_read_rc P (trace s) h m)"
    define f where "f = (\<lambda>i. i\<lparr>si_read_buf_size := max m (si_read_buf_size i), si_read_status := status,
        si_read_buf := (if status = 0 then frames else si_read_buf i),
        si_read_buf_frames := (if status = 0 then m else 0)\<rparr> :: stream_in)"
    define s1 where "s1 = emit (PcmRead h m) s"
    define s2 where "s2 = upd_in a f s1"
    have len: "status = 0 \<Longrightarrow> length frames = m"
      using r by (simp add: reads_ok_def status_def frames_def)
    have tk: "status = 0 \<Longrightarrow> m < n \<Longrightarrow> take m frames = take n frames" using len by simp
    have bf: "buf_ok (f i)" using len m b by (auto simp: buf_ok_def f_def m_def)
    have "read_from i (f i)" using bf by (simp add: read_from_def) (simp add: f_def)
    then have "read_step a s s2"
      unfolding s2_def s1_def using read_step_trans [OF read_step_emit [OF a, of "PcmRead h m"] read_step_upd] a
      by simp
    moreover have a2: "ins s2 a = Some (f i)" by (simp add: s2_def s1_def a)
    moreover have cap: "captured P (trace s2) = captured P (trace s) @ (if status = 0 then frames else [])"
      by (simp add: s2_def s1_def status_def frames_def)
    moreover have run: "get_next_buffer P a n s =
        (if status \<noteq> 0 then Some (None, s2) else Some (Some (take n frames), s2))"
      using True a tk
      by (cases "status = 0")
        (simp_all add: get_next_buffer_def l m_def [symmetric] split_beta s1_def [symmetric] status_def [symmetric]
          frames_def [symmetric] s2_def f_def min_def)
    moreover have "pending (f i) = (if status = 0 then frames else [])"
      using m by (simp add: pending_def f_def m_def)
    ultimately show ?thesis
      using True m len by (cases "status = 0") (auto simp: f_def)
  qed
qed

lemma release_buffer_wp:
  assumes a: "ins s a = Some j" and m: "m \<le> si_read_buf_frames j" and b: "buf_ok j"
  shows "read_step a s (release_buffer a m s)"
    and "\<exists>k. ins (release_buffer a m s) a = Some k \<and> pending k = drop m (pending j) \<and>
           si_read_status k = si_read_status j"
    and "trace (release_buffer a m s) = trace s"
proof -
  define f where "f = (\<lambda>i :: stream_in. i\<lparr>si_read_buf_frames := si_read_buf_frames i - m\<rparr>)"
  have eq: "release_buffer a m s = upd_in a f s" by (simp add: release_buffer_def f_def)
  have "buf_ok (f j)" using b m by (auto simp: buf_ok_def f_def)
  then have rf: "read_from j (f j)" by (simp add: read_from_def) (simp add: f_def)
  show "read_step a s (release_buffer a m s)" unfolding eq by (rule read_step_upd [where f = f, OF a rf])
  show "trace (release_buffer a m s) = trace s" by (simp add: eq)
  have "pending (f j) = drop m (pending j)"
  proof (cases "si_read_buf_frames j \<le> m")
    case True
    then show ?thesis using length_pending [OF b] by (simp add: f_def)
  next
    case False
    then have "unat (pc_period_size (si_config j)) - (si_read_buf_frames j - m) =
        m + (unat (pc_period_size (si_config j)) - si_read_buf_frames j)"
      using b by (simp add: buf_ok_def)
    then show ?thesis using False by (simp add: pending_def f_def)
  qed
  then show "\<exists>k. ins (release_buffer a m s) a = Some k \<and> pending k = drop m (pending j) \<and>
      si_read_status k = si_read_status j"
    using a by (simp add: eq) (simp add: f_def)
qed

text \<open>A buffer that is handed out and released.\<close>

lemma take_buffer_wp:
  assumes i: "readable s a i" and r: "reads_ok P"
  shows "wp (get_next_buffer P a n s) (\<lambda>(b, s1).
    (let fs = (case b of None \<Rightarrow> [] | Some fs \<Rightarrow> fs); s' = release_buffer a (length fs) s1 in
       read_step a s s' \<and> (b = None \<longrightarrow> read_step a s s1) \<and> length fs \<le> n \<and>
       (\<exists>j new. ins s' a = Some j \<and> captured P (trace s') = captured P (trace s) @ new \<and>
          pending i @ new = fs @ pending j \<and> (si_read_status j = 0 \<longleftrightarrow> b \<noteq> None) \<and>
          (b \<noteq> None \<longrightarrow> 0 < n \<longrightarrow> fs \<noteq> []))))"
proof -
  obtain b s1 j new where run: "get_next_buffer P a n s = Some (b, s1)" and st: "read_step a s s1"
    and j: "ins s1 a = Some j" and cap: "captured P (trace s1) = captured P (trace s) @ new"
    and res: "case b of
          None \<Rightarrow> si_read_status j \<noteq> 0 \<and> new = [] \<and> pending i = [] \<and> pending j = []
        | Some fs \<Rightarrow> si_read_status j = 0 \<and> pending j = pending i @ new \<and> fs = take n (pending j) \<and> pending j \<noteq> []"
    using get_next_buffer_wp [OF i r, of n] unfolding wp_exists split_paired_Ex prod.case by blast
  obtain j' where j': "readable s1 a j'" using readable_step [OF i st] by blast
  then have b: "buf_ok j" using j by (simp add: readable_def)
  define fs where "fs = (case b of None \<Rightarrow> [] | Some fs \<Rightarrow> fs)"
  have fs: "fs = take n (pending j)" using res by (cases b) (simp_all add: fs_def)
  have le: "length fs \<le> si_read_buf_frames j" using fs length_pending [OF b] by simp
  note rel = release_buffer_wp [OF j le b]
  obtain k where k: "ins (release_buffer a (length fs) s1) a = Some k" "pending k = drop (length fs) (pending j)"
    "si_read_status k = si_read_status j" using rel(2) by blast
  define s2 where "s2 = release_buffer a (length fs) s1"
  have "pending j = pending i @ new" using res by (cases b) simp_all
  moreover have "fs @ pending k = pending j"
    unfolding k(2) unfolding fs by (cases "n \<le> length (pending j)") simp_all
  ultimately have eq: "pending i @ new = fs @ pending k" by simp
  have prog: "b \<noteq> None \<longrightarrow> 0 < n \<longrightarrow> fs \<noteq> []" using res fs by (cases b) auto
  have stat: "(si_read_status k = 0) = (b \<noteq> None)" using res k(3) by (cases b) auto
  have "captured P (trace s2) = captured P (trace s) @ new" using cap rel(3) by (simp add: s2_def)
  with eq prog stat k(1) have "\<exists>j new. ins s2 a = Some j \<and> captured P (trace s2) = captured P (trace s) @ new \<and>
      pending i @ new = fs @ pending j \<and> (si_read_status j = 0 \<longleftrightarrow> b \<noteq> None) \<and>
      (b \<noteq> None \<longrightarrow> 0 < n \<longrightarrow> fs \<noteq> [])"
    unfolding s2_def by blast
  moreover have "read_step a s s2" unfolding s2_def by (rule read_step_trans [OF st rel(1)])
  moreover have "length fs \<le> n" using fs by simp
  ultimately show ?thesis
    using st unfolding run wp_Some prod.case Let_def fs_def [symmetric] s2_def [symmetric] by blast
qed

section \<open>One pass\<close>

lemma read_step_readable:
  assumes "readable s a i" "read_step a s s'"
  shows "\<exists>j. readable s' a j \<and> ins s' a = Some j \<and> si_resampler j = si_resampler i"
proof -
  obtain j where "readable s' a j" "read_from i j" using readable_step [OF assms] by blast
  then show ?thesis by (auto simp: readable_def read_from_def)
qed

lemma provide_wp:
  assumes r: "reads_ok P"
  shows "readable s a i \<Longrightarrow> wp (provide P a ns s) (\<lambda>(fs, s'). read_step a s s')"
proof (induction ns arbitrary: s i)
  case Nil
  then show ?case by (auto simp: readable_def intro: read_step_refl)
next
  case (Cons n ns)
  obtain b s1 where run: "get_next_buffer P a n s = Some (b, s1)"
    and rel: "read_step a s (release_buffer a (length (case b of None \<Rightarrow> [] | Some fs \<Rightarrow> fs)) s1)"
    and none: "b = None \<longrightarrow> read_step a s s1"
    using take_buffer_wp [OF Cons.prems r, of n] unfolding wp_exists split_paired_Ex prod.case Let_def by blast
  show ?case
  proof (cases b)
    case None
    then show ?thesis using run none by simp
  next
    case (Some fs)
    define s2 where "s2 = release_buffer a (length fs) s1"
    have st: "read_step a s s2" using rel Some by (simp add: s2_def)
    obtain j where j: "readable s2 a j" using read_step_readable [OF Cons.prems st] by blast
    have "wp (provide P a ns s2) (\<lambda>(fs, s'). read_step a s s')"
      by (rule wp_mono [OF Cons.IH [OF j]]) (auto intro: read_step_trans [OF st])
    then show ?thesis using run Some by (simp add: s2_def case_prod_unfold)
  qed
qed

text \<open>What a pass without a resampler says about the order of the frames.\<close>

definition in_order :: "platform \<Rightarrow> nat \<Rightarrow> stream_in \<Rightarrow> hal \<Rightarrow> frame list \<Rightarrow> hal \<Rightarrow> bool" where
  "in_order P a i s new s' \<longleftrightarrow>
     (\<exists>j got. ins s' a = Some j \<and> captured P (trace s') = captured P (trace s) @ got \<and>
        pending i @ got = new @ pending j)"

lemma read_pass_wp:
  assumes i: "readable s a i" and r: "reads_ok P" and res: "si_resampler i = None \<or> resampler_ok P" and n: "0 < n"
  shows "wp (read_pass P a n s) (\<lambda>(new, s'). read_step a s s' \<and>
    (\<exists>j. ins s' a = Some j \<and> (si_read_status j \<noteq> 0 \<or> new \<noteq> [])) \<and>
    (si_resampler i = None \<longrightarrow> length new \<le> n \<and> in_order P a i s new s'))"
proof (cases "si_resampler i")
  case None
  obtain b s1 j got where run: "get_next_buffer P a n s = Some (b, s1)"
    and rel: "read_step a s (release_buffer a (length (case b of None \<Rightarrow> [] | Some fs \<Rightarrow> fs)) s1)"
    and le: "length (case b of None \<Rightarrow> [] | Some fs \<Rightarrow> fs) \<le> n"
    and j: "ins (release_buffer a (length (case b of None \<Rightarrow> [] | Some fs \<Rightarrow> fs)) s1) a = Some j"
    and cap: "captured P (trace (release_buffer a (length (case b of None \<Rightarrow> [] | Some fs \<Rightarrow> fs)) s1)) =
      captured P (trace s) @ got"
    and ord: "pending i @ got = (case b of None \<Rightarrow> [] | Some fs \<Rightarrow> fs) @ pending j"
    and st: "si_read_status j = 0 \<longleftrightarrow> b \<noteq> None"
    and pr: "b \<noteq> None \<longrightarrow> 0 < n \<longrightarrow> (case b of None \<Rightarrow> [] | Some fs \<Rightarrow> fs) \<noteq> []"
    using take_buffer_wp [OF i r, of n] unfolding wp_exists split_paired_Ex prod.case Let_def by blast
  define fs where "fs = (case b of None \<Rightarrow> [] | Some fs \<Rightarrow> fs)"
  define s2 where "s2 = release_buffer a (length fs) s1"
  have "ins s a = Some i" using i by (simp add: readable_def)
  then have eq: "read_pass P a n s = Some (fs, s2)"
    using None run by (cases b) (simp_all add: read_pass_def fs_def s2_def)
  have "in_order P a i s fs s2"
    using j cap ord unfolding in_order_def fs_def [symmetric] s2_def [symmetric] by blast
  moreover have "ins s2 a = Some j" using j by (simp add: s2_def fs_def)
  moreover have "si_read_status j \<noteq> 0 \<or> fs \<noteq> []" using st pr n by (auto simp: fs_def)
  moreover have "read_step a s s2" "length fs \<le> n" using rel le by (simp_all add: s2_def fs_def)
  ultimately show ?thesis unfolding eq by simp
next
  case (Some x)
  define ns where "ns = resample_requests P (trace s) x n"
  obtain fs s1 where 1: "provide P a ns s = Some (fs, s1)" "read_step a s s1"
    using provide_wp [OF r i, of ns] by (auto simp: wp_exists)
  obtain j where j: "readable s1 a j" "ins s1 a = Some j" using read_step_readable [OF i 1(2)] by blast
  define s2 where "s2 = emit (Resample x n) s1"
  have 2: "read_step a s s2"
    unfolding s2_def by (rule read_step_trans [OF 1(2) read_step_emit [OF j(2)]]) simp
  have "ins s a = Some i" using i by (simp add: readable_def)
  then have "read_pass P a n s = Some (resample_output P (trace s1) x n fs, s2)"
    using Some 1(1) by (simp add: read_pass_def resample_from_provider_def ns_def [symmetric] s2_def)
  moreover have "resample_output P (trace s1) x n fs \<noteq> []" using res Some n by (simp add: resampler_ok_def)
  moreover have "ins s2 a = Some j" using j by (simp add: s2_def)
  ultimately show ?thesis using 2 Some by simp
qed

section \<open>The loop\<close>

lemma in_order_trans:
  assumes x: "in_order P a i s new s'" and j: "ins s' a = Some j" and y: "in_order P a j s' rest s''"
  shows "in_order P a i s (new @ rest) s''"
proof -
  obtain got where got: "captured P (trace s') = captured P (trace s) @ got" "pending i @ got = new @ pending j"
    using x j unfolding in_order_def by auto
  obtain k got' where got': "ins s'' a = Some k" "captured P (trace s'') = captured P (trace s') @ got'"
    "pending j @ got' = rest @ pending k"
    using y unfolding in_order_def by blast
  have "pending i @ (got @ got') = (new @ rest) @ pending k"
    using got(2) got'(3) by (metis append.assoc)
  moreover have "captured P (trace s'') = captured P (trace s) @ (got @ got')" using got got' by simp
  ultimately show ?thesis using got'(1) unfolding in_order_def by blast
qed

lemma read_loop_wp:
  assumes r: "reads_ok P"
  shows "readable s a i \<Longrightarrow> si_resampler i = None \<or> resampler_ok P \<Longrightarrow>
    wp (read_loop P a frames buffer s) (\<lambda>((ret, buf), s'). read_step a s s' \<and>
      (\<exists>j new. ins s' a = Some j \<and> buf = buffer @ new \<and>
         (ret = int (length buf) \<and> frames \<le> length buf \<or> ret = si_read_status j \<and> ret \<noteq> 0) \<and>
         (si_resampler i = None \<longrightarrow> length buf \<le> max frames (length buffer) \<and> in_order P a i s new s')))"
proof (induction "frames - length buffer" arbitrary: buffer s i rule: less_induct)
  case less
  note i = less.prems(1)
  have a: "ins s a = Some i" using i by (simp add: readable_def)
  show ?case
  proof (cases "length buffer < frames")
    case False
    have "in_order P a i s [] s" unfolding in_order_def using a by simp
    then show ?thesis
      using False a read_step_refl [OF a] by (subst read_loop.simps) auto
  next
    case True
    define n where "n = frames - length buffer"
    have n: "0 < n" using True by (simp add: n_def)
    obtain new s1 j where 1: "read_pass P a n s = Some (new, s1)" "read_step a s s1" "ins s1 a = Some j"
      "si_read_status j \<noteq> 0 \<or> new \<noteq> []"
      "si_resampler i = None \<longrightarrow> length new \<le> n \<and> in_order P a i s new s1"
      using read_pass_wp [OF i r less.prems(2) n] unfolding wp_exists split_paired_Ex prod.case by metis
    have j: "readable s1 a j" "si_resampler j = si_resampler i"
      using read_step_readable [OF i 1(2)] 1(3) by auto
    show ?thesis
    proof (cases "si_read_status j = 0")
      case False
      have "read_loop P a frames buffer s = Some ((si_read_status j, buffer @ new), s1)"
        using True 1(1,3) False by (subst read_loop.simps) (simp add: n_def)
      then show ?thesis using 1 False True by (auto simp: n_def)
    next
      case z: True
      have run: "read_loop P a frames buffer s = read_loop P a frames (buffer @ new) s1"
        using True 1(1,3) z by (subst read_loop.simps) (simp add: n_def)
      have "0 < length new" using 1(4) z by simp
      then have "frames - length (buffer @ new) < frames - length buffer" using True unfolding length_append by linarith
      from less.hyps [OF this j(1)] j(2) less.prems(2)
      obtain ret buf s2 k rest where 2: "read_loop P a frames (buffer @ new) s1 = Some ((ret, buf), s2)"
        "read_step a s1 s2" "ins s2 a = Some k" "buf = (buffer @ new) @ rest"
        "ret = int (length buf) \<and> frames \<le> length buf \<or> ret = si_read_status k \<and> ret \<noteq> 0"
        "si_resampler j = None \<longrightarrow> length buf \<le> max frames (length (buffer @ new)) \<and> in_order P a j s1 rest s2"
        unfolding wp_exists split_paired_Ex prod.case by metis
      have "length buf \<le> max frames (length buffer) \<and> in_order P a i s (new @ rest) s2" if "si_resampler i = None"
      proof
        show "length buf \<le> max frames (length buffer)"
          using 2(6) 1(5) that j(2) True by (auto simp: n_def)
        show "in_order P a i s (new @ rest) s2"
        proof -
          have x: "in_order P a i s new s1" using 1(5) that by simp
          have y: "in_order P a j s1 rest s2" using 2(6) that j(2) by simp
          show ?thesis by (rule in_order_trans [OF x 1(3) y])
        qed
      qed
      moreover have "read_step a s s2" by (rule read_step_trans [OF 1(2) 2(2)])
      ultimately show ?thesis using run 2(1,3,4,5) by auto
    qed
  qed
qed

lemma read_frames_wp:
  assumes i: "readable s a i" and r: "reads_ok P" and res: "si_resampler i = None \<or> resampler_ok P"
  shows "wp (read_frames P a frames s) (\<lambda>((ret, buf), s'). read_step a s s' \<and>
    (\<exists>j. ins s' a = Some j \<and>
       (ret = int (length buf) \<and> frames \<le> length buf \<or> ret = si_read_status j \<and> ret \<noteq> 0)) \<and>
    (si_resampler i = None \<longrightarrow> length buf \<le> frames \<and> in_order P a i s buf s'))"
proof -
  obtain d ds h where d: "ins s a = Some i" "si_pcm_dev_list i = Some (d # ds)" "pd_pcm d = Some h"
    using i by (auto simp: readable_def)
  have eq: "read_frames P a frames s = read_loop P a frames [] s"
    by (simp add: read_frames_def d)
  obtain ret buf s' j new where "read_loop P a frames [] s = Some ((ret, buf), s')" "read_step a s s'"
    "ins s' a = Some j" "buf = [] @ new"
    "ret = int (length buf) \<and> frames \<le> length buf \<or> ret = si_read_status j \<and> ret \<noteq> 0"
    "si_resampler i = None \<longrightarrow> length buf \<le> max frames (length ([] :: frame list)) \<and> in_order P a i s new s'"
    using read_loop_wp [OF r i res, of frames "[]"] unfolding wp_exists split_paired_Ex prod.case by metis
  then show ?thesis by (simp add: eq)
qed

lemma read_and_process_frames_wp:
  assumes i: "readable s a i" and r: "reads_ok P" and res: "si_resampler i = None \<or> resampler_ok P"
  shows "wp (read_and_process_frames P a n s) (\<lambda>(r, s'). read_step a s s')"
proof -
  have a: "ins s a = Some i" using i by (simp add: readable_def)
  define need where "need = n * (unat (pc_channels (si_config i)) * audio_bytes_per_sample P (AUDIO_FORMAT_PCM_16_BIT P))"
  define remap where "remap = (audio_channel_count_from_in_mask P (si_main_channels i) \<noteq> unat (pc_channels (si_config i)))"
  define s1 where "s1 = (if remap \<and> si_proc_buf_size i < need
    then upd_in a (\<lambda>i. i\<lparr>si_proc_buf_size := need\<rparr>) s else s)"
  have 1: "read_step a s s1"
    unfolding s1_def using read_step_refl [OF a]
    by (auto intro!: read_step_upd [OF a] simp: read_from_def buf_ok_def)
  obtain j where j: "readable s1 a j" "si_resampler j = si_resampler i"
    using read_step_readable [OF i 1] by blast
  have "wp (read_frames P a n s1) (\<lambda>(r, s'). read_step a s1 s')"
    using read_frames_wp [OF j(1) r, of n] res j(2) by (auto elim!: wp_mono)
  then obtain x s2 where 2: "read_frames P a n s1 = Some (x, s2)" "read_step a s1 s2"
    by (auto simp: wp_exists)
  have "read_and_process_frames P a n s = Some ((fst x, if remap \<and> fst x > 0
      then adjust_channels P (snd x) (unat (pc_channels (si_config i)))
        (audio_channel_count_from_in_mask P (si_main_channels i)) else snd x), s2)"
    using 2(1) by (simp add: read_and_process_frames_def a need_def [symmetric] remap_def [symmetric]
        s1_def [symmetric] split_beta split del: if_split)
  then show ?thesis using read_step_trans [OF 1 2(2)] by simp
qed

end
