(* ===== verification/OpIn.thy ===== *)
theory OpIn
  imports OpOut Reading
begin

text \<open>
  The operations of an input stream against \<open>op_inv\<close>: each returns, keeps the invariant and
  gives back the mutexes it takes, in the documented order.
\<close>

section \<open>Standby\<close>

definition standby_in :: "stream_in \<Rightarrow> stream_in" where
  "standby_in i =
     (if si_standby i then i
      else i\<lparr>si_pcm_dev_list := Some [], si_read_buf := [], si_standby := True, si_last_read_time_us := 0\<rparr>)"

text \<open>\<open>in_standby_l\<close> is called with \<open>lock_inputs\<close> held.\<close>

lemma in_standby_l_op:
  assumes op: "op_inv P s" and a: "ins s a = Some i" and h: "held (trace s) = [LockInputs]"
  shows "wp (in_standby_l a s) (\<lambda>(r, s'). r = 0 \<and> op_inv P s' \<and> locks_same s s' \<and> rest_same s s' \<and>
    outs s' = outs s \<and> ins s' = (ins s)(a \<mapsto> standby_in i))"
proof -
  define s1 where "s1 = lock_input_stream a s"
  have s1: "op_inv P s1" "outs s1 = outs s" "ins s1 = ins s" "rest_same s s1"
    using op by (auto simp: s1_def) (simp add: lock_defs rest_same_def)
  show ?thesis
  proof (cases "si_standby i")
    case True
    have "in_standby_l a s = Some (0, unlock (InLock a) s1)"
      using True a by (simp add: in_standby_l_def s1_def)
    moreover have "rest_same s (unlock (InLock a) s1)"
      using s1(4) by (simp add: lock_defs rest_same_def)
    ultimately show ?thesis
      using True s1 a h by (auto simp: s1_def lock_simps standby_in_def fun_eq_iff)
  next
    case False
    define s2 where "s2 = lock AdevLock s1"
    have op2: "op_inv P s2" and a2: "ins s2 a = Some i" using s1 a by (auto simp: s2_def)
    obtain s3 where s3: "do_in_standby_l a s2 = Some (0, s3)" "op_inv P s3" "rest_same s2 s3" "locks_same s2 s3"
      "outs s3 = outs s2" "ins s3 = (ins s2)(a \<mapsto> i\<lparr>si_pcm_dev_list := Some [], si_read_buf := [],
        si_standby := True, si_last_read_time_us := 0\<rparr>)"
      using op_stop_input [OF op2 a2 False] by (auto simp: wp_exists)
    define s4 where "s4 = unlock (InLock a) (unlock AdevLock s3)"
    have "in_standby_l a s = Some (0, s4)"
      using False a s3(1) by (simp add: in_standby_l_def s1_def [symmetric] s2_def [symmetric] s1(3) s4_def)
    moreover have "rest_same s s4"
      using s1(4) s3(3) by (simp add: s4_def s2_def lock_defs rest_same_def)
    moreover have "locks_same s s4"
      using s3(4) h by (auto simp: s4_def s2_def s1_def lock_simps)
    ultimately show ?thesis
      using s3 s1 False by (auto simp: s4_def s2_def standby_in_def)
  qed
qed

lemma in_standby_op:
  assumes op: "op_inv P s" and a: "ins s a = Some i" and h: "held (trace s) = []"
  shows "wp (in_standby a s) (\<lambda>(r, s'). r = 0 \<and> op_inv P s' \<and> lock_neutral s s' \<and> rest_same s s' \<and>
    outs s' = outs s \<and> ins s' = (ins s)(a \<mapsto> standby_in i))"
proof -
  define s1 where "s1 = lock LockInputs s"
  have s1: "op_inv P s1" "ins s1 a = Some i" "held (trace s1) = [LockInputs]" "rest_same s s1"
    using op a h by (auto simp: s1_def held_locks) (simp add: lock_defs rest_same_def)
  obtain s2 where s2: "in_standby_l a s1 = Some (0, s2)" "op_inv P s2" "locks_same s1 s2" "rest_same s1 s2"
    "outs s2 = outs s1" "ins s2 = (ins s1)(a \<mapsto> standby_in i)"
    using in_standby_l_op [OF s1(1-3)] by (auto simp: wp_exists)
  define s3 where "s3 = unlock LockInputs s2"
  have "in_standby a s = Some (0, s3)" using s2(1) by (simp add: in_standby_def s1_def [symmetric] s3_def)
  moreover have "op_inv P s3" using s2(2) by (auto simp: s3_def)
  moreover have "lock_neutral s s3" using s2(3) h by (auto simp: s3_def s1_def lock_simps)
  moreover have "rest_same s s3" using s1(4) s2(4) by (simp add: s3_def lock_defs rest_same_def)
  ultimately show ?thesis using s2(5,6) by (simp add: s3_def s1_def)
qed

section \<open>Routing\<close>

lemma in_set_routing_op:
  assumes op: "op_inv P s" and P: "sound P" and a: "ins s a = Some i"
  shows "wp (in_set_routing P a val s) (\<lambda>s'. op_inv P s' \<and> locks_same s s' \<and> mode s' = mode s \<and>
    primary_output s' = primary_output s \<and> outs s' = outs s \<and>
    (\<forall>b. b \<noteq> a \<longrightarrow> ins s' b = ins s b) \<and> (\<exists>j. ins s' a = Some j \<and> (si_standby i \<longrightarrow> si_standby j)))"
proof -
  define dv where "dv = (word_of_int val :: u32)"
  define s1 where "s1 = upd_in a (\<lambda>i. i\<lparr>si_devices := dv\<rparr>) s"
  have op1: "op_inv P s1"
    unfolding s1_def by (rule op_upd_in [OF op a]) (simp_all add: buf_ok_def)
  have a1: "ins s1 a = Some (i\<lparr>si_devices := dv\<rparr>)" by (simp add: s1_def a)
  have r1: "locks_same s s1" "mode s1 = mode s" "primary_output s1 = primary_output s" "outs s1 = outs s"
    "\<forall>b. b \<noteq> a \<longrightarrow> ins s1 b = ins s b" by (simp_all add: s1_def)
  show ?thesis
  proof (cases "si_devices i \<noteq> dv \<and> val \<noteq> 0 \<and> \<not> si_standby i")
    case False
    then have "in_set_routing P a val s = Some s \<or> in_set_routing P a val s = Some s1"
      by (auto simp: in_set_routing_def a dv_def s1_def Let_def)
    then show ?thesis using op op1 r1 a a1 by auto
  next
    case True
    then have st: "\<not> si_standby (i\<lparr>si_devices := dv\<rparr>)" by simp
    obtain d p where l: "si_pcm_dev_list i = Some [d]" "pd_pcm d = Some p"
      using op_fields(3) [OF op a] True by (auto simp: in_ok_def running_list_def)
    obtain b where b: "in_needs_standby P a dv s1 = Some b"
      by (cases "get_usecase_from_id (usecase_list s1) (si_usecase i)") (auto simp: in_needs_standby_def a1 l)
    have eq: "in_set_routing P a val s =
        (if b then map_option snd (do_in_standby_l a s1) else map_option snd (select_devices P (si_usecase i) s1))"
      using True b by (simp add: in_set_routing_def a dv_def [symmetric] s1_def [symmetric])
    show ?thesis
    proof (cases b)
      case True
      obtain s2 where "do_in_standby_l a s1 = Some (0, s2)" "op_inv P s2" "rest_same s1 s2" "locks_same s1 s2"
        "outs s2 = outs s1" "\<forall>b. b \<noteq> a \<longrightarrow> ins s2 b = ins s1 b" "\<exists>j. ins s2 a = Some j \<and> si_standby j"
        using op_stop_input [OF op1 a1 st] by (auto simp: wp_exists)
      then show ?thesis using eq True r1 locks_same_trans by (auto simp: rest_same_def)
    next
      case False
      obtain r s2 where s2: "select_devices P (si_usecase i) s1 = Some (r, s2)" "op_inv P s2" "routing_frame s1 s2"
        using op_select [OF op1 P, of "si_usecase i"] by (auto simp: wp_exists)
      note f = routing_frame_fields [OF s2(3)] frame_same [OF s2(3)]
      have "locks_same s s2" by (rule locks_same_trans [OF r1(1) f(27)])
      then show ?thesis using eq False s2 r1 f a1 by simp
    qed
  qed
qed

lemma in_set_source_op:
  assumes op: "op_inv P s" and a: "ins s a = Some i"
  shows "op_inv P (in_set_source v a s)" "\<exists>j. ins (in_set_source v a s) a = Some j \<and> si_standby j = si_standby i"
    "locks_same s (in_set_source v a s)" "rest_same s (in_set_source v a s)"
    "outs (in_set_source v a s) = outs s" "\<forall>b. b \<noteq> a \<longrightarrow> ins (in_set_source v a s) b = ins s b"
  using op a by (auto simp: in_set_source_def split: option.split if_splits intro!: op_upd_in [OF op a] simp: buf_ok_def)

lemma in_set_parameters_op:
  assumes op: "op_inv P s" and P: "sound P" and a: "ins s a = Some i" and h: "held (trace s) = []"
  shows "wp (in_set_parameters P a kv s) (\<lambda>(r, s'). r = 0 \<and> op_inv P s' \<and> lock_neutral s s' \<and>
    mode s' = mode s \<and> primary_output s' = primary_output s \<and> outs s' = outs s \<and>
    (\<forall>b. b \<noteq> a \<longrightarrow> ins s' b = ins s b) \<and> (\<exists>j. ins s' a = Some j \<and> (si_standby i \<longrightarrow> si_standby j)))"
proof -
  define s1 where "s1 = lock AdevLock (lock_input_stream a (lock LockInputs s))"
  have op1: "op_inv P s1" and a1: "ins s1 a = Some i" using op a by (auto simp: s1_def)
  define s2 where "s2 = in_set_source (str_parms_get_str P kv AUDIO_PARAMETER_STREAM_INPUT_SOURCE) a s1"
  note src = in_set_source_op [OF op1 a1, of "str_parms_get_str P kv AUDIO_PARAMETER_STREAM_INPUT_SOURCE",
    folded s2_def]
  obtain j where j: "ins s2 a = Some j" and jst: "si_standby j = si_standby i" using src(2) by blast
  obtain s3 where s3: "(case str_parms_get_str P kv AUDIO_PARAMETER_STREAM_ROUTING of
             None \<Rightarrow> Some s2 | Some v \<Rightarrow> in_set_routing P a (atoi v) s2) = Some s3"
    "op_inv P s3" "locks_same s2 s3" "mode s3 = mode s2" "primary_output s3 = primary_output s2" "outs s3 = outs s2"
    "\<forall>b. b \<noteq> a \<longrightarrow> ins s3 b = ins s2 b" "\<exists>k. ins s3 a = Some k \<and> (si_standby j \<longrightarrow> si_standby k)"
  proof (cases "str_parms_get_str P kv AUDIO_PARAMETER_STREAM_ROUTING")
    case None
    then show ?thesis using that [of s2] src(1) j by simp
  next
    case (Some v)
    then show ?thesis using that in_set_routing_op [OF src(1) P j, of "atoi v"] by (auto simp: wp_exists)
  qed
  define s4 where "s4 = unlock LockInputs (unlock (InLock a) (unlock AdevLock s3))"
  have "in_set_parameters P a kv s = Some (0, s4)"
    using s3(1) by (simp add: in_set_parameters_def s1_def [symmetric] s2_def [symmetric] s4_def)
  moreover have "op_inv P s4" using s3(2) by (auto simp: s4_def)
  moreover have "lock_neutral s s4"
    using s3(3) src(3) h by (auto simp: s4_def s1_def lock_simps)
  moreover have "mode s4 = mode s" "primary_output s4 = primary_output s" "outs s4 = outs s"
    "\<forall>b. b \<noteq> a \<longrightarrow> ins s4 b = ins s b" "\<exists>k. ins s4 a = Some k \<and> (si_standby i \<longrightarrow> si_standby k)"
    using s3(4-8) src jst by (simp_all add: s4_def s1_def rest_same_def)
  ultimately show ?thesis by simp
qed

section \<open>Reading\<close>

lemma upd_in_unlock: "upd_in a f (unlock m s) = unlock m (upd_in a f s)"
  by (simp add: upd_in_def lock_defs emit_def)

lemma in_leave_standby_op:
  assumes op: "op_inv P s" and P: "sound P" and a: "ins s a = Some i" and h: "held (trace s) = [InLock a]"
  shows "wp (in_leave_standby P a s) (\<lambda>(r, s'). op_inv P s' \<and> locks_same s s' \<and> rest_same s s' \<and>
    outs s' = outs s \<and> (\<forall>b. b \<noteq> a \<longrightarrow> ins s' b = ins s b) \<and>
    (\<exists>j. ins s' a = Some j \<and> si_requested_rate j = si_requested_rate i \<and> si_main_channels j = si_main_channels i \<and> (r = 0 \<longrightarrow> \<not> si_standby j)))"
proof (cases "si_standby i")
  case False
  then show ?thesis using op a by (simp add: in_leave_standby_def)
next
  case True
  define s1 where "s1 = lock AdevLock (lock_input_stream a (lock LockInputs (unlock (InLock a) s)))"
  have op1: "op_inv P s1" and a1: "ins s1 a = Some i" using op a by (auto simp: s1_def)
  have r1: "rest_same s s1" "outs s1 = outs s" by (simp_all add: s1_def) (simp add: lock_defs rest_same_def)
  define f where "f = (\<lambda>i :: stream_in. i\<lparr>si_standby := False\<rparr>)"
  obtain r s2 j where 2: "start_input_stream P a s1 = Some (r, s2)" "rest_same s1 s2" "locks_same s1 s2"
    "outs s2 = outs s1" "\<forall>b. b \<noteq> a \<longrightarrow> ins s2 b = ins s1 b" "ins s2 a = Some j" "same_stream i j" "si_requested_rate j = si_requested_rate i"
    "si_main_channels j = si_main_channels i" "if r = 0 then op_inv P (upd_in a f s2) else op_inv P s2"
    using op_start_input [OF op1 P a1 True] unfolding wp_exists split_paired_Ex prod.case f_def by blast
  define s3 where "s3 = unlock LockInputs (unlock AdevLock s2)"
  define s4 where "s4 = (if r \<noteq> 0 then s3 else upd_in a f s3)"
  have "in_leave_standby P a s = Some (r, s4)"
    using True a 2(1) by (simp add: in_leave_standby_def s1_def [symmetric] s3_def [symmetric] s4_def f_def)
  moreover have "op_inv P s4"
    using 2(10) by (simp add: s4_def s3_def upd_in_unlock op_inv_locks(2) split: if_splits)
  moreover have "locks_same s s4"
    using 2(3) h by (auto simp: s4_def s3_def s1_def lock_simps)
  moreover have "rest_same s s4"
    using r1(1) 2(2) by (simp add: s4_def s3_def lock_defs rest_same_def upd_in_def)
  moreover have "outs s4 = outs s" using r1(2) 2(4) by (simp add: s4_def s3_def)
  moreover have "ins s4 a = Some (if r = 0 then f j else j)" using 2(6) by (simp add: s4_def s3_def)
  moreover have "\<forall>b. b \<noteq> a \<longrightarrow> ins s4 b = ins s b" using 2(5) by (simp add: s4_def s3_def s1_def)
  ultimately show ?thesis using 2(8,9) by (auto simp: f_def)
qed

lemma op_readable:
  assumes op: "op_inv P s" and a: "ins s a = Some i" and st: "\<not> si_standby i"
  shows "readable s a i"
  using op_fields(3) [OF op a] a st by (auto simp: in_ok_def readable_def running_list_def)

lemma sleep_after_failed_read_op:
  assumes op: "op_inv P s" and a: "ins s a = Some i"
  shows "wp (sleep_after_failed_read P a bytes n s) (\<lambda>s'. read_step a s s')"
proof -
  define now where "now = clock_us P (trace s)"
  define t where "t = int (bytes * 1000000 div n div unat (si_requested_rate i)) -
    (if si_last_read_time_us i = 0 then 0 else now - si_last_read_time_us i)"
  define s1 where "s1 = emit ClockGettime s"
  define s2 where "s2 = (if t > 0 then emit (Usleep t) s1 else s1)"
  define f where "f = (\<lambda>i :: stream_in. i\<lparr>si_last_read_time_us := now + (if t > 0 then t else 0)\<rparr>)"
  have a1: "ins s1 a = Some i" and a2: "ins s2 a = Some i" using a by (simp_all add: s1_def s2_def)
  have 1: "read_step a s s1" unfolding s1_def by (rule read_step_emit [OF a]) simp
  have 2: "read_step a s1 s2"
    unfolding s2_def using read_step_refl [OF a1] read_step_emit [OF a1] by simp
  have rf: "read_from i (f i)" by (simp add: f_def read_from_def buf_ok_def)
  have 3: "read_step a s2 (upd_in a f s2)" by (rule read_step_upd [where f = f, OF a2 rf])
  have "si_requested_rate i \<noteq> 0" using op_fields(3) [OF op a] by (simp add: in_ok_def)
  then have "sleep_after_failed_read P a bytes n s = Some (upd_in a f s2)"
    by (simp add: sleep_after_failed_read_def a in_get_sample_rate_def unat_eq_0 now_def [symmetric]
        s1_def [symmetric] f_def t_def [symmetric] s2_def Let_def)
  then show ?thesis using read_step_trans [OF read_step_trans [OF 1 2] 3] by simp
qed

text \<open>The part of \<open>in_read\<close> between taking and giving back the mutex.\<close>

lemma in_read_locked_op:
  assumes op: "op_inv P s" and P: "sound P" and r: "reads_ok P" "resampler_ok P" and a: "ins s a = Some i"
    and h: "held (trace s) = [InLock a]"
  shows "wp (do {
      (ret, s) \<leftarrow> in_leave_standby P a s;
      (if ret \<noteq> 0 then Some ((-1, []), s)
       else do {
         i \<leftarrow> ins s a;
         if si_pcm_dev_list i = Some [] then Some ((-1, []), s)
         else read_and_process_frames P a n s
       })
    }) (\<lambda>(x :: int \<times> frame list, s'). op_inv P s' \<and> locks_same s s' \<and> rest_same s s' \<and> outs s' = outs s \<and> ins s' a \<noteq> None \<and>
      (\<forall>b. b \<noteq> a \<longrightarrow> ins s' b = ins s b))"
proof -
  obtain ret s1 j where 1: "in_leave_standby P a s = Some (ret, s1)" "op_inv P s1" "locks_same s s1"
    "rest_same s s1" "outs s1 = outs s" "ins s1 a = Some j" "ret = 0 \<longrightarrow> \<not> si_standby j"
    "\<forall>b. b \<noteq> a \<longrightarrow> ins s1 b = ins s b"
    using in_leave_standby_op [OF op P a h] unfolding wp_exists split_paired_Ex prod.case by blast
  show ?thesis
  proof (cases "ret = 0")
    case False
    then show ?thesis using 1 by simp
  next
    case True
    then have j: "readable s1 a j" using op_readable [OF 1(2,6)] 1(7) by blast
    obtain x s2 where 2: "read_and_process_frames P a n s1 = Some (x, s2)" "read_step a s1 s2"
      using read_and_process_frames_wp [OF j r(1), of n] r(2) by (auto simp: wp_exists)
    note f = read_step_fields [OF 2(2)]
    have "si_pcm_dev_list j \<noteq> Some []" using j by (auto simp: readable_def)
    moreover have "op_inv P s2" by (rule read_step_op [OF 1(2) 2(2)])
    moreover have "locks_same s s2" by (rule locks_same_trans [OF 1(3) f(3)])
    moreover have "rest_same s s2" by (rule rest_same_trans [OF 1(4) f(2)])
    moreover have "ins s2 a \<noteq> None" using read_step_readable [OF j 2(2)] by auto
    moreover have "\<forall>b. b \<noteq> a \<longrightarrow> ins s2 b = ins s b" using 1(8) 2(2) by (auto simp: read_step_def)
    ultimately show ?thesis using True 1 2(1) f(4) by simp
  qed
qed

lemma in_read_op:
  assumes op: "op_inv P s" and P: "sound P" and r: "reads_ok P" "resampler_ok P" and a: "ins s a = Some i"
    and h: "held (trace s) = []"
  shows "wp (in_read P a bytes s) (\<lambda>(x, s'). fst x = int bytes \<and> op_inv P s' \<and> lock_neutral s s' \<and> rest_same s s' \<and>
    outs s' = outs s \<and> ins s' a \<noteq> None \<and> (\<forall>b. b \<noteq> a \<longrightarrow> ins s' b = ins s b))"
proof -
  define n where "n = audio_stream_in_frame_size P (in_get_channels i) (in_get_format P i)"
  have n: "n \<noteq> 0"
    using op_fields(3) [OF op a] P by (simp add: n_def in_ok_def sound_def in_get_channels_def)
  define s1 where "s1 = lock_input_stream a s"
  have op1: "op_inv P s1" and a1: "ins s1 a = Some i" and h1: "held (trace s1) = [InLock a]"
    and r1: "rest_same s s1" "outs s1 = outs s"
    using op a h by (auto simp: s1_def held_locks) (simp add: lock_defs rest_same_def)
  obtain ret s2 frames buffer s3 where 2: "in_leave_standby P a s1 = Some (ret, s2)"
    "(if ret \<noteq> 0 then Some ((-1, []), s2)
       else do {
         i \<leftarrow> ins s2 a;
         if si_pcm_dev_list i = Some [] then Some ((-1, []), s2)
         else read_and_process_frames P a (bytes div n) s2
       }) = Some ((frames, buffer), s3)"
    and 3: "op_inv P s3" "locks_same s1 s3" "rest_same s1 s3" "outs s3 = outs s1" "ins s3 a \<noteq> None" "\<forall>b. b \<noteq> a \<longrightarrow> ins s3 b = ins s1 b"
    using in_read_locked_op [OF op1 P r a1 h1, of "bytes div n"]
    unfolding wp_exists split_paired_Ex prod.case bind_eq_Some_conv by blast
  define ok where "ok = (frames \<ge> 0)"
  define zeros where "zeros = zero_buffer (bytes div n) (audio_channel_count_from_in_mask P (si_main_channels i))"
  define buf where "buf = (if ok \<and> mic_mute s3 then zeros else buffer)"
  define s4 where "s4 = unlock (InLock a) s3"
  obtain j where j: "ins s4 a = Some j" using 3(5) by (auto simp: s4_def)
  have op4: "op_inv P s4" using 3(1) by (auto simp: s4_def)
  have l4: "lock_neutral s s4" "held (trace s4) = []"
    using 3(2) h h1 by (auto simp: s4_def s1_def lock_simps)
  have r4: "rest_same s s4" using r1 3(3) by (simp add: s4_def lock_defs rest_same_def)
  obtain out s5 where 5: "(if \<not> ok then do {
            r \<leftarrow> in_standby a s4;
            s \<leftarrow> sleep_after_failed_read P a bytes n (snd r);
            Some (zeros, s)
          } else Some (buf, s4)) = Some (out, s5)"
    "op_inv P s5" "lock_neutral s4 s5" "rest_same s4 s5" "outs s5 = outs s4" "ins s5 a \<noteq> None" "\<forall>b. b \<noteq> a \<longrightarrow> ins s5 b = ins s4 b"
  proof (cases ok)
    case True
    then show ?thesis using that [of buf s4] op4 j by (simp add: lock_neutral_def)
  next
    case False
    obtain s6 where 6: "in_standby a s4 = Some (0, s6)" "op_inv P s6" "lock_neutral s4 s6" "rest_same s4 s6"
      "outs s6 = outs s4" "ins s6 = (ins s4)(a \<mapsto> standby_in j)"
      using in_standby_op [OF op4 j l4(2)] by (auto simp: wp_exists)
    have a6: "ins s6 a = Some (standby_in j)" using 6(6) by simp
    obtain s7 where 7: "sleep_after_failed_read P a bytes n s6 = Some s7" "read_step a s6 s7"
      using sleep_after_failed_read_op [OF 6(2) a6, of bytes n] by (auto simp: wp_exists)
    note f = read_step_fields [OF 7(2)]
    have "ins s7 a \<noteq> None" "\<forall>b. b \<noteq> a \<longrightarrow> ins s7 b = ins s4 b" using 6(6) 7(2) unfolding read_step_def by auto
    then show ?thesis
      using that [of zeros s7] False 6 7 read_step_op [OF 6(2) 7(2)] rest_same_trans [OF 6(4) f(2)]
        lock_neutral_trans [OF 6(3) locks_same_neutral [OF f(3)]] f(4) by simp
  qed
  define s8 where "s8 = (if bytes > 0
    then upd_in a (\<lambda>i. i\<lparr>si_frames_read := si_frames_read i + int (bytes div n)\<rparr>) s5 else s5)"
  have run: "in_read P a bytes s = Some ((int bytes, out), s8)"
    using n [unfolded n_def] 2 [unfolded n_def] 5(1) [unfolded n_def ok_def buf_def zeros_def s4_def]
    unfolding s8_def n_def
    by (simp add: in_read_def a s1_def [symmetric] Let_def split del: if_split)
  obtain k where k: "ins s5 a = Some k" using 5(6) by blast
  have "op_inv P s8"
    unfolding s8_def using 5(2) by (auto intro!: op_upd_in [OF 5(2) k] simp: buf_ok_def)
  moreover have "lock_neutral s s8"
    using lock_neutral_trans [OF l4(1) 5(3)] by (simp add: s8_def lock_neutral_def)
  moreover have "rest_same s s8"
    using rest_same_trans [OF r4 5(4)] by (simp add: s8_def rest_same_def upd_in_def)
  moreover have "outs s8 = outs s" using 5(5) 3(4) r1(2) by (simp add: s8_def s4_def)
  moreover have "ins s8 a \<noteq> None" using k by (simp add: s8_def)
  moreover have "\<forall>b. b \<noteq> a \<longrightarrow> ins s8 b = ins s b" using 5(7) 3(6) by (simp add: s8_def s4_def s1_def)
  ultimately show ?thesis unfolding run by simp
qed

end
