(* ===== verification/OpDev.thy ===== *)
theory OpDev
  imports OpIn
begin

text \<open>
  The operations of the device against \<open>op_inv\<close>: volume, mute, mode, parameters, the callback of
  the radio, and opening and closing streams.
\<close>

section \<open>Volume, mute, mode and parameters\<close>

lemma set_voice_volume_op:
  assumes op: "op_inv P s" and p: "mode s = AUDIO_MODE_IN_CALL P \<longrightarrow> primary_output s \<noteq> None"
  shows "wp (adev_set_voice_volume P v s) (\<lambda>(r, s'). r = 0 \<and> op_inv P s' \<and> lock_neutral s s' \<and>
    mode s' = mode s \<and> primary_output s' = primary_output s \<and> outs s' = outs s \<and> ins s' = ins s)"
proof -
  define s1 where "s1 = (lock AdevLock s)\<lparr>volume := v\<rparr>"
  have "op_same P (lock AdevLock s) s1" by (simp add: s1_def op_same_def core_same_def profiles_ok_def)
  then have op1: "op_inv P s1" using op_inv_same op op_inv_locks(1) by blast
  have s1: "mode s1 = mode s" "primary_output s1 = primary_output s" "outs s1 = outs s" "ins s1 = ins s"
    by (simp_all add: s1_def)
  have "primary_devices s1 \<noteq> None" if "mode s1 = AUDIO_MODE_IN_CALL P"
    using p that op by (auto simp: s1 primary_devices_def op_inv_def core_inv_def primary_ok_def)
  then obtain s2 where s2: "set_voice_volume P (volume s1) s1 = Some (0, s2)" "only_calls s1 s2"
    using set_voice_volume_wp [of s1 P "volume s1"] by (auto simp: wp_exists)
  note f = only_calls_fields [OF s2(2)]
  define s3 where "s3 = unlock AdevLock s2"
  have "adev_set_voice_volume P v s = Some (0, s3)"
    using s2(1) by (simp add: adev_set_voice_volume_def s1_def [symmetric] s3_def)
  moreover have "op_inv P s3"
    using op_inv_same [OF op1 op_same_only_calls [OF s2(2)]] by (auto simp: s3_def)
  moreover have "lock_neutral s s3"
    using f(28) by (auto simp: s3_def s1_def lock_simps quiet_def)
  ultimately show ?thesis using f s1 by (simp add: s3_def)
qed

lemma ril_same:
  "op_inv P s \<Longrightarrow> op_inv P (snd (ril_connect_if_required Q s))"
  "op_inv P s \<Longrightarrow> op_inv P (snd (ril_set_call_clock_sync Q c s))"
  "op_inv P s \<Longrightarrow> op_inv P (snd (ril_set_mute Q m s))"
  by (erule op_inv_same, rule op_same_only_calls, rule ril_only_calls ril_connect_only_calls)+

text \<open>Registering a callback changes the radio's part of the state only.\<close>

definition ril_step :: "hal \<Rightarrow> hal \<Rightarrow> bool" where
  "ril_step s s' \<longleftrightarrow>
     s' = s\<lparr>trace := trace s', ril := ril s', wb_amr_callback := wb_amr_callback s',
            clock_state_callback := clock_state_callback s'\<rparr> \<and> quiet (trace s) (trace s')"

lemma ril_step_trans: "ril_step s s' \<Longrightarrow> ril_step s' s'' \<Longrightarrow> ril_step s s''"
proof -
  assume a: "ril_step s s'" and b: "ril_step s' s''"
  have "s'' = s'\<lparr>trace := trace s'', ril := ril s'', wb_amr_callback := wb_amr_callback s'',
            clock_state_callback := clock_state_callback s''\<rparr>" using b by (simp add: ril_step_def)
  also have "\<dots> = (s\<lparr>trace := trace s', ril := ril s', wb_amr_callback := wb_amr_callback s',
            clock_state_callback := clock_state_callback s'\<rparr>)\<lparr>trace := trace s'', ril := ril s'',
            wb_amr_callback := wb_amr_callback s'', clock_state_callback := clock_state_callback s''\<rparr>"
    using a by (simp add: ril_step_def)
  also have "\<dots> = s\<lparr>trace := trace s'', ril := ril s'',
            wb_amr_callback := wb_amr_callback s'', clock_state_callback := clock_state_callback s''\<rparr>" by simp
  finally show ?thesis using a b quiet_trans unfolding ril_step_def by blast
qed

lemma ril_step_only_calls:
  assumes "only_calls s s'"
  shows "ril_step s s'"
proof -
  obtain t where t: "s' = s\<lparr>trace := t\<rparr>" and q: "quiet (trace s) t"
    using assms by (metis only_calls_def)
  show ?thesis using q by (simp add: t ril_step_def)
qed

lemma ril_close_step: "ril_step s (snd (ril_close P s))"
proof (cases "client (ril s)")
  case None
  then show ?thesis by (simp add: ril_close_def ril_step_def)
next
  case (Some c)
  then show ?thesis
    by (auto simp: ril_close_def ril_send_def set_client_def ril_step_def Let_def emit_def)
qed

lemma ril_callback_step:
  "ril_step s (snd (ril_set_wb_amr_callback P cb s))" "ril_step s (snd (ril_set_pcm_clock_callback P cb s))"
proof -
  have send: "ril_step s (snd (ril_send P rq (s\<lparr>wb_amr_callback := cb\<rparr>)))"
    "ril_step s (snd (ril_send P rq (s\<lparr>clock_state_callback := cb\<rparr>)))" for rq
    by (simp_all add: ril_send_def ril_step_def emit_def)
  show "ril_step s (snd (ril_set_wb_amr_callback P cb s))" "ril_step s (snd (ril_set_pcm_clock_callback P cb s))"
    using send ril_step_trans [OF send(1) ril_close_step] ril_step_trans [OF send(2) ril_close_step]
    by (auto simp: ril_set_wb_amr_callback_def ril_set_pcm_clock_callback_def Let_def split_beta ril_step_def
        simp del: One_nat_def)
qed

lemma ril_step_fields:
  assumes "ril_step s s'"
  shows "op_same P s s'" "locks_same s s'" "mode s' = mode s" "primary_output s' = primary_output s"
    "outs s' = outs s" "ins s' = ins s" "in_call s' = in_call s"
proof -
  obtain t r w c where s': "s' = s\<lparr>trace := t, ril := r, wb_amr_callback := w, clock_state_callback := c\<rparr>"
    "quiet (trace s) t"
    using assms unfolding ril_step_def by metis
  show "op_same P s s'" "locks_same s s'" "mode s' = mode s" "primary_output s' = primary_output s"
    "outs s' = outs s" "ins s' = ins s" "in_call s' = in_call s"
    using s'(2) by (simp_all add: s'(1) op_same_def core_same_def locks_same_def quiet_def profiles_ok_def)
qed

text \<open>The radio is told about the mode before it changes.\<close>

definition enter_mode :: "platform \<Rightarrow> int \<Rightarrow> hal \<Rightarrow> hal" where
  "enter_mode P m s =
     (if mode s \<noteq> m then
        let s = (if m = AUDIO_MODE_IN_CALL P then
                   let s = snd (ril_connect_if_required P s);
                       s = snd (ril_set_pcm_clock_callback P (Some audio_set_pcm_clock_cb) s)
                   in snd (ril_set_wb_amr_callback P (Some audio_set_wb_amr_cb) s)
                 else s)
        in s\<lparr>mode := m\<rparr>
      else s)"

lemma enter_mode_op:
  assumes op: "op_inv P s"
  shows "op_inv P (enter_mode P m s)" "locks_same s (enter_mode P m s)" "mode (enter_mode P m s) = m"
    "primary_output (enter_mode P m s) = primary_output s" "outs (enter_mode P m s) = outs s"
    "ins (enter_mode P m s) = ins s" "in_call (enter_mode P m s) = in_call s"
proof -
  define s1 where "s1 = (if m = AUDIO_MODE_IN_CALL P
    then snd (ril_set_wb_amr_callback P (Some audio_set_wb_amr_cb)
           (snd (ril_set_pcm_clock_callback P (Some audio_set_pcm_clock_cb) (snd (ril_connect_if_required P s)))))
    else s)"
  have "ril_step s s" by (simp add: ril_step_def)
  then have "ril_step s s1"
    unfolding s1_def
    using ril_step_trans ril_step_only_calls [OF ril_connect_only_calls] ril_callback_step by (metis (full_types))
  note f = ril_step_fields [OF this]
  have eq: "enter_mode P m s = (if mode s \<noteq> m then s1\<lparr>mode := m\<rparr> else s)"
    by (simp add: enter_mode_def s1_def Let_def)
  have "op_inv P s1" by (rule op_inv_same [OF op f(1)])
  then have "op_inv P (s1\<lparr>mode := m\<rparr>)"
    by (rule op_inv_same) (simp add: op_same_def core_same_def profiles_ok_def)
  then show "op_inv P (enter_mode P m s)" using op eq by simp
  show "locks_same s (enter_mode P m s)" "mode (enter_mode P m s) = m"
    "primary_output (enter_mode P m s) = primary_output s" "outs (enter_mode P m s) = outs s"
    "ins (enter_mode P m s) = ins s" "in_call (enter_mode P m s) = in_call s"
    using f by (simp_all add: eq locks_same_def)
qed

lemma adev_set_mode_op:
  assumes op: "op_inv P s"
  shows "wp (adev_set_mode P m s) (\<lambda>(r, s'). r = 0 \<and> op_inv P s' \<and> lock_neutral s s' \<and> mode s' = m \<and>
    primary_output s' = primary_output s \<and> outs s' = outs s \<and> ins s' = ins s \<and>
    (m = AUDIO_MODE_NORMAL P \<longrightarrow> \<not> in_call s'))"
proof -
  define s1 where "s1 = enter_mode P m (lock AdevLock s)"
  have "op_inv P (lock AdevLock s)" using op by auto
  note e = enter_mode_op [OF this, of m, folded s1_def]
  have run: "adev_set_mode P m s = do {
     s \<leftarrow> (if mode s1 = AUDIO_MODE_NORMAL P \<and> in_call s1
           then map_option snd (stop_voice_call P (snd (ril_set_call_clock_sync P SOUND_CLOCK_STOP s1)))
           else Some s1);
     Some (0, unlock AdevLock s) }"
    by (simp add: adev_set_mode_def s1_def enter_mode_def Let_def)
  obtain s2 where s2: "(if mode s1 = AUDIO_MODE_NORMAL P \<and> in_call s1
           then map_option snd (stop_voice_call P (snd (ril_set_call_clock_sync P SOUND_CLOCK_STOP s1)))
           else Some s1) = Some s2" "op_inv P s2" "locks_same s1 s2" "mode s2 = mode s1"
      "primary_output s2 = primary_output s1" "outs s2 = outs s1" "ins s2 = ins s1"
      "m = AUDIO_MODE_NORMAL P \<longrightarrow> \<not> in_call s2"
  proof (cases "mode s1 = AUDIO_MODE_NORMAL P \<and> in_call s1")
    case False
    then show ?thesis using that [of s1] e by auto
  next
    case True
    define t where "t = snd (ril_set_call_clock_sync P SOUND_CLOCK_STOP s1)"
    have oc: "only_calls s1 t" unfolding t_def by (rule ril_only_calls)
    note f = only_calls_fields [OF oc]
    have opt: "op_inv P t" unfolding t_def by (rule ril_same) (rule e(1))
    obtain s2 where s2: "stop_voice_call P t = Some (0, s2)" "op_inv P s2" "voice_step t s2" "\<not> in_call s2"
      using op_stop_call [OF opt] True f(6) by (auto simp: wp_exists)
    have "locks_same s1 s2"
      using s2(3) f(28) by (simp add: voice_step_def locks_same_def quiet_def)
    then show ?thesis
      using that [of s2] True s2 f by (simp add: t_def [symmetric] voice_step_def)
  qed
  have "lock_neutral s (unlock AdevLock s2)"
    using s2(3) e(2) by (auto simp: lock_simps)
  then show ?thesis using run s2 e by (auto intro: op_inv_locks)
qed

lemma adev_set_mic_mute_op:
  assumes op: "op_inv P s"
  shows "op_inv P (snd (adev_set_mic_mute P b s))" "lock_neutral s (snd (adev_set_mic_mute P b s))"
    "mode (snd (adev_set_mic_mute P b s)) = mode s"
    "primary_output (snd (adev_set_mic_mute P b s)) = primary_output s"
    "outs (snd (adev_set_mic_mute P b s)) = outs s" "ins (snd (adev_set_mic_mute P b s)) = ins s"
proof -
  define s1 where "s1 = (lock AdevLock s)\<lparr>mic_mute := b\<rparr>"
  have "op_same P (lock AdevLock s) s1" by (simp add: s1_def op_same_def core_same_def profiles_ok_def)
  then have op1: "op_inv P s1" using op_inv_same op op_inv_locks(1) by blast
  define s2 where "s2 = (if mode s1 = AUDIO_MODE_IN_CALL P
    then snd (ril_set_mute P (if b then TX_MUTE else TX_UNMUTE) s1) else s1)"
  have oc: "only_calls s1 s2" unfolding s2_def using ril_only_calls by simp
  note f = only_calls_fields [OF oc]
  have eq: "snd (adev_set_mic_mute P b s) = unlock AdevLock s2"
    by (simp add: adev_set_mic_mute_def s1_def [symmetric] s2_def Let_def split_beta)
  have "op_inv P s2" by (rule op_inv_same [OF op1 op_same_only_calls [OF oc]])
  then show "op_inv P (snd (adev_set_mic_mute P b s))" by (auto simp: eq)
  show "lock_neutral s (snd (adev_set_mic_mute P b s))"
    using f(28) by (auto simp: eq s1_def lock_simps quiet_def)
  show "mode (snd (adev_set_mic_mute P b s)) = mode s"
    "primary_output (snd (adev_set_mic_mute P b s)) = primary_output s"
    "outs (snd (adev_set_mic_mute P b s)) = outs s" "ins (snd (adev_set_mic_mute P b s)) = ins s"
    using f by (simp_all add: eq s1_def)
qed

end
