(* ===== verification/Boot.thy ===== *)
theory Boot
  imports OpDev
begin

text \<open>
  \<open>adev_open\<close>: the retry loop over the mixer card, and the state that a successful open leaves,
  which satisfies \<open>op_inv\<close>.
\<close>

section \<open>What opening the device changes\<close>

definition boot_step :: "hal \<Rightarrow> hal \<Rightarrow> bool" where
  "boot_step s s' \<longleftrightarrow>
     quiet (trace s) (trace s') \<and> usecase_list s' = usecase_list s \<and> snd_dev_ref_cnt s' = snd_dev_ref_cnt s \<and>
     outs s' = outs s \<and> ins s' = ins s \<and> pcm_devices s' = pcm_devices s \<and>
     active_input s' = active_input s \<and> primary_output s' = primary_output s \<and> mode s' = mode s \<and>
     in_call s' = in_call s \<and> in_call_sco s' = in_call_sco s \<and>
     pcm_voice_rx s' = pcm_voice_rx s \<and> pcm_voice_tx s' = pcm_voice_tx s \<and>
     pcm_sco_rx s' = pcm_sco_rx s \<and> pcm_sco_tx s' = pcm_sco_tx s"

lemma boot_step_trans [trans]: "boot_step s s' \<Longrightarrow> boot_step s' s'' \<Longrightarrow> boot_step s s''"
  using quiet_trans [of "trace s" "trace s'" "trace s''"] by (simp add: boot_step_def)

lemma boot_step_refl [simp]: "boot_step s s"
  by (simp add: boot_step_def)

lemma boot_step_emit [simp]: "is_other_call c \<Longrightarrow> boot_step s (emit c s)"
  by (simp add: boot_step_def)

lemma boot_step_emitI: "boot_step s s' \<Longrightarrow> is_other_call c \<Longrightarrow> boot_step s (emit c s')"
  using boot_step_trans boot_step_emit by blast

lemma boot_step_calls: "only_calls s s' \<Longrightarrow> boot_step s s'"
  using only_calls_fields [of s s'] by (simp add: boot_step_def)

section \<open>The mixer\<close>

lemma open_mixer_calls: "only_calls s (snd (open_mixer_retry P crd n s))"
proof (induction n arbitrary: s)
  case 0
  then show ?case by (simp add: try_mixer_def)
next
  case (Suc n)
  have "only_calls s (emit (Usleep RETRY_US) (emit (MixerOpen crd) s))"
    by (intro only_calls_emitI only_calls_emit) simp_all
  then show ?case
    using only_calls_trans [OF _ Suc.IH] by (auto simp: try_mixer_def split: option.split)
qed

text \<open>
  The calls of the loop: one attempt after another with a pause between, at most \<open>n + 1\<close> of them,
  the last of which is the one that succeeds, if any does.
\<close>

lemma open_mixer_attempts:
  "\<exists>k \<le> n. trace (snd (open_mixer_retry P crd n s)) =
     MixerOpen crd # concat (replicate k [Usleep RETRY_US, MixerOpen crd]) @ trace s \<and>
     (fst (open_mixer_retry P crd n s) = None \<longrightarrow> k = n)"
proof (induction n arbitrary: s)
  case 0
  then show ?case by (simp add: try_mixer_def)
next
  case (Suc n)
  show ?case
  proof (cases "mixer_open P (trace s) crd")
    case None
    let ?s = "emit (Usleep RETRY_US) (emit (MixerOpen crd) s)"
    obtain k where k: "k \<le> n" "trace (snd (open_mixer_retry P crd n ?s)) =
        MixerOpen crd # concat (replicate k [Usleep RETRY_US, MixerOpen crd]) @ trace ?s"
        "fst (open_mixer_retry P crd n ?s) = None \<longrightarrow> k = n"
      using Suc.IH [of ?s] by (elim exE conjE) (rule that)
    have "concat (replicate k [Usleep RETRY_US, MixerOpen crd]) @ Usleep RETRY_US # MixerOpen crd # trace s =
        concat (replicate (Suc k) [Usleep RETRY_US, MixerOpen crd]) @ trace s"
      by (induction k) simp_all
    moreover have step: "open_mixer_retry P crd (Suc n) s = open_mixer_retry P crd n ?s"
      using None by (simp add: try_mixer_def)
    ultimately show ?thesis
      unfolding step k(2) using k(1,3) by (intro exI [of _ "Suc k"]) simp
  next
    case (Some m)
    then show ?thesis by (intro exI [of _ 0]) (simp add: try_mixer_def)
  qed
qed

lemma mixer_path_calls: "only_calls s (snd (mixer_path_of P ty s))"
  by (auto simp: mixer_path_of_def Let_def intro!: only_calls_emitI)

lemma add_mixer_card_step:
  assumes "add_mixer_card P ty crd s = (r, s')"
  shows "boot_step s s'"
    and "r = 0 \<Longrightarrow> \<exists>mc. mc_card mc = crd \<and> mixer_list s' = mixer_list s @ [mc]"
    and "r \<noteq> 0 \<Longrightarrow> r < 0 \<and> mixer_list s' = mixer_list s"
proof -
  obtain m s1 where s1: "open_mixer_retry P crd 10 s = (m, s1)" by fastforce
  obtain path s2 where s2: "mixer_path_of P ty s1 = (path, s2)" by fastforce
  define s3 where "s3 = emit (RouteInit crd path) s2"
  have o1: "only_calls s s1" using open_mixer_calls [of s P crd 10] s1 by simp
  have "only_calls s1 s2" using mixer_path_calls [of s1 P ty] s2 by simp
  then have o3: "only_calls s s3" unfolding s3_def by (intro only_calls_emitI only_calls_trans [OF o1]) simp_all
  have b: "boot_step s s1" "boot_step s s3" "mixer_list s1 = mixer_list s" "mixer_list s3 = mixer_list s"
    using boot_step_calls o1 o3 only_calls_fields(1) by blast+
  have c: "boot_step s3 (snd (calloc P x s3))" "mixer_list (snd (calloc P x s3)) = mixer_list s3" for x
    by (simp_all add: calloc_def boot_step_def)
  note c' = boot_step_trans [OF b(2) c(1)]
  have "boot_step s s' \<and> (r = 0 \<longrightarrow> (\<exists>mc. mc_card mc = crd \<and> mixer_list s' = mixer_list s @ [mc])) \<and>
      (r \<noteq> 0 \<longrightarrow> r < 0 \<and> mixer_list s' = mixer_list s)"
  proof (cases m)
    case None
    then have "r = - ENODEV \<and> s' = s1" using assms by (auto simp: add_mixer_card_def s1)
    then show ?thesis using b by simp
  next
    case m: (Some mixer)
    show ?thesis
    proof (cases "audio_route_init P (trace s2) crd path")
      case None
      then have "r = - ENODEV \<and> s' = s3" using assms m by (auto simp: add_mixer_card_def s1 s2 s3_def)
      then show ?thesis using b by simp
    next
      case (Some route)
      obtain p s4 where s4: "calloc P ''mixer_card'' s3 = (p, s4)" by fastforce
      have b4: "boot_step s s4" "mixer_list s4 = mixer_list s"
        using c'[of "''mixer_card''"] c(2) [of "''mixer_card''"] b(4) s4 by simp_all
      have "(r, s') = (if p = None then (- ENOMEM, s4)
          else (0, s4\<lparr>mixer_list := mixer_list s4 @
                  [\<lparr>mc_card = crd, mc_mixer = mixer, mc_audio_route = route, mc_dsp_poweroff_time = 1\<rparr>]\<rparr>))"
        using assms m Some s4 by (simp add: add_mixer_card_def s1 s2 s3_def [symmetric])
      then show ?thesis using b4 by (cases p) (simp_all add: boot_step_def)
    qed
  qed
  then show "boot_step s s'"
    and "r = 0 \<Longrightarrow> \<exists>mc. mc_card mc = crd \<and> mixer_list s' = mixer_list s @ [mc]"
    and "r \<noteq> 0 \<Longrightarrow> r < 0 \<and> mixer_list s' = mixer_list s"
    by blast+
qed

text \<open>All profiles name one card, so the first turn of the loop adds it and the others find it.\<close>

lemma mixer_init_found:
  "adev_get_mixer_for_card (mixer_list s) crd \<noteq> None \<Longrightarrow> set cards \<subseteq> {crd} \<Longrightarrow>
   mixer_init_cards P ty cards s = (0, s)"
  by (induction cards) auto

lemma mixer_init_step:
  assumes run: "mixer_init P s = (r, s')" and cards: "map pp_card (pcm_devices s) = SOUND_CARD # cards"
    and one: "set cards \<subseteq> {SOUND_CARD}"
  shows "boot_step s s'"
    and "r = 0 \<Longrightarrow> \<exists>mc. mc_card mc = SOUND_CARD \<and> mixer_list s' = [mc]"
    and "r \<noteq> 0 \<Longrightarrow> r < 0 \<and> mixer_list s' = []"
proof -
  define s0 where "s0 = s\<lparr>mixer_list := []\<rparr>"
  define ty where "ty = (if audience_enabled s0 then ''_audience'' else [])"
  obtain r1 s1 where s1: "add_mixer_card P ty SOUND_CARD s0 = (r1, s1)" by fastforce
  have s0: "boot_step s s0" "mixer_list s0 = []" by (simp_all add: s0_def boot_step_def)
  note st = add_mixer_card_step [OF s1]
  have "adev_get_mixer_for_card (mixer_list s0) SOUND_CARD = None" by (simp add: s0(2) mixers.lookup_empty)
  then have loop: "mixer_init_cards P ty (SOUND_CARD # cards) s0 =
      (if r1 \<noteq> 0 then (r1, s1) else mixer_init_cards P ty cards s1)"
    by (simp add: s1)
  have run': "(r, s') = (let (r, s) = mixer_init_cards P ty (SOUND_CARD # cards) s0
      in if r \<noteq> 0 then (r, free_mixer_list s) else (0, s))"
    using run cards by (simp add: mixer_init_def s0_def ty_def Let_def del: mixer_init_cards.simps)
  have "boot_step s s' \<and> (r = 0 \<longrightarrow> (\<exists>mc. mc_card mc = SOUND_CARD \<and> mixer_list s' = [mc])) \<and>
      (r \<noteq> 0 \<longrightarrow> r < 0 \<and> mixer_list s' = [])"
  proof (cases "r1 = 0")
    case True
    then obtain mc where mc: "mc_card mc = SOUND_CARD" "mixer_list s1 = [mc]" using st(2) s0(2) by auto
    then have "adev_get_mixer_for_card (mixer_list s1) SOUND_CARD \<noteq> None"
      by (simp add: adev_get_mixer_for_card_def)
    from mixer_init_found [OF this one] have "r = 0" "s' = s1"
      using run' loop True by simp_all
    then show ?thesis using mc boot_step_trans [OF s0(1) st(1)] by auto
  next
    case False
    have fin: "boot_step s1 (free_mixer_list s1)" "mixer_list (free_mixer_list s1) = []"
      using False st(3) s0(2) by (simp_all add: free_mixer_list_def boot_step_def)
    have "r = r1" "s' = free_mixer_list s1" using run' loop False by simp_all
    then show ?thesis using False st(3) fin boot_step_trans [OF boot_step_trans [OF s0(1) st(1)] fin(1)] by simp
  qed
  then show "boot_step s s'"
    and "r = 0 \<Longrightarrow> \<exists>mc. mc_card mc = SOUND_CARD \<and> mixer_list s' = [mc]"
    and "r \<noteq> 0 \<Longrightarrow> r < 0 \<and> mixer_list s' = []"
    by blast+
qed

section \<open>The state after \<open>adev_open\<close>\<close>

text \<open>
  A process in which nothing is open: no stream, no applied path, no PCM handle, no mutex held,
  and the profiles as the source initialises them.
\<close>

definition boot_ok :: "platform \<Rightarrow> hal \<Rightarrow> bool" where
  "boot_ok P s \<longleftrightarrow>
     outs s = (\<lambda>_. None) \<and> ins s = (\<lambda>_. None) \<and> pcm_devices s = pcm_devices_init P \<and>
     active_routes (trace s) = {} \<and> open_pcms (trace s) = {#} \<and>
     held (trace s) = [] \<and> lock_order_ok (trace s)"

lemma same_profile_self: "pc_period_size (pp_config p) \<noteq> 0 \<Longrightarrow> same_profile p p"
  unfolding same_profile_def by (intro exI [of _ "pc_period_size (pp_config p)"]) simp

lemma fresh_op:
  assumes "usecase_list s = []" "snd_dev_ref_cnt s = replicate 39 0" "mixer_list s = [mc]" "mc_card mc = SOUND_CARD"
    and "outs s = (\<lambda>_. None)" "ins s = (\<lambda>_. None)" "pcm_devices s = pcm_devices_init P"
    and "active_routes (trace s) = {}" "open_pcms (trace s) = {#}"
    and "active_input s = None" "primary_output s = None" "\<not> in_call s" "\<not> in_call_sco s"
    and "pcm_voice_rx s = None" "pcm_voice_tx s = None" "pcm_sco_rx s = None" "pcm_sco_tx s = None"
  shows "op_inv P s"
proof -
  have z: "refs s d = 0" if "valid_dev d" for d
    using that assms(2) nth_replicate [of "nat d" 39 "0 :: int"] by (auto simp: refs_def valid_dev_def)
  have "routing_inv s"
    using assms z by (simp add: routing_inv_def ids_distinct_def cards_ok_def counts_def shared_backend_def)
  moreover have "routes_ok s"
  proof -
    have "adev_get_mixer_for_card (mixer_list s) SOUND_CARD = Some mc"
      using assms by (simp add: adev_get_mixer_for_card_def)
    moreover have "{(mc_audio_route mc, device_table ! nat d) | d. valid_dev d \<and> 0 < refs s d} = {}"
      using z by auto
    ultimately show ?thesis using assms z by (simp add: routes_ok_def)
  qed
  moreover have "profiles_ok P s"
    using assms by (simp add: profiles_ok_def pcm_devices_init_def same_profile_self
        pcm_device_playback_def pcm_device_capture_def pcm_device_playback_spk_and_headset_def
        playback_config_def pcm_config_of_def)
  ultimately have "core_inv P s"
    using assms by (simp add: core_inv_def all_on_card_def linked_def addrs_ok_def primary_ok_def streams_ok_def)
  moreover have "stream_handles s = {#}" using assms by (simp add: stream_handles_def out_pcms_def in_pcms_def)
  ultimately show ?thesis
    using assms by (simp add: op_inv_def call_ok_def calling_def sco_ok_def pcms_ok_def call_pcms_def sco_pcms_def
        input_ok_def)
qed

lemma ril_open_step:
  "boot_step s (snd (ril_open P s))" "mixer_list (snd (ril_open P s)) = mixer_list s"
  by (auto simp: ril_open_def set_client_def boot_step_def Let_def)

lemma read_voice_config_step:
  "boot_step s (read_voice_config P s)" "mixer_list (read_voice_config P s) = mixer_list s"
  by (auto simp: read_voice_config_def boot_step_def Let_def)

lemma boot_cards:
  "map pp_card (pcm_devices_init P) = SOUND_CARD # [SOUND_CARD, SOUND_CARD]"
  by (simp add: pcm_devices_init_def pcm_device_playback_def pcm_device_capture_def
      pcm_device_playback_spk_and_headset_def)

lemma adev_open_op:
  assumes boot: "boot_ok P s" and run: "adev_open P name s = (0, s')"
  shows "op_inv P s' \<and> held (trace s') = [] \<and> lock_order_ok (trace s') \<and> outs s' = (\<lambda>_. None) \<and>
    ins s' = (\<lambda>_. None) \<and> primary_output s' = None \<and> mode s' = AUDIO_MODE_NORMAL P"
proof -
  obtain p1 s1 where s1: "calloc P ''audio_device'' s = (p1, s1)" by fastforce
  define s2 where "s2 = (fresh_adev s1)\<lparr>mode := AUDIO_MODE_NORMAL P\<rparr>"
  obtain p3 s3 where s3: "calloc P ''snd_dev_ref_cnt'' s2 = (p3, s3)" by fastforce
  define s4 where "s4 = s3\<lparr>snd_dev_ref_cnt := replicate 39 0\<rparr>"
  obtain r5 s5 where s5: "mixer_init P s4 = (r5, s5)" by fastforce
  obtain r6 s6 where s6: "ril_open P s5 = (r6, s6)" by fastforce
  define s7 where "s7 = read_voice_config P s6"
  have ok: "r5 = 0" "s' = s7\<lparr>audio_device_ref_count := audio_device_ref_count s7 + 1\<rparr>"
    using run by (auto simp: Let_def adev_open_def s7_def s1 s2_def [symmetric] s3 s4_def [symmetric] s5 s6 split: if_splits)
  have t: "quiet (trace s) (trace s4)"
    using s1 s3 by (auto simp: calloc_def s4_def s2_def fresh_adev_def split: if_splits)
  have f4: "usecase_list s4 = []" "snd_dev_ref_cnt s4 = replicate 39 0" "outs s4 = (\<lambda>_. None)"
    "ins s4 = (\<lambda>_. None)" "pcm_devices s4 = pcm_devices_init P" "active_input s4 = None"
    "primary_output s4 = None" "\<not> in_call s4" "\<not> in_call_sco s4" "pcm_voice_rx s4 = None"
    "pcm_voice_tx s4 = None" "pcm_sco_rx s4 = None" "pcm_sco_tx s4 = None" "mode s4 = AUDIO_MODE_NORMAL P"
    using s1 s3 boot by (auto simp: calloc_def s4_def s2_def fresh_adev_def boot_ok_def split: if_splits)
  have cards: "map pp_card (pcm_devices s4) = SOUND_CARD # [SOUND_CARD, SOUND_CARD]"
    by (simp only: f4(5) boot_cards)
  note m = mixer_init_step [OF s5 cards]
  have "boot_step s4 s5" by (rule m(1)) simp
  also have "boot_step s5 s6" using ril_open_step(1) [of s5 P] s6 by simp
  also have "boot_step s6 s'" using read_voice_config_step(1) [of s6 P] by (simp add: ok(2) s7_def boot_step_def)
  finally have b: "boot_step s4 s'" .
  obtain mc where mc: "mixer_list s' = [mc]" "mc_card mc = SOUND_CARD"
    using m(2) ok ril_open_step(2) [of P s5] s6 read_voice_config_step(2) [of P s6] by (auto simp: s7_def)
  have q: "quiet (trace s) (trace s')" using t b quiet_trans by (auto simp: boot_step_def)
  have "op_inv P s'"
    by (rule fresh_op [OF _ _ mc]) (use b f4 q boot in \<open>simp_all add: boot_step_def boot_ok_def quiet_def\<close>)
  then show ?thesis using b f4 q boot by (simp add: boot_step_def boot_ok_def quiet_def)
qed

end
