(* ===== verification/OpOpen.thy ===== *)
theory OpOpen
  imports OpDev
begin

text \<open>
  Opening and closing streams against \<open>op_inv\<close>.  The client opens at most one output stream of
  each use case and at most one input stream, and keeps the primary output open.
\<close>

section \<open>Changing the set of streams\<close>

definition streams_only :: "hal \<Rightarrow> hal \<Rightarrow> bool" where
  "streams_only s s' \<longleftrightarrow>
     s' = s\<lparr>outs := outs s', ins := ins s', primary_output := primary_output s'\<rparr>"

lemma streams_only_fields:
  assumes "streams_only s s'"
  shows "usecase_list s' = usecase_list s" "snd_dev_ref_cnt s' = snd_dev_ref_cnt s"
    "mixer_list s' = mixer_list s" "trace s' = trace s" "next_addr s' = next_addr s"
    "pcm_devices s' = pcm_devices s" "in_call s' = in_call s" "active_input s' = active_input s"
    "pcm_voice_rx s' = pcm_voice_rx s" "pcm_voice_tx s' = pcm_voice_tx s"
    "pcm_sco_rx s' = pcm_sco_rx s" "pcm_sco_tx s' = pcm_sco_tx s" "in_call_sco s' = in_call_sco s"
    "mode s' = mode s"
proof -
  obtain os ns p where s': "s' = s\<lparr>outs := os, ins := ns, primary_output := p\<rparr>"
    using assms unfolding streams_only_def by metis
  show "usecase_list s' = usecase_list s" "snd_dev_ref_cnt s' = snd_dev_ref_cnt s"
    "mixer_list s' = mixer_list s" "trace s' = trace s" "next_addr s' = next_addr s"
    "pcm_devices s' = pcm_devices s" "in_call s' = in_call s" "active_input s' = active_input s"
    "pcm_voice_rx s' = pcm_voice_rx s" "pcm_voice_tx s' = pcm_voice_tx s"
    "pcm_sco_rx s' = pcm_sco_rx s" "pcm_sco_tx s' = pcm_sco_tx s" "in_call_sco s' = in_call_sco s"
    "mode s' = mode s"
    by (simp_all add: s')
qed

lemma core_inv_streams:
  assumes c: "core_inv P s" and so: "streams_only s s'"
    and "linked s'" "addrs_ok s'" "primary_ok s'" "streams_ok s'"
  shows "core_inv P s'"
proof -
  note f = streams_only_fields [OF so]
  have "routing_inv s'"
    using c f by (simp add: core_inv_def routing_inv_def ids_distinct_def cards_ok_def counts_def
        refs_def shared_backend_def)
  moreover have "all_on_card s'" "routes_ok s'" "profiles_ok P s'"
    using c f routes_ok_cong [of s' s] by (simp_all add: core_inv_def all_on_card_def profiles_ok_def)
  ultimately show ?thesis using assms by (simp add: core_inv_def)
qed

lemma op_inv_streams:
  assumes op: "op_inv P s" and so: "streams_only s s'" and c: "core_inv P s'"
    and o: "\<And>b x. outs s' b = Some x \<Longrightarrow> out_ok P s b x" and i: "\<And>b x. ins s' b = Some x \<Longrightarrow> in_ok P s b x"
    and ip: "\<And>a. ins s a \<noteq> None \<Longrightarrow> active_input s = Some a \<Longrightarrow> ins s' a \<noteq> None"
    and pcms: "\<And>b. out_pcms s' b = out_pcms s b" "\<And>b. in_pcms s' b = in_pcms s b"
  shows "op_inv P s'"
proof -
  note f = streams_only_fields [OF so]
  have act: "active s' = active s" "calling s' = calling s" using active_frame [of s' s] f(1) by simp_all
  have "stream_handles s' = stream_handles s"
    using op f(5) pcms by (intro stream_handles_cong) (simp_all add: op_inv_def core_inv_def)
  then have "pcms_ok s'" using op f by (simp add: op_inv_def pcms_ok_def call_pcms_def sco_pcms_def)
  moreover have "call_ok s'" using op f act by (simp add: op_inv_def call_ok_def sco_ok_def)
  moreover have "out_ok P s' b x" if "outs s' b = Some x" for b x
    using o [OF that] act by (simp add: out_ok_def)
  moreover have "in_ok P s' b x" if "ins s' b = Some x" for b x
    using i [OF that] act f by (simp add: in_ok_def)
  moreover have "input_ok s'" using op f(8) ip by (simp add: op_inv_def input_ok_def)
  ultimately show ?thesis using c by (simp add: op_inv_def)
qed

text \<open>No use case belongs to an address at which there is no stream.\<close>

lemma inactive_nowhere:
  assumes c: "core_inv P s"
  shows "outs s a = None \<Longrightarrow> \<not> active s PCM_PLAYBACK (OutRef a)"
    and "ins s a = None \<Longrightarrow> \<not> active s PCM_CAPTURE (InRef a)"
proof -
  have l: "uc_linked s u" if "u \<in> set (usecase_list s)" for u
    using c that by (simp add: core_inv_def linked_def)
  show "\<not> active s PCM_PLAYBACK (OutRef a)" if "outs s a = None"
    using l that by (fastforce simp: active_def uc_linked_simps)
  show "\<not> active s PCM_CAPTURE (InRef a)" if "ins s a = None"
    using l that by (fastforce simp: active_def uc_linked_simps)
qed

lemma linked_more:
  assumes l: "linked s" and so: "streams_only s s'"
    and o: "\<And>b x. outs s b = Some x \<Longrightarrow> outs s' b = Some x"
    and i: "\<And>b x. ins s b = Some x \<Longrightarrow> ins s' b = Some x"
    and p: "primary_output s \<noteq> None \<Longrightarrow> primary_output s' = primary_output s"
  shows "linked s'"
  unfolding linked_def
proof
  fix u assume "u \<in> set (usecase_list s')"
  then have u: "uc_linked s u" using l streams_only_fields(1) [OF so] by (simp add: linked_def)
  show "uc_linked s' u"
    using u o i p by (cases "uc_type u") (auto simp: uc_linked_simps; blast)+
qed

section \<open>A new output stream\<close>

lemma op_inv_new_out:
  assumes op: "op_inv P s" and a: "outs s a = None" "ins s a = None" "a < next_addr s"
    and x: "so_standby x" "so_pcm_dev_list x = None" "supported P PCM_PLAYBACK (so_devices x)"
      "pc_channels (so_config x) = 2" "so_sample_rate x \<noteq> 0" "so_channel_mask x = AUDIO_CHANNEL_OUT_STEREO P"
      "so_usecase x \<in> {USECASE_AUDIO_PLAYBACK, USECASE_AUDIO_PLAYBACK_DEEP_BUFFER}"
    and new: "\<And>b y. outs s b = Some y \<Longrightarrow> so_usecase y \<noteq> so_usecase x"
    and p: "p = primary_output s \<or> primary_output s = None \<and> p = Some a"
  shows "op_inv P (s\<lparr>outs := (outs s)(a \<mapsto> x), primary_output := p\<rparr>)" (is "op_inv P ?s")
proof (rule op_inv_streams [OF op])
  have c: "core_inv P s" using op by (simp add: op_inv_def)
  show so: "streams_only s ?s" by (simp add: streams_only_def)
  show "core_inv P ?s"
  proof (rule core_inv_streams [OF c so])
    show "linked ?s" using c a p by (intro linked_more [OF _ so]) (auto simp: core_inv_def)
    show "addrs_ok ?s" using c a by (simp add: core_inv_def addrs_ok_def)
    show "primary_ok ?s" using c p by (auto simp: core_inv_def primary_ok_def)
    have "streams_ok s" using c by (simp add: core_inv_def)
    then show "streams_ok ?s" using x(7) new unfolding streams_ok_def by (auto split: if_splits)
  qed
  show "out_ok P s b y" if "outs ?s b = Some y" for b y
  proof (cases "b = a")
    case True
    then have "y = x" using that by simp
    then show ?thesis using True x inactive_nowhere(1) [OF c a(1)] by (simp add: out_ok_def idle_list_def)
  next
    case False
    then show ?thesis using that op by (simp add: op_inv_def)
  qed
  show "in_ok P s b y" if "ins ?s b = Some y" for b y using that op by (simp add: op_inv_def)
  show "out_pcms ?s b = out_pcms s b" for b
    using a x by (simp add: out_pcms_def stream_pcms_def)
  show "in_pcms ?s b = in_pcms s b" for b by (simp add: in_pcms_def)
qed simp

lemma supported_here:
  assumes "op_inv P s"
  shows "supported P ty dv \<longleftrightarrow> get_pcm_device P (pcm_devices s) ty dv \<noteq> None"
  using get_pcm_device_profiles [of P s ty dv] assms by (simp add: supported_def op_inv_def core_inv_def)

text \<open>The profiles of the source play and capture two channels at 48 kHz.\<close>

lemma profile_config:
  assumes op: "op_inv P s" and k: "get_pcm_device P (pcm_devices s) ty dv = Some k"
  shows "pc_channels (pp_config (pcm_devices s ! k)) = 2" "pc_rate (pp_config (pcm_devices s ! k)) = 48000"
    "pc_period_size (pp_config (pcm_devices s ! k)) \<noteq> 0"
proof -
  have l: "list_all2 same_profile (pcm_devices s) (pcm_devices_init P)"
    using op by (simp add: op_inv_def core_inv_def profiles_ok_def)
  have "k < length (pcm_devices s)" by (rule get_pcm_device_SomeD(1) [OF k])
  then have sp: "same_profile (pcm_devices s ! k) (pcm_devices_init P ! k)" and "k < 3"
    using l by (auto simp: list_all2_conv_all_nth pcm_devices_init_def)
  then have "k = 0 \<or> k = 1 \<or> k = 2" by linarith
  then have "pc_channels (pp_config (pcm_devices_init P ! k)) = 2"
    "pc_rate (pp_config (pcm_devices_init P ! k)) = 48000"
    by (auto simp: pcm_devices_init_def pcm_device_playback_def pcm_device_capture_def
        pcm_device_playback_spk_and_headset_def playback_config_def pcm_config_of_def)
  then show "pc_channels (pp_config (pcm_devices s ! k)) = 2" "pc_rate (pp_config (pcm_devices s ! k)) = 48000"
    "pc_period_size (pp_config (pcm_devices s ! k)) \<noteq> 0"
    using sp by (auto simp: same_profile_def)
qed

text \<open>The use case that \<open>adev_open_output_stream\<close> gives a stream.\<close>

definition usecase_of_flags :: "platform \<Rightarrow> u32 \<Rightarrow> audio_usecase_t" where
  "usecase_of_flags P flags =
     (if has_bits flags (AUDIO_OUTPUT_FLAG_DEEP_BUFFER P) then USECASE_AUDIO_PLAYBACK_DEEP_BUFFER
      else USECASE_AUDIO_PLAYBACK)"

definition out_usecase_open :: "hal \<Rightarrow> audio_usecase_t \<Rightarrow> bool" where
  "out_usecase_open s uid \<longleftrightarrow> (\<exists>b x. outs s b = Some x \<and> so_usecase x = uid)"

lemma playback_not_listed:
  assumes c: "core_inv P s" and new: "\<not> out_usecase_open s uid"
    and uid: "uid \<in> {USECASE_AUDIO_PLAYBACK, USECASE_AUDIO_PLAYBACK_DEEP_BUFFER}"
  shows "get_usecase_from_id (usecase_list s) uid = None"
proof (rule ccontr)
  assume "get_usecase_from_id (usecase_list s) uid \<noteq> None"
  then obtain u where u: "u \<in> set (usecase_list s)" "uc_id u = uid"
    using usecases.lookup_SomeD by blast
  have l: "uc_linked s u" and so: "streams_ok s" using c u(1) by (simp_all add: core_inv_def linked_def)
  show False
    using l so u(2) new uid by (cases "uc_type u") (force simp: uc_linked_simps out_usecase_open_def streams_ok_def)+
qed

lemma unallocated:
  assumes "op_inv P s" "next_addr s \<le> a"
  shows "outs s a = None" "ins s a = None"
proof -
  have "addrs_ok s" using assms(1) by (simp add: op_inv_def core_inv_def)
  then show "outs s a = None" "ins s a = None"
    using assms(2) by (auto simp: addrs_ok_def)
qed

text \<open>What opening does when memory and a profile can be had and the use case is free.\<close>

definition opened_output ::
  "platform \<Rightarrow> int \<Rightarrow> u32 \<Rightarrow> u32 \<Rightarrow> u32 \<Rightarrow> hal \<Rightarrow> nat \<Rightarrow> stream_out" where
  "opened_output P handle dv flags format s k =
     new_stream_out P handle dv flags format (usecase_of_flags P flags)
       (if has_bits flags (AUDIO_OUTPUT_FLAG_DEEP_BUFFER P) then pp_config (pcm_device_deep_buffer P)
        else pp_config (pcm_devices s ! k))"

lemma open_output_eq:
  fixes devices :: u32
  assumes P: "sound P" and op: "op_inv P s" and new: "\<not> out_usecase_open s (usecase_of_flags P flags)"
  defines "s1 \<equiv> emit (Calloc ''stream_out'') (s\<lparr>next_addr := next_addr s + 1\<rparr>)"
    and "dv \<equiv> if devices = AUDIO_DEVICE_NONE P then AUDIO_DEVICE_OUT_SPEAKER P else devices"
    and "primary \<equiv> has_bits flags (AUDIO_OUTPUT_FLAG_PRIMARY P)" and "b \<equiv> next_addr s"
  shows "adev_open_output_stream P handle devices flags format s =
    (case get_pcm_device P (pcm_devices s) PCM_PLAYBACK dv of
       None \<Rightarrow> (- EINVAL, None, s1)
     | Some k \<Rightarrow>
         (if primary \<and> primary_output s \<noteq> None then (- EEXIST, None, s1)
          else (0, Some b, (unlock AdevLock (lock AdevLock s1))
            \<lparr>outs := (outs s)(b \<mapsto> opened_output P handle dv flags format s k),
             primary_output := (if primary then Some b else primary_output s)\<rparr>)))"
proof -
  have call: "calloc P ''stream_out'' s = (Some b, s1)"
    using P by (simp add: sound_def healthy_calloc s1_def b_def)
  have pd: "pcm_devices s1 = pcm_devices s" "primary_output s1 = primary_output s" by (simp_all add: s1_def)
  define s2 where "s2 = (if primary then s1\<lparr>primary_output := Some b\<rparr> else s1)"
  have "usecase_list (lock AdevLock s2) = usecase_list s" by (simp add: s2_def s1_def lock_defs)
  moreover have "usecase_of_flags P flags \<in> {USECASE_AUDIO_PLAYBACK, USECASE_AUDIO_PLAYBACK_DEEP_BUFFER}"
    by (simp add: usecase_of_flags_def)
  ultimately have free: "get_usecase_from_id (usecase_list (lock AdevLock s2)) (usecase_of_flags P flags) = None"
    using playback_not_listed [OF op_fields(1) [OF op] new] by simp
  show ?thesis
  proof (cases "get_pcm_device P (pcm_devices s) PCM_PLAYBACK dv")
    case None
    then show ?thesis by (simp add: adev_open_output_stream_def call dv_def pd split: if_splits)
  next
    case (Some k)
    then show ?thesis
      using free
      by (cases "primary \<and> primary_output s \<noteq> None"; cases primary; cases "has_bits flags (AUDIO_OUTPUT_FLAG_DEEP_BUFFER P)")
        (simp_all add: adev_open_output_stream_def call dv_def [symmetric] primary_def [symmetric] pd
          s2_def usecase_of_flags_def opened_output_def Let_def lock_defs emit_def s1_def)
  qed
qed

lemma open_output_op:
  assumes P: "sound P" and op: "op_inv P s" and new: "\<not> out_usecase_open s (usecase_of_flags P flags)"
    and run: "adev_open_output_stream P handle devices flags format s = (r, p, s')"
  shows "op_inv P s'" "lock_neutral s s'" "ins s' = ins s" "mode s' = mode s"
    and "p = None \<Longrightarrow> r < 0 \<and> outs s' = outs s \<and> primary_output s' = primary_output s"
    and "p = Some a \<Longrightarrow> r = 0 \<and> outs s a = None \<and>
      (\<exists>x. outs s' = (outs s)(a \<mapsto> x) \<and> so_standby x \<and> so_pcm_dev_list x = None \<and>
         so_usecase x = usecase_of_flags P flags) \<and>
      primary_output s' = (if has_bits flags (AUDIO_OUTPUT_FLAG_PRIMARY P) then Some a else primary_output s)"
proof -
  define b where "b = next_addr s"
  define s1 where "s1 = emit (Calloc ''stream_out'') (s\<lparr>next_addr := next_addr s + 1\<rparr>)"
  define dv where "dv = (if devices = AUDIO_DEVICE_NONE P then AUDIO_DEVICE_OUT_SPEAKER P else devices)"
  define primary where "primary = has_bits flags (AUDIO_OUTPUT_FLAG_PRIMARY P)"
  note eq = open_output_eq [OF P op new, of handle devices format, folded s1_def dv_def primary_def b_def]
  have "op_same P s s1" by (simp add: s1_def op_same_def core_same_def profiles_ok_def)
  then have op1: "op_inv P s1" by (rule op_inv_same [OF op])
  have s1: "outs s1 = outs s" "ins s1 = ins s" "primary_output s1 = primary_output s" "mode s1 = mode s"
    "lock_neutral s s1" "b < next_addr s1" "pcm_devices s1 = pcm_devices s"
    by (simp_all add: s1_def lock_neutral_def b_def)
  have nb: "outs s b = None" "ins s b = None" using unallocated [OF op, of b] by (simp_all add: b_def)
  let ?goal = "op_inv P s' \<and> lock_neutral s s' \<and> ins s' = ins s \<and> mode s' = mode s \<and>
    (p = None \<longrightarrow> r < 0 \<and> outs s' = outs s \<and> primary_output s' = primary_output s) \<and>
    (\<forall>a. p = Some a \<longrightarrow> r = 0 \<and> outs s a = None \<and>
      (\<exists>x. outs s' = (outs s)(a \<mapsto> x) \<and> so_standby x \<and> so_pcm_dev_list x = None \<and>
         so_usecase x = usecase_of_flags P flags) \<and>
      primary_output s' = (if primary then Some a else primary_output s))"
  consider "s' = s1" "p = None" "r < 0"
    | k where "get_pcm_device P (pcm_devices s) PCM_PLAYBACK dv = Some k" "\<not> (primary \<and> primary_output s \<noteq> None)"
      "r = 0" "p = Some b" "s' = (unlock AdevLock (lock AdevLock s1))
            \<lparr>outs := (outs s)(b \<mapsto> opened_output P handle dv flags format s k),
             primary_output := (if primary then Some b else primary_output s)\<rparr>"
    using run unfolding eq by (auto split: option.splits if_splits)
  then have ?goal
  proof cases
    case 1
    then show ?thesis using op1 s1 by simp
  next
    case 2
    define t where "t = unlock AdevLock (lock AdevLock s1)"
    define x where "x = opened_output P handle dv flags format s k"
    have op3: "op_inv P t" using op1 by (auto simp: t_def)
    have sup: "supported P PCM_PLAYBACK dv" using 2(1) supported_here [OF op] by simp
    have x: "so_usecase x = usecase_of_flags P flags" "so_standby x" "so_pcm_dev_list x = None"
      "so_devices x = dv" "pc_channels (so_config x) = 2" "pc_rate (so_config x) = 48000"
      using profile_config [OF op 2(1)]
      by (simp_all add: x_def opened_output_def new_stream_out_def pcm_device_deep_buffer_def pcm_config_of_def)
    have s': "s' = t\<lparr>outs := (outs t)(b \<mapsto> x), primary_output := (if primary then Some b else primary_output s1)\<rparr>"
      using s1 by (simp add: 2(5) t_def x_def)
    have "op_inv P s'"
      unfolding s'
    proof (rule op_inv_new_out [OF op3])
      show "so_usecase x \<in> {USECASE_AUDIO_PLAYBACK, USECASE_AUDIO_PLAYBACK_DEEP_BUFFER}"
        by (simp add: x usecase_of_flags_def)
      show "so_usecase y \<noteq> so_usecase x" if "outs t c = Some y" for c y
        using that new s1(1) by (auto simp: out_usecase_open_def x t_def)
    qed (use 2(2) nb s1 sup x in \<open>auto simp: t_def lock_defs x_def opened_output_def new_stream_out_def\<close>)
    moreover have "lock_neutral s s'" using s1(5) by (simp add: s' t_def lock_simps)
    ultimately show ?thesis using 2(2-4) s1 nb x by (auto simp: s' t_def)
  qed
  then show "op_inv P s'" "lock_neutral s s'" "ins s' = ins s" "mode s' = mode s"
    and "p = None \<Longrightarrow> r < 0 \<and> outs s' = outs s \<and> primary_output s' = primary_output s"
    and "p = Some a \<Longrightarrow> r = 0 \<and> outs s a = None \<and>
      (\<exists>x. outs s' = (outs s)(a \<mapsto> x) \<and> so_standby x \<and> so_pcm_dev_list x = None \<and>
         so_usecase x = usecase_of_flags P flags) \<and>
      primary_output s' = (if has_bits flags (AUDIO_OUTPUT_FLAG_PRIMARY P) then Some a else primary_output s)"
    unfolding primary_def by blast+
qed

section \<open>Closing an output stream\<close>

lemma linked_without_out:
  assumes l: "linked s" and so: "streams_only s s'" and ins: "ins s' = ins s"
    and p: "primary_output s' = primary_output s"
    and o: "outs s' = (outs s)(a := None)" and idle: "\<not> active s PCM_PLAYBACK (OutRef a)"
  shows "linked s'"
  unfolding linked_def
proof
  fix u assume "u \<in> set (usecase_list s')"
  then have u: "u \<in> set (usecase_list s)" "uc_linked s u"
    using l streams_only_fields(1) [OF so] by (simp_all add: linked_def)
  have "uc_stream u \<noteq> OutRef a" if "uc_type u = PCM_PLAYBACK"
    using idle u(1) that by (auto simp: active_def)
  then show "uc_linked s' u"
    using u(2) o ins p by (cases "uc_type u") (auto simp: uc_linked_simps)
qed

lemma op_inv_close_out:
  assumes op: "op_inv P s" and a: "outs s a = Some x" "so_standby x" and p: "primary_output s \<noteq> Some a"
  shows "op_inv P (s\<lparr>outs := (outs s)(a := None)\<rparr>)" (is "op_inv P ?s")
proof (rule op_inv_streams [OF op])
  have c: "core_inv P s" and ok: "out_ok P s a x" using op a by (simp_all add: op_inv_def)
  have idle: "\<not> active s PCM_PLAYBACK (OutRef a)" "stream_pcms (so_pcm_dev_list x) = {#}"
    using ok a(2) by (auto simp: out_ok_def idle_list_def stream_pcms_def list_pcms_def)
  show so: "streams_only s ?s" by (simp add: streams_only_def)
  show "core_inv P ?s"
  proof (rule core_inv_streams [OF c so])
    show "linked ?s" using c by (intro linked_without_out [OF _ so _ _ _ idle(1)]) (simp_all add: core_inv_def)
    show "addrs_ok ?s" using c by (simp add: core_inv_def addrs_ok_def)
    show "primary_ok ?s" using c p by (simp add: core_inv_def primary_ok_def)
    have "streams_ok s" using c by (simp add: core_inv_def)
    then show "streams_ok ?s" unfolding streams_ok_def by (auto split: if_splits)
  qed
  show "out_ok P s b y" if "outs ?s b = Some y" for b y
    using that op by (simp add: op_inv_def split: if_splits)
  show "in_ok P s b y" if "ins ?s b = Some y" for b y using that op by (simp add: op_inv_def)
  show "out_pcms ?s b = out_pcms s b" for b using a idle by (simp add: out_pcms_def)
  show "in_pcms ?s b = in_pcms s b" for b by (simp add: in_pcms_def)
qed simp

lemma close_output_op:
  assumes op: "op_inv P s" and a: "outs s a = Some x" and p: "primary_output s \<noteq> Some a"
  shows "wp (adev_close_output_stream a s) (\<lambda>s'. op_inv P s' \<and> lock_neutral s s' \<and> ins s' = ins s \<and>
    outs s' = (outs s)(a := None) \<and> primary_output s' = primary_output s \<and> mode s' = mode s)"
proof -
  obtain s1 where s1: "out_standby a s = Some (0, s1)" "op_inv P s1" "lock_neutral s s1" "rest_same s s1"
    "ins s1 = ins s" "outs s1 = (outs s)(a \<mapsto> standby_out x)"
    using out_standby_op [OF op a] by (auto simp: wp_exists)
  have eq: "primary_output s1 = primary_output s" "mode s1 = mode s" using s1(4) by (simp_all add: rest_same_def)
  have "op_inv P (s1\<lparr>outs := (outs s1)(a := None)\<rparr>)"
    using s1 p eq by (intro op_inv_close_out [where x = "standby_out x"]) (simp_all add: standby_out_def)
  then show ?thesis
    using s1 eq by (simp add: adev_close_output_stream_def lock_neutral_def)
qed

section \<open>Input streams\<close>

lemma op_inv_new_in:
  assumes op: "op_inv P s" and a: "outs s a = None" "ins s a = None" "a < next_addr s"
    and x: "si_standby x" "si_pcm_dev_list x = None" "si_requested_rate x \<noteq> 0"
      "0 < audio_channel_count_from_in_mask P (si_main_channels x)"
      "si_usecase x = USECASE_AUDIO_CAPTURE" "si_usecase_type x = PCM_CAPTURE"
    and new: "\<And>b. ins s b = None"
  shows "op_inv P (s\<lparr>ins := (ins s)(a \<mapsto> x)\<rparr>)" (is "op_inv P ?s")
proof (rule op_inv_streams [OF op])
  have c: "core_inv P s" using op by (simp add: op_inv_def)
  show so: "streams_only s ?s" by (simp add: streams_only_def)
  show "core_inv P ?s"
  proof (rule core_inv_streams [OF c so])
    show "linked ?s" using c a by (intro linked_more [OF _ so]) (auto simp: core_inv_def)
    show "addrs_ok ?s" using c a by (simp add: core_inv_def addrs_ok_def)
    show "primary_ok ?s" using c by (auto simp: core_inv_def primary_ok_def)
    have "streams_ok s" using c by (simp add: core_inv_def)
    then show "streams_ok ?s" using x new unfolding streams_ok_def by (auto split: if_splits)
  qed
  show "out_ok P s b y" if "outs ?s b = Some y" for b y using that op by (simp add: op_inv_def)
  show "in_ok P s b y" if "ins ?s b = Some y" for b y
  proof -
    have "b = a" "y = x" using that new by (auto split: if_splits)
    moreover have "active_input s \<noteq> Some a" using op a(2) by (auto simp: op_inv_def input_ok_def)
    ultimately show ?thesis
      using x inactive_nowhere(2) [OF c a(2)] by (simp add: in_ok_def idle_list_def)
  qed
  show "out_pcms ?s b = out_pcms s b" for b by (simp add: out_pcms_def)
  show "in_pcms ?s b = in_pcms s b" for b
    using a x by (simp add: in_pcms_def stream_pcms_def)
qed simp

lemma input_parameters_ok:
  "check_input_parameters P rate format (int n) = 0 \<Longrightarrow> rate \<noteq> 0 \<and> 0 < n"
  by (auto simp: check_input_parameters_def split: if_splits)

lemma open_input_op:
  assumes P: "sound P" and op: "op_inv P s" and new: "\<And>b. ins s b = None"
    and run: "adev_open_input_stream P devices rate format chmask flags source s = (r, p, s')"
  shows "op_inv P s'" "lock_neutral s s'" "outs s' = outs s" "mode s' = mode s"
    "primary_output s' = primary_output s"
    and "p = None \<Longrightarrow> r < 0 \<and> ins s' = ins s"
    and "p = Some a \<Longrightarrow> r = 0 \<and> (\<exists>x. ins s' = (ins s)(a \<mapsto> x) \<and> si_standby x)"
proof -
  define b where "b = next_addr s"
  define s1 where "s1 = emit (Calloc ''stream_in'') (s\<lparr>next_addr := next_addr s + 1\<rparr>)"
  define fl where "fl = (if rate \<noteq> CAPTURE_DEFAULT_SAMPLING_RATE then flags AND NOT (AUDIO_INPUT_FLAG_FAST P) else flags)"
  have "op_same P s s1" by (simp add: s1_def op_same_def core_same_def profiles_ok_def)
  then have op1: "op_inv P s1" by (rule op_inv_same [OF op])
  have s1: "outs s1 = outs s" "ins s1 = ins s" "primary_output s1 = primary_output s" "mode s1 = mode s"
    "lock_neutral s s1" "b < next_addr s1" "active_input s1 = active_input s"
    by (simp_all add: s1_def lock_neutral_def b_def)
  have call: "calloc P ''stream_in'' s = (Some b, s1)"
    using P by (simp add: sound_def healthy_calloc s1_def b_def)
  let ?goal = "op_inv P s' \<and> lock_neutral s s' \<and> outs s' = outs s \<and> mode s' = mode s \<and>
    primary_output s' = primary_output s \<and> (p = None \<longrightarrow> r < 0 \<and> ins s' = ins s) \<and>
    (\<forall>a. p = Some a \<longrightarrow> r = 0 \<and> (\<exists>x. ins s' = (ins s)(a \<mapsto> x) \<and> si_standby x))"
  have ?goal
  proof (cases "check_input_parameters P rate format (int (audio_channel_count_from_in_mask P chmask)) \<noteq> 0 \<or>
      get_pcm_device P (pcm_devices s) PCM_CAPTURE devices = None")
    case True
    then have "r = - EINVAL \<and> p = None \<and> s' = s"
      using run by (auto simp: adev_open_input_stream_def split: if_splits)
    then show ?thesis using op by (simp add: lock_neutral_def)
  next
    case False
    then obtain k where k: "get_pcm_device P (pcm_devices s) PCM_CAPTURE devices = Some k" by auto
    define x where "x = new_stream_in source devices chmask rate fl (pp_config (pcm_devices s1 ! k))"
    have ok: "rate \<noteq> 0 \<and> 0 < audio_channel_count_from_in_mask P chmask"
      using False input_parameters_ok [of P rate format "audio_channel_count_from_in_mask P chmask"] by simp
    have s': "r = 0 \<and> p = Some b \<and> s' = s1\<lparr>ins := (ins s1)(b \<mapsto> x)\<rparr>"
      using run False k by (auto simp: adev_open_input_stream_def call fl_def x_def Let_def split: if_splits)
    have "op_inv P (s1\<lparr>ins := (ins s1)(b \<mapsto> x)\<rparr>)"
      using s1 ok new unallocated [OF op, of b]
      by (intro op_inv_new_in [OF op1]) (simp_all add: x_def new_stream_in_def b_def)
    then show ?thesis
      using s' s1 by (auto simp: x_def new_stream_in_def lock_neutral_def)
  qed
  then show "op_inv P s'" "lock_neutral s s'" "outs s' = outs s" "mode s' = mode s"
    "primary_output s' = primary_output s"
    and "p = None \<Longrightarrow> r < 0 \<and> ins s' = ins s"
    and "p = Some a \<Longrightarrow> r = 0 \<and> (\<exists>x. ins s' = (ins s)(a \<mapsto> x) \<and> si_standby x)"
    by blast+
qed

lemma op_inv_close_in:
  assumes op: "op_inv P s" and a: "ins s a = Some x" "si_standby x"
  shows "op_inv P (s\<lparr>ins := (ins s)(a := None)\<rparr>)" (is "op_inv P ?s")
proof (rule op_inv_streams [OF op])
  have c: "core_inv P s" and ok: "in_ok P s a x" using op a by (simp_all add: op_inv_def)
  have idle: "\<not> active s PCM_CAPTURE (InRef a)" "stream_pcms (si_pcm_dev_list x) = {#}" "active_input s \<noteq> Some a"
    using ok a(2) by (auto simp: in_ok_def idle_list_def stream_pcms_def list_pcms_def)
  show so: "streams_only s ?s" by (simp add: streams_only_def)
  show "core_inv P ?s"
  proof (rule core_inv_streams [OF c so])
    have "uc_linked ?s u" if u: "u \<in> set (usecase_list s)" for u
    proof -
      have "uc_linked s u" using c u by (simp add: core_inv_def linked_def)
      moreover have "uc_stream u \<noteq> InRef a" if "uc_type u = PCM_CAPTURE"
        using idle(1) u that by (auto simp: active_def)
      ultimately show ?thesis by (cases "uc_type u") (auto simp: uc_linked_simps)
    qed
    then show "linked ?s" by (simp add: linked_def)
    show "addrs_ok ?s" using c by (simp add: core_inv_def addrs_ok_def)
    show "primary_ok ?s" using c by (simp add: core_inv_def primary_ok_def)
    have "streams_ok s" using c by (simp add: core_inv_def)
    then show "streams_ok ?s" unfolding streams_ok_def by (auto split: if_splits)
  qed
  show "out_ok P s b y" if "outs ?s b = Some y" for b y using that op by (simp add: op_inv_def)
  show "in_ok P s b y" if "ins ?s b = Some y" for b y
    using that op by (simp add: op_inv_def split: if_splits)
  show "out_pcms ?s b = out_pcms s b" for b by (simp add: out_pcms_def)
  show "in_pcms ?s b = in_pcms s b" for b using a idle by (simp add: in_pcms_def)
  show "ins ?s b \<noteq> None" if "ins s b \<noteq> None" "active_input s = Some b" for b
    using that idle(3) by auto
qed

lemma close_input_op:
  assumes op: "op_inv P s" and a: "ins s a = Some x" and h: "held (trace s) = []"
  shows "wp (adev_close_input_stream a s) (\<lambda>s'. op_inv P s' \<and> lock_neutral s s' \<and> outs s' = outs s \<and>
    ins s' = (ins s)(a := None) \<and> primary_output s' = primary_output s \<and> mode s' = mode s)"
proof -
  define s0 where "s0 = lock LockInputs s"
  have s0: "op_inv P s0" "ins s0 a = Some x" "held (trace s0) = [LockInputs]" "rest_same s s0"
    using op a h by (auto simp: s0_def held_locks) (simp add: lock_defs rest_same_def)
  obtain s1 where s1: "in_standby_l a s0 = Some (0, s1)" "op_inv P s1" "locks_same s0 s1" "rest_same s0 s1"
    "outs s1 = outs s0" "ins s1 = (ins s0)(a \<mapsto> standby_in x)"
    using in_standby_l_op [OF s0(1-3)] by (auto simp: wp_exists)
  have eq: "primary_output s1 = primary_output s" "mode s1 = mode s"
    using s1(4) s0(4) by (simp_all add: rest_same_def)
  have "op_inv P (s1\<lparr>ins := (ins s1)(a := None)\<rparr>)"
    using s1 by (intro op_inv_close_in [where x = "standby_in x"]) (simp_all add: standby_in_def)
  then have "op_inv P (unlock LockInputs (s1\<lparr>ins := (ins s1)(a := None)\<rparr>))" by auto
  moreover have "lock_neutral s (unlock LockInputs (s1\<lparr>ins := (ins s1)(a := None)\<rparr>))"
    using s1(3) h by (auto simp: lock_simps s0_def)
  ultimately show ?thesis
    using s1 eq by (simp add: adev_close_input_stream_def s0_def)
qed

end
