(* ===== verification/Reach.thy ===== *)
theory Reach
  imports Boot OpOpen
begin

text \<open>
  The device as its client drives it: the calls of the HAL interface as one type, what the client
  may call when (\<open>allowed\<close>), the invariant between calls (\<open>dev_inv\<close>), and the states that can be
  reached from a successful \<open>adev_open\<close>.
\<close>

section \<open>The calls of the interface\<close>

datatype api_call =
    OutStandby nat
  | OutSetParameters nat string
  | OutSetVolume nat f32 f32
  | OutWrite nat "frame list" nat
  | OutGetPresentationPosition nat
  | InStandby nat
  | InSetParameters nat string
  | InRead nat nat
  | InGetCapturePosition nat
  | SetVoiceVolume f32
  | SetMode int
  | SetMicMute bool
  | SetParameters string
  | OpenOutputStream int u32 u32 u32
  | CloseOutputStream nat
  | OpenInputStream u32 u32 u32 u32 u32 int
  | CloseInputStream nat
  | WbAmrMessage nat int
  | ClockMessage nat int

definition run_call :: "platform \<Rightarrow> api_call \<Rightarrow> hal \<Rightarrow> hal option" where
  "run_call P c s =
     (case c of
        OutStandby a \<Rightarrow> map_option snd (out_standby a s)
      | OutSetParameters a kv \<Rightarrow> map_option snd (out_set_parameters P a kv s)
      | OutSetVolume a l r \<Rightarrow> map_option snd (out_set_volume l r a s)
      | OutWrite a buffer n \<Rightarrow> map_option snd (out_write P a buffer n s)
      | OutGetPresentationPosition a \<Rightarrow> map_option snd (out_get_presentation_position P a s)
      | InStandby a \<Rightarrow> map_option snd (in_standby a s)
      | InSetParameters a kv \<Rightarrow> map_option snd (in_set_parameters P a kv s)
      | InRead a n \<Rightarrow> map_option snd (in_read P a n s)
      | InGetCapturePosition a \<Rightarrow> map_option snd (in_get_capture_position P a s)
      | SetVoiceVolume v \<Rightarrow> map_option snd (adev_set_voice_volume P v s)
      | SetMode m \<Rightarrow> map_option snd (adev_set_mode P m s)
      | SetMicMute b \<Rightarrow> Some (snd (adev_set_mic_mute P b s))
      | SetParameters kv \<Rightarrow> Some (snd (adev_set_parameters P kv s))
      | OpenOutputStream handle devices flags format \<Rightarrow>
          Some (snd (snd (adev_open_output_stream P handle devices flags format s)))
      | CloseOutputStream a \<Rightarrow> adev_close_output_stream a s
      | OpenInputStream devices rate format chmask flags source \<Rightarrow>
          Some (snd (snd (adev_open_input_stream P devices rate format chmask flags source s)))
      | CloseInputStream a \<Rightarrow> adev_close_input_stream a s
      | WbAmrMessage n v \<Rightarrow> Some (snd (ril_internal_wb_amr_callback n v s))
      | ClockMessage n v \<Rightarrow> Some (snd (ril_internal_pcm_clock_callback n v s)))"

text \<open>
  What the client promises.  It uses the streams it has opened; it routes output to devices that
  some profile of the source covers; it opens one stream of each kind and keeps the primary
  output; it has a primary output when it sets the volume of a call; and it asks for positions of
  streams that have been started.
\<close>

definition allowed :: "platform \<Rightarrow> hal \<Rightarrow> api_call \<Rightarrow> bool" where
  "allowed P s c =
     (case c of
        OutStandby a \<Rightarrow> outs s a \<noteq> None
      | OutSetParameters a kv \<Rightarrow> outs s a \<noteq> None \<and>
          (case str_parms_get_str P kv AUDIO_PARAMETER_STREAM_ROUTING of
             None \<Rightarrow> True
           | Some v \<Rightarrow> atoi v = 0 \<or> supported P PCM_PLAYBACK (word_of_int (atoi v)))
      | OutSetVolume a l r \<Rightarrow> outs s a \<noteq> None
      | OutWrite a buffer n \<Rightarrow> outs s a \<noteq> None
      | OutGetPresentationPosition a \<Rightarrow> (\<exists>x. outs s a = Some x \<and> so_pcm_dev_list x \<noteq> None)
      | InStandby a \<Rightarrow> ins s a \<noteq> None
      | InSetParameters a kv \<Rightarrow> ins s a \<noteq> None
      | InRead a n \<Rightarrow> ins s a \<noteq> None
      | InGetCapturePosition a \<Rightarrow> (\<exists>x. ins s a = Some x \<and> \<not> si_standby x)
      | SetVoiceVolume v \<Rightarrow> mode s = AUDIO_MODE_IN_CALL P \<longrightarrow> primary_output s \<noteq> None
      | SetMode m \<Rightarrow> True
      | SetMicMute b \<Rightarrow> True
      | SetParameters kv \<Rightarrow> True
      | OpenOutputStream handle devices flags format \<Rightarrow> \<not> out_usecase_open s (usecase_of_flags P flags)
      | CloseOutputStream a \<Rightarrow> outs s a \<noteq> None \<and> primary_output s \<noteq> Some a
      | OpenInputStream devices rate format chmask flags source \<Rightarrow> (\<forall>b. ins s b = None)
      | CloseInputStream a \<Rightarrow> ins s a \<noteq> None
      | WbAmrMessage n v \<Rightarrow> True
      | ClockMessage n v \<Rightarrow> True)"

section \<open>The invariant between calls\<close>

definition dev_inv :: "platform \<Rightarrow> hal \<Rightarrow> bool" where
  "dev_inv P s \<longleftrightarrow> op_inv P s \<and> held (trace s) = [] \<and> lock_order_ok (trace s)"

lemma dev_inv_neutral: "dev_inv P s \<Longrightarrow> op_inv P s' \<Longrightarrow> lock_neutral s s' \<Longrightarrow> dev_inv P s'"
  by (simp add: dev_inv_def lock_neutral_def)

lemma dev_inv_same: "dev_inv P s \<Longrightarrow> op_same P s s' \<Longrightarrow> lock_neutral s s' \<Longrightarrow> dev_inv P s'"
  by (meson dev_inv_def dev_inv_neutral op_inv_same)

text \<open>The environment: the platform of \<open>sound\<close>, and what reading needs of it.\<close>

definition env_ok :: "platform \<Rightarrow> bool" where
  "env_ok P \<longleftrightarrow> sound P \<and> reads_ok P \<and> resampler_ok P"

lemma position_calls: "only_calls s (snd (position_of_devices P out ds s))"
proof (induction ds arbitrary: s)
  case (Cons d ds)
  have "only_calls s (snd (position_of_devices P out ds (emit (PcmTimestamp h) s)))" for h
    using only_calls_trans [OF only_calls_emit Cons.IH] by simp
  then show ?case using Cons.IH by (auto simp: Let_def split: option.split)
qed simp

lemma output_calls:
  assumes d: "dev_inv P s" and P: "env_ok P" and a: "outs s a = Some x"
  shows "wp (run_call P (OutStandby a) s) (dev_inv P)" "wp (run_call P (OutSetVolume a l r) s) (dev_inv P)"
    "wp (run_call P (OutWrite a buffer n) s) (dev_inv P)"
    "so_pcm_dev_list x \<noteq> None \<Longrightarrow> wp (run_call P (OutGetPresentationPosition a) s) (dev_inv P)"
    "allowed P s (OutSetParameters a kv) \<Longrightarrow> wp (run_call P (OutSetParameters a kv) s) (dev_inv P)"
proof -
  have op: "op_inv P s" and h: "held (trace s) = []" and S: "sound P"
    using d P by (simp_all add: dev_inv_def env_ok_def)
  have fin: "dev_inv P s'" if "op_inv P s'" "lock_neutral s s'" for s' by (rule dev_inv_neutral [OF d that])
  show "wp (run_call P (OutStandby a) s) (dev_inv P)"
    using out_standby_op [OF op a] fin by (auto simp: run_call_def wp_exists)
  show "wp (run_call P (OutWrite a buffer n) s) (dev_inv P)"
    using out_write_op [OF op S a h, of buffer n] fin by (auto simp: run_call_def wp_exists)
  have "op_inv P (upd_out a (\<lambda>out. out\<lparr>so_muted := f32_is_zero l\<rparr>) s)"
    using op_fields(2) [OF op a] by (intro op_upd_out [OF op a]) (simp_all add: out_ok_def)
  then show "wp (run_call P (OutSetVolume a l r) s) (dev_inv P)"
    using d a by (auto simp: run_call_def out_set_volume_def dev_inv_def)
  show "wp (run_call P (OutSetParameters a kv) s) (dev_inv P)" if "allowed P s (OutSetParameters a kv)"
  proof -
    have "supported P PCM_PLAYBACK (word_of_int (atoi v))"
      if "str_parms_get_str P kv AUDIO_PARAMETER_STREAM_ROUTING = Some v" "atoi v \<noteq> 0" for v
      using \<open>allowed P s (OutSetParameters a kv)\<close> that by (auto simp: allowed_def)
    from out_set_parameters_op [of P s a x kv, OF op S a this] show ?thesis using fin by (auto simp: run_call_def wp_exists)
  qed
  show "wp (run_call P (OutGetPresentationPosition a) s) (dev_inv P)" if l: "so_pcm_dev_list x \<noteq> None"
  proof -
    obtain ds where ds: "so_pcm_dev_list x = Some ds" using l by blast
    define s1 where "s1 = lock_output_stream a s"
    obtain r s2 where s2: "position_of_devices P x ds s1 = (r, s2)" by fastforce
    have oc: "only_calls s1 s2" using position_calls [of s1 P x ds] s2 by simp
    have op1: "op_inv P s1" using op by (auto simp: s1_def)
    have "op_inv P s2" by (rule op_inv_same [OF op1 op_same_only_calls [OF oc]])
    then have "op_inv P (unlock (OutLock a) s2)" by auto
    moreover have "lock_neutral s (unlock (OutLock a) s2)"
      using only_calls_fields(28) [OF oc] by (auto simp: s1_def lock_simps quiet_def)
    moreover have "out_get_presentation_position P a s =
        Some ((if r = None then - ENODATA else 0, r), unlock (OutLock a) s2)"
      using a ds s2 by (simp add: out_get_presentation_position_def s1_def)
    ultimately show ?thesis using fin by (simp add: run_call_def)
  qed
qed

lemma input_calls:
  assumes d: "dev_inv P s" and P: "env_ok P" and a: "ins s a = Some x"
  shows "wp (run_call P (InStandby a) s) (dev_inv P)" "wp (run_call P (InSetParameters a kv) s) (dev_inv P)"
    "wp (run_call P (InRead a n) s) (dev_inv P)"
    "\<not> si_standby x \<Longrightarrow> wp (run_call P (InGetCapturePosition a) s) (dev_inv P)"
    "wp (run_call P (CloseInputStream a) s) (dev_inv P)"
proof -
  have op: "op_inv P s" and h: "held (trace s) = []" and S: "sound P" "reads_ok P" "resampler_ok P"
    using d P by (simp_all add: dev_inv_def env_ok_def)
  have fin: "dev_inv P s'" if "op_inv P s'" "lock_neutral s s'" for s' by (rule dev_inv_neutral [OF d that])
  show "wp (run_call P (InStandby a) s) (dev_inv P)"
    using in_standby_op [OF op a h] fin by (auto simp: run_call_def wp_exists)
  show "wp (run_call P (InSetParameters a kv) s) (dev_inv P)"
    using in_set_parameters_op [OF op S(1) a h, of kv] fin by (auto simp: run_call_def wp_exists)
  show "wp (run_call P (InRead a n) s) (dev_inv P)"
    using in_read_op [OF op S a h, of n] fin by (auto simp: run_call_def wp_exists)
  show "wp (run_call P (CloseInputStream a) s) (dev_inv P)"
    using close_input_op [OF op a h] fin by (auto simp: run_call_def wp_exists)
  show "wp (run_call P (InGetCapturePosition a) s) (dev_inv P)" if st: "\<not> si_standby x"
  proof -
    obtain p q where l: "si_pcm_dev_list x = Some [p]" "pd_pcm p = Some q"
      using op_fields(3) [OF op a] st by (auto simp: in_ok_def running_list_def)
    have "op_inv P (unlock (InLock a) (emit (PcmTimestamp q) (lock (InLock a) s)))"
      using op by (auto intro!: op_inv_locks op_inv_emit)
    moreover have "lock_neutral s (unlock (InLock a) (emit (PcmTimestamp q) (lock (InLock a) s)))"
      by (simp add: lock_simps)
    ultimately show ?thesis using fin a l by (simp add: run_call_def in_get_capture_position_def Let_def)
  qed
qed

lemma callback_same:
  "op_same P s (snd (ril_internal_wb_amr_callback n v s)) \<and> lock_neutral s (snd (ril_internal_wb_amr_callback n v s))"
  "op_same P s (snd (ril_internal_pcm_clock_callback n v s)) \<and>
   lock_neutral s (snd (ril_internal_pcm_clock_callback n v s))"
  "op_same P s (snd (adev_set_parameters P kv s)) \<and> lock_neutral s (snd (adev_set_parameters P kv s))"
  by (auto simp: ril_internal_wb_amr_callback_def ril_internal_pcm_clock_callback_def run_callback_def
      audio_set_pcm_clock_callback_def audio_set_wb_amr_callback_def adev_set_parameters_def Let_def
      op_same_def core_same_def profiles_ok_def lock_neutral_def split: option.split ril_callback.split)

lemma device_calls:
  assumes d: "dev_inv P s" and P: "env_ok P" and c: "allowed P s c"
    and kind: "\<And>a. c \<noteq> InStandby a" "\<And>a kv. c \<noteq> InSetParameters a kv" "\<And>a n. c \<noteq> InRead a n"
      "\<And>a. c \<noteq> InGetCapturePosition a" "\<And>a. c \<noteq> CloseInputStream a"
      "\<And>a. c \<noteq> OutStandby a" "\<And>a kv. c \<noteq> OutSetParameters a kv" "\<And>a l r. c \<noteq> OutSetVolume a l r"
      "\<And>a b n. c \<noteq> OutWrite a b n" "\<And>a. c \<noteq> OutGetPresentationPosition a"
  shows "wp (run_call P c s) (dev_inv P)"
proof -
  have op: "op_inv P s" and h: "held (trace s) = []" and S: "sound P"
    using d P by (simp_all add: dev_inv_def env_ok_def)
  have fin: "dev_inv P s'" if "op_inv P s'" "lock_neutral s s'" for s' by (rule dev_inv_neutral [OF d that])
  have same: "dev_inv P s'" if "op_same P s s' \<and> lock_neutral s s'" for s'
    using dev_inv_same [OF d] that by blast
  show ?thesis
  proof (cases c)
    case (SetVoiceVolume v)
    then have "mode s = AUDIO_MODE_IN_CALL P \<longrightarrow> primary_output s \<noteq> None" using c by (simp add: allowed_def)
    from set_voice_volume_op [OF op this, of v] SetVoiceVolume show ?thesis
      using fin by (auto simp: run_call_def wp_exists)
  next
    case (SetMode m)
    with adev_set_mode_op [OF op, of m] show ?thesis using fin by (auto simp: run_call_def wp_exists)
  next
    case (SetMicMute b)
    with adev_set_mic_mute_op(1,2) [OF op, of b] show ?thesis using fin by (simp add: run_call_def)
  next
    case (OpenOutputStream handle devices flags format)
    obtain r p s' where r: "adev_open_output_stream P handle devices flags format s = (r, p, s')"
      by (metis prod_cases3)
    have "\<not> out_usecase_open s (usecase_of_flags P flags)" using c OpenOutputStream by (simp add: allowed_def)
    from open_output_op(1,2) [OF S op this r] show ?thesis
      using fin OpenOutputStream r by (simp add: run_call_def)
  next
    case (CloseOutputStream a)
    then obtain x where "outs s a = Some x" "primary_output s \<noteq> Some a" using c by (auto simp: allowed_def)
    from close_output_op [OF op this] CloseOutputStream show ?thesis
      using fin by (auto simp: run_call_def elim!: wp_mono)
  next
    case (OpenInputStream devices rate format chmask flags source)
    obtain r p s' where r: "adev_open_input_stream P devices rate format chmask flags source s = (r, p, s')"
      by (metis prod_cases3)
    have "ins s b = None" for b using c OpenInputStream by (simp add: allowed_def)
    from open_input_op(1,2) [OF S op this r] show ?thesis
      using fin OpenInputStream r by (simp add: run_call_def)
  qed (use kind same callback_same in \<open>simp_all add: run_call_def\<close>)
qed

theorem run_call_dev_inv:
  assumes d: "dev_inv P s" and P: "env_ok P" and c: "allowed P s c"
  shows "wp (run_call P c s) (dev_inv P)"
proof (cases c)
  case (OutGetPresentationPosition a)
  then show ?thesis using c output_calls(4) [OF d P] by (auto simp: allowed_def)
next
  case (OutSetParameters a kv)
  then show ?thesis using c output_calls(5) [OF d P] by (auto simp: allowed_def)
next
  case (InGetCapturePosition a)
  then show ?thesis using c input_calls(4) [OF d P] by (auto simp: allowed_def)
next
  case (OutStandby a)
  then show ?thesis using c output_calls(1) [OF d P] by (auto simp: allowed_def)
next
  case (OutSetVolume a l r)
  then show ?thesis using c output_calls(2) [OF d P] by (auto simp: allowed_def)
next
  case (OutWrite a b n)
  then show ?thesis using c output_calls(3) [OF d P] by (auto simp: allowed_def)
next
  case (InStandby a)
  then show ?thesis using c input_calls(1) [OF d P] by (auto simp: allowed_def)
next
  case (InSetParameters a kv)
  then show ?thesis using c input_calls(2) [OF d P] by (auto simp: allowed_def)
next
  case (InRead a n)
  then show ?thesis using c input_calls(3) [OF d P] by (auto simp: allowed_def)
next
  case (CloseInputStream a)
  then show ?thesis using c input_calls(5) [OF d P] by (auto simp: allowed_def)
qed (rule device_calls [OF d P c]; simp)+

section \<open>Reachable states\<close>

inductive reachable :: "platform \<Rightarrow> hal \<Rightarrow> bool" for P where
  opened: "boot_ok P s0 \<Longrightarrow> adev_open P name s0 = (0, s) \<Longrightarrow> reachable P s"
| called: "reachable P s \<Longrightarrow> allowed P s c \<Longrightarrow> run_call P c s = Some s' \<Longrightarrow> reachable P s'"

lemma reachable_dev_inv:
  assumes "env_ok P" and "reachable P s"
  shows "dev_inv P s"
  using assms(2)
proof (induction rule: reachable.induct)
  case (opened s0 name s)
  then show ?case using adev_open_op by (simp add: dev_inv_def)
next
  case (called s c s')
  then show ?case using run_call_dev_inv [OF called.IH assms(1), of c] by simp
qed

text \<open>A run of a list of calls, each allowed when its turn comes; \<open>None\<close> is a fault.\<close>

fun run_calls :: "platform \<Rightarrow> api_call list \<Rightarrow> hal \<Rightarrow> hal option" where
  "run_calls P [] s = Some s"
| "run_calls P (c # cs) s = do { s \<leftarrow> run_call P c s; run_calls P cs s }"

fun all_allowed :: "platform \<Rightarrow> api_call list \<Rightarrow> hal \<Rightarrow> bool" where
  "all_allowed P [] s = True"
| "all_allowed P (c # cs) s =
     (allowed P s c \<and> (case run_call P c s of None \<Rightarrow> True | Some s' \<Rightarrow> all_allowed P cs s'))"

lemma run_calls_dev_inv:
  "env_ok P \<Longrightarrow> dev_inv P s \<Longrightarrow> all_allowed P cs s \<Longrightarrow> wp (run_calls P cs s) (dev_inv P)"
proof (induction cs arbitrary: s)
  case (Cons c cs)
  then show ?case using run_call_dev_inv [of P s c] by (auto simp: wp_exists)
qed simp

end
