(* ===== verification/DeviceClaims.thy ===== *)
theory DeviceClaims
  imports Reach RoutingClaims
begin

text \<open>
  The properties of the device as a whole, over the states that a client reaches.
\<close>

section \<open>The demonstration platform\<close>

lemma demo_env: "env_ok demo"
  by (simp add: env_ok_def sound_def healthy_def cast_ok_def reads_ok_def resampler_ok_def demo_def)

text \<open>A process before \<open>adev_open\<close>.\<close>

definition demo_boot :: hal where
  "demo_boot = demo_hal\<lparr>mixer_list := [], snd_dev_ref_cnt := [], next_addr := 1\<rparr>"

definition demo_open :: hal where
  "demo_open = snd (adev_open demo ''audio_hw_if'' demo_boot)"

lemma demo_boot_ok: "boot_ok demo demo_boot"
  by (simp add: boot_ok_def demo_boot_def demo_hal_def)

lemma demo_open_returns: "adev_open demo ''audio_hw_if'' demo_boot = (0, demo_open)"
proof -
  have "fst (adev_open demo ''audio_hw_if'' demo_boot) = 0" by code_simp
  then show ?thesis by (simp add: demo_open_def prod_eq_iff)
qed

lemma demo_open_reachable: "reachable demo demo_open"
  by (rule reachable.opened [OF demo_boot_ok demo_open_returns])

lemma demo_open_state:
  "outs demo_open = (\<lambda>_. None)" "ins demo_open = (\<lambda>_. None)" "primary_output demo_open = None"
  using adev_open_op [OF demo_boot_ok demo_open_returns] by simp_all

text \<open>The client opens the primary output and plays two frames.\<close>

definition demo_opened :: hal where
  "demo_opened = snd (snd (adev_open_output_stream demo 1 0x2 0x2 1 demo_open))"

definition demo_played :: hal where
  "demo_played = snd (the (out_write demo 4 [[1, 2], [3, 4]] 8 demo_opened))"

lemma demo_opened_run:
  "run_call demo (OpenOutputStream 1 0x2 0x2 1) demo_open = Some demo_opened" "outs demo_opened 4 \<noteq> None"
proof -
  show "run_call demo (OpenOutputStream 1 0x2 0x2 1) demo_open = Some demo_opened"
    by (simp add: run_call_def demo_opened_def)
  show "outs demo_opened 4 \<noteq> None" by code_simp
qed

lemma demo_opened_reachable: "reachable demo demo_opened"
  by (rule reachable.called [OF demo_open_reachable _ demo_opened_run(1)])
    (simp add: allowed_def out_usecase_open_def demo_open_state)

lemma demo_played_run: "run_call demo (OutWrite 4 [[1, 2], [3, 4]] 8) demo_opened = Some demo_played"
proof -
  have "dev_inv demo demo_opened" by (rule reachable_dev_inv [OF demo_env demo_opened_reachable])
  then have "wp (run_call demo (OutWrite 4 [[1, 2], [3, 4]] 8) demo_opened) (dev_inv demo)"
    using demo_opened_run(2) by (intro run_call_dev_inv demo_env) (simp_all add: allowed_def)
  then show ?thesis by (auto simp: wp_exists run_call_def demo_played_def)
qed

lemma demo_played_reachable: "reachable demo demo_played"
  by (rule reachable.called [OF demo_opened_reachable _ demo_played_run])
    (simp add: allowed_def demo_opened_run(2))

section \<open>Properties\<close>

text \<open>
  C1. No call faults: on a platform where allocations succeed and the PCMs of a voice call open (those of the
  streams and of SCO may fail), in every state that a client reaches from a successful \<open>adev_open\<close>, each
  call that the client may make returns, and it leaves a state from which the same holds.
\<close>

theorem calls_never_fault:
  assumes "env_ok P" and "reachable P s" and "allowed P s c"
  shows "\<exists>s'. run_call P c s = Some s' \<and> reachable P s' \<and> dev_inv P s'"
proof -
  have "wp (run_call P c s) (dev_inv P)"
    using run_call_dev_inv [OF reachable_dev_inv [OF assms(1,2)] assms(1,3)] .
  then show ?thesis using reachable.called [OF assms(2,3)] by (auto simp: wp_exists)
qed

theorem calls_never_fault_witness:
  "\<exists>s'. run_call demo (SetMode 2) demo_played = Some s' \<and> reachable demo s' \<and> dev_inv demo s'"
  using calls_never_fault [OF demo_env demo_played_reachable, of "SetMode 2"] by (simp add: allowed_def)

text \<open>
  C14. Whole sessions: every list of calls, each of which the client may make when its turn comes,
  runs to its end, and in the final state no mutex is held.
\<close>

theorem sessions_run:
  assumes "env_ok P" and "boot_ok P s0" and "adev_open P name s0 = (0, s)" and "all_allowed P cs s"
  shows "\<exists>s'. run_calls P cs s = Some s' \<and> held (trace s') = [] \<and> lock_order_ok (trace s')"
proof -
  have "dev_inv P s" using reachable_dev_inv [OF assms(1) reachable.opened [OF assms(2,3)]] .
  from run_calls_dev_inv [OF assms(1) this assms(4)] show ?thesis by (auto simp: wp_exists dev_inv_def)
qed

theorem sessions_run_witness:
  "\<exists>s'. run_calls demo [SetMode 3, SetMicMute True, SetMode 0] demo_open = Some s' \<and>
    held (trace s') = [] \<and> lock_order_ok (trace s')"
  using sessions_run [OF demo_env demo_boot_ok demo_open_returns, of "[SetMode 3, SetMicMute True, SetMode 0]"]
  by (simp add: allowed_def split: option.split)

text \<open>
  C11. Mutexes: in every reachable state the calling thread holds none, and in the whole history
  every mutex was taken above all the held ones in the order documented in \<open>audio_hw.h\<close>, and only
  a held one was released.
\<close>

theorem locks_in_order:
  assumes "env_ok P" and "reachable P s"
  shows "held (trace s) = [] \<and> lock_order_ok (trace s)"
  using reachable_dev_inv [OF assms] by (simp add: dev_inv_def)

theorem locks_in_order_witness: "held (trace demo_played) = [] \<and> lock_order_ok (trace demo_played)"
  using locks_in_order [OF demo_env demo_played_reachable] .

text \<open>
  C4. Routing: in every reachable state the mixer paths that are applied are those of the sound
  devices of the active use cases, and no others.
\<close>

theorem routes_follow_usecases:
  assumes "env_ok P" and "reachable P s"
  shows "\<exists>mc. adev_get_mixer_for_card (mixer_list s) SOUND_CARD = Some mc \<and>
    active_routes (trace s) = paths_in_use mc (usecase_list s)"
  using reachable_dev_inv [OF assms]
  by (intro routes_abstract) (simp_all add: dev_inv_def op_inv_def core_inv_def)

theorem routes_follow_usecases_witness:
  "\<exists>mc. adev_get_mixer_for_card (mixer_list demo_played) SOUND_CARD = Some mc \<and>
    active_routes (trace demo_played) = paths_in_use mc (usecase_list demo_played)"
  using routes_follow_usecases [OF demo_env demo_played_reachable] .

text \<open>
  C5. PCM handles: in every reachable state the handles that the history has opened ready and not
  closed are exactly those held by the streams, the voice call and the SCO session; no ready handle
  leaks and none is closed twice.
\<close>

theorem pcms_accounted:
  assumes "env_ok P" and "reachable P s"
  shows "open_pcms (trace s) =
    (\<Sum>a<next_addr s. out_pcms s a + in_pcms s a) + pcm_set (pcm_voice_rx s) + pcm_set (pcm_voice_tx s) +
    pcm_set (pcm_sco_rx s) + pcm_set (pcm_sco_tx s)"
  using reachable_dev_inv [OF assms]
  by (simp add: dev_inv_def op_inv_def pcms_ok_def stream_handles_def call_pcms_def sco_pcms_def ac_simps)

theorem pcms_accounted_witness:
  "open_pcms (trace demo_played) =
    (\<Sum>a<next_addr demo_played. out_pcms demo_played a + in_pcms demo_played a) +
    pcm_set (pcm_voice_rx demo_played) + pcm_set (pcm_voice_tx demo_played) +
    pcm_set (pcm_sco_rx demo_played) + pcm_set (pcm_sco_tx demo_played)"
  using pcms_accounted [OF demo_env demo_played_reachable] .

text \<open>
  C10. Standby: in every reachable state an output stream is out of standby exactly when a playback
  use case runs it, and then its list of PCM devices holds one device with an open handle.
\<close>

theorem output_runs_iff_usecase:
  assumes "env_ok P" and "reachable P s" and "outs s a = Some out"
  shows "(\<not> so_standby out \<longleftrightarrow>
      (\<exists>u \<in> set (usecase_list s). uc_type u = PCM_PLAYBACK \<and> uc_stream u = OutRef a)) \<and>
    (\<not> so_standby out \<longrightarrow>
      (\<exists>d h. so_pcm_dev_list out = Some [d] \<and> pd_pcm d = Some h \<and> h \<in># open_pcms (trace s)))"
    (is "?iff \<and> ?list")
proof -
  have op: "op_inv P s" using reachable_dev_inv [OF assms(1,2)] by (simp add: dev_inv_def)
  have ok: "out_ok P s a out" by (rule op_fields(2) [OF op assms(3)])
  have ?iff using ok by (auto simp: out_ok_def active_def)
  moreover have ?list
  proof
    assume "\<not> so_standby out"
    then obtain d h where "so_pcm_dev_list out = Some [d]" "pd_pcm d = Some h" "pcm_is_ready h"
      using ok by (auto simp: out_ok_def running_list_def)
    moreover have "h \<in># open_pcms (trace s)"
      using op_holds(1) [OF op assms(3)] calculation
      by (simp add: stream_pcms_def list_pcms_def insert_subset_eq_iff)
    ultimately show "\<exists>d h. so_pcm_dev_list out = Some [d] \<and> pd_pcm d = Some h \<and> h \<in># open_pcms (trace s)" by blast
  qed
  ultimately show ?thesis by blast
qed

theorem output_runs_iff_usecase_witness:
  "\<exists>out. outs demo_opened 4 = Some out \<and>
    (\<not> so_standby out \<longleftrightarrow>
      (\<exists>u \<in> set (usecase_list demo_opened). uc_type u = PCM_PLAYBACK \<and> uc_stream u = OutRef 4))"
  using demo_opened_run(2) output_runs_iff_usecase [OF demo_env demo_opened_reachable, of 4] by blast

text \<open>
  C15. An idle device holds nothing: when all streams are in standby and there is neither a call nor
  an SCO session, no use case is left, every ready PCM handle has been closed and every mixer path reset.
\<close>

theorem idle_device_released:
  assumes "env_ok P" and "reachable P s" and "\<And>a x. outs s a = Some x \<Longrightarrow> so_standby x"
    and "\<And>a x. ins s a = Some x \<Longrightarrow> si_standby x" and "\<not> in_call s" and "\<not> in_call_sco s"
  shows "usecase_list s = [] \<and> open_pcms (trace s) = {#} \<and> active_routes (trace s) = {}"
proof -
  have op: "op_inv P s" using reachable_dev_inv [OF assms(1,2)] by (simp add: dev_inv_def)
  have c: "core_inv P s" and call: "call_ok s" by (rule op_fields(1,4) [OF op])+
  have "\<not> active s PCM_PLAYBACK (OutRef a)" "\<not> active s PCM_CAPTURE (InRef a)" for a
    using op assms(3,4) inactive_nowhere [OF c, of a]
    by (cases "outs s a"; cases "ins s a"; auto simp: op_inv_def out_ok_def in_ok_def)+
  moreover have "\<not> calling s" using call assms(5) by (simp add: call_ok_def)
  ultimately have no: "u \<notin> set (usecase_list s)" for u
    using c by (cases "uc_type u") (auto simp: active_def calling_def core_inv_def linked_def uc_linked_simps
        dest: bspec)
  then have us: "usecase_list s = []" by (cases "usecase_list s") auto
  have idle: "out_pcms s a = {#}" "in_pcms s a = {#}" for a
    using op assms(3,4) by (auto simp: out_pcms_def in_pcms_def op_inv_def out_ok_def in_ok_def idle_list_def
        stream_pcms_def list_pcms_def split: option.split) force+
  have "open_pcms (trace s) = {#}"
    using op idle call assms(5,6)
    by (simp add: op_inv_def pcms_ok_def stream_handles_def call_pcms_def sco_pcms_def call_ok_def sco_ok_def)
  moreover have "active_routes (trace s) = {}"
    using routes_abstract [of s] c us by (simp add: core_inv_def paths_in_use_def)
  ultimately show ?thesis using us by simp
qed

theorem idle_device_released_witness:
  "usecase_list demo_open = [] \<and> open_pcms (trace demo_open) = {#} \<and> active_routes (trace demo_open) = {}"
proof (rule idle_device_released [OF demo_env demo_open_reachable])
  show "\<not> in_call demo_open" "\<not> in_call_sco demo_open" by code_simp+
qed (simp_all add: demo_open_state)

end
