(* ===== verification/OperationClaims.thy ===== *)
theory OperationClaims
  imports DeviceClaims
begin

text \<open>
  The properties of the single operations of the audio HAL: calls, writing, capturing, positions,
  the radio, the voice processor, and opening the device.
\<close>

section \<open>Calls\<close>

text \<open>
  C13. Leaving a call: \<open>adev_set_mode(AUDIO_MODE_NORMAL)\<close> succeeds in every reachable state, and
  afterwards there is no call, no use case of a call and no PCM handle of a call.
\<close>

theorem set_mode_normal_ends_call:
  assumes "env_ok P" and "reachable P s"
  shows "\<exists>s'. adev_set_mode P (AUDIO_MODE_NORMAL P) s = Some (0, s') \<and> mode s' = AUDIO_MODE_NORMAL P \<and>
    \<not> in_call s' \<and> pcm_voice_rx s' = None \<and> pcm_voice_tx s' = None \<and>
    get_usecase_from_id (usecase_list s') USECASE_VOICE_CALL = None"
proof -
  have "op_inv P s" using reachable_dev_inv [OF assms] by (simp add: dev_inv_def)
  from adev_set_mode_op [OF this, of "AUDIO_MODE_NORMAL P"]
  obtain s' where s': "adev_set_mode P (AUDIO_MODE_NORMAL P) s = Some (0, s')" "op_inv P s'"
    "mode s' = AUDIO_MODE_NORMAL P" "\<not> in_call s'"
    by (auto simp: wp_exists)
  then show ?thesis using voice_fresh [OF s'(2,4)] op_fields(4) [OF s'(2)] by (simp add: call_ok_def)
qed

theorem set_mode_normal_ends_call_witness:
  "\<exists>s'. adev_set_mode demo 0 demo_played = Some (0, s') \<and> \<not> in_call s'"
  using set_mode_normal_ends_call [OF demo_env demo_played_reachable] by (auto simp: demo_def)

text \<open>
  C8. A call that is started and stopped again leaves the streams and the open PCM handles as they
  were, when no SCO session was running.
\<close>

theorem call_round_trip:
  assumes "env_ok P" and "reachable P s" and "primary_output s \<noteq> None" and "\<not> in_call s" and "\<not> in_call_sco s"
  shows "\<exists>s1 s2. start_voice_call P s = Some (0, s1) \<and> in_call s1 \<and> stop_voice_call P s1 = Some (0, s2) \<and>
    \<not> in_call s2 \<and> outs s2 = outs s \<and> ins s2 = ins s \<and> open_pcms (trace s2) = open_pcms (trace s)"
proof -
  have op: "op_inv P s" and P: "sound P"
    using reachable_dev_inv [OF assms(1,2)] assms(1) by (simp_all add: dev_inv_def env_ok_def)
  obtain s1 where 1: "start_voice_call P s = Some (0, s1)" "op_inv P s1" "voice_step s s1" "in_call s1"
    using op_start_call [OF op P assms(4,3)] by (auto simp: wp_exists)
  obtain s2 where 2: "stop_voice_call P s1 = Some (0, s2)" "op_inv P s2" "voice_step s1 s2" "\<not> in_call s2"
    "sco_pcms s2 = {#}"
    using op_stop_call [OF 1(2,4)] by (auto simp: wp_exists)
  have "call_pcms s = {#}" "call_pcms s2 = {#}" "sco_pcms s = {#}"
    using op_fields(4) [OF op] op_fields(4) [OF 2(2)] assms(4,5) 2(4)
    by (simp_all add: call_ok_def call_pcms_def sco_ok_def sco_pcms_def)
  then show ?thesis using 1 2 voice_step_trans [OF 1(3) 2(3)] by (simp add: voice_step_def)
qed

theorem call_round_trip_witness:
  "\<exists>s1 s2. start_voice_call demo demo_opened = Some (0, s1) \<and> in_call s1 \<and> stop_voice_call demo s1 = Some (0, s2) \<and>
    \<not> in_call s2 \<and> open_pcms (trace s2) = open_pcms (trace demo_opened)"
proof -
  have "primary_output demo_opened \<noteq> None" "\<not> in_call demo_opened" "\<not> in_call_sco demo_opened" by code_simp+
  from call_round_trip [OF demo_env demo_opened_reachable this] show ?thesis by blast
qed

section \<open>Playing\<close>



section \<open>Capturing\<close>

text \<open>
  C9. Reading returns, and hands out the captured frames in order: without a resampler, the frames
  left from the last period followed by those the kernel delivers during the call are the frames
  handed out followed by those left afterwards; none is lost or handed out twice.  Either all the
  frames asked for are handed out or the error of the failed \<open>pcm_read\<close> is returned.
\<close>

theorem read_frames_in_order:
  assumes "readable s a i" and "reads_ok P" and "si_resampler i = None"
  shows "\<exists>ret buf s' j got. read_frames P a frames s = Some ((ret, buf), s') \<and> ins s' a = Some j \<and>
    captured P (trace s') = captured P (trace s) @ got \<and> pending i @ got = buf @ pending j \<and>
    (ret = int (length buf) \<and> length buf = frames \<or> ret = si_read_status j \<and> ret \<noteq> 0)"
proof -
  have "si_resampler i = None \<or> resampler_ok P" using assms(3) by simp
  from read_frames_wp [OF assms(1,2) this, of frames]
  obtain ret buf s' j where r: "read_frames P a frames s = Some ((ret, buf), s')" "ins s' a = Some j"
    "ret = int (length buf) \<and> frames \<le> length buf \<or> ret = si_read_status j \<and> ret \<noteq> 0"
    "length buf \<le> frames" "in_order P a i s buf s'"
    using assms(3) by (auto simp: wp_exists)
  then show ?thesis unfolding in_order_def by auto
qed

definition demo_recording :: hal where
  "demo_recording = demo_hal\<lparr>ins := (\<lambda>a. if a = 2 then Some (demo_in
     \<lparr>si_standby := False, si_pcm_dev_list := Some [\<lparr>pd_profile = 1, pd_pcm = Some (ReadyPcm 9), pd_status = 0\<rparr>]\<rparr>) else None)\<rparr>"

theorem read_frames_in_order_witness:
  "\<exists>ret buf s' j got. read_frames demo 2 480 demo_recording = Some ((ret, buf), s') \<and> ins s' 2 = Some j \<and>
    captured demo (trace s') = got \<and> got = buf @ pending j"
proof -
  define i where "i = demo_in\<lparr>si_standby := False, si_pcm_dev_list :=
    Some [\<lparr>pd_profile = 1, pd_pcm = Some (ReadyPcm 9), pd_status = 0\<rparr>]\<rparr>"
  have "readable demo_recording 2 i" "si_resampler i = None" "pending i = []" "trace demo_recording = []"
    by (simp_all add: readable_def demo_recording_def i_def buf_ok_def demo_in_def pcm_device_capture_def
        pcm_config_of_def pending_def demo_hal_def)
  moreover have "reads_ok demo" using demo_env by (simp add: env_ok_def)
  ultimately show ?thesis using read_frames_in_order [of demo_recording 2 i demo 480] by fastforce
qed

text \<open>
  C22. The size of a capture buffer: for accepted parameters it is a whole number of frames, a
  multiple of 16 of them, and the least such number that covers one period at the requested rate.
\<close>

theorem input_buffer_covers_period:
  assumes "check_input_parameters P rate format (int channels) = 0"
    and "get_pcm_device P (pcm_devices_init P) PCM_CAPTURE devices = Some k"
  shows "\<exists>frames. get_input_buffer_size P (pcm_devices_init P) rate format channels PCM_CAPTURE devices =
      Some (frames * channels * audio_bytes_per_sample P format) \<and>
    16 dvd frames \<and> 1024 * unat rate div 48000 \<le> frames \<and> frames < 1024 * unat rate div 48000 + 16"
proof -
  have "k < 3" "pp_type (pcm_devices_init P ! k) = PCM_CAPTURE"
    using get_pcm_device_SomeD(1,2) [OF assms(2)] by (simp_all add: pcm_devices_init_def)
  then have "k = 1"
    by (cases k; cases "k - 1"; cases "k - 2")
      (auto simp: pcm_devices_init_def pcm_device_playback_def pcm_device_capture_def
        pcm_device_playback_spk_and_headset_def)
  then have k: "pp_config (pcm_devices_init P ! k) = pp_config (pcm_device_capture P)"
    by (simp add: pcm_devices_init_def)
  have rate: "rate \<in> {8000, 11025, 12000, 16000, 22050, 24000, 32000, 44100, 48000}"
    using assms(1) by (auto simp: check_input_parameters_def split: if_splits)
  define n where "n = 1024 * unat rate div 48000"
  have size: "unat ((1024 * rate) div 48000) = n"
    using rate unfolding n_def by (elim insertE emptyE) (simp_all add: unat_div)
  have "get_input_buffer_size P (pcm_devices_init P) rate format channels PCM_CAPTURE devices =
      Some ((n + 15) div 16 * 16 * channels * audio_bytes_per_sample P format)"
    using assms k size
    by (simp add: get_input_buffer_size_def pcm_device_capture_def pcm_config_of_def Let_def)
  moreover have "16 dvd (n + 15) div 16 * 16" "n \<le> (n + 15) div 16 * 16" "(n + 15) div 16 * 16 < n + 16"
    by simp_all
  ultimately show ?thesis unfolding n_def by blast
qed

theorem input_buffer_covers_period_witness:
  "\<exists>frames. get_input_buffer_size demo (pcm_devices_init demo) 44100 0x1 2 PCM_CAPTURE 0x80000004 =
    Some (frames * 2 * 2) \<and> 16 dvd frames \<and> 940 \<le> frames \<and> frames < 956"
proof -
  have "check_input_parameters demo 44100 0x1 (int 2) = 0"
    "get_pcm_device demo (pcm_devices_init demo) PCM_CAPTURE 0x80000004 = Some 1"
    by code_simp+
  from input_buffer_covers_period [OF this] show ?thesis by (simp add: demo_def)
qed

section \<open>Positions\<close>

text \<open>When every PCM opens, so does a stream.\<close>

lemma start_output_ready:
  assumes op: "op_inv P s" and P: "sound P" and a: "outs s a = Some out" and st: "so_standby out"
    and ready: "\<And>t c n f cfg h. pcm_open P t c n f cfg = Some h \<Longrightarrow> pcm_is_ready h"
  shows "\<exists>s'. start_output_stream P a s = Some (0, s')"
proof -
  have c: "core_inv P s" and ok: "out_ok P s a out" using op a by (simp_all add: op_inv_def)
  have Ph: "cast_ok P" "healthy P" using P by (simp_all add: sound_def)
  obtain k where k: "get_pcm_device P (pcm_devices s) PCM_PLAYBACK (so_devices out) = Some k"
    using op_profile [OF op] ok by (auto simp: out_ok_def)
  obtain s2 where s2: "enable_output_path_l P a s = Some (0, s2)"
    "outs s2 = (outs s)(a \<mapsto> out\<lparr>so_pcm_dev_list := Some [new_pcm_device k]\<rparr>)"
    using enable_output_path_wp [OF c Ph a playback_fresh [OF op a st] k] by (auto simp: wp_exists)
  then have "outs s2 a = Some (out\<lparr>so_pcm_dev_list := Some [new_pcm_device k]\<rparr>)" by simp
  from out_open_pcm_devices_eq [OF Ph(2) this] obtain c f cfg n p where
    p: "pcm_open P (trace s2) c n f cfg = Some p" and
    o: "fst (the (out_open_pcm_devices P a s2)) = (if pcm_is_ready p then 0 else - EIO) \<and> out_open_pcm_devices P a s2 \<noteq> None"
    by (force simp: split: if_splits)
  then show ?thesis using s2(1) ready [OF p] by (cases "the (out_open_pcm_devices P a s2)") (auto simp: start_output_stream_def)
qed

lemma signed_frames_exact:
  assumes "uint (so_written out) < 2 ^ 63 - 2 ^ 32"
  shows "signed_frames out avail =
    uint (so_written out) - uint (pc_period_size (so_config out) * pc_period_count (so_config out)) + uint avail"
proof -
  define k where "k = pc_period_size (so_config out) * pc_period_count (so_config out)"
  define v where "v = uint (so_written out) - uint k + uint avail"
  have "uint k < 2 ^ 32" "uint avail < 2 ^ 32" using uint_lt2p [of k] uint_lt2p [of avail] by simp_all
  moreover have "(2 :: int) ^ 32 \<le> 2 ^ 63" by simp
  moreover have "0 \<le> uint (so_written out)" "0 \<le> uint avail" "0 \<le> uint k" by simp_all
  ultimately have v: "- (2 ^ 63) \<le> v" "v < 2 ^ 63"
    using assms unfolding v_def by linarith+
  have "so_written out - ucast k + ucast avail = (word_of_int v :: u64)"
    by (simp only: v_def ucast_eq wi_hom_syms word_of_int_uint)
  then have "sint (so_written out - ucast k + ucast avail :: u64) = v"
    using v by (simp add: sint_sbintrunc' signed_take_bit_int_eq_self)
  then show ?thesis by (simp add: signed_frames_def render_latency_def k_def v_def)
qed

text \<open>
  C20. The presentation position of a running stream, in every state of the invariant: the kernel's handle of
  the stream is asked once, and the reply is the number of frames written, less the size of the
  kernel's buffer, plus its free space, or \<open>-ENODATA\<close> when that is negative or the kernel does not
  answer; the unsigned arithmetic of the code does not wrap below \<open>2 ^ 63 - 2 ^ 32\<close> frames.  The free
  space is not compared with the size of the buffer: after an underrun it can be larger, and then the
  position lies beyond the frames written.
\<close>

theorem presentation_position_exact:
  assumes "dev_inv P s" and "outs s a = Some out" and "\<not> so_standby out"
    and "uint (so_written out) < 2 ^ 63 - 2 ^ 32"
  shows "\<exists>d h s'. so_pcm_dev_list out = Some [d] \<and> pd_pcm d = Some h \<and>
    trace s' = [Unlock (OutLock a), PcmTimestamp h, Unlock (OutPreLock a), Lock (OutLock a), Lock (OutPreLock a)] @ trace s \<and>
    outs s' = outs s \<and>
    out_get_presentation_position P a s = Some (
      case pcm_get_htimestamp P ([Unlock (OutPreLock a), Lock (OutLock a), Lock (OutPreLock a)] @ trace s) h of
        None \<Rightarrow> (- ENODATA, None)
      | Some (avail, time) \<Rightarrow>
          let position = uint (so_written out) -
            uint (pc_period_size (so_config out) * pc_period_count (so_config out)) + uint avail
          in if position < 0 then (- ENODATA, None) else (0, Some (position, time)), s')"
proof -
  have "op_inv P s" using assms(1) by (simp add: dev_inv_def)
  then have "running_list (so_pcm_dev_list out)"
    using op_fields(2) [OF _ assms(2)] assms(3) by (simp add: out_ok_def)
  then obtain d h where d: "so_pcm_dev_list out = Some [d]" "pd_pcm d = Some h" by (auto simp: running_list_def)
  note frames = signed_frames_exact [OF assms(4)]
  define s' where "s' = unlock (OutLock a) (emit (PcmTimestamp h) (lock_output_stream a s))"
  have "trace s' = [Unlock (OutLock a), PcmTimestamp h, Unlock (OutPreLock a), Lock (OutLock a), Lock (OutPreLock a)] @ trace s"
    "outs s' = outs s"
    by (simp_all add: s'_def lock_defs)
  then show ?thesis
    using assms(2) d
    by (intro exI [of _ d] exI [of _ h] exI [of _ s'])
      (auto simp: out_get_presentation_position_def s'_def frames lock_defs Let_def split: option.split)
qed

text \<open>The device while the primary output is running, with 1000 frames written.\<close>

definition demo_running :: hal where
  "demo_running = upd_out 4 (\<lambda>out. out\<lparr>so_written := 1000\<rparr>)
     (upd_out 4 (\<lambda>out. out\<lparr>so_standby := False\<rparr>) (snd (the (start_output_stream demo 4 demo_opened))))"

lemma demo_running:
  "dev_inv demo demo_running"
  "\<exists>out. outs demo_running 4 = Some out \<and> \<not> so_standby out \<and> so_written out = 1000 \<and>
    pc_period_size (so_config out) * pc_period_count (so_config out) = 512"
proof -
  have d: "dev_inv demo demo_opened" by (rule reachable_dev_inv [OF demo_env demo_opened_reachable])
  then have op: "op_inv demo demo_opened" by (simp add: dev_inv_def)
  have P: "sound demo" using demo_env by (simp add: env_ok_def)
  have "map_option (\<lambda>x. (so_standby x, pc_period_size (so_config x) * pc_period_count (so_config x)))
      (outs demo_opened 4) = Some (True, 512)" by code_simp
  then obtain out where a: "outs demo_opened 4 = Some out" "so_standby out"
    "pc_period_size (so_config out) * pc_period_count (so_config out) = 512" by auto
  obtain s1 where 0: "start_output_stream demo 4 demo_opened = Some (0, s1)"
    using start_output_ready [OF op P a(1,2)] by (auto simp: demo_def)
  define s2 where "s2 = upd_out 4 (\<lambda>out. out\<lparr>so_standby := False\<rparr>) s1"
  obtain dv where 1: "op_inv demo s2" "locks_same demo_opened s1"
    "outs s1 = (outs demo_opened)(4 \<mapsto> out\<lparr>so_pcm_dev_list := Some [dv]\<rparr>)"
    using op_start_output [OF op P a(1,2)] 0 by (auto simp: s2_def)
  have a2: "outs s2 4 = Some (out\<lparr>so_pcm_dev_list := Some [dv], so_standby := False\<rparr>)" by (simp add: s2_def 1(3))
  have "op_inv demo (upd_out 4 (\<lambda>out. out\<lparr>so_written := 1000\<rparr>) s2)"
    by (rule op_upd_out [OF 1(1) a2]) (use op_fields(2) [OF 1(1) a2] in \<open>simp_all add: out_ok_def\<close>)
  then have d2: "dev_inv demo (upd_out 4 (\<lambda>out. out\<lparr>so_written := 1000\<rparr>) s2)"
    using 1(2) d by (simp add: dev_inv_def s2_def locks_same_def)
  have r: "demo_running = upd_out 4 (\<lambda>out. out\<lparr>so_written := 1000\<rparr>) s2"
    using 0 by (simp add: demo_running_def s2_def)
  show "dev_inv demo demo_running" by (subst r) (rule d2)
  show "\<exists>out. outs demo_running 4 = Some out \<and> \<not> so_standby out \<and> so_written out = 1000 \<and>
      pc_period_size (so_config out) * pc_period_count (so_config out) = 512"
    using a(3) a2 by (simp add: r)
qed

theorem presentation_position_exact_witness:
  "\<exists>s'. out_get_presentation_position demo 4 demo_running = Some ((0, Some (488, 0)), s')"
proof -
  obtain out where o: "outs demo_running 4 = Some out" "\<not> so_standby out" "so_written out = 1000"
    "pc_period_size (so_config out) * pc_period_count (so_config out) = 512"
    using demo_running(2) by blast
  show ?thesis using presentation_position_exact [OF demo_running(1) o(1,2)] unfolding o(3,4) by (auto simp: demo_def)
qed

section \<open>The radio and the voice processor\<close>

text \<open>
  C21. The volume of a call: for a volume between 0.0 and 1.0 and a connected client, exactly one
  message is sent after the test of the connection, and the step it carries lies between 0 and the
  number of steps of the device.
\<close>

theorem call_volume_in_range:
  assumes "client (ril s) = Some c" and "ril_is_connected P (trace s) c"
    and "f32_unit v" and "0 \<le> volume_steps_max (ril s)" and "volume_steps_max (ril s) < 2 ^ 24"
  shows "\<exists>step. trace (snd (ril_set_call_volume P ty v s)) =
      [RilSend (Some c) (SetCallVolume ty step), IsConnected_RILD c] @ trace s \<and>
    0 \<le> step \<and> step \<le> volume_steps_max (ril s)"
proof -
  note sent = volume_command.cmd_already_connected [OF assms(1,2), of ty v]
  then show ?thesis using volume_step_bounds [OF assms(3-5)] by simp
qed

theorem call_volume_in_range_witness:
  "\<exists>step. trace (snd (ril_set_call_volume demo SOUND_TYPE_VOICE (F32 1 (- 1)) demo_hal)) =
      [RilSend (Some 3) (SetCallVolume SOUND_TYPE_VOICE step), IsConnected_RILD 3] \<and> 0 \<le> step \<and> step \<le> 5"
proof -
  have "f32_unit (F32 1 (- 1))" by (simp add: f32_unit_def)
  then show ?thesis
    using call_volume_in_range [of demo_hal 3 demo "F32 1 (- 1)" SOUND_TYPE_VOICE]
    by (simp add: demo_hal_def demo_def)
qed

text \<open>
  Without a connection no request is sent: when the client is not connected and connecting
  fails, each request function reports success after the failed attempt to connect.
\<close>

lemma requests_need_connection:
  assumes "client (ril s) = Some c" and "\<not> ril_is_connected P (trace s) c"
    and "ril_rc P (IsConnected_RILD c # trace s) (Some c) Connect_RILD \<noteq> RIL_CLIENT_ERR_SUCCESS P"
  shows "\<forall>cmd \<in> {ril_set_call_volume P ty v, ril_set_call_audio_path P path,
      ril_set_call_clock_sync P cl, ril_set_mute P m, ril_set_two_mic_control P dev rep}.
    fst (cmd s) = 0 \<and> trace (snd (cmd s)) = [RilSend (Some c) Connect_RILD, IsConnected_RILD c] @ trace s"
  using volume_command.cmd_connection_fails [OF assms, of ty v] path_command.cmd_connection_fails [OF assms, of path]
    clock_command.cmd_connection_fails [OF assms, of cl] mute_command.cmd_connection_fails [OF assms, of m]
    two_mic_command.cmd_connection_fails [OF assms, of dev rep]
  by (simp only: ball_simps insert_iff empty_iff append.simps simp_thms)

definition demo_offline :: platform where
  "demo_offline = demo\<lparr>ril_is_connected := (\<lambda>t c. False), ril_rc := (\<lambda>t c q. 1)\<rparr>"

text \<open>
  The voice processor is set up in the documented order, preset, extra volume, equaliser, with
  the preset that belongs to the device and the band of the call; the first write that fails ends
  the sequence and its error is returned.
\<close>

lemma voice_session_writes:
  assumes "es_device_to_route P s = Some r"
  shows "((\<forall>t p. sysfs_open_rc P t p = 0) \<and> (\<forall>t p b. sysfs_write_rc P t p b = 0) \<longrightarrow>
      es_start_voice_session P s = Some (0, s\<lparr>trace :=
        [SysfsWrite SYSFS_PATH_VEQ (show_int 4), SysfsOpen SYSFS_PATH_VEQ,
         SysfsWrite SYSFS_PATH_EXTRAVOLUME (show_int 0), SysfsOpen SYSFS_PATH_EXTRAVOLUME,
         SysfsWrite SYSFS_PATH_PRESET (show_int r), SysfsOpen SYSFS_PATH_PRESET] @ trace s\<rparr>)) \<and>
    (sysfs_open_rc P (trace s) SYSFS_PATH_PRESET \<noteq> 0 \<longrightarrow>
      es_start_voice_session P s = Some (sysfs_open_rc P (trace s) SYSFS_PATH_PRESET,
        emit (SysfsOpen SYSFS_PATH_PRESET) s))"
  using es_start_writes [OF assms] es_start_failure [OF assms]
  by (auto simp: es_set_defs write_int_def Let_def)

text \<open>
  The callback for the band of a call: it can only widen the band.  A message that asks for
  narrow band leaves the device as it is, so a device that has been switched to wide band stays
  there, although the second branch of the code is there to switch it back.
\<close>

lemma wb_amr_never_narrowed:
  "audio_set_wb_amr_callback 0 s = s \<and>
   wb_amr_type (audio_set_wb_amr_callback v s) \<in> {wb_amr_type s, 1}"
  by (simp add: audio_set_wb_amr_callback_def)

section \<open>Sessions over Bluetooth\<close>

text \<open>
  C35. Starting an SCO session leaks nothing: whether both PCMs open, one of them is not ready, or the
  session is already running, every handle opened on the way, ready or not, has been closed or is held
  by one of the two pointers, and outside a session both pointers are null.  The start faults only
  when \<open>pcm_open\<close> returned the null pointer, which the code hands to \<open>pcm_start\<close> or \<open>pcm_close\<close>.
\<close>

theorem sco_session_accounts:
  assumes "\<not> in_call_sco s \<longrightarrow> pcm_sco_rx s = None \<and> pcm_sco_tx s = None"
  shows "case start_voice_session_bt_sco P s of
      None \<Rightarrow> \<exists>t d f cfg. pcm_open P t SOUND_CARD d f cfg = None
    | Some s' \<Rightarrow>
        opened_handles (trace s') + closed_handles (trace s) + sco_handles s =
        opened_handles (trace s) + closed_handles (trace s') + sco_handles s' \<and>
        (in_call_sco s' \<or> pcm_sco_rx s' = None \<and> pcm_sco_tx s' = None)"
proof -
  have "sco_ok s" using assms by (simp add: sco_ok_def)
  then show ?thesis
    by (rule start_sco_cases [of s P]) (auto simp: sco_accounted_def sco_ok_def)
qed

text \<open>Platforms on which the second PCM of a session is not ready, and on which none is.\<close>

definition demo_half_sco :: platform where
  "demo_half_sco = demo\<lparr>pcm_open := (\<lambda>t c d f cfg. Some (if t = [] then ReadyPcm 0 else FailedPcm 1))\<rparr>"

theorem sco_session_accounts_witness:
  "(\<exists>s'. start_voice_session_bt_sco demo_half_sco demo_hal = Some s' \<and>
      opened_handles (trace s') = {#ReadyPcm 0, FailedPcm 1#} \<and> closed_handles (trace s') = {#ReadyPcm 0, FailedPcm 1#}) \<and>
   start_voice_session_bt_sco (demo\<lparr>pcm_open := (\<lambda>t c d f cfg. None)\<rparr>) demo_hal = None"
proof -
  have "start_voice_session_bt_sco (demo\<lparr>pcm_open := (\<lambda>t c d f cfg. None)\<rparr>) demo_hal = None"
    by (simp add: start_voice_session_bt_sco_def open_pcm_def demo_hal_def)
  moreover obtain s' where s': "start_voice_session_bt_sco demo_half_sco demo_hal = Some s'"
    "opened_handles (trace s') = {#ReadyPcm 0, FailedPcm 1#}" "sco_handles s' = {#}"
    by (simp add: start_voice_session_bt_sco_def open_pcm_def demo_hal_def demo_half_sco_def sco_handles_def Let_def)
  moreover have "closed_handles (trace s') = opened_handles (trace s')"
    using sco_session_accounts [of demo_hal demo_half_sco] s'(1,3) by (simp add: demo_hal_def sco_handles_def)
  ultimately show ?thesis by auto
qed

section \<open>Opening\<close>

text \<open>
  Opening the mixer is bounded: one attempt after another with half a second between them,
  eleven at most, and no further attempt after the first that succeeds.
\<close>

lemma mixer_attempts_bounded:
  "\<exists>k \<le> 10. trace (snd (open_mixer_retry P crd RETRY_NUMBER s)) =
      MixerOpen crd # concat (replicate k [Usleep 500000, MixerOpen crd]) @ trace s \<and>
    (fst (open_mixer_retry P crd RETRY_NUMBER s) = None \<longrightarrow> k = 10)"
  using open_mixer_attempts [where P = P and crd = crd and n = 10 and s = s] by simp

text \<open>
  A successful \<open>adev_open\<close> in a process that holds nothing leaves a device that satisfies the
  invariant, in normal mode, with one mixer card, no stream and no primary output.
\<close>

lemma adev_open_ready:
  assumes "boot_ok P s" and "adev_open P name s = (0, s')"
  shows "dev_inv P s' \<and> mode s' = AUDIO_MODE_NORMAL P \<and> outs s' = (\<lambda>_. None) \<and> ins s' = (\<lambda>_. None) \<and>
    primary_output s' = None \<and> adev_get_mixer_for_card (mixer_list s') SOUND_CARD \<noteq> None"
proof -
  have op: "op_inv P s'" using adev_open_op [OF assms] by simp
  then have "adev_get_mixer_for_card (mixer_list s') SOUND_CARD \<noteq> None"
    by (auto simp: op_inv_def core_inv_def routes_ok_def)
  then show ?thesis using adev_open_op [OF assms] by (simp add: dev_inv_def)
qed

text \<open>
  C34. The errors of \<open>adev_open_output_stream\<close>: \<open>-EINVAL\<close> for devices that no profile covers and
  \<open>-EEXIST\<close> for a second primary output, both of which leave the streams as they were.
\<close>

theorem open_output_errors:
  assumes "calloc_ok P (trace s) ''stream_out''" and "devices \<noteq> AUDIO_DEVICE_NONE P"
    and "adev_open_output_stream P handle devices flags format s = (r, p, s')"
  shows "(get_pcm_device P (pcm_devices s) PCM_PLAYBACK devices = None \<longrightarrow>
      r = - EINVAL \<and> p = None \<and> outs s' = outs s \<and> primary_output s' = primary_output s) \<and>
    (get_pcm_device P (pcm_devices s) PCM_PLAYBACK devices \<noteq> None \<and>
     has_bits flags (AUDIO_OUTPUT_FLAG_PRIMARY P) \<and> primary_output s \<noteq> None \<longrightarrow>
      r = - EEXIST \<and> p = None \<and> outs s' = outs s \<and> primary_output s' = primary_output s)"
  using assms by (auto simp: adev_open_output_stream_def calloc_def Let_def)

theorem open_output_errors_witness:
  "fst (adev_open_output_stream demo 1 0x100 0x2 1 demo_open) = - 22 \<and>
   fst (adev_open_output_stream demo 1 0x2 0x2 1 demo_opened) = - 17"
proof -
  obtain r p s' where 1: "adev_open_output_stream demo 1 0x100 0x2 1 demo_open = (r, p, s')" by (metis prod_cases3)
  obtain r2 p2 s2 where 2: "adev_open_output_stream demo 1 0x2 0x2 1 demo_opened = (r2, p2, s2)" by (metis prod_cases3)
  have c: "calloc_ok demo t x" "0x100 \<noteq> AUDIO_DEVICE_NONE demo" "0x2 \<noteq> AUDIO_DEVICE_NONE demo" for t x
    by (simp_all add: demo_def)
  have "get_pcm_device demo (pcm_devices demo_open) PCM_PLAYBACK 0x100 = None"
    "get_pcm_device demo (pcm_devices demo_opened) PCM_PLAYBACK 0x2 \<noteq> None"
    "has_bits 0x2 (AUDIO_OUTPUT_FLAG_PRIMARY demo)" "primary_output demo_opened \<noteq> None"
    by code_simp+
  then show ?thesis
    using open_output_errors [OF c(1,2) 1] open_output_errors [OF c(1,3) 2] 1 2 by simp
qed

text \<open>
  C40. A failed open can leave a dangling pointer: when the first primary output is refused because
  its use case is already running, \<open>primary_output\<close> keeps the address of the stream that has been
  freed.
\<close>

theorem failed_open_leaves_dangling_primary:
  assumes "calloc_ok P (trace s) ''stream_out''" and "devices \<noteq> AUDIO_DEVICE_NONE P"
    and "get_pcm_device P (pcm_devices s) PCM_PLAYBACK devices \<noteq> None"
    and "has_bits flags (AUDIO_OUTPUT_FLAG_PRIMARY P)" and "primary_output s = None"
    and "get_usecase_from_id (usecase_list s) (usecase_of_flags P flags) \<noteq> None"
    and "outs s (next_addr s) = None"
  shows "\<exists>s' a. adev_open_output_stream P handle devices flags format s = (- EEXIST, None, s') \<and>
    primary_output s' = Some a \<and> outs s' a = None \<and> primary_devices s' = None"
  using assms
  by (auto simp: adev_open_output_stream_def calloc_def usecase_of_flags_def primary_devices_def Let_def lock_defs emit_def)

theorem failed_open_leaves_dangling_primary_witness:
  "\<exists>s' a. adev_open_output_stream demo 2 0x2 0x2 1 (demo_playing\<lparr>primary_output := None\<rparr>) = (- 17, None, s') \<and>
    primary_output s' = Some a \<and> outs s' a = None"
proof -
  let ?s = "demo_playing\<lparr>primary_output := None\<rparr>"
  have "calloc_ok demo (trace ?s) ''stream_out''" "0x2 \<noteq> AUDIO_DEVICE_NONE demo" "primary_output ?s = None"
    "outs ?s (next_addr ?s) = None"
    by (simp_all add: demo_def demo_playing_def demo_hal_def)
  moreover have "get_pcm_device demo (pcm_devices ?s) PCM_PLAYBACK 0x2 \<noteq> None"
    "has_bits 0x2 (AUDIO_OUTPUT_FLAG_PRIMARY demo)"
    "get_usecase_from_id (usecase_list ?s) (usecase_of_flags demo 0x2) \<noteq> None"
    by code_simp+
  ultimately show ?thesis using failed_open_leaves_dangling_primary [where P = demo and s = ?s and devices = "0x2" and flags = "0x2"
        and handle = 2 and format = 1] by blast
qed

text \<open>
  A position that is asked for before the first write faults: a stream that has just been opened
  has a list of PCM devices that was never initialised, and \<open>out_get_presentation_position\<close> walks it.
\<close>

lemma position_before_first_write_faults:
  assumes "env_ok P" and "reachable P s" and "allowed P s (OpenOutputStream handle devices flags format)"
    and "adev_open_output_stream P handle devices flags format s = (0, Some a, s')"
  shows "out_get_presentation_position P a s' = None"
proof -
  have "op_inv P s" "sound P"
    using reachable_dev_inv [OF assms(1,2)] assms(1) by (simp_all add: dev_inv_def env_ok_def)
  moreover have "\<not> out_usecase_open s (usecase_of_flags P flags)" using assms(3) by (simp add: allowed_def)
  ultimately obtain x where "outs s' a = Some x" "so_pcm_dev_list x = None"
    using open_output_op(6) [OF _ _ _ assms(4)] by fastforce
  then show ?thesis by (simp add: out_get_presentation_position_def lock_defs)
qed

section \<open>Replies\<close>

text \<open>A list of names with bars between them.\<close>

fun join_bar :: "string list \<Rightarrow> string" where
  "join_bar [] = []"
| "join_bar [x] = x"
| "join_bar (x # y # zs) = x @ ''|'' @ join_bar (y # zs)"

definition mask_name :: "(string \<times> u32) list \<Rightarrow> u32 \<Rightarrow> string option" where
  "mask_name table m = map_option fst (List.find (\<lambda>(name, mask). mask = m) table)"

lemma join_bar_more: "join_bar (x # xs) = x @ concat (map (\<lambda>y. ''|'' @ y) xs)"
  by (induction xs arbitrary: x) simp_all

lemma sup_channels_more:
  "sup_channels_value table ms False val =
   val @ concat (map (\<lambda>y. ''|'' @ y) (List.map_filter (mask_name table) (takeWhile (\<lambda>m. m \<noteq> 0) ms)))"
  by (induction ms arbitrary: val) (auto simp: mask_name_def List.map_filter_def split: option.split)

text \<open>
  The reply to a query for the channel masks is what its format says: the names of the masks
  before the terminating 0 that the table knows, in order, separated by bars.
\<close>

lemma sup_channels_reply:
  "sup_channels_value table ms True [] =
   join_bar (List.map_filter (mask_name table) (takeWhile (\<lambda>m. m \<noteq> 0) ms))"
proof (induction ms)
  case (Cons m ms)
  then show ?case
    by (cases "mask_name table m")
      (auto simp: mask_name_def [abs_def] List.map_filter_def sup_channels_more join_bar_more split: option.splits)
qed (simp add: List.map_filter_def)

text \<open>The other direction: the reply taken apart at the bars, and the mask that belongs to a name.\<close>

fun split_bar :: "string \<Rightarrow> string list" where
  "split_bar [] = [[]]"
| "split_bar (c # cs) = (if c = CHR ''|'' then [] # split_bar cs
     else case split_bar cs of [] \<Rightarrow> [[c]] | w # ws \<Rightarrow> (c # w) # ws)"

definition named_mask :: "(string \<times> u32) list \<Rightarrow> string \<Rightarrow> u32 option" where
  "named_mask table name = map_of table name"

lemma split_bar_word: "CHR ''|'' \<notin> set w \<Longrightarrow> split_bar w = [w]"
  by (induction w) auto

lemma split_bar_append: "CHR ''|'' \<notin> set w \<Longrightarrow> split_bar (w @ CHR ''|'' # r) = w # split_bar r"
  by (induction w) auto

lemma split_join:
  "xs \<noteq> [] \<Longrightarrow> \<forall>x \<in> set xs. CHR ''|'' \<notin> set x \<Longrightarrow> split_bar (join_bar xs) = xs"
  by (induction xs rule: join_bar.induct) (simp_all add: split_bar_word split_bar_append)

text \<open>
  C39. The reply to a query for the channel masks can be read named: taken apart at its bars, and each name
  looked up in the table, it gives the masks of the stream before the terminating 0, in their order, less
  those that the table does not name; when none is left the reply is empty, and without the key in the
  query the reply is a copy of the query.
\<close>

theorem channel_masks_reply:
  assumes "distinct [AUDIO_CHANNEL_OUT_STEREO P, AUDIO_CHANNEL_OUT_5POINT1 P, AUDIO_CHANNEL_OUT_7POINT1 P]"
    and "known = filter (\<lambda>m. m \<in> {AUDIO_CHANNEL_OUT_STEREO P, AUDIO_CHANNEL_OUT_5POINT1 P, AUDIO_CHANNEL_OUT_7POINT1 P})
      (takeWhile (\<lambda>m. m \<noteq> 0) (so_supported_channel_masks out))"
  shows "case str_parms_get_str P keys AUDIO_PARAMETER_STREAM_SUP_CHANNELS of
      None \<Rightarrow> out_get_parameters P out keys = Inr keys
    | Some v \<Rightarrow> \<exists>reply. out_get_parameters P out keys = Inl (AUDIO_PARAMETER_STREAM_SUP_CHANNELS, reply) \<and>
        (if known = [] then reply = []
         else map (named_mask (out_channels_name_to_enum_table P)) (split_bar reply) = map Some known)"
proof -
  define table where "table = out_channels_name_to_enum_table P"
  define names where "names = List.map_filter (mask_name table) (takeWhile (\<lambda>m. m \<noteq> 0) (so_supported_channel_masks out))"
  have named: "map (named_mask table) (List.map_filter (mask_name table) ms) =
      map Some (filter (\<lambda>m. m \<in> {AUDIO_CHANNEL_OUT_STEREO P, AUDIO_CHANNEL_OUT_5POINT1 P, AUDIO_CHANNEL_OUT_7POINT1 P}) ms)" for ms
    using assms(1) by (induction ms)
      (auto simp: List.map_filter_def mask_name_def named_mask_def table_def out_channels_name_to_enum_table_def)
  have bars: "\<forall>n \<in> set names. CHR ''|'' \<notin> set n"
    by (auto simp: names_def List.map_filter_def mask_name_def table_def out_channels_name_to_enum_table_def split: if_splits)
  have eq: "map (named_mask table) names = map Some known"
    unfolding names_def assms(2) by (rule named)
  then have "names = [] \<longleftrightarrow> known = []" by (metis map_is_Nil_conv)
  then have "if known = [] then join_bar names = []
      else map (named_mask table) (split_bar (join_bar names)) = map Some known"
    using split_join [of names] bars eq by (cases names) simp_all
  moreover have "out_get_parameters P out keys = (case str_parms_get_str P keys AUDIO_PARAMETER_STREAM_SUP_CHANNELS of
      None \<Rightarrow> Inr keys | Some v \<Rightarrow> Inl (AUDIO_PARAMETER_STREAM_SUP_CHANNELS, join_bar names))"
    by (simp add: out_get_parameters_def sup_channels_reply names_def table_def split: option.split)
  ultimately show ?thesis unfolding table_def by (cases "known = []") (simp_all split: option.split)
qed

theorem channel_masks_reply_witness:
  "\<exists>reply. out_get_parameters (demo\<lparr>str_parms_get_str := (\<lambda>kv k. Some [])\<rparr>)
      (demo_out\<lparr>so_supported_channel_masks := [0x63F, 0x5, 0x3, 0, 0x3F]\<rparr>) ''sup_channels'' =
        Inl (AUDIO_PARAMETER_STREAM_SUP_CHANNELS, reply) \<and>
    map (named_mask (out_channels_name_to_enum_table demo)) (split_bar reply) = [Some 0x63F, Some 0x3]"
proof -
  let ?P = "demo\<lparr>str_parms_get_str := (\<lambda>kv k. Some [])\<rparr>"
  have d: "distinct [AUDIO_CHANNEL_OUT_STEREO ?P, AUDIO_CHANNEL_OUT_5POINT1 ?P, AUDIO_CHANNEL_OUT_7POINT1 ?P]"
    by (simp add: demo_def)
  have k: "[0x63F, 0x3] = filter (\<lambda>m. m \<in> {AUDIO_CHANNEL_OUT_STEREO ?P, AUDIO_CHANNEL_OUT_5POINT1 ?P, AUDIO_CHANNEL_OUT_7POINT1 ?P})
      (takeWhile (\<lambda>m. m \<noteq> 0) (so_supported_channel_masks (demo_out\<lparr>so_supported_channel_masks := [0x63F, 0x5, 0x3, 0, 0x3F]\<rparr>)))"
    by (simp add: demo_def)
  show ?thesis
    using channel_masks_reply [OF d k, of "''sup_channels''"] by (simp add: out_channels_name_to_enum_table_def)
qed

end
