(* ===== verification/FailureClaims.thy ===== *)
theory FailureClaims
  imports DeviceClaims
begin

text \<open>
  What happens when a PCM cannot be opened or memory runs out: a stream that cannot play drops its
  data and holds nothing but a leaked handle, and a call that cannot be set up faults or leaves its
  use case behind.
\<close>

section \<open>Demonstration platforms on which PCMs fail\<close>

definition demo_mute :: platform where
  "demo_mute = demo\<lparr>pcm_open := (\<lambda>t c d f cfg. Some (if d = SOUND_PLAYBACK_VOICE_DEVICE then ReadyPcm (length t) else FailedPcm (length t)))\<rparr>"

lemma demo_mute_env: "env_ok demo_mute"
  using demo_env
  by (simp add: demo_mute_def env_ok_def sound_def healthy_def cast_ok_def reads_ok_def resampler_ok_def)

definition demo_mute_open :: hal where
  "demo_mute_open = snd (adev_open demo_mute ''audio_hw_if'' demo_boot)"

definition demo_mute_opened :: hal where
  "demo_mute_opened = snd (snd (adev_open_output_stream demo_mute 1 0x2 0x2 1 demo_mute_open))"

lemma demo_mute_opened_reachable: "reachable demo_mute demo_mute_opened"
proof -
  have "boot_ok demo_mute demo_boot" by (simp add: boot_ok_def demo_boot_def demo_hal_def demo_mute_def demo_def pcm_devices_init_def
        pcm_device_playback_def pcm_device_capture_def pcm_device_playback_spk_and_headset_def playback_config_def)
  moreover have "fst (adev_open demo_mute ''audio_hw_if'' demo_boot) = 0" by code_simp
  then have "adev_open demo_mute ''audio_hw_if'' demo_boot = (0, demo_mute_open)"
    by (simp add: demo_mute_open_def prod_eq_iff)
  ultimately have r: "reachable demo_mute demo_mute_open" and o: "outs demo_mute_open = (\<lambda>_. None)"
    using reachable.opened adev_open_op by blast+
  show ?thesis
    by (rule reachable.called [OF r, of "OpenOutputStream 1 0x2 0x2 1"])
      (simp_all add: allowed_def out_usecase_open_def o run_call_def demo_mute_opened_def)
qed

section \<open>Playing\<close>

text \<open>
  C16. A stream whose PCM cannot be opened: the write reports that all bytes were taken, but the
  stream stays in standby and counts no frame, the use case that was entered for it is gone, and
  no ready PCM handle is left open.
\<close>

theorem write_without_pcm:
  assumes "env_ok P" and "reachable P s" and "outs s a = Some out" and "so_standby out"
    and "\<And>t c n f cfg h. n \<in> {SOUND_PLAYBACK_DEVICE, SOUND_DEEP_BUFFER_DEVICE} \<Longrightarrow>
      pcm_open P t c n f cfg = Some h \<Longrightarrow> \<not> pcm_is_ready h"
  shows "\<exists>s' out'. out_write P a buffer bytes s = Some (int bytes, s') \<and> reachable P s' \<and>
    outs s' a = Some out' \<and> so_standby out' \<and> so_written out' = so_written out \<and>
    map uc_id (usecase_list s') = map uc_id (usecase_list s) \<and>
    open_pcms (trace s') = open_pcms (trace s)"
proof -
  have op: "op_inv P s" and S: "sound P"
    using reachable_dev_inv [OF assms(1,2)] assms(1) by (simp_all add: dev_inv_def env_ok_def)
  define s1 where "s1 = lock AdevLock (lock_output_stream a s)"
  have op1: "op_inv P s1" and a1: "outs s1 a = Some out" using op assms(3) by (auto simp: s1_def)
  have "\<not> (pcm_is_ready p \<and> playback_handle P p)" for p using assms(5) unfolding playback_handle_def by blast
  then obtain s2 where 2: "start_output_stream P a s1 = Some (- EIO, s2)" "op_inv P s2"
    "outs s2 = (outs s1)(a \<mapsto> out\<lparr>so_pcm_dev_list := Some []\<rparr>)"
    "map uc_shape (usecase_list s2) = map uc_shape (usecase_list s1)" "open_pcms (trace s2) = open_pcms (trace s1)"
    using op_start_output [OF op1 S a1 assms(4)] by (auto simp: wp_exists split: if_splits)
  define s3 where "s3 = unlock (OutLock a) (unlock AdevLock s2)"
  define s4 where "s4 = unlock (OutLock a) (lock_output_stream a s3)"
  define y where "y = out\<lparr>so_pcm_dev_list := Some []\<rparr>"
  have op4: "op_inv P s4" using 2(2) by (auto simp: s4_def s3_def)
  have a4: "outs s3 a = Some y" "outs s4 a = Some y" "outs s2 a = Some y" using 2(3) by (simp_all add: s4_def s3_def y_def)
  have y: "so_standby y" "so_pcm_dev_list y = Some []" "so_written y = so_written out"
    using assms(4) by (simp_all add: y_def)
  have sb: "out_standby a s3 = Some (0, s4)" using a4 y(1) by (simp add: out_standby_def s4_def)
  obtain l w where 5: "sleep_after_error P a bytes s4 =
      Some (upd_out a (\<lambda>out. out\<lparr>so_last_write_time_us := w\<rparr>) (s4\<lparr>trace := l @ trace s4\<rparr>))"
    "l = [ClockGettime] \<or> (\<exists>t. l = [Usleep t, ClockGettime])"
    using sleep_after_error_eq [OF op_fields(2) [OF op4 a4(2)] a4(2) sound_frame_size [OF S]] .
  define s5 where "s5 = upd_out a (\<lambda>out. out\<lparr>so_last_write_time_us := w\<rparr>) (s4\<lparr>trace := l @ trace s4\<rparr>)"
  have run: "out_write P a buffer bytes s = Some (int bytes, s5)"
    using assms(3,4) 2(1) sb 5(1) a4 y
    by (simp add: out_write_def out_leave_standby_def s1_def [symmetric] s3_def [symmetric] s5_def)
  have "reachable P s5"
    by (rule reachable.called [OF assms(2), of "OutWrite a buffer bytes"])
      (simp_all add: allowed_def assms(3) run_call_def run)
  moreover have "outs s5 a = Some (y\<lparr>so_last_write_time_us := w\<rparr>)" using a4 by (simp add: s5_def)
  moreover have "map uc_id (usecase_list s5) = map uc_id (usecase_list s)"
  proof -
    have "map uc_id us = map (\<lambda>(_, i, _). i) (map uc_shape us)" for us by (simp add: uc_shape_def)
    moreover have "usecase_list s5 = usecase_list s2" "usecase_list s1 = usecase_list s"
      by (simp_all add: s5_def s4_def s3_def s1_def lock_defs)
    ultimately show ?thesis using 2(4) by metis
  qed
  moreover have "open_pcms (trace s5) = open_pcms (trace s)"
    using 2(5) 5(2) by (auto simp: s5_def s4_def s3_def s1_def lock_defs)
  ultimately show ?thesis using run y by (intro exI [of _ s5] exI) (auto intro!: exI)
qed

theorem write_without_pcm_witness:
  "\<exists>s' out'. out_write demo_mute 4 [[1, 2]] 4 demo_mute_opened = Some (4, s') \<and> outs s' 4 = Some out' \<and>
    so_standby out' \<and> open_pcms (trace s') = open_pcms (trace demo_mute_opened)"
proof -
  have "map_option so_standby (outs demo_mute_opened 4) = Some True" by code_simp
  then obtain out where "outs demo_mute_opened 4 = Some out" "so_standby out" by auto
  moreover have "\<not> pcm_is_ready h" if "n \<in> {SOUND_PLAYBACK_DEVICE, SOUND_DEEP_BUFFER_DEVICE}"
    "pcm_open demo_mute t c n f cfg = Some h" for t c n f cfg h
    using that by (auto simp: demo_mute_def)
  ultimately show ?thesis
    using write_without_pcm [OF demo_mute_env demo_mute_opened_reachable, of 4 out "[[1, 2]]" 4] by fastforce
qed

text \<open>The invariant does not depend on how PCMs open or whether memory is left.\<close>

lemma dev_inv_pcm_open: "dev_inv (P\<lparr>pcm_open := g\<rparr>) s = dev_inv P s" "dev_inv (P\<lparr>calloc_ok := m\<rparr>) s = dev_inv P s"
  by (simp_all add: dev_inv_def op_inv_def core_inv_def out_ok_def in_ok_def supported_def profiles_ok_def
      get_pcm_device_def pcm_devices_init_def pcm_device_playback_def pcm_device_capture_def
      pcm_device_playback_spk_and_headset_def playback_config_def Let_def)

text \<open>
  C17. A write when no use case can be allocated.  On the first write to a stream the error path of
  \<open>out_write\<close> walks a list of PCM devices that was never initialised, and faults.  A stream that has
  played before reports that all bytes were taken: the only field of the device that changes is the
  stream's time of the last write, and the calls made are those of the mutexes, the failed allocation,
  one reading of the clock and at most one \<open>usleep\<close>.
\<close>

theorem write_without_memory:
  assumes "dev_inv P s" and "outs s a = Some out" and "so_standby out"
    and "\<And>t. \<not> calloc_ok P t ''audio_usecase''"
    and "\<And>f. audio_stream_out_frame_size P (AUDIO_CHANNEL_OUT_STEREO P) f \<noteq> 0"
  shows "if so_pcm_dev_list out = None then out_write P a buffer bytes s = None
    else \<exists>s' w sleep. out_write P a buffer bytes s = Some (int bytes, s') \<and> dev_inv P s' \<and>
      (sleep = [] \<or> (\<exists>t. sleep = [Usleep t])) \<and>
      s' = s\<lparr>outs := (outs s)(a \<mapsto> out\<lparr>so_last_write_time_us := w\<rparr>),
        trace := sleep @ [ClockGettime,
            Unlock (OutLock a), Unlock (OutPreLock a), Lock (OutLock a), Lock (OutPreLock a),
            Unlock (OutLock a), Unlock AdevLock, Calloc ''audio_usecase'', Lock AdevLock,
            Unlock (OutPreLock a), Lock (OutLock a), Lock (OutPreLock a)] @ trace s\<rparr>"
proof -
  have op: "op_inv P s" using assms(1) by (simp add: dev_inv_def)
  define s1 where "s1 = unlock (OutLock a) (unlock AdevLock (emit (Calloc ''audio_usecase'') (lock AdevLock (lock_output_stream a s))))"
  have a1: "outs s1 a = Some out" using assms(2) by (simp add: s1_def lock_defs)
  have run: "out_write P a buffer bytes s = do {
      devs \<leftarrow> so_pcm_dev_list out; r \<leftarrow> out_standby a s1; s \<leftarrow> sleep_after_error P a bytes (snd r); Some (int bytes, s) }"
    using assms(2-4) a1
    by (simp add: out_write_def out_leave_standby_def start_output_stream_def enable_output_path_l_def
        calloc_def s1_def Let_def)
  show ?thesis
  proof (cases "so_pcm_dev_list out")
    case None
    then show ?thesis using run by simp
  next
    case (Some ds)
    define s2 where "s2 = unlock (OutLock a) (lock_output_stream a s1)"
    have a2: "outs s2 a = Some out" using a1 by (simp add: s2_def lock_defs)
    have sb: "out_standby a s1 = Some (0, s2)" using a1 assms(3) by (simp add: out_standby_def s2_def)
    have ok: "out_ok P s a out" by (rule op_fields(2) [OF op assms(2)])
    then have "out_ok P s2 a out" by (simp add: out_ok_def s2_def s1_def lock_defs active_def)
    then obtain l w where 5: "sleep_after_error P a bytes s2 =
        Some (upd_out a (\<lambda>out. out\<lparr>so_last_write_time_us := w\<rparr>) (s2\<lparr>trace := l @ trace s2\<rparr>))"
      "l = [ClockGettime] \<or> (\<exists>t. l = [Usleep t, ClockGettime])"
      using sleep_after_error_eq [OF _ a2 assms(5)] by metis
    define y where "y = out\<lparr>so_last_write_time_us := w\<rparr>"
    obtain sleep where sleep: "l = sleep @ [ClockGettime]" "sleep = [] \<or> (\<exists>t. sleep = [Usleep t])" using 5(2) by auto
    define s' where "s' = s\<lparr>outs := (outs s)(a \<mapsto> y), trace := sleep @ [ClockGettime,
            Unlock (OutLock a), Unlock (OutPreLock a), Lock (OutLock a), Lock (OutPreLock a),
            Unlock (OutLock a), Unlock AdevLock, Calloc ''audio_usecase'', Lock AdevLock,
            Unlock (OutPreLock a), Lock (OutLock a), Lock (OutPreLock a)] @ trace s\<rparr>"
    have "upd_out a (\<lambda>out. out\<lparr>so_last_write_time_us := w\<rparr>) (s2\<lparr>trace := l @ trace s2\<rparr>) = s'"
      using assms(2) by (simp add: upd_out_def s2_def s1_def lock_defs emit_def sleep(1) y_def s'_def)
    then have "out_write P a buffer bytes s = Some (int bytes, s')" using run sb 5(1) Some by simp
    moreover have "dev_inv P s'"
    proof -
      have eq: "s\<lparr>outs := (outs s)(a \<mapsto> y)\<rparr> = upd_out a (\<lambda>out. out\<lparr>so_last_write_time_us := w\<rparr>) s"
        using assms(2) by (simp add: upd_out_def y_def)
      have opy: "op_inv P (s\<lparr>outs := (outs s)(a \<mapsto> y)\<rparr>)"
        unfolding eq by (rule op_upd_out [OF op assms(2)]) (use ok in \<open>simp_all add: out_ok_def\<close>)
      have "op_inv P s'"
        by (rule op_inv_same [OF opy]) (use sleep(2) in \<open>auto simp: op_same_def core_same_def profiles_ok_def s'_def\<close>)
      moreover have "held (trace s') = []" "lock_order_ok (trace s')"
        using assms(1) sleep(2) by (auto simp: dev_inv_def s'_def)
      ultimately show ?thesis by (simp add: dev_inv_def)
    qed
    ultimately show ?thesis using Some sleep(2) unfolding s'_def y_def by auto
  qed
qed

text \<open>The device in which the primary output has played and is in standby again: its list is empty.\<close>

definition demo_rested :: hal where
  "demo_rested = upd_out 4 (\<lambda>out. out\<lparr>so_pcm_dev_list := Some []\<rparr>) demo_opened"

lemma demo_rested:
  "dev_inv demo demo_rested"
  "\<exists>out. outs demo_rested 4 = Some out \<and> so_standby out \<and> so_pcm_dev_list out = Some []"
proof -
  have d: "dev_inv demo demo_opened" by (rule reachable_dev_inv [OF demo_env demo_opened_reachable])
  then have op: "op_inv demo demo_opened" by (simp add: dev_inv_def)
  have "map_option so_standby (outs demo_opened 4) = Some True" by code_simp
  then obtain out where a: "outs demo_opened 4 = Some out" "so_standby out" by auto
  have "op_inv demo demo_rested" unfolding demo_rested_def
    by (rule op_upd_out [OF op a(1)]) (use op_fields(2) [OF op a(1)] a(2) in \<open>simp_all add: out_ok_def idle_list_def\<close>)
  then show "dev_inv demo demo_rested" using d by (simp add: dev_inv_def demo_rested_def)
  show "\<exists>out. outs demo_rested 4 = Some out \<and> so_standby out \<and> so_pcm_dev_list out = Some []"
    using a by (simp add: demo_rested_def)
qed

theorem write_without_memory_witness:
  "out_write (demo\<lparr>calloc_ok := (\<lambda>t x. False)\<rparr>) 4 [[1, 2]] 4 demo_opened = None \<and>
   (\<exists>s'. out_write (demo\<lparr>calloc_ok := (\<lambda>t x. False)\<rparr>) 4 [[1, 2]] 4 demo_rested = Some (4, s') \<and>
      usecase_list s' = usecase_list demo_rested \<and> snd_dev_ref_cnt s' = snd_dev_ref_cnt demo_rested)"
proof -
  let ?P = "demo\<lparr>calloc_ok := (\<lambda>t x. False)\<rparr>"
  have d: "dev_inv ?P demo_opened" "dev_inv ?P demo_rested"
    using reachable_dev_inv [OF demo_env demo_opened_reachable] demo_rested(1) by (simp_all add: dev_inv_pcm_open)
  have "map_option (\<lambda>x. so_standby x \<and> so_pcm_dev_list x = None) (outs demo_opened 4) = Some True" by code_simp
  then obtain out where o: "outs demo_opened 4 = Some out" "so_standby out" "so_pcm_dev_list out = None" by auto
  obtain rested where r: "outs demo_rested 4 = Some rested" "so_standby rested" "so_pcm_dev_list rested = Some []"
    using demo_rested(2) by blast
  have fs: "audio_stream_out_frame_size ?P (AUDIO_CHANNEL_OUT_STEREO ?P) f \<noteq> 0" for f by (simp add: demo_def)
  show ?thesis
    using write_without_memory [OF d(1) o(1,2), of "[[1, 2]]" 4] o(3) fs
      write_without_memory [OF d(2) r(1,2), of "[[1, 2]]" 4] r(3) by auto
qed

text \<open>
  A handle that \<open>out_open_pcm_devices\<close> finds not ready is never closed: the pointer to it is set to
  null before the error path closes the handles of the list, where the input path closes it first.
\<close>

lemma unready_handle_leaks:
  assumes "outs s a = Some out" and "so_pcm_dev_list out = Some [d]"
    and "\<And>t c n f cfg. pcm_open P t c n f cfg = Some h" and "\<not> pcm_is_ready h"
  shows "\<exists>s'. out_open_pcm_devices P a s = Some (- EIO, s') \<and>
    outs s' = (outs s)(a \<mapsto> out\<lparr>so_pcm_dev_list := Some [d\<lparr>pd_pcm := None\<rparr>]\<rparr>) \<and>
    opened_handles (trace s') = {#h#} + opened_handles (trace s) \<and> closed_handles (trace s') = closed_handles (trace s)"
  using assms
  by (simp add: out_open_pcm_devices_def out_close_pcm_devices_def close_pcms_def no_pcm_def upd_out_def emit_def Let_def)

section \<open>Calls\<close>

text \<open>
  C36. A call that cannot be set up.  Without memory for its use case, or when its capture PCM is not
  ready, the error path calls \<open>pcm_close\<close> with the null pointer \<open>pcm_voice_rx\<close> and faults.  When only
  its playback PCM is not ready, \<open>start_voice_call\<close> reports success and the device is not in a call, but
  the use case of the call stays in the list, so the device is outside the invariant that holds in
  every state reached without such a failure.
\<close>

theorem failed_call_leaves_usecase:
  assumes "dev_inv P s" and "cast_ok P" and "primary_output s \<noteq> None" and "\<not> in_call s"
    and "\<And>t c f cfg. pcm_open P t SOUND_CARD c f cfg \<noteq> None"
    and "\<And>t h. pcm_open P t SOUND_CARD SOUND_CAPTURE_VOICE_DEVICE (PCM_IN P) pcm_config_voicecall = Some h \<Longrightarrow>
      pcm_is_ready h = captures"
    and "\<And>t h. captures \<Longrightarrow> pcm_open P t SOUND_CARD SOUND_PLAYBACK_VOICE_DEVICE (PCM_OUT P) pcm_config_voicecall = Some h \<Longrightarrow>
      \<not> pcm_is_ready h"
  shows "if calloc_ok P (trace s) ''audio_usecase'' \<and> captures
    then \<exists>s'. start_voice_call P s = Some (0, s') \<and> \<not> in_call s' \<and> pcm_voice_rx s' = None \<and> pcm_voice_tx s' = None \<and>
      USECASE_VOICE_CALL \<in> uc_id ` set (usecase_list s') \<and> \<not> dev_inv P s'
    else start_voice_call P s = None"
proof (cases "calloc_ok P (trace s) ''audio_usecase''")
  have op: "op_inv P s" and c: "core_inv P s" and ok: "call_ok s"
    using assms(1) by (simp_all add: dev_inv_def op_inv_def)
  have none: "pcm_voice_rx s = None" "pcm_voice_tx s = None" "sco_ok s" using ok assms(4) by (simp_all add: call_ok_def)
  {
    case False
    then show ?thesis using none by (simp add: start_voice_call_def calloc_def start_voice_call_exit_def)
  next
    case True
    obtain a out where a: "primary_output s = Some a" "outs s a = Some out"
      using assms(3) c by (auto simp: core_inv_def primary_ok_def)
    obtain s1 where 1: "start_voice_call P s = start_voice_pcms P s1" "primary_devices s1 = Some (so_devices out)"
      "started s (next_addr s) USECASE_VOICE_CALL VOICE_CALL (OutRef a) s1" "pcm_voice_rx s1 = None" "pcm_voice_tx s1 = None" "sco_ok s1"
      using start_voice_usecase [OF c assms(2) True a voice_fresh [OF op assms(4)] none] by metis
    show ?thesis
    proof (cases captures)
      case False
      then show ?thesis
        using start_voice_pcms_no_capture [OF 1(2,4,6)] assms(5,6) 1(1) by auto
    next
      case captures: True
      obtain s2 where 2: "start_voice_pcms P s1 = Some (0, s2)" "usecase_list s2 = usecase_list s1" "\<not> in_call s2"
        "pcm_voice_rx s2 = None" "pcm_voice_tx s2 = None"
        using start_voice_pcms_no_playback [OF 1(2,4-6)] assms(5-7) captures by metis
      have call: "calling s2" using active_started(2) [OF 1(3)] 2(2) by (simp add: calling_def)
      have "USECASE_VOICE_CALL \<in> uc_id ` set (usecase_list s2)"
        by (rule started_member [OF 1(3)]) (use 2(2) in \<open>force simp: uc_shape_def\<close>)
      moreover have "\<not> dev_inv P s2" using call 2(3) by (simp add: dev_inv_def op_inv_def call_ok_def)
      ultimately show ?thesis using 1(1) 2 True captures by auto
    qed
  }
qed

text \<open>Platforms on which the PCMs of a call are not ready: both, or playback only.\<close>

definition demo_failing_call :: "bool \<Rightarrow> platform" where
  "demo_failing_call captures = demo\<lparr>pcm_open := (\<lambda>t c d f cfg. Some
     (if captures \<and> d = SOUND_CAPTURE_VOICE_DEVICE \<and> f = PCM_IN demo then ReadyPcm (length t) else FailedPcm (length t)))\<rparr>"

theorem failed_call_leaves_usecase_witness:
  "start_voice_call (demo_failing_call False) demo_opened = None \<and>
   start_voice_call (demo_failing_call True\<lparr>calloc_ok := \<lambda>t x. False\<rparr>) demo_opened = None \<and>
   (\<exists>s'. start_voice_call (demo_failing_call True) demo_opened = Some (0, s') \<and> \<not> in_call s' \<and>
      USECASE_VOICE_CALL \<in> uc_id ` set (usecase_list s'))"
proof -
  let ?n = "demo_failing_call True\<lparr>calloc_ok := \<lambda>t x. False\<rparr>"
  have inv: "dev_inv (demo_failing_call c) demo_opened" "dev_inv ?n demo_opened" for c
    using reachable_dev_inv [OF demo_env demo_opened_reachable] by (simp_all add: demo_failing_call_def dev_inv_pcm_open)
  have cast: "cast_ok (demo_failing_call c)" "cast_ok ?n" for c
    using demo_env by (simp_all add: demo_failing_call_def env_ok_def sound_def cast_ok_def)
  have s: "primary_output demo_opened \<noteq> None" "\<not> in_call demo_opened" by code_simp+
  show ?thesis
    using failed_call_leaves_usecase [OF inv(1) cast(1) s, of False False]
      failed_call_leaves_usecase [OF inv(1) cast(1) s, of True True]
      failed_call_leaves_usecase [OF inv(2) cast(2) s, of True]
    by (auto simp: demo_failing_call_def demo_def split: if_splits)
qed

end
