(* ===== verification/Client.thy ===== *)
theory Client
  imports DeviceClaims
begin

text \<open>
  The device as its client sees it: which streams are open, whether each is in standby, which output
  is the primary one, and the mode.  The calls of the interface, as \<open>run_call\<close> models them in full,
  are simulated by the steps of a small machine over that view, in which a call concerns its own
  stream only.
\<close>

section \<open>The abstract machine\<close>

datatype stream_state = Standby | Active

record client_view =
  v_out :: "nat \<Rightarrow> stream_state option"
  v_in :: "nat \<Rightarrow> stream_state option"
  v_primary :: "nat option"
  v_mode :: int

definition out_state :: "stream_out \<Rightarrow> stream_state" where
  "out_state x = (if so_standby x then Standby else Active)"

definition in_state :: "stream_in \<Rightarrow> stream_state" where
  "in_state x = (if si_standby x then Standby else Active)"

text \<open>What a client sees of the device.\<close>

definition view :: "hal \<Rightarrow> client_view" where
  "view s = \<lparr>v_out = (\<lambda>a. map_option out_state (outs s a)), v_in = (\<lambda>a. map_option in_state (ins s a)),
     v_primary = primary_output s, v_mode = mode s\<rparr>"

text \<open>Calls that concern neither streams nor the mode.\<close>

fun invisible :: "api_call \<Rightarrow> bool" where
  "invisible (OutSetVolume a l r) = True"
| "invisible (OutGetPresentationPosition a) = True"
| "invisible (InGetCapturePosition a) = True"
| "invisible (SetVoiceVolume v) = True"
| "invisible (SetMicMute b) = True"
| "invisible (SetParameters kv) = True"
| "invisible (WbAmrMessage n v) = True"
| "invisible (ClockMessage n v) = True"
| "invisible _ = False"

text \<open>
  A write or a read may start its stream, or leave it in standby when it fails; setting the
  parameters of a stream may put it into standby, never start it; opening may fail.
\<close>

inductive client_step :: "platform \<Rightarrow> api_call \<Rightarrow> client_view \<Rightarrow> client_view \<Rightarrow> bool" for P where
  out_standby: "client_step P (OutStandby a) v (v\<lparr>v_out := (v_out v)(a \<mapsto> Standby)\<rparr>)"
| out_write: "client_step P (OutWrite a buffer n) v (v\<lparr>v_out := (v_out v)(a \<mapsto> st)\<rparr>)"
| out_route: "st = Standby \<or> v_out v a = Some st \<Longrightarrow>
    client_step P (OutSetParameters a kv) v (v\<lparr>v_out := (v_out v)(a \<mapsto> st)\<rparr>)"
| in_standby: "client_step P (InStandby a) v (v\<lparr>v_in := (v_in v)(a \<mapsto> Standby)\<rparr>)"
| in_read: "client_step P (InRead a n) v (v\<lparr>v_in := (v_in v)(a \<mapsto> st)\<rparr>)"
| in_route: "st = Standby \<or> v_in v a = Some st \<Longrightarrow>
    client_step P (InSetParameters a kv) v (v\<lparr>v_in := (v_in v)(a \<mapsto> st)\<rparr>)"
| set_mode: "client_step P (SetMode m) v (v\<lparr>v_mode := m\<rparr>)"
| open_out: "v_out v a = None \<Longrightarrow> client_step P (OpenOutputStream handle devices flags format) v
    (v\<lparr>v_out := (v_out v)(a \<mapsto> Standby),
       v_primary := (if has_bits flags (AUDIO_OUTPUT_FLAG_PRIMARY P) then Some a else v_primary v)\<rparr>)"
| open_out_fails: "client_step P (OpenOutputStream handle devices flags format) v v"
| close_out: "client_step P (CloseOutputStream a) v (v\<lparr>v_out := (v_out v)(a := None)\<rparr>)"
| open_in: "v_in v a = None \<Longrightarrow> client_step P (OpenInputStream devices rate format chmask flags source) v
    (v\<lparr>v_in := (v_in v)(a \<mapsto> Standby)\<rparr>)"
| open_in_fails: "client_step P (OpenInputStream devices rate format chmask flags source) v v"
| close_in: "client_step P (CloseInputStream a) v (v\<lparr>v_in := (v_in v)(a := None)\<rparr>)"
| invisible: "invisible c \<Longrightarrow> client_step P c v v"

inductive_simps client_step_simps [simp]:
  "client_step P (OutStandby a) v v'"
  "client_step P (OutWrite a buffer n) v v'"
  "client_step P (OutSetParameters a kv) v v'"
  "client_step P (InStandby a) v v'"
  "client_step P (InRead a n) v v'"
  "client_step P (InSetParameters a kv) v v'"
  "client_step P (SetMode m) v v'"
  "client_step P (OpenOutputStream handle devices flags format) v v'"
  "client_step P (CloseOutputStream a) v v'"
  "client_step P (OpenInputStream devices rate format chmask flags source) v v'"
  "client_step P (CloseInputStream a) v v'"

lemma client_step_invisible: "invisible c \<Longrightarrow> client_step P c v v' \<longleftrightarrow> v' = v"
  by (auto intro: client_step.invisible elim: client_step.cases)

section \<open>What is seen of a change\<close>

lemma view_out:
  assumes "\<forall>b. b \<noteq> a \<longrightarrow> outs s' b = outs s b" "outs s' a = Some y" "ins s' = ins s" "mode s' = mode s"
    "primary_output s' = primary_output s"
  shows "view s' = (view s)\<lparr>v_out := (v_out (view s))(a \<mapsto> out_state y)\<rparr>"
  using assms by (auto simp: view_def fun_eq_iff)

lemma view_in:
  assumes "\<forall>b. b \<noteq> a \<longrightarrow> ins s' b = ins s b" "ins s' a = Some y" "outs s' = outs s" "mode s' = mode s"
    "primary_output s' = primary_output s"
  shows "view s' = (view s)\<lparr>v_in := (v_in (view s))(a \<mapsto> in_state y)\<rparr>"
  using assms by (auto simp: view_def fun_eq_iff)

lemma view_same:
  "outs s' = outs s \<Longrightarrow> ins s' = ins s \<Longrightarrow> mode s' = mode s \<Longrightarrow> primary_output s' = primary_output s \<Longrightarrow> view s' = view s"
  by (simp add: view_def)

section \<open>The simulation\<close>

lemma callback_mode:
  "mode (snd (ril_internal_wb_amr_callback n v s)) = mode s"
  "mode (snd (ril_internal_pcm_clock_callback n v s)) = mode s"
  "mode (snd (adev_set_parameters P kv s)) = mode s"
  by (auto simp: ril_internal_wb_amr_callback_def ril_internal_pcm_clock_callback_def run_callback_def
      audio_set_pcm_clock_callback_def audio_set_wb_amr_callback_def adev_set_parameters_def Let_def
      split: option.split ril_callback.split)

lemma op_same_view: "op_same P s s' \<Longrightarrow> mode s' = mode s \<Longrightarrow> view s' = view s"
  by (rule view_same) (simp_all add: op_same_def core_same_def)

lemma callback_view:
  "view (snd (ril_internal_wb_amr_callback n v s)) = view s"
  "view (snd (ril_internal_pcm_clock_callback n v s)) = view s"
  "view (snd (adev_set_parameters P kv s)) = view s"
  by (rule op_same_view [OF conjunct1 [OF callback_same(1)] callback_mode(1)]
      op_same_view [OF conjunct1 [OF callback_same(2)] callback_mode(2)]
      op_same_view [OF conjunct1 [OF callback_same(3)] callback_mode(3)])+

lemma invisible_view:
  assumes d: "dev_inv P s" and P: "env_ok P" and c: "allowed P s c" "invisible c"
  shows "wp (run_call P c s) (\<lambda>s'. view s' = view s)"
proof -
  have op: "op_inv P s" using d by (simp add: dev_inv_def)
  show ?thesis
  proof (cases c)
    case (OutSetVolume a l r)
    then show ?thesis using c by (auto simp: allowed_def run_call_def out_set_volume_def view_def fun_eq_iff out_state_def)
  next
    case (OutGetPresentationPosition a)
    then obtain x ds where x: "outs s a = Some x" "so_pcm_dev_list x = Some ds" using c by (auto simp: allowed_def)
    obtain r s' where r: "position_of_devices P x ds (lock_output_stream a s) = (r, s')" by fastforce
    note f = only_calls_fields [OF position_calls [of "lock_output_stream a s" P x ds, unfolded r snd_conv]]
    have "view (unlock (OutLock a) s') = view s" by (rule view_same) (simp_all add: f(2,4,25,26))
    then show ?thesis using OutGetPresentationPosition x r by (simp add: run_call_def out_get_presentation_position_def)
  next
    case (InGetCapturePosition a)
    then obtain i p q where l: "ins s a = Some i" "si_pcm_dev_list i = Some [p]" "pd_pcm p = Some q"
      using c op_fields(3) [OF op] by (fastforce simp: allowed_def in_ok_def running_list_def)
    have "view (unlock (InLock a) (emit (PcmTimestamp q) (lock (InLock a) s))) = view s" by (rule view_same) simp_all
    then show ?thesis using InGetCapturePosition l by (simp add: run_call_def in_get_capture_position_def Let_def)
  next
    case (SetVoiceVolume v)
    then have "mode s = AUDIO_MODE_IN_CALL P \<longrightarrow> primary_output s \<noteq> None" using c by (simp add: allowed_def)
    from set_voice_volume_op [OF op this, of v] obtain s' where
      s': "adev_set_voice_volume P v s = Some (0, s')" "mode s' = mode s" "primary_output s' = primary_output s"
        "outs s' = outs s" "ins s' = ins s" by (auto simp: wp_exists)
    have "view s' = view s" by (rule view_same) (fact s')+
    then show ?thesis using SetVoiceVolume s'(1) by (simp add: run_call_def)
  next
    case (SetMicMute b)
    have "view (snd (adev_set_mic_mute P b s)) = view s" by (rule view_same) (fact adev_set_mic_mute_op [OF op])+
    then show ?thesis using SetMicMute by (simp add: run_call_def)
  qed (use c(2) in \<open>simp_all add: run_call_def callback_view\<close>)
qed

lemma output_step:
  assumes d: "dev_inv P s" and P: "env_ok P" and a: "outs s a = Some x"
  shows "wp (run_call P (OutStandby a) s) (\<lambda>s'. client_step P (OutStandby a) (view s) (view s'))"
    and "wp (run_call P (OutWrite a buffer n) s) (\<lambda>s'. client_step P (OutWrite a buffer n) (view s) (view s'))"
    and "allowed P s (OutSetParameters a kv) \<Longrightarrow>
      wp (run_call P (OutSetParameters a kv) s) (\<lambda>s'. client_step P (OutSetParameters a kv) (view s) (view s'))"
proof -
  have op: "op_inv P s" and h: "held (trace s) = []" and S: "sound P"
    using d P by (simp_all add: dev_inv_def env_ok_def)
  obtain s' where s': "out_standby a s = Some (0, s')" "rest_same s s'" "ins s' = ins s"
    "outs s' = (outs s)(a \<mapsto> standby_out x)"
    using out_standby_op [OF op a] by (auto simp: wp_exists)
  have "view s' = (view s)\<lparr>v_out := (v_out (view s))(a \<mapsto> out_state (standby_out x))\<rparr>"
    by (rule view_out) (use s' in \<open>simp_all add: rest_same_def\<close>)
  then show "wp (run_call P (OutStandby a) s) (\<lambda>s'. client_step P (OutStandby a) (view s) (view s'))"
    using s'(1) by (simp add: run_call_def out_state_def standby_out_def)
  obtain s' y where s': "out_write P a buffer n s = Some (int n, s')" "rest_same s s'" "ins s' = ins s"
    "outs s' a = Some y" "\<forall>b. b \<noteq> a \<longrightarrow> outs s' b = outs s b"
    using out_write_op [OF op S a h, of buffer n] by (auto simp: wp_exists)
  have "view s' = (view s)\<lparr>v_out := (v_out (view s))(a \<mapsto> out_state y)\<rparr>"
    by (rule view_out) (use s' in \<open>simp_all add: rest_same_def\<close>)
  then show "wp (run_call P (OutWrite a buffer n) s) (\<lambda>s'. client_step P (OutWrite a buffer n) (view s) (view s'))"
    using s'(1) by (auto simp: run_call_def)
  show "wp (run_call P (OutSetParameters a kv) s) (\<lambda>s'. client_step P (OutSetParameters a kv) (view s) (view s'))"
    if al: "allowed P s (OutSetParameters a kv)"
  proof -
    have "supported P PCM_PLAYBACK (word_of_int (atoi v))"
      if "str_parms_get_str P kv AUDIO_PARAMETER_STREAM_ROUTING = Some v" "atoi v \<noteq> 0" for v
      using al that by (auto simp: allowed_def)
    from out_set_parameters_op [of P s a x kv, OF op S a this] obtain s' y where
      s': "out_set_parameters P a kv s = Some (0, s')" "mode s' = mode s" "primary_output s' = primary_output s"
        "ins s' = ins s" "\<forall>b. b \<noteq> a \<longrightarrow> outs s' b = outs s b" "outs s' a = Some y" "so_standby x \<longrightarrow> so_standby y"
      by (auto simp: wp_exists)
    have "view s' = (view s)\<lparr>v_out := (v_out (view s))(a \<mapsto> out_state y)\<rparr>"
      by (rule view_out) (use s' in simp_all)
    moreover have "out_state y = Standby \<or> v_out (view s) a = Some (out_state y)"
      using s'(7) a by (simp add: view_def out_state_def)
    ultimately show ?thesis using s'(1) by (auto simp: run_call_def)
  qed
qed

lemma input_step:
  assumes d: "dev_inv P s" and P: "env_ok P" and a: "ins s a = Some x"
  shows "wp (run_call P (InStandby a) s) (\<lambda>s'. client_step P (InStandby a) (view s) (view s'))"
    and "wp (run_call P (InRead a n) s) (\<lambda>s'. client_step P (InRead a n) (view s) (view s'))"
    and "wp (run_call P (InSetParameters a kv) s) (\<lambda>s'. client_step P (InSetParameters a kv) (view s) (view s'))"
    and "wp (run_call P (CloseInputStream a) s) (\<lambda>s'. client_step P (CloseInputStream a) (view s) (view s'))"
proof -
  have op: "op_inv P s" and h: "held (trace s) = []" and S: "sound P" "reads_ok P" "resampler_ok P"
    using d P by (simp_all add: dev_inv_def env_ok_def)
  obtain s' where s': "in_standby a s = Some (0, s')" "rest_same s s'" "outs s' = outs s"
    "ins s' = (ins s)(a \<mapsto> standby_in x)"
    using in_standby_op [OF op a h] by (auto simp: wp_exists)
  have "view s' = (view s)\<lparr>v_in := (v_in (view s))(a \<mapsto> in_state (standby_in x))\<rparr>"
    by (rule view_in) (use s' in \<open>simp_all add: rest_same_def\<close>)
  then show "wp (run_call P (InStandby a) s) (\<lambda>s'. client_step P (InStandby a) (view s) (view s'))"
    using s'(1) by (simp add: run_call_def in_state_def standby_in_def)
  obtain r s' y where s': "in_read P a n s = Some (r, s')" "rest_same s s'" "outs s' = outs s"
    "ins s' a = Some y" "\<forall>b. b \<noteq> a \<longrightarrow> ins s' b = ins s b"
    using in_read_op [OF op S a h, of n] by (auto simp: wp_exists)
  have "view s' = (view s)\<lparr>v_in := (v_in (view s))(a \<mapsto> in_state y)\<rparr>"
    by (rule view_in) (use s' in \<open>simp_all add: rest_same_def\<close>)
  then show "wp (run_call P (InRead a n) s) (\<lambda>s'. client_step P (InRead a n) (view s) (view s'))"
    using s'(1) by (auto simp: run_call_def)
  obtain s' y where s': "in_set_parameters P a kv s = Some (0, s')" "mode s' = mode s"
    "primary_output s' = primary_output s" "outs s' = outs s" "\<forall>b. b \<noteq> a \<longrightarrow> ins s' b = ins s b" "ins s' a = Some y"
    "si_standby x \<longrightarrow> si_standby y"
    using in_set_parameters_op [OF op S(1) a h, of kv] by (auto simp: wp_exists)
  have "view s' = (view s)\<lparr>v_in := (v_in (view s))(a \<mapsto> in_state y)\<rparr>"
    by (rule view_in) (use s' in simp_all)
  moreover have "in_state y = Standby \<or> v_in (view s) a = Some (in_state y)"
    using s'(7) a by (simp add: view_def in_state_def)
  ultimately show "wp (run_call P (InSetParameters a kv) s) (\<lambda>s'. client_step P (InSetParameters a kv) (view s) (view s'))"
    using s'(1) by (auto simp: run_call_def)
  show "wp (run_call P (CloseInputStream a) s) (\<lambda>s'. client_step P (CloseInputStream a) (view s) (view s'))"
    using close_input_op [OF op a h] by (auto simp: run_call_def wp_exists view_def fun_eq_iff)
qed

lemma client_step_ex:
  assumes d: "dev_inv P s" and P: "env_ok P" and c: "allowed P s c"
  shows "wp (run_call P c s) (\<lambda>s'. client_step P c (view s) (view s'))"
proof (cases "invisible c")
  case True
  then show ?thesis using invisible_view [OF d P c] by (auto simp: client_step_invisible elim: wp_mono)
next
  case vis: False
  have op: "op_inv P s" and S: "sound P" using d P by (simp_all add: dev_inv_def env_ok_def)
  show ?thesis
  proof (cases c)
    case (SetMode m)
    then show ?thesis using adev_set_mode_op [OF op, of m] by (auto simp: run_call_def wp_exists view_def)
  next
    case (OpenOutputStream handle devices flags format)
    obtain r p s' where r: "adev_open_output_stream P handle devices flags format s = (r, p, s')"
      by (metis prod_cases3)
    have "\<not> out_usecase_open s (usecase_of_flags P flags)" using c OpenOutputStream by (simp add: allowed_def)
    note o = open_output_op [OF S op this r]
    have "client_step P c (view s) (view s')"
    proof (cases p)
      case None
      then have "view s' = view s" using o(3,4,5) by (intro view_same) auto
      then show ?thesis using OpenOutputStream by simp
    next
      case (Some a)
      then show ?thesis using o(3,4) o(6) [OF Some] OpenOutputStream
        by (auto simp: view_def fun_eq_iff out_state_def intro!: exI [of _ a])
    qed
    then show ?thesis using OpenOutputStream r by (simp add: run_call_def)
  next
    case (CloseOutputStream a)
    then obtain x where "outs s a = Some x" "primary_output s \<noteq> Some a" using c by (auto simp: allowed_def)
    from close_output_op [OF op this] CloseOutputStream show ?thesis
      by (auto simp: run_call_def wp_exists view_def fun_eq_iff)
  next
    case (OpenInputStream devices rate format chmask flags source)
    obtain r p s' where r: "adev_open_input_stream P devices rate format chmask flags source s = (r, p, s')"
      by (metis prod_cases3)
    have new: "ins s b = None" for b using c OpenInputStream by (simp add: allowed_def)
    note o = open_input_op [OF S op new r]
    have "client_step P c (view s) (view s')"
    proof (cases p)
      case None
      then have "view s' = view s" using o(3-6) by (intro view_same) auto
      then show ?thesis using OpenInputStream by simp
    next
      case (Some a)
      then show ?thesis using o(3-5) o(7) [OF Some] OpenInputStream new
        by (auto simp: view_def fun_eq_iff in_state_def intro!: exI [of _ a])
    qed
    then show ?thesis using OpenInputStream r by (simp add: run_call_def)
  qed (use c vis output_step [OF d P] input_step [OF d P] in \<open>auto simp: allowed_def\<close>)
qed

text \<open>
  C2. The device implements the machine of its client: every call that the client may make in a
  reachable state returns, and what it changes of the streams, the primary output and the mode is a
  step of that machine.  So a call on one stream never starts, stops or closes another.
\<close>

theorem calls_refine_client_machine:
  assumes "env_ok P" and "reachable P s" and "allowed P s c"
  shows "\<exists>s'. run_call P c s = Some s' \<and> reachable P s' \<and> client_step P c (view s) (view s')"
proof -
  obtain s' where "run_call P c s = Some s'" "client_step P c (view s) (view s')"
    using client_step_ex [OF reachable_dev_inv [OF assms(1,2)] assms(1,3)] by (auto simp: wp_exists)
  then show ?thesis using reachable.called [OF assms(2,3)] by blast
qed

lemma demo_played_stream: "outs demo_played 4 \<noteq> None"
proof -
  obtain x where "outs demo_opened 4 = Some x" using demo_opened_run(2) by blast
  moreover have "dev_inv demo demo_opened" by (rule reachable_dev_inv [OF demo_env demo_opened_reachable])
  ultimately show ?thesis
    using out_write_op [of demo demo_opened 4 x "[[1, 2], [3, 4]]" 8] demo_env
    by (auto simp: wp_exists dev_inv_def env_ok_def demo_played_def)
qed

theorem calls_refine_client_machine_witness:
  "\<exists>s'. run_call demo (OutStandby 4) demo_played = Some s' \<and>
    v_out (view s') = (v_out (view demo_played))(4 \<mapsto> Standby) \<and> v_mode (view s') = v_mode (view demo_played)"
proof -
  have "allowed demo demo_played (OutStandby 4)" using demo_played_stream by (simp add: allowed_def)
  from calls_refine_client_machine [OF demo_env demo_played_reachable this] show ?thesis by auto
qed

text \<open>In the machine a stream starts only by being written to, or read from.\<close>

lemma started_by_client:
  assumes "client_step P c v v'"
  shows "v_out v' a = Some Active \<Longrightarrow> v_out v a \<noteq> Some Active \<Longrightarrow> \<exists>buffer n. c = OutWrite a buffer n"
    and "v_in v' a = Some Active \<Longrightarrow> v_in v a \<noteq> Some Active \<Longrightarrow> \<exists>n. c = InRead a n"
  using assms by (auto elim!: client_step.cases split: if_splits)

end
