(* ===== verification/Threads.thy ===== *)
theory Threads
  imports DeviceClaims
begin

text \<open>
  Several threads in the HAL at once: each makes the external calls of its HAL calls in order, the
  scheduler interleaves them, and a mutex is taken only when nobody holds it.  The order in which
  a HAL call takes its mutexes is the one it has when it runs alone from a reachable state; what
  one thread reads of the data that another writes between the two is not modelled here.
\<close>

section \<open>The interleavings\<close>

text \<open>A thread: the calls it has made, newest first, and those it has still to make, in order.\<close>

type_synonym thread = "call list \<times> call list"

definition free_mutex :: "thread list \<Rightarrow> mutex \<Rightarrow> bool" where
  "free_mutex ts m \<longleftrightarrow> (\<forall>t \<in> set ts. m \<notin> set (held (fst t)))"

definition finished :: "thread list \<Rightarrow> bool" where
  "finished ts \<longleftrightarrow> (\<forall>t \<in> set ts. snd t = [])"

inductive sys_step :: "thread list \<Rightarrow> thread list \<Rightarrow> bool" where
  step: "i < length ts \<Longrightarrow> ts ! i = (h, c # cs) \<Longrightarrow> (\<And>m. c = Lock m \<Longrightarrow> free_mutex ts m) \<Longrightarrow>
    sys_step ts (ts[i := (c # h, cs)])"

inductive_cases sys_stepE: "sys_step ts ts'"

text \<open>
  What a thread does: HAL calls, each allowed in the reachable state from which it starts, and for
  each the external calls \<open>p\<close> it makes there (histories are newest first).
\<close>

inductive thread_program :: "platform \<Rightarrow> call list \<Rightarrow> bool" for P where
  idle: "thread_program P []"
| next_call: "thread_program P cs \<Longrightarrow> reachable P s \<Longrightarrow> allowed P s c \<Longrightarrow> run_call P c s = Some s' \<Longrightarrow>
    trace s' = p @ trace s \<Longrightarrow> thread_program P (cs @ rev p)"

section \<open>What each thread keeps\<close>

text \<open>If it ran on alone it would keep the order of the mutexes and give all of them back.\<close>

definition thread_ok :: "thread \<Rightarrow> bool" where
  "thread_ok t \<longleftrightarrow> lock_order_ok (rev (snd t) @ fst t) \<and> held (rev (snd t) @ fst t) = []"

lemma held_append: "held t = held t' \<Longrightarrow> held (p @ t) = held (p @ t')"
proof (induction p)
  case (Cons c p)
  then show ?case by (cases c) simp_all
qed simp

lemma lock_order_suffix: "lock_order_ok (p @ t) \<Longrightarrow> lock_order_ok t"
proof (induction p)
  case (Cons c p)
  then show ?case by (cases c) simp_all
qed simp

lemma lock_order_append:
  "lock_order_ok (p @ t) \<Longrightarrow> held t = held t' \<Longrightarrow> lock_order_ok t' \<Longrightarrow> lock_order_ok (p @ t')"
proof (induction p)
  case (Cons c p)
  moreover have "held (p @ t) = held (p @ t')" by (rule held_append [OF Cons.prems(2)])
  ultimately show ?case by (cases c) simp_all
qed simp

lemma program_ok:
  assumes "env_ok P" and "thread_program P cs"
  shows "thread_ok ([], cs)"
  using assms(2)
proof (induction rule: thread_program.induct)
  case idle
  then show ?case by (simp add: thread_ok_def)
next
  case (next_call cs s c s' p)
  have "dev_inv P s" "dev_inv P s'"
    using next_call.hyps(2-4) reachable_dev_inv [OF assms(1)] reachable.called by blast+
  then have s: "held (trace s) = held (rev cs)" "held (p @ trace s) = []" "lock_order_ok (p @ trace s)"
    using next_call.IH next_call.hyps(5) by (simp_all add: dev_inv_def thread_ok_def)
  have "held (p @ rev cs) = []" using held_append [OF s(1), of p] s(2) by simp
  moreover have "lock_order_ok (p @ rev cs)"
    using lock_order_append [OF s(3,1)] next_call.IH by (simp add: thread_ok_def)
  ultimately show ?case by (simp add: thread_ok_def)
qed

lemma step_ok:
  assumes "sys_step ts ts'" and "list_all thread_ok ts"
  shows "list_all thread_ok ts'"
  using assms(1)
proof (rule sys_stepE)
  fix i h c cs
  assume i: "ts' = ts[i := (c # h, cs)]" "i < length ts" "ts ! i = (h, c # cs)"
  then have "thread_ok (h, c # cs)" using assms(2) by (metis list_all_length)
  then have "thread_ok (c # h, cs)" by (simp add: thread_ok_def)
  then show ?thesis using i assms(2) by (auto simp: list_all_iff dest!: set_update_subset_insert [THEN subsetD])
qed

section \<open>Some thread can go on\<close>

text \<open>A thread that waits holds only mutexes below the one it waits for.\<close>

lemma waiting_below:
  assumes "thread_ok (h, Lock m # cs)" and "l \<in> set (held h)"
  shows "l < m"
proof -
  have "lock_order_ok (Lock m # h)"
    using assms(1) lock_order_suffix [of "rev cs" "Lock m # h"] by (simp add: thread_ok_def)
  then show ?thesis using assms(2) by (simp add: list_all_iff less_mutex_def)
qed

lemma some_step:
  assumes ok: "list_all thread_ok ts" and more: "\<not> finished ts"
  shows "\<exists>ts'. sys_step ts ts'"
proof (rule ccontr)
  assume stuck: "\<nexists>ts'. sys_step ts ts'"
  define W where "W = {m. \<exists>h cs. (h, Lock m # cs) \<in> set ts}"
  have waits: "\<exists>m. c = Lock m \<and> \<not> free_mutex ts m" if t: "(h, c # cs) \<in> set ts" for h c cs
    using t stuck sys_step.step by (metis in_set_conv_nth)
  obtain h c cs where "(h, c # cs) \<in> set ts" using more unfolding finished_def by (metis list.exhaust prod.collapse)
  then obtain k where "k \<in> W" using waits unfolding W_def by blast
  moreover have "Lock ` W \<subseteq> (hd \<circ> snd) ` set ts" unfolding W_def by force
  then have "finite W" by (rule finite_imageD [OF finite_subset]) (simp_all add: inj_on_def)
  ultimately obtain m where m: "m \<in> W" "\<And>l. l \<in> W \<Longrightarrow> \<not> m < l"
    using finite_has_maximal [of W] by (metis empty_iff less_le)
  obtain h cs where "(h, Lock m # cs) \<in> set ts" using m(1) unfolding W_def by blast
  then obtain g ds where g: "(g, ds) \<in> set ts" "m \<in> set (held g)"
    using waits unfolding free_mutex_def by (metis call.inject prod.collapse)
  have gok: "thread_ok (g, ds)" using g(1) ok by (simp add: list_all_iff)
  then obtain c ds' where "ds = c # ds'" using g(2) by (cases ds) (simp_all add: thread_ok_def)
  moreover from this obtain l where "c = Lock l" using waits g(1) by blast
  ultimately have "l \<in> W" "m < l" using g gok waiting_below unfolding W_def by blast+
  then show False using m(2) by blast
qed

definition calls_left :: "thread list \<Rightarrow> nat" where
  "calls_left ts = sum_list (map (length \<circ> snd) ts)"

lemma step_calls_left:
  assumes "sys_step ts ts'"
  shows "calls_left ts' < calls_left ts"
  using assms
proof (rule sys_stepE)
  fix i h c cs
  assume t: "ts' = ts[i := (c # h, cs)]" "i < length ts" "ts ! i = (h, c # cs)"
  then have "ts = take i ts @ (h, c # cs) # drop (Suc i) ts" "ts' = take i ts @ (c # h, cs) # drop (Suc i) ts"
    by (metis id_take_nth_drop) (simp add: t upd_conv_take_nth_drop)
  moreover have "calls_left (xs @ (c # h, cs) # ys) < calls_left (xs @ (h, c # cs) # ys)" for xs ys
    by (simp add: calls_left_def)
  ultimately show ?thesis by metis
qed

lemma runs_to_end: "list_all thread_ok ts \<Longrightarrow> \<exists>ts'. sys_step\<^sup>*\<^sup>* ts ts' \<and> finished ts'"
proof (induction ts rule: measure_induct_rule [of calls_left])
  case (less ts)
  show ?case
  proof (cases "finished ts")
    case False
    then obtain us where u: "sys_step ts us" using some_step less.prems by blast
    with less step_calls_left step_ok obtain ts' where "sys_step\<^sup>*\<^sup>* us ts'" "finished ts'" by blast
    with u show ?thesis by (meson converse_rtranclp_into_rtranclp)
  qed blast
qed

section \<open>Nobody else holds a mutex\<close>

definition exclusive :: "thread list \<Rightarrow> bool" where
  "exclusive ts \<longleftrightarrow> (\<forall>i < length ts. \<forall>j < length ts. i \<noteq> j \<longrightarrow>
     set (held (fst (ts ! i))) \<inter> set (held (fst (ts ! j))) = {})"

lemma held_Cons: "m \<in> set (held (c # h)) \<Longrightarrow> m \<in> set (held h) \<or> c = Lock m"
  by (cases c) (auto dest: set_remove1_subset [THEN subsetD])

lemma step_exclusive:
  assumes "sys_step ts ts'" and ex: "exclusive ts"
  shows "exclusive ts'"
  using assms(1)
proof (rule sys_stepE)
  fix i h c cs
  assume t: "ts' = ts[i := (c # h, cs)]" "i < length ts" "ts ! i = (h, c # cs)"
    and free: "\<And>m. c = Lock m \<Longrightarrow> free_mutex ts m"
  have new: "set (held (c # h)) \<inter> set (held (fst (ts ! j))) = {}" if "j < length ts" "j \<noteq> i" for j
  proof -
    have "set (held h) \<inter> set (held (fst (ts ! j))) = {}" using ex t that by (fastforce simp: exclusive_def)
    then show ?thesis using free held_Cons that(1) unfolding free_mutex_def by fastforce
  qed
  then show ?thesis using ex t by (auto simp: exclusive_def nth_list_update Int_commute)
qed

section \<open>The property\<close>

text \<open>
  C12. Threads: however the calls of several threads are interleaved, no mutex is ever held by two
  of them, and they do not block one another: from every point of every interleaving all of them
  can run to the end of their calls.
\<close>

theorem threads_run_to_end:
  assumes "env_ok P" and "list_all (thread_program P) progs"
    and "sys_step\<^sup>*\<^sup>* (map (Pair []) progs) ts"
  shows "exclusive ts \<and> (\<exists>ts'. sys_step\<^sup>*\<^sup>* ts ts' \<and> finished ts')"
proof -
  have "list_all thread_ok ts \<and> exclusive ts"
    using assms(3)
  proof (induction rule: rtranclp_induct)
    case base
    then show ?case using assms(1,2) program_ok by (fastforce simp: list_all_iff exclusive_def)
  qed (use step_ok step_exclusive in blast)
  then show ?thesis using runs_to_end by blast
qed

text \<open>
  Two threads put the same stream into standby; the first has the \<open>pre_lock\<close>, for which the second
  waits.
\<close>

definition demo_standby_calls :: "call list" where
  "demo_standby_calls = [Lock (OutPreLock 4), Lock (OutLock 4), Unlock (OutPreLock 4), Unlock (OutLock 4)]"

lemma demo_standby_program: "thread_program demo demo_standby_calls"
proof -
  have "map_option (\<lambda>s. trace s) (run_call demo (OutStandby 4) demo_opened) =
      Some (rev demo_standby_calls @ trace demo_opened)" by code_simp
  then obtain s where "run_call demo (OutStandby 4) demo_opened = Some s"
    "trace s = rev demo_standby_calls @ trace demo_opened" by auto
  then have "thread_program demo ([] @ rev (rev demo_standby_calls))"
    using demo_opened_run(2)
    by (intro next_call [OF idle demo_opened_reachable, of "OutStandby 4"]) (simp_all add: allowed_def)
  then show ?thesis by simp
qed

theorem threads_run_to_end_witness:
  "\<exists>ts'. sys_step\<^sup>*\<^sup>* [([Lock (OutPreLock 4)], tl demo_standby_calls), ([], demo_standby_calls)] ts' \<and> finished ts'"
proof -
  let ?start = "map (Pair []) [demo_standby_calls, demo_standby_calls]"
  have "sys_step ?start (?start[0 := ([Lock (OutPreLock 4)], tl demo_standby_calls)])"
    by (rule sys_step.step) (simp_all add: demo_standby_calls_def free_mutex_def)
  then have "sys_step\<^sup>*\<^sup>* ?start [([Lock (OutPreLock 4)], tl demo_standby_calls), ([], demo_standby_calls)]"
    by (intro r_into_rtranclp) simp
  moreover have "list_all (thread_program demo) [demo_standby_calls, demo_standby_calls]"
    using demo_standby_program by simp
  ultimately show ?thesis using threads_run_to_end [OF demo_env] by blast
qed

end
