(* ===== verification/CameraParams.thy ===== *)
theory CameraParams
  imports CString
begin

text \<open>
  \<open>camera/CameraParameters.cpp\<close>: the camera's parameters as a map from names to values, its textual
  form, and the typed accessors.  The map itself is \<open>DefaultKeyedVector\<close> of Android's libutils,
  which the repository only calls: its operations are the argument \<open>V\<close> of the definitions, and what
  the code relies on is the locale \<open>keyed_vector\<close> of \<open>CameraParamsInv\<close>.
\<close>

section \<open>The vector\<close>

text \<open>\<open>kv_items\<close> lists what \<open>keyAt(i)\<close> and \<open>valueAt(i)\<close> return for the indices in order.\<close>

record 'm kvec =
  kv_empty :: 'm
  kv_add :: "string \<Rightarrow> string \<Rightarrow> 'm \<Rightarrow> 'm"
  kv_replace :: "string \<Rightarrow> string \<Rightarrow> 'm \<Rightarrow> 'm"
  kv_remove :: "string \<Rightarrow> 'm \<Rightarrow> 'm"
  kv_value :: "'m \<Rightarrow> string \<Rightarrow> string"
  kv_items :: "'m \<Rightarrow> (string \<times> string) list"

section \<open>Names\<close>

definition KEY_PREVIEW_SIZE :: string where "KEY_PREVIEW_SIZE = ''preview-size''"
definition KEY_SUPPORTED_PREVIEW_SIZES :: string where "KEY_SUPPORTED_PREVIEW_SIZES = ''preview-size-values''"
definition KEY_PREVIEW_FORMAT :: string where "KEY_PREVIEW_FORMAT = ''preview-format''"
definition KEY_SUPPORTED_PREVIEW_FORMATS :: string where
  "KEY_SUPPORTED_PREVIEW_FORMATS = ''preview-format-values''"
definition KEY_PREVIEW_FRAME_RATE :: string where "KEY_PREVIEW_FRAME_RATE = ''preview-frame-rate''"
definition KEY_PREVIEW_FPS_RANGE :: string where "KEY_PREVIEW_FPS_RANGE = ''preview-fps-range''"
definition KEY_PICTURE_SIZE :: string where "KEY_PICTURE_SIZE = ''picture-size''"
definition KEY_SUPPORTED_PICTURE_SIZES :: string where "KEY_SUPPORTED_PICTURE_SIZES = ''picture-size-values''"
definition KEY_PICTURE_FORMAT :: string where "KEY_PICTURE_FORMAT = ''picture-format''"
definition KEY_VIDEO_SIZE :: string where "KEY_VIDEO_SIZE = ''video-size''"
definition KEY_SUPPORTED_VIDEO_SIZES :: string where "KEY_SUPPORTED_VIDEO_SIZES = ''video-size-values''"
definition KEY_PREFERRED_PREVIEW_SIZE_FOR_VIDEO :: string where
  "KEY_PREFERRED_PREVIEW_SIZE_FOR_VIDEO = ''preferred-preview-size-for-video''"

definition PIXEL_FORMAT_YUV422SP :: string where "PIXEL_FORMAT_YUV422SP = ''yuv422sp''"
definition PIXEL_FORMAT_YUV420SP :: string where "PIXEL_FORMAT_YUV420SP = ''yuv420sp''"
definition PIXEL_FORMAT_YUV422I :: string where "PIXEL_FORMAT_YUV422I = ''yuv422i-yuyv''"
definition PIXEL_FORMAT_YUV420P :: string where "PIXEL_FORMAT_YUV420P = ''yuv420p''"
definition PIXEL_FORMAT_RGB565 :: string where "PIXEL_FORMAT_RGB565 = ''rgb565''"
definition PIXEL_FORMAT_RGBA8888 :: string where "PIXEL_FORMAT_RGBA8888 = ''rgba8888''"
definition PIXEL_FORMAT_BAYER_RGGB :: string where "PIXEL_FORMAT_BAYER_RGGB = ''bayer-rggb''"

section \<open>The textual form\<close>

fun flatten_items :: "(string \<times> string) list \<Rightarrow> string" where
  "flatten_items [] = []"
| "flatten_items [(k, v)] = k @ ''='' @ v"
| "flatten_items ((k, v) # kv # kvs) = k @ ''='' @ v @ '';'' @ flatten_items (kv # kvs)"

definition flatten :: "'m kvec \<Rightarrow> 'm \<Rightarrow> string" where
  "flatten V m = flatten_items (kv_items V m)"

text \<open>The loop of \<open>unflatten\<close>, with \<open>a\<close> the text that has not been read.\<close>

function unflatten_loop :: "'m kvec \<Rightarrow> string \<Rightarrow> 'm \<Rightarrow> 'm" where
  "unflatten_loop V a m =
     (case split_at (CHR ''='') a of
        None \<Rightarrow> m
      | Some (k, a) \<Rightarrow>
          (case split_at (CHR '';'') a of
             None \<Rightarrow> kv_add V k a m
           | Some (v, a) \<Rightarrow> unflatten_loop V a (kv_add V k v m)))"
  by pat_completeness auto
termination
  by (relation "measure (\<lambda>(V, a, m). length a)") (auto dest!: split_at_shorter)

declare unflatten_loop.simps [simp del]

definition unflatten :: "'m kvec \<Rightarrow> string \<Rightarrow> 'm" where
  "unflatten V params = unflatten_loop V params (kv_empty V)"

section \<open>Setting and getting\<close>

definition clean :: "string \<Rightarrow> bool" where
  "clean s \<longleftrightarrow> CHR ''='' \<notin> set s \<and> CHR '';'' \<notin> set s"

text \<open>A string argument is \<open>None\<close> for the null pointer.\<close>

definition set_param :: "'m kvec \<Rightarrow> string option \<Rightarrow> string option \<Rightarrow> 'm \<Rightarrow> 'm" where
  "set_param V key value m =
     (case (key, value) of
        (Some k, Some v) \<Rightarrow>
          if CHR ''='' \<in> set k \<or> CHR '';'' \<in> set k then m
          else if CHR ''='' \<in> set v \<or> CHR '';'' \<in> set v then m
          else kv_replace V k v m
      | _ \<Rightarrow> m)"

definition set_int :: "'m kvec \<Rightarrow> string option \<Rightarrow> int \<Rightarrow> 'm \<Rightarrow> 'm" where
  "set_int V key value m = set_param V key (Some (show_int value)) m"

text \<open>
  \<open>setFloat\<close> prints into 16 bytes; \<open>show_g\<close> is the C library's \<open>%g\<close>, and \<open>read_f\<close> its \<open>strtof\<close>.
\<close>

definition setFloat :: "('f \<Rightarrow> string) \<Rightarrow> 'm kvec \<Rightarrow> string option \<Rightarrow> 'f \<Rightarrow> 'm \<Rightarrow> 'm" where
  "setFloat show_g V key value m = set_param V key (Some (take 15 (show_g value))) m"

definition get :: "'m kvec \<Rightarrow> string \<Rightarrow> 'm \<Rightarrow> string option" where
  "get V key m = (let v = kv_value V m key in if length v = 0 then None else Some v)"

text \<open>\<open>strtol(v, 0, 0)\<close>: the base is read off the digits.\<close>

definition base_digit :: "nat \<Rightarrow> char \<Rightarrow> nat option" where
  "base_digit b c =
     (let n = (of_char c :: nat);
          d = (if 48 \<le> n \<and> n \<le> 57 then n - 48
               else if 97 \<le> n \<and> n \<le> 122 then n - 87
               else if 65 \<le> n \<and> n \<le> 90 then n - 55 else 36)
      in if d < b then Some d else None)"

fun read_base :: "nat \<Rightarrow> nat \<Rightarrow> string \<Rightarrow> nat" where
  "read_base b acc [] = acc"
| "read_base b acc (c # cs) =
     (case base_digit b c of None \<Rightarrow> acc | Some d \<Rightarrow> read_base b (b * acc + d) cs)"

definition read_any_base :: "string \<Rightarrow> nat" where
  "read_any_base s =
     (case s of
        c # x # h # r \<Rightarrow>
          if c = CHR ''0'' \<and> x \<in> {CHR ''x'', CHR ''X''} \<and> base_digit 16 h \<noteq> None then read_base 16 0 (h # r)
          else if c = CHR ''0'' then read_base 8 0 s
          else read_base 10 0 s
      | c # r \<Rightarrow> if c = CHR ''0'' then read_base 8 0 s else read_base 10 0 s
      | [] \<Rightarrow> 0)"

definition strtol0 :: "string \<Rightarrow> int" where
  "strtol0 s =
     (case dropWhile is_space s of
        [] \<Rightarrow> 0
      | c # cs \<Rightarrow>
          if c = CHR ''-'' then clamp_long (- int (read_any_base cs))
          else if c = CHR ''+'' then clamp_long (int (read_any_base cs))
          else clamp_long (int (read_any_base (c # cs))))"

definition getInt :: "'m kvec \<Rightarrow> string \<Rightarrow> 'm \<Rightarrow> int" where
  "getInt V key m = (case get V key m of None \<Rightarrow> -1 | Some v \<Rightarrow> to_int32 (strtol0 v))"

definition getFloat :: "(string \<Rightarrow> 'f) \<Rightarrow> 'f \<Rightarrow> 'm kvec \<Rightarrow> string \<Rightarrow> 'm \<Rightarrow> 'f" where
  "getFloat read_f minus_one V key m = (case get V key m of None \<Rightarrow> minus_one | Some v \<Rightarrow> read_f v)"

definition remove_param :: "'m kvec \<Rightarrow> string \<Rightarrow> 'm \<Rightarrow> 'm" where
  "remove_param V key m = kv_remove V key m"

definition isEmpty :: "'m kvec \<Rightarrow> 'm \<Rightarrow> bool" where
  "isEmpty V m = (kv_items V m = [])"

section \<open>Pairs and lists of sizes\<close>

text \<open>The two numbers and the rest of the text, or \<open>None\<close> for the result \<open>-1\<close>.\<close>

definition parse_pair :: "string \<Rightarrow> char \<Rightarrow> (int \<times> int \<times> string) option" where
  "parse_pair str delim =
     (let (w, e) = strtol str in
      case e of
        [] \<Rightarrow> None
      | c # r \<Rightarrow>
          if c \<noteq> delim then None
          else let (h, e) = strtol r in Some (to_int32 w, to_int32 h, e))"

text \<open>\<open>strtol\<close> does not lengthen the text.\<close>

lemma read_digits_length: "length (snd (read_digits acc s)) \<le> length s"
  by (induction s arbitrary: acc) (auto intro: le_SucI)

lemma read_unsigned_length: "read_unsigned s = Some (n, r) \<Longrightarrow> length r \<le> length s"
  using read_digits_length [of 0 s] by (auto simp: read_unsigned_def split: list.splits if_splits)

lemma strtol_length: "length (snd (strtol s)) \<le> length s"
proof (cases "dropWhile is_space s")
  case Nil
  show ?thesis unfolding strtol_def Let_def Nil by simp
next
  case (Cons c cs)
  have "length (c # cs) \<le> length s" unfolding Cons [symmetric] by (rule length_dropWhile_le)
  then show ?thesis
    unfolding strtol_def Let_def Cons by (auto split: option.splits dest!: read_unsigned_length)
qed

lemma parse_pair_shorter: "parse_pair s delim = Some (w, h, e) \<Longrightarrow> length e < length s"
  using strtol_length [of s] strtol_length [of "tl (snd (strtol s))"]
  by (auto simp: parse_pair_def Let_def split: prod.splits list.splits if_splits)

function parse_sizes :: "string \<Rightarrow> (int \<times> int) list \<Rightarrow> (int \<times> int) list" where
  "parse_sizes s sizes =
     (case parse_pair s (CHR ''x'') of
        None \<Rightarrow> sizes
      | Some (w, h, e) \<Rightarrow>
          (case e of
             [] \<Rightarrow> sizes @ [(w, h)]
           | c # r \<Rightarrow> if c = CHR '','' then parse_sizes r (sizes @ [(w, h)]) else sizes))"
  by pat_completeness auto
termination
  by (relation "measure (\<lambda>(s, sizes). length s)") (auto dest!: parse_pair_shorter)

declare parse_sizes.simps [simp del]

definition parseSizesList :: "string option \<Rightarrow> (int \<times> int) list \<Rightarrow> (int \<times> int) list" where
  "parseSizesList sizesStr sizes = (case sizesStr of None \<Rightarrow> sizes | Some s \<Rightarrow> parse_sizes s sizes)"

definition show_size :: "int \<Rightarrow> int \<Rightarrow> string" where
  "show_size width height = show_int width @ ''x'' @ show_int height"

text \<open>A getter of a pair: \<open>-1\<close> twice when there is no value or it is not a pair.\<close>

definition get_pair :: "'m kvec \<Rightarrow> string \<Rightarrow> char \<Rightarrow> 'm \<Rightarrow> int \<times> int" where
  "get_pair V key delim m =
     (case get V key m of
        None \<Rightarrow> (-1, -1)
      | Some p \<Rightarrow> (case parse_pair p delim of None \<Rightarrow> (-1, -1) | Some (a, b, e) \<Rightarrow> (a, b)))"

section \<open>The accessors\<close>

definition setPreviewSize :: "'m kvec \<Rightarrow> int \<Rightarrow> int \<Rightarrow> 'm \<Rightarrow> 'm" where
  "setPreviewSize V w h m = set_param V (Some KEY_PREVIEW_SIZE) (Some (show_size w h)) m"

definition getPreviewSize :: "'m kvec \<Rightarrow> 'm \<Rightarrow> int \<times> int" where
  "getPreviewSize V m = get_pair V KEY_PREVIEW_SIZE (CHR ''x'') m"

definition getPreferredPreviewSizeForVideo :: "'m kvec \<Rightarrow> 'm \<Rightarrow> int \<times> int" where
  "getPreferredPreviewSizeForVideo V m = get_pair V KEY_PREFERRED_PREVIEW_SIZE_FOR_VIDEO (CHR ''x'') m"

definition getSupportedPreviewSizes :: "'m kvec \<Rightarrow> (int \<times> int) list \<Rightarrow> 'm \<Rightarrow> (int \<times> int) list" where
  "getSupportedPreviewSizes V sizes m = parseSizesList (get V KEY_SUPPORTED_PREVIEW_SIZES m) sizes"

definition setVideoSize :: "'m kvec \<Rightarrow> int \<Rightarrow> int \<Rightarrow> 'm \<Rightarrow> 'm" where
  "setVideoSize V w h m = set_param V (Some KEY_VIDEO_SIZE) (Some (show_size w h)) m"

definition getVideoSize :: "'m kvec \<Rightarrow> 'm \<Rightarrow> int \<times> int" where
  "getVideoSize V m = get_pair V KEY_VIDEO_SIZE (CHR ''x'') m"

definition getSupportedVideoSizes :: "'m kvec \<Rightarrow> (int \<times> int) list \<Rightarrow> 'm \<Rightarrow> (int \<times> int) list" where
  "getSupportedVideoSizes V sizes m = parseSizesList (get V KEY_SUPPORTED_VIDEO_SIZES m) sizes"

definition setPreviewFrameRate :: "'m kvec \<Rightarrow> int \<Rightarrow> 'm \<Rightarrow> 'm" where
  "setPreviewFrameRate V fps m = set_int V (Some KEY_PREVIEW_FRAME_RATE) fps m"

definition getPreviewFrameRate :: "'m kvec \<Rightarrow> 'm \<Rightarrow> int" where
  "getPreviewFrameRate V m = getInt V KEY_PREVIEW_FRAME_RATE m"

definition getPreviewFpsRange :: "'m kvec \<Rightarrow> 'm \<Rightarrow> int \<times> int" where
  "getPreviewFpsRange V m = get_pair V KEY_PREVIEW_FPS_RANGE (CHR '','') m"

definition setPreviewFormat :: "'m kvec \<Rightarrow> string option \<Rightarrow> 'm \<Rightarrow> 'm" where
  "setPreviewFormat V format m = set_param V (Some KEY_PREVIEW_FORMAT) format m"

definition getPreviewFormat :: "'m kvec \<Rightarrow> 'm \<Rightarrow> string option" where
  "getPreviewFormat V m = get V KEY_PREVIEW_FORMAT m"

definition setPictureSize :: "'m kvec \<Rightarrow> int \<Rightarrow> int \<Rightarrow> 'm \<Rightarrow> 'm" where
  "setPictureSize V w h m = set_param V (Some KEY_PICTURE_SIZE) (Some (show_size w h)) m"

definition getPictureSize :: "'m kvec \<Rightarrow> 'm \<Rightarrow> int \<times> int" where
  "getPictureSize V m = get_pair V KEY_PICTURE_SIZE (CHR ''x'') m"

definition getSupportedPictureSizes :: "'m kvec \<Rightarrow> (int \<times> int) list \<Rightarrow> 'm \<Rightarrow> (int \<times> int) list" where
  "getSupportedPictureSizes V sizes m = parseSizesList (get V KEY_SUPPORTED_PICTURE_SIZES m) sizes"

definition setPictureFormat :: "'m kvec \<Rightarrow> string option \<Rightarrow> 'm \<Rightarrow> 'm" where
  "setPictureFormat V format m = set_param V (Some KEY_PICTURE_FORMAT) format m"

definition getPictureFormat :: "'m kvec \<Rightarrow> 'm \<Rightarrow> string option" where
  "getPictureFormat V m = get V KEY_PICTURE_FORMAT m"

section \<open>Printing\<close>

text \<open>
  What \<open>dump(fd, args)\<close> writes: each line goes through a buffer that \<open>snprintf\<close> fills with at most 254
  characters.
\<close>

definition dump_line :: "string \<Rightarrow> string" where
  "dump_line line = take 254 line"

definition dump :: "'m kvec \<Rightarrow> 'm \<Rightarrow> string" where
  "dump V m =
     dump_line (''CameraParameters::dump: mMap.size = '' @ show_nat (length (kv_items V m)) @ [CHR 0x0A]) @
     concat (map (\<lambda>(k, v). dump_line ([CHR 0x09] @ k @ '': '' @ v @ [CHR 0x0A])) (kv_items V m))"

text \<open>Items of up to 250 characters are printed in full, one on a line; a longer one loses its end of line.\<close>

lemma dump_whole_line:
  "length k + length v \<le> 250 \<Longrightarrow> dump_line ([CHR 0x09] @ k @ '': '' @ v @ [CHR 0x0A]) = [CHR 0x09] @ k @ '': '' @ v @ [CHR 0x0A]"
  by (simp add: dump_line_def)

lemma dump_long_line:
  "250 < length k + length v \<Longrightarrow> dump_line ([CHR 0x09] @ k @ '': '' @ v @ [CHR 0x0A]) = take 254 ([CHR 0x09] @ k @ '': '' @ v)"
  by (simp add: dump_line_def del: take_append) (simp add: take_Cons' )

section \<open>Preview formats\<close>

text \<open>The constants of Android's \<open>system/graphics.h\<close>.\<close>

record pixel_formats =
  HAL_PIXEL_FORMAT_YCrCb_420_SP :: int
  HAL_PIXEL_FORMAT_YCbCr_422_SP :: int
  HAL_PIXEL_FORMAT_YCbCr_422_I :: int
  HAL_PIXEL_FORMAT_YV12 :: int
  HAL_PIXEL_FORMAT_RGB_565 :: int
  HAL_PIXEL_FORMAT_RGBA_8888 :: int
  HAL_PIXEL_FORMAT_RAW16 :: int

definition previewFormatToEnum :: "pixel_formats \<Rightarrow> string option \<Rightarrow> int" where
  "previewFormatToEnum F format =
     (case format of
        None \<Rightarrow> HAL_PIXEL_FORMAT_YCrCb_420_SP F
      | Some f \<Rightarrow>
          if f = PIXEL_FORMAT_YUV422SP then HAL_PIXEL_FORMAT_YCbCr_422_SP F
          else if f = PIXEL_FORMAT_YUV420SP then HAL_PIXEL_FORMAT_YCrCb_420_SP F
          else if f = PIXEL_FORMAT_YUV422I then HAL_PIXEL_FORMAT_YCbCr_422_I F
          else if f = PIXEL_FORMAT_YUV420P then HAL_PIXEL_FORMAT_YV12 F
          else if f = PIXEL_FORMAT_RGB565 then HAL_PIXEL_FORMAT_RGB_565 F
          else if f = PIXEL_FORMAT_RGBA8888 then HAL_PIXEL_FORMAT_RGBA_8888 F
          else if f = PIXEL_FORMAT_BAYER_RGGB then HAL_PIXEL_FORMAT_RAW16 F
          else -1)"

text \<open>The tokens that repeated calls of \<open>strtok_r(s, ",", ...)\<close> return: the non-empty fields.\<close>

fun fields :: "char \<Rightarrow> string \<Rightarrow> string \<Rightarrow> string list" where
  "fields c cur [] = [cur]"
| "fields c cur (x # xs) = (if x = c then cur # fields c [] xs else fields c (cur @ [x]) xs)"

definition strtok_all :: "char \<Rightarrow> string \<Rightarrow> string list" where
  "strtok_all c s = filter (\<lambda>f. f \<noteq> []) (fields c [] s)"

definition getSupportedPreviewFormats :: "'m kvec \<Rightarrow> pixel_formats \<Rightarrow> int list \<Rightarrow> 'm \<Rightarrow> int list" where
  "getSupportedPreviewFormats V F formats m =
     (case get V KEY_SUPPORTED_PREVIEW_FORMATS m of
        None \<Rightarrow> formats
      | Some s \<Rightarrow> formats @ filter (\<lambda>a. a \<noteq> -1) (map (\<lambda>f. previewFormatToEnum F (Some f)) (strtok_all (CHR '','') s)))"

end
