(* ===== verification/CameraParamsInv.thy ===== *)
theory CameraParamsInv
  imports CameraParams "HOL-Library.List_Lexorder" "HOL-Library.Char_ord"
begin

text \<open>
  The contract of the keyed vector that the camera parameters are kept in, what follows from it for
  \<open>CameraParams\<close>, and an instance of it: a list of pairs sorted by key.
\<close>

section \<open>The contract\<close>

text \<open>
  What libutils documents: the items are kept sorted by key with one item per key, so their order
  depends on the contents only; \<open>add\<close> and \<open>replaceValueFor\<close> insert or replace, and \<open>valueFor\<close>
  returns the empty string for a key that is not there.
\<close>

locale keyed_vector =
  fixes V :: "'m kvec"
  assumes empty_items: "kv_items V (kv_empty V) = []"
    and distinct_keys: "distinct (map fst (kv_items V m))"
    and order_by_key: "map_of (kv_items V m) = map_of (kv_items V m') \<Longrightarrow> kv_items V m = kv_items V m'"
    and add_items: "map_of (kv_items V (kv_add V k v m)) = (map_of (kv_items V m))(k \<mapsto> v)"
    and replace_items: "map_of (kv_items V (kv_replace V k v m)) = (map_of (kv_items V m))(k \<mapsto> v)"
    and remove_items: "map_of (kv_items V (kv_remove V k m)) = (map_of (kv_items V m))(k := None)"
    and value_items: "kv_value V m k = (case map_of (kv_items V m) k of None \<Rightarrow> [] | Some v \<Rightarrow> v)"

text \<open>The items that the textual form can carry: no \<open>=\<close> in a key, no \<open>;\<close> in a value.\<close>

definition carried :: "(string \<times> string) list \<Rightarrow> bool" where
  "carried l \<longleftrightarrow> (\<forall>(k, v) \<in> set l. CHR ''='' \<notin> set k \<and> CHR '';'' \<notin> set v)"

lemma carried_simps [simp]:
  "carried []" "carried ((k, v) # l) \<longleftrightarrow> CHR ''='' \<notin> set k \<and> CHR '';'' \<notin> set v \<and> carried l"
  by (simp_all add: carried_def)

lemma carried_map_of:
  "distinct (map fst l) \<Longrightarrow>
   carried l \<longleftrightarrow> (\<forall>k v. map_of l k = Some v \<longrightarrow> CHR ''='' \<notin> set k \<and> CHR '';'' \<notin> set v)"
  unfolding carried_def by (auto simp: map_of_eq_Some_iff)

lemma unflatten_loop_step:
  "CHR ''='' \<notin> set k \<Longrightarrow> CHR '';'' \<notin> set v \<Longrightarrow>
   unflatten_loop V (k @ CHR ''='' # v @ CHR '';'' # r) m = unflatten_loop V r (kv_add V k v m)"
  by (subst unflatten_loop.simps) (simp add: split_at_append)

lemma unflatten_loop_last:
  "CHR ''='' \<notin> set k \<Longrightarrow> CHR '';'' \<notin> set v \<Longrightarrow> unflatten_loop V (k @ CHR ''='' # v) m = kv_add V k v m"
  using split_at_None_iff [of "CHR '';''" v] by (subst unflatten_loop.simps) (simp add: split_at_append)

lemma unflatten_flatten_items:
  "carried l \<Longrightarrow> unflatten_loop V (flatten_items l) m = fold (\<lambda>(k, v). kv_add V k v) l m"
proof (induction l arbitrary: m rule: flatten_items.induct)
  case 1
  then show ?case by (subst unflatten_loop.simps) simp
next
  case (2 k v)
  then show ?case using unflatten_loop_last [of k v V m] by simp
next
  case (3 k v kv kvs)
  then show ?case using unflatten_loop_step [of k v V "flatten_items (kv # kvs)" m] by (cases kv) simp
qed

lemma map_of_rev_distinct:
  assumes "distinct (map fst l)"
  shows "map_of (rev l) = map_of l"
proof
  fix k
  have "distinct (map fst (rev l))" using assms by (simp add: rev_map [symmetric])
  then have "map_of (rev l) k = Some v \<longleftrightarrow> map_of l k = Some v" for v
    using assms by (simp add: map_of_eq_Some_iff)
  then show "map_of (rev l) k = map_of l k" by (cases "map_of l k"; cases "map_of (rev l) k") auto
qed

context keyed_vector
begin

lemma fold_add_items:
  "map_of (kv_items V (fold (\<lambda>(k, v). kv_add V k v) l m)) = map_of (kv_items V m) ++ map_of (rev l)"
proof (induction l arbitrary: m)
  case (Cons x l)
  then show ?case by (cases x) (auto simp: add_items fun_eq_iff map_add_def split: option.split)
qed simp

lemma unflatten_flatten:
  assumes "carried (kv_items V m)"
  shows "kv_items V (unflatten V (flatten V m)) = kv_items V m"
proof (rule order_by_key)
  have "map_of (rev (kv_items V m)) = map_of (kv_items V m)"
    using distinct_keys [of m] by (rule map_of_rev_distinct)
  then show "map_of (kv_items V (unflatten V (flatten V m))) = map_of (kv_items V m)"
    by (simp add: unflatten_def flatten_def unflatten_flatten_items [OF assms] fold_add_items empty_items)
qed

lemma add_carried:
  "carried (kv_items V m) \<Longrightarrow> CHR ''='' \<notin> set k \<Longrightarrow> CHR '';'' \<notin> set v \<Longrightarrow> carried (kv_items V (kv_add V k v m))"
  "carried (kv_items V m) \<Longrightarrow> CHR ''='' \<notin> set k \<Longrightarrow> CHR '';'' \<notin> set v \<Longrightarrow> carried (kv_items V (kv_replace V k v m))"
  by (auto simp: carried_map_of [OF distinct_keys] add_items replace_items split: if_splits)

lemma remove_carried: "carried (kv_items V m) \<Longrightarrow> carried (kv_items V (kv_remove V k m))"
  by (auto simp: carried_map_of [OF distinct_keys] remove_items split: if_splits)

lemma unflatten_loop_carried:
  "carried (kv_items V m) \<Longrightarrow> carried (kv_items V (unflatten_loop V a m))"
proof (induction a arbitrary: m rule: length_induct)
  case (1 a)
  show ?case
  proof (cases "split_at (CHR ''='') a")
    case None
    then show ?thesis using 1 by (subst unflatten_loop.simps) simp
  next
    case (Some kr)
    then obtain k r where k: "split_at (CHR ''='') a = Some (k, r)" by (cases kr) auto
    have ck: "CHR ''='' \<notin> set k" using split_at_SomeD [OF k] by simp
    show ?thesis
    proof (cases "split_at (CHR '';'') r")
      case None
      then have "CHR '';'' \<notin> set r" by (simp add: split_at_None_iff)
      then show ?thesis using 1 ck None k by (subst unflatten_loop.simps) (simp add: add_carried)
    next
      case (Some vr)
      then obtain v q where v: "split_at (CHR '';'') r = Some (v, q)" by (cases vr) auto
      have cv: "CHR '';'' \<notin> set v" using split_at_SomeD [OF v] by simp
      have "length q < length a" using split_at_shorter [OF k] split_at_shorter [OF v] by simp
      moreover have "carried (kv_items V (kv_add V k v m))" using 1 ck cv by (simp add: add_carried)
      ultimately have "carried (kv_items V (unflatten_loop V q (kv_add V k v m)))" using 1 by blast
      then show ?thesis using k v by (subst unflatten_loop.simps) simp
    qed
  qed
qed

lemma unflatten_carried: "carried (kv_items V (unflatten V s))"
  by (simp add: unflatten_def unflatten_loop_carried empty_items)

lemma set_carried: "carried (kv_items V m) \<Longrightarrow> carried (kv_items V (set_param V k v m))"
  by (auto simp: set_param_def add_carried split: option.split)

lemma get_set:
  assumes "clean k" and "clean v"
  shows "get V k' (set_param V (Some k) (Some v) m) = (if k' = k then (if v = [] then None else Some v) else get V k' m)"
  using assms by (simp add: get_def set_param_def clean_def value_items replace_items)

lemma set_rejected: "\<not> clean k \<or> \<not> clean v \<Longrightarrow> set_param V (Some k) (Some v) m = m"
  by (auto simp: set_param_def clean_def)

end

section \<open>Numbers and pairs\<close>

lemma show_nat_clean: "clean (show_nat n)"
  using show_nat_digits [of "CHR ''=''" n] show_nat_digits [of "CHR '';''" n] by (auto simp: clean_def is_digit_def)

lemma show_int_clean: "clean (show_int n)"
  using show_nat_clean by (simp add: clean_def show_int_def)

lemma show_int_nonempty [simp]: "show_int n \<noteq> []"
  by (simp add: show_int_def)

lemma show_size_clean: "clean (show_size w h)"
  using show_int_clean [of w] show_int_clean [of h] by (simp add: clean_def show_size_def)

lemma parse_pair_show:
  assumes "is_int32 a" "is_int32 b" "\<not> is_digit c" "\<forall>x \<in> set (take 1 r). \<not> is_digit x"
  shows "parse_pair (show_int a @ c # show_int b @ r) c = Some (a, b, r)"
  using strtol_show_int [OF assms(1), of "c # show_int b @ r"] strtol_show_int [OF assms(2,4)] assms
  by (simp add: parse_pair_def to_int32_id)

lemma length_show_nat: "n < 10 ^ Suc k \<Longrightarrow> length (show_nat n) \<le> Suc k"
proof (induction k arbitrary: n)
  case 0
  then show ?case by (subst show_nat.simps) simp
next
  case (Suc k)
  then have "n div 10 < 10 ^ Suc k" by (simp add: less_mult_imp_div_less)
  from Suc.IH [OF this] show ?case by (subst show_nat.simps) simp
qed

lemma length_show_int:
  assumes "is_int32 n"
  shows "length (show_int n) \<le> 11"
proof -
  have "nat \<bar>n\<bar> < 10 ^ Suc 9" using assms by (auto simp: is_int32_def nat_less_iff abs_if)
  from length_show_nat [OF this] show ?thesis by (auto simp: show_int_def abs_if split: if_splits)
qed

section \<open>An instance\<close>

text \<open>A list of pairs sorted by key in the byte order of strings.\<close>

fun insert_item :: "string \<Rightarrow> string \<Rightarrow> (string \<times> string) list \<Rightarrow> (string \<times> string) list" where
  "insert_item k v [] = [(k, v)]"
| "insert_item k v ((k', v') # l) =
     (if k < k' then (k, v) # (k', v') # l
      else if k = k' then (k, v) # l
      else (k', v') # insert_item k v l)"

fun delete_item :: "string \<Rightarrow> (string \<times> string) list \<Rightarrow> (string \<times> string) list" where
  "delete_item k l = filter (\<lambda>(k', v). k' \<noteq> k) l"

typedef items = "{l :: (string \<times> string) list. sorted_wrt (<) (map fst l)}"
  morphisms items_of Items
  by (intro exI [of _ "[]"]) simp

setup_lifting type_definition_items

lemma insert_item_keys: "fst ` set (insert_item k v l) = insert k (fst ` set l)"
  by (induction k v l rule: insert_item.induct) auto

lemma insert_item_sorted:
  "sorted_wrt (<) (map fst l) \<Longrightarrow> sorted_wrt (<) (map fst (insert_item k v l))"
proof (induction k v l rule: insert_item.induct)
  case (2 k v k' v' l)
  have "k' < fst x" if "x \<in> set (insert_item k v l)" "k' < k" "\<forall>x \<in> set l. k' < fst x" for x
  proof -
    have "fst x \<in> insert k (fst ` set l)" using that(1) insert_item_keys [of k v l] by blast
    then show ?thesis using that(2,3) by auto
  qed
  then show ?case using 2 by (auto simp: not_less_iff_gr_or_eq)
qed simp

lemma insert_item_map: "sorted_wrt (<) (map fst l) \<Longrightarrow> map_of (insert_item k v l) = (map_of l)(k \<mapsto> v)"
proof (induction k v l rule: insert_item.induct)
  case (2 k v k' v' l)
  then show ?case by (auto simp: fun_eq_iff)
qed simp

lift_definition items_empty :: items is "[]" by simp
lift_definition items_add :: "string \<Rightarrow> string \<Rightarrow> items \<Rightarrow> items" is insert_item by (rule insert_item_sorted)
lift_definition items_remove :: "string \<Rightarrow> items \<Rightarrow> items" is delete_item
  by (simp add: sorted_wrt_map sorted_wrt_filter)

definition sorted_vector :: "items kvec" where
  "sorted_vector = \<lparr>kv_empty = items_empty, kv_add = items_add, kv_replace = items_add, kv_remove = items_remove,
     kv_value = (\<lambda>m k. case map_of (items_of m) k of None \<Rightarrow> [] | Some v \<Rightarrow> v), kv_items = items_of\<rparr>"

lemma delete_item_map: "map_of (delete_item k l) = (map_of l)(k := None)"
  by (induction l) (auto simp: fun_eq_iff)

lemma items_sorted: "sorted_wrt (<) (map fst (items_of m))"
  using items_of [of m] by simp

lemma items_distinct: "distinct (map fst (items_of m))"
  using items_sorted [of m] strict_sorted_iff by blast

lemma keys_and_values:
  assumes "distinct (map fst l)"
  shows "map (\<lambda>k. (k, the (map_of l k))) (map fst l) = l"
  unfolding map_map using assms by (intro map_idI) (auto simp: map_of_is_SomeI)

lemma items_by_contents:
  assumes "map_of (items_of m) = map_of (items_of m')"
  shows "items_of m = items_of m'"
proof -
  have "fst ` set (items_of m) = fst ` set (items_of m')"
    using assms by (metis dom_map_of_conv_image_fst)
  then have "map fst (items_of m) = map fst (items_of m')"
    using items_sorted by (intro strict_sorted_equal) simp_all
  then show ?thesis
    using keys_and_values [OF items_distinct [of m]] keys_and_values [OF items_distinct [of m']] assms by simp
qed

interpretation sv: keyed_vector sorted_vector
proof
  show "kv_items sorted_vector (kv_empty sorted_vector) = []"
    by (simp add: sorted_vector_def items_empty.rep_eq)
  show "distinct (map fst (kv_items sorted_vector m))" for m
    by (simp add: sorted_vector_def items_distinct)
  show "kv_items sorted_vector m = kv_items sorted_vector m'"
    if "map_of (kv_items sorted_vector m) = map_of (kv_items sorted_vector m')" for m m'
    using that items_by_contents [of m m'] by (simp add: sorted_vector_def)
  show "map_of (kv_items sorted_vector (kv_add sorted_vector k v m)) = (map_of (kv_items sorted_vector m))(k \<mapsto> v)"
    "map_of (kv_items sorted_vector (kv_replace sorted_vector k v m)) = (map_of (kv_items sorted_vector m))(k \<mapsto> v)"
    for k v m
    using insert_item_map [OF items_sorted [of m], of k v] by (simp_all add: sorted_vector_def items_add.rep_eq)
  show "map_of (kv_items sorted_vector (kv_remove sorted_vector k m)) = (map_of (kv_items sorted_vector m))(k := None)"
    for k m
    using delete_item_map [of k "items_of m"] by (simp add: sorted_vector_def items_remove.rep_eq del: delete_item.simps)
  show "kv_value sorted_vector m k = (case map_of (kv_items sorted_vector m) k of None \<Rightarrow> [] | Some v \<Rightarrow> v)" for m k
    by (simp add: sorted_vector_def)
qed

end
