(* ===== verification/CameraClaims.thy ===== *)
theory CameraClaims
  imports CameraParamsInv
begin

text \<open>
  The properties of the camera's parameters, over any vector that keeps the contract
  \<open>keyed_vector\<close>.
\<close>

section \<open>Histories\<close>

datatype 'f param_op =
    SetParam "string option" "string option"
  | SetInt "string option" int
  | SetFloat "string option" 'f
  | RemoveParam string
  | Unflatten string

fun apply_op :: "('f \<Rightarrow> string) \<Rightarrow> 'm kvec \<Rightarrow> 'f param_op \<Rightarrow> 'm \<Rightarrow> 'm" where
  "apply_op show_g V (SetParam k v) m = set_param V k v m"
| "apply_op show_g V (SetInt k n) m = set_int V k n m"
| "apply_op show_g V (SetFloat k x) m = setFloat show_g V k x m"
| "apply_op show_g V (RemoveParam k) m = remove_param V k m"
| "apply_op show_g V (Unflatten s) m = unflatten V s"

lemma apply_op_carried:
  assumes "keyed_vector V" and "carried (kv_items V m)"
  shows "carried (kv_items V (apply_op show_g V x m))"
  using assms
  by (cases x) (simp_all add: set_int_def setFloat_def remove_param_def keyed_vector.set_carried
      keyed_vector.remove_carried keyed_vector.unflatten_carried)

lemma history_carried:
  "keyed_vector V \<Longrightarrow> carried (kv_items V m) \<Longrightarrow> carried (kv_items V (fold (apply_op show_g V) xs m))"
  by (induction xs arbitrary: m) (simp_all add: apply_op_carried)

section \<open>Numbers\<close>

lemma read_base_digits:
  "\<forall>c \<in> set s. is_digit c \<Longrightarrow> read_base 10 acc s = fst (read_digits acc s)"
proof (induction s arbitrary: acc)
  case (Cons c s)
  then have "48 \<le> (of_char c :: nat)" "(of_char c :: nat) \<le> 57" by (simp_all add: is_digit_def)
  then have "base_digit 10 c = Some (digit_value c)"
    unfolding base_digit_def digit_value_def Let_def by auto
  then show ?case using Cons by simp
qed simp

lemma show_nat_head:
  assumes "0 < n"
  shows "\<exists>c cs. show_nat n = c # cs \<and> is_digit c \<and> c \<noteq> CHR ''0''"
  using assms
proof (induction n rule: show_nat.induct)
  case (1 n)
  show ?case
  proof (cases "n < 10")
    case True
    have "digit_char n \<noteq> CHR ''0''"
    proof
      assume "digit_char n = CHR ''0''"
      then have "(of_char (digit_char n) :: nat) = 48" by simp
      then show False using True "1.prems" by (simp add: of_char_digit_char)
    qed
    then show ?thesis using True digit_char_digit by (subst show_nat.simps) simp
  next
    case False
    then have "0 < n div 10" by simp
    from "1.IH" [OF False this] show ?thesis using False by (subst show_nat.simps) auto
  qed
qed

lemma read_any_base_show: "read_any_base (show_nat n) = n"
proof (cases "n = 0")
  case True
  then show ?thesis by (simp add: show_nat.simps [of 0]) code_simp
next
  case False
  obtain c cs where c: "show_nat n = c # cs" "c \<noteq> CHR ''0''" using show_nat_head [of n] False by auto
  have "read_any_base (c # cs) = read_base 10 0 (c # cs)"
    using c(2) by (simp add: read_any_base_def split: list.split)
  also have "\<dots> = n"
    using read_base_digits [of "show_nat n" 0] show_nat_digits [of _ n] read_digits_show [of n] c(1) by simp
  finally show ?thesis using c(1) by simp
qed

lemma strtol0_show_int:
  assumes "is_int32 n"
  shows "strtol0 (show_int n) = n"
proof (cases "n < 0")
  case True
  then show ?thesis
    using assms by (simp add: strtol0_def show_int_def is_space_def read_any_base_show clamp_long_id)
next
  case False
  obtain c cs where c: "show_nat (nat n) = c # cs" using show_nat_nonempty [of "nat n"] by (cases "show_nat (nat n)") auto
  have d: "is_digit c" using show_nat_digits [of c "nat n"] c by simp
  show ?thesis
    using False assms digit_not_sign [OF d] read_any_base_show [of "nat n"] c
    by (simp add: strtol0_def show_int_def clamp_long_id)
qed

section \<open>Properties\<close>

text \<open>
  C7. Whatever has been done to the parameters, they survive being written as text and read back:
  after any sequence of settings, removals and readings, \<open>unflatten\<close> of \<open>flatten\<close> gives the same
  items in the same order.
\<close>

theorem parameters_survive_text:
  assumes "keyed_vector V" and "m = fold (apply_op show_g V) xs (kv_empty V)"
  shows "kv_items V (unflatten V (flatten V m)) = kv_items V m"
proof (rule keyed_vector.unflatten_flatten [OF assms(1)])
  have "carried (kv_items V (kv_empty V))" by (simp add: keyed_vector.empty_items [OF assms(1)])
  then show "carried (kv_items V m)" unfolding assms(2) by (rule history_carried [OF assms(1)])
qed

theorem parameters_survive_text_witness:
  "items_of (unflatten sorted_vector (flatten sorted_vector (set_param sorted_vector (Some ''iso'') (Some ''auto'')
     (unflatten sorted_vector ''zoom=1;a=b=c;x'')))) =
   items_of (set_param sorted_vector (Some ''iso'') (Some ''auto'') (unflatten sorted_vector ''zoom=1;a=b=c;x''))"
  using parameters_survive_text [OF sv.keyed_vector_axioms, of _ "\<lambda>x :: unit. []"
      "[Unflatten ''zoom=1;a=b=c;x'', SetParam (Some ''iso'') (Some ''auto'')]"]
  by (simp add: sorted_vector_def)

text \<open>
  Setting and getting: a value is found again under its key and no other key is affected; an
  empty value reads as no value; a key or a value with an \<open>=\<close> or a \<open>;\<close> is refused without a
  change.
\<close>

lemma set_then_get:
  assumes "keyed_vector V"
  shows "get V k' (set_param V (Some k) (Some v) m) =
    (if k' = k \<and> clean k \<and> clean v then (if v = [] then None else Some v) else get V k' m)"
  using keyed_vector.get_set [OF assms, of k v k' m] keyed_vector.set_rejected [OF assms, of k v m]
  by (cases "clean k \<and> clean v") auto

text \<open>
  Sizes and rates come back: for all 32-bit values, negative ones included, the getters of the
  preview, video and picture size and of the frame rate return what the setters were given.
\<close>

lemma sizes_round_trip:
  assumes "keyed_vector V" and "is_int32 w" and "is_int32 h" and "is_int32 fps"
  shows "getPreviewSize V (setPreviewSize V w h m) = (w, h) \<and> getVideoSize V (setVideoSize V w h m) = (w, h) \<and>
    getPictureSize V (setPictureSize V w h m) = (w, h) \<and>
    getPreviewFrameRate V (setPreviewFrameRate V fps m) = fps"
proof -
  have x: "\<not> is_digit (CHR ''x'')" by code_simp
  have p: "parse_pair (show_size w h) (CHR ''x'') = Some (w, h, [])"
    using parse_pair_show [OF assms(2,3) x, of "[]"] by (simp add: show_size_def)
  have k: "clean KEY_PREVIEW_SIZE" "clean KEY_VIDEO_SIZE" "clean KEY_PICTURE_SIZE" "clean KEY_PREVIEW_FRAME_RATE"
    by code_simp+
  have "get_pair V key (CHR ''x'') (set_param V (Some key) (Some (show_size w h)) m) = (w, h)" if "clean key" for key
    using keyed_vector.get_set [OF assms(1) that show_size_clean, of key w h m] p
    by (simp add: get_pair_def) (simp add: show_size_def)
  moreover have "getPreviewFrameRate V (setPreviewFrameRate V fps m) = fps"
    using keyed_vector.get_set [OF assms(1) k(4) show_int_clean, of KEY_PREVIEW_FRAME_RATE fps m] assms(4)
    by (simp add: getPreviewFrameRate_def setPreviewFrameRate_def set_int_def getInt_def strtol0_show_int to_int32_id)
  ultimately show ?thesis
    using k by (simp add: getPreviewSize_def setPreviewSize_def getVideoSize_def setVideoSize_def
        getPictureSize_def setPictureSize_def)
qed

text \<open>The text of a list of sizes.\<close>

fun show_sizes :: "(int \<times> int) list \<Rightarrow> string" where
  "show_sizes [] = []"
| "show_sizes [(w, h)] = show_size w h"
| "show_sizes ((w, h) # s # ss) = show_size w h @ '','' @ show_sizes (s # ss)"

text \<open>
  A list of sizes is read back entry by entry, after those that are already in the vector, and
  reading stops at the first entry that is not a size, keeping what came before it.
\<close>

lemma size_list_round_trip:
  assumes "sizes \<noteq> []" and "\<forall>(w, h) \<in> set sizes. is_int32 w \<and> is_int32 h"
  shows "parseSizesList (Some (show_sizes sizes)) acc = acc @ sizes \<and>
    (parse_pair bad (CHR ''x'') = None \<longrightarrow>
      parseSizesList (Some (show_sizes sizes @ '','' @ bad)) acc = acc @ sizes)"
proof -
  have c: "\<not> is_digit (CHR ''x'')" "\<not> is_digit (CHR '','')" by code_simp+
  have pair: "parse_pair (show_size w h @ r) (CHR ''x'') = Some (w, h, r)"
    if "is_int32 w" "is_int32 h" "\<forall>x \<in> set (take 1 r). \<not> is_digit x" for w h r
    using parse_pair_show [OF that(1,2) c(1) that(3)] by (simp add: show_size_def)
  have step: "parse_sizes (show_size w h @ CHR '','' # r) acc = parse_sizes r (acc @ [(w, h)])"
    if "is_int32 w" "is_int32 h" for w h r acc
    using pair [OF that, of "CHR '','' # r"] c(2) by (subst parse_sizes.simps) simp
  have last: "parse_sizes (show_size w h) acc = acc @ [(w, h)]" if "is_int32 w" "is_int32 h" for w h acc
    using pair [OF that, of "[]"] by (subst parse_sizes.simps) simp
  have "parse_sizes (show_sizes sizes) acc = acc @ sizes"
    using assms
  proof (induction sizes arbitrary: acc rule: show_sizes.induct)
    case (3 w h s ss)
    then show ?case by (simp add: step)
  qed (simp_all add: last)
  moreover have "parse_sizes (show_sizes sizes @ CHR '','' # bad) acc = acc @ sizes"
    if "parse_pair bad (CHR ''x'') = None"
    using assms
  proof (induction sizes arbitrary: acc rule: show_sizes.induct)
    case (2 w h)
    have "parse_sizes bad (acc @ [(w, h)]) = acc @ [(w, h)]" using that by (subst parse_sizes.simps) simp
    then show ?case using 2 by (simp add: step)
  next
    case (3 w h s ss)
    then show ?case by (simp add: step)
  qed simp
  ultimately show ?thesis by (simp add: parseSizesList_def)
qed

text \<open>
  The buffers are long enough: the text of a 32-bit value with its terminator fits the 16 bytes
  of \<open>set\<close>, and that of a size the 32 bytes of the setters of sizes.
\<close>

lemma buffers_suffice:
  assumes "is_int32 w" and "is_int32 h"
  shows "length (show_int w) + 1 \<le> 16 \<and> length (show_size w h) + 1 \<le> 32"
  using length_show_int [OF assms(1)] length_show_int [OF assms(2)] by (simp add: show_size_def)

end
