(* ===== verification/CameraVendor.thy ===== *)
theory CameraVendor
  imports Main
begin

text \<open>
  What is behind the wrappers of \<open>camera/\<close>: the requests to the vendor's devices of version 1
  (\<open>camera_device_ops\<close>) and 3 (\<open>camera3_device_ops\<close>), the calls that the wrappers make, and the vendor's
  module, the allocator and the class \<open>CameraMetadata\<close> as the record \<open>camera_env\<close>, which answers from the
  history of the calls.  A history is a list of events, newest first.
\<close>

section \<open>Requests and calls\<close>

datatype camera_request =
    SetPreviewWindow "nat option"
  | SetCallbacks nat nat nat nat nat
  | EnableMsgType int
  | DisableMsgType int
  | MsgTypeEnabled int
  | StartPreview
  | StopPreview
  | PreviewEnabled
  | StoreMetaDataInBuffers int
  | StartRecording
  | StopRecording
  | RecordingEnabled
  | ReleaseRecordingFrame nat
  | AutoFocus
  | CancelAutoFocus
  | TakePicture
  | CancelPicture
  | SetParameters string
  | GetParameters
  | PutParameters string
  | SendCommand int int int
  | ReleaseCamera
  | DumpCamera int

datatype camera3_request =
    Initialize nat
  | ConfigureStreams nat
  | RegisterStreamBuffers nat
  | ConstructDefaultRequestSettings int
  | ProcessCaptureRequest nat
  | GetMetadataVendorTagOps nat
  | Dump3 int
  | Flush

datatype camera_event =
    HwGetModule
  | GetNumberOfCameras
  | GetCameraInfo int
  | SetModuleCallbacks nat
  | GetVendorTagOps nat
  | SetTorchMode string bool
  | OpenLegacy string
  | OpenVendor string
  | CameraAlloc string
  | MetadataAssign "nat option"
  | MetadataCopy "nat option"
  | ToVendor nat camera_request
  | ToVendor3 nat camera3_request
  | CloseVendor nat

section \<open>The vendor's side\<close>

record camera_env =
  hw_get_module_rc :: "camera_event list \<Rightarrow> int"
  get_number_of_cameras :: "camera_event list \<Rightarrow> int"
  get_camera_info :: "camera_event list \<Rightarrow> int \<Rightarrow> int \<times> nat"
  set_module_callbacks_rc :: "camera_event list \<Rightarrow> nat \<Rightarrow> int"
  set_torch_mode_rc :: "camera_event list \<Rightarrow> string \<Rightarrow> bool \<Rightarrow> int"
  camera_alloc_ok :: "camera_event list \<Rightarrow> string \<Rightarrow> bool"
  open_legacy :: "camera_event list \<Rightarrow> string \<Rightarrow> int \<times> nat"
  open_vendor :: "camera_event list \<Rightarrow> string \<Rightarrow> int \<times> nat"
  vendor_rc :: "camera_event list \<Rightarrow> nat \<Rightarrow> camera_request \<Rightarrow> int"
  vendor_params :: "camera_event list \<Rightarrow> nat \<Rightarrow> string"
  vendor3_rc :: "camera_event list \<Rightarrow> nat \<Rightarrow> camera3_request \<Rightarrow> int"
  vendor3_settings :: "camera_event list \<Rightarrow> nat \<Rightarrow> int \<Rightarrow> nat option"
  metadata_assign :: "camera_event list \<Rightarrow> nat option \<Rightarrow> nat option"
  metadata_copy :: "camera_event list \<Rightarrow> nat option \<Rightarrow> nat option"

text \<open>The vendor's devices that a history leaves open.\<close>

fun vendor_open :: "camera_env \<Rightarrow> camera_event list \<Rightarrow> nat set" where
  "vendor_open E [] = {}"
| "vendor_open E (OpenLegacy n # l) =
     (let (rv, v) = open_legacy E l n in if rv = 0 then insert v (vendor_open E l) else vendor_open E l)"
| "vendor_open E (OpenVendor n # l) =
     (let (rv, v) = open_vendor E l n in if rv = 0 then insert v (vendor_open E l) else vendor_open E l)"
| "vendor_open E (CloseVendor v # l) = vendor_open E l - {v}"
| "vendor_open E (e # l) = vendor_open E l"

text \<open>
  What the module's documentation promises: a device that is opened is not one that is open already,
  and the number of cameras is a constant.
\<close>

definition fresh_handles :: "camera_env \<Rightarrow> bool" where
  "fresh_handles E \<longleftrightarrow>
     (\<forall>l n. fst (open_legacy E l n) = 0 \<longrightarrow> snd (open_legacy E l n) \<notin> vendor_open E l) \<and>
     (\<forall>l n. fst (open_vendor E l n) = 0 \<longrightarrow> snd (open_vendor E l n) \<notin> vendor_open E l)"

definition camera_count :: "camera_env \<Rightarrow> int \<Rightarrow> bool" where
  "camera_count E n \<longleftrightarrow> 0 < n \<and> (\<forall>l. get_number_of_cameras E l = n)"

end
