(* ===== verification/Camera2Wrapper.thy ===== *)
theory Camera2Wrapper
  imports CameraParams CameraVendor
begin

text \<open>
  \<open>camera/Camera2Wrapper.cpp\<close>: the wrapper around the vendor's camera device of version 1, over the
  vendor's side in \<open>CameraVendor\<close>.  Pointers are natural numbers, a null pointer is \<open>None\<close>, and \<open>None\<close> as
  the result of an operation is a fault.
\<close>

section \<open>State\<close>

record wrapper_camera2_device =
  camera_id :: int
  camera_released :: bool
  camera_vendor :: nat

text \<open>The static variables of the file; \<open>fixed_set_params\<close> is an array with an entry per camera.\<close>

record camera2 =
  gVendorModule :: bool
  gPreviewWindow :: "nat option"
  gPreviewStartDeferred :: bool
  gUserNotifyCb :: "nat option"
  gUserDataCb :: "nat option"
  gUserDataCbTimestamp :: "nat option"
  gUserGetMemory :: "nat option"
  gUserCameraDevice :: "nat option"
  num_cameras :: int
  fixed_set_params :: "string option list option"
  camera2_devices :: "nat \<Rightarrow> wrapper_camera2_device option"
  camera2_next :: nat
  camera2_log :: "camera_event list"

definition camera2_init :: camera2 where
  "camera2_init =
     \<lparr>gVendorModule = False, gPreviewWindow = None, gPreviewStartDeferred = False, gUserNotifyCb = None,
      gUserDataCb = None, gUserDataCbTimestamp = None, gUserGetMemory = None, gUserCameraDevice = None,
      num_cameras = 0, fixed_set_params = None, camera2_devices = (\<lambda>_. None), camera2_next = 1,
      camera2_log = []\<rparr>"

definition check_vendor_module :: "camera_env \<Rightarrow> camera2 \<Rightarrow> int \<times> camera2" where
  "check_vendor_module E s =
     (if gVendorModule s then (0, s)
      else
        let rv = hw_get_module_rc E (camera2_log s)
        in (rv, s\<lparr>gVendorModule := (rv = 0), camera2_log := HwGetModule # camera2_log s\<rparr>))"

text \<open>\<open>VENDOR_CALL\<close>: the request goes to the vendor's device behind the wrapper's.\<close>

definition vendor_call :: "camera_env \<Rightarrow> nat \<Rightarrow> camera_request \<Rightarrow> camera2 \<Rightarrow> (int \<times> camera2) option" where
  "vendor_call E device req s =
     do {
       d \<leftarrow> camera2_devices s device;
       Some (vendor_rc E (camera2_log s) (camera_vendor d) req,
             s\<lparr>camera2_log := ToVendor (camera_vendor d) req # camera2_log s\<rparr>)
     }"

section \<open>Parameters\<close>

definition camera2_fixup_getparams :: "'m kvec \<Rightarrow> string \<Rightarrow> string" where
  "camera2_fixup_getparams V settings = flatten V (unflatten V settings)"

definition camera2_fixup_setparams ::
  "'m kvec \<Rightarrow> int \<Rightarrow> string \<Rightarrow> camera2 \<Rightarrow> (string \<times> camera2) option" where
  "camera2_fixup_setparams V cid settings s =
     do {
       arr \<leftarrow> fixed_set_params s;
       let strParams = flatten V (unflatten V settings);
       if 0 \<le> cid \<and> nat cid < length arr
       then Some (strParams, s\<lparr>fixed_set_params := Some (arr[nat cid := Some strParams])\<rparr>)
       else None
     }"

section \<open>The operations of a device\<close>

text \<open>
  Each operation writes a log line with \<open>device->vendor\<close> before it tests \<open>device\<close>, so a null device
  is a fault and the test never succeeds; \<open>device\<close> is the address that was passed.
\<close>

definition camera2_set_preview_window ::
  "camera_env \<Rightarrow> nat \<Rightarrow> nat option \<Rightarrow> camera2 \<Rightarrow> (int \<times> camera2) option" where
  "camera2_set_preview_window E device window s =
     do {
       d \<leftarrow> camera2_devices s device;
       let s = s\<lparr>gPreviewWindow := window\<rparr>;
       if window \<noteq> None then do {
         (rc, s) \<leftarrow> vendor_call E device (SetPreviewWindow window) s;
         if gPreviewStartDeferred s then do {
           (r, s) \<leftarrow> vendor_call E device StartPreview (s\<lparr>gPreviewStartDeferred := False\<rparr>);
           Some (rc, s)
         } else Some (rc, s)
       } else Some (0, s)
     }"

definition camera2_set_callbacks ::
  "camera_env \<Rightarrow> nat \<Rightarrow> nat \<Rightarrow> nat \<Rightarrow> nat \<Rightarrow> nat \<Rightarrow> nat \<Rightarrow> camera2 \<Rightarrow> camera2 option" where
  "camera2_set_callbacks E device notify_cb data_cb data_cb_timestamp get_memory user s =
     map_option snd (vendor_call E device (SetCallbacks notify_cb data_cb data_cb_timestamp get_memory user)
       (s\<lparr>gUserNotifyCb := Some notify_cb, gUserDataCb := Some data_cb,
          gUserDataCbTimestamp := Some data_cb_timestamp, gUserGetMemory := Some get_memory,
          gUserCameraDevice := Some user\<rparr>))"

definition camera2_start_preview :: "camera_env \<Rightarrow> nat \<Rightarrow> camera2 \<Rightarrow> (int \<times> camera2) option" where
  "camera2_start_preview E device s =
     do {
       d \<leftarrow> camera2_devices s device;
       if gPreviewWindow s \<noteq> None then vendor_call E device StartPreview s
       else Some (0, s\<lparr>gPreviewStartDeferred := True\<rparr>)
     }"

definition camera2_stop_preview :: "camera_env \<Rightarrow> nat \<Rightarrow> camera2 \<Rightarrow> camera2 option" where
  "camera2_stop_preview E device s = map_option snd (vendor_call E device StopPreview s)"

definition camera2_preview_enabled :: "camera_env \<Rightarrow> nat \<Rightarrow> camera2 \<Rightarrow> (int \<times> camera2) option" where
  "camera2_preview_enabled E device s =
     do {
       d \<leftarrow> camera2_devices s device;
       if gPreviewStartDeferred s then Some (1, s) else vendor_call E device PreviewEnabled s
     }"

definition camera2_set_parameters ::
  "camera_env \<Rightarrow> 'm kvec \<Rightarrow> nat \<Rightarrow> string \<Rightarrow> camera2 \<Rightarrow> (int \<times> camera2) option" where
  "camera2_set_parameters E V device params s =
     do {
       d \<leftarrow> camera2_devices s device;
       (tmp, s) \<leftarrow> camera2_fixup_setparams V (camera_id d) params s;
       vendor_call E device (SetParameters tmp) s
     }"

definition camera2_get_parameters ::
  "camera_env \<Rightarrow> 'm kvec \<Rightarrow> nat \<Rightarrow> camera2 \<Rightarrow> (string \<times> camera2) option" where
  "camera2_get_parameters E V device s =
     do {
       d \<leftarrow> camera2_devices s device;
       let params = vendor_params E (camera2_log s) (camera_vendor d);
       (r, s) \<leftarrow> vendor_call E device GetParameters s;
       let tmp = camera2_fixup_getparams V params;
       (r, s) \<leftarrow> vendor_call E device (PutParameters params) s;
       Some (tmp, s)
     }"

text \<open>The string is freed here, and the vendor is not told.\<close>

definition camera2_put_parameters :: "nat \<Rightarrow> camera2 \<Rightarrow> camera2 option" where
  "camera2_put_parameters device s = do { d \<leftarrow> camera2_devices s device; Some s }"

definition camera2_release :: "camera_env \<Rightarrow> nat \<Rightarrow> camera2 \<Rightarrow> camera2 option" where
  "camera2_release E device s =
     do {
       (r, s) \<leftarrow> vendor_call E device ReleaseCamera s;
       Some (s\<lparr>camera2_devices := (camera2_devices s)
         (device := map_option (\<lambda>d. d\<lparr>camera_released := True\<rparr>) (camera2_devices s device))\<rparr>)
     }"

text \<open>The operations that only forward; those without a result drop the vendor's.\<close>

definition camera2_enable_msg_type :: "camera_env \<Rightarrow> nat \<Rightarrow> int \<Rightarrow> camera2 \<Rightarrow> camera2 option" where
  "camera2_enable_msg_type E device msg_type s = map_option snd (vendor_call E device (EnableMsgType msg_type) s)"

definition camera2_disable_msg_type :: "camera_env \<Rightarrow> nat \<Rightarrow> int \<Rightarrow> camera2 \<Rightarrow> camera2 option" where
  "camera2_disable_msg_type E device msg_type s = map_option snd (vendor_call E device (DisableMsgType msg_type) s)"

definition camera2_msg_type_enabled :: "camera_env \<Rightarrow> nat \<Rightarrow> int \<Rightarrow> camera2 \<Rightarrow> (int \<times> camera2) option" where
  "camera2_msg_type_enabled E device msg_type s = vendor_call E device (MsgTypeEnabled msg_type) s"

definition camera2_store_meta_data_in_buffers :: "camera_env \<Rightarrow> nat \<Rightarrow> int \<Rightarrow> camera2 \<Rightarrow> (int \<times> camera2) option" where
  "camera2_store_meta_data_in_buffers E device enable s = vendor_call E device (StoreMetaDataInBuffers enable) s"

definition camera2_start_recording :: "camera_env \<Rightarrow> nat \<Rightarrow> camera2 \<Rightarrow> (int \<times> camera2) option" where
  "camera2_start_recording E device s = vendor_call E device StartRecording s"

definition camera2_stop_recording :: "camera_env \<Rightarrow> nat \<Rightarrow> camera2 \<Rightarrow> camera2 option" where
  "camera2_stop_recording E device s = map_option snd (vendor_call E device StopRecording s)"

definition camera2_recording_enabled :: "camera_env \<Rightarrow> nat \<Rightarrow> camera2 \<Rightarrow> (int \<times> camera2) option" where
  "camera2_recording_enabled E device s = vendor_call E device RecordingEnabled s"

definition camera2_release_recording_frame :: "camera_env \<Rightarrow> nat \<Rightarrow> nat \<Rightarrow> camera2 \<Rightarrow> camera2 option" where
  "camera2_release_recording_frame E device opaque s = map_option snd (vendor_call E device (ReleaseRecordingFrame opaque) s)"

definition camera2_auto_focus :: "camera_env \<Rightarrow> nat \<Rightarrow> camera2 \<Rightarrow> (int \<times> camera2) option" where
  "camera2_auto_focus E device s = vendor_call E device AutoFocus s"

definition camera2_cancel_auto_focus :: "camera_env \<Rightarrow> nat \<Rightarrow> camera2 \<Rightarrow> (int \<times> camera2) option" where
  "camera2_cancel_auto_focus E device s = vendor_call E device CancelAutoFocus s"

definition camera2_take_picture :: "camera_env \<Rightarrow> nat \<Rightarrow> camera2 \<Rightarrow> (int \<times> camera2) option" where
  "camera2_take_picture E device s = vendor_call E device TakePicture s"

definition camera2_cancel_picture :: "camera_env \<Rightarrow> nat \<Rightarrow> camera2 \<Rightarrow> (int \<times> camera2) option" where
  "camera2_cancel_picture E device s = vendor_call E device CancelPicture s"

definition camera2_send_command :: "camera_env \<Rightarrow> nat \<Rightarrow> int \<Rightarrow> int \<Rightarrow> int \<Rightarrow> camera2 \<Rightarrow> (int \<times> camera2) option" where
  "camera2_send_command E device cmd arg1 arg2 s = vendor_call E device (SendCommand cmd arg1 arg2) s"

definition camera2_dump :: "camera_env \<Rightarrow> nat \<Rightarrow> int \<Rightarrow> camera2 \<Rightarrow> (int \<times> camera2) option" where
  "camera2_dump E device fd s = vendor_call E device (DumpCamera fd) s"

lemmas camera2_forward_defs =
  camera2_enable_msg_type_def camera2_disable_msg_type_def camera2_msg_type_enabled_def
  camera2_store_meta_data_in_buffers_def camera2_start_recording_def camera2_stop_recording_def
  camera2_recording_enabled_def camera2_release_recording_frame_def camera2_auto_focus_def
  camera2_cancel_auto_focus_def camera2_take_picture_def camera2_cancel_picture_def
  camera2_send_command_def camera2_dump_def

text \<open>A call through the table of operations that \<open>camera2_device_open\<close> fills in; the reply is dropped.\<close>

fun camera2_op :: "camera_env \<Rightarrow> 'm kvec \<Rightarrow> nat \<Rightarrow> camera_request \<Rightarrow> camera2 \<Rightarrow> camera2 option" where
  "camera2_op E V device (SetPreviewWindow w) s = map_option snd (camera2_set_preview_window E device w s)"
| "camera2_op E V device (SetCallbacks n d t m u) s = camera2_set_callbacks E device n d t m u s"
| "camera2_op E V device StartPreview s = map_option snd (camera2_start_preview E device s)"
| "camera2_op E V device StopPreview s = camera2_stop_preview E device s"
| "camera2_op E V device PreviewEnabled s = map_option snd (camera2_preview_enabled E device s)"
| "camera2_op E V device (SetParameters p) s = map_option snd (camera2_set_parameters E V device p s)"
| "camera2_op E V device GetParameters s = map_option snd (camera2_get_parameters E V device s)"
| "camera2_op E V device (PutParameters p) s = camera2_put_parameters device s"
| "camera2_op E V device ReleaseCamera s = camera2_release E device s"
| "camera2_op E V device (EnableMsgType msg_type) s = camera2_enable_msg_type E device msg_type s"
| "camera2_op E V device (DisableMsgType msg_type) s = camera2_disable_msg_type E device msg_type s"
| "camera2_op E V device (MsgTypeEnabled msg_type) s = map_option snd (camera2_msg_type_enabled E device msg_type s)"
| "camera2_op E V device (StoreMetaDataInBuffers enable) s = map_option snd (camera2_store_meta_data_in_buffers E device enable s)"
| "camera2_op E V device StartRecording s = map_option snd (camera2_start_recording E device s)"
| "camera2_op E V device StopRecording s = camera2_stop_recording E device s"
| "camera2_op E V device RecordingEnabled s = map_option snd (camera2_recording_enabled E device s)"
| "camera2_op E V device (ReleaseRecordingFrame opaque) s = camera2_release_recording_frame E device opaque s"
| "camera2_op E V device AutoFocus s = map_option snd (camera2_auto_focus E device s)"
| "camera2_op E V device CancelAutoFocus s = map_option snd (camera2_cancel_auto_focus E device s)"
| "camera2_op E V device TakePicture s = map_option snd (camera2_take_picture E device s)"
| "camera2_op E V device CancelPicture s = map_option snd (camera2_cancel_picture E device s)"
| "camera2_op E V device (SendCommand cmd arg1 arg2) s = map_option snd (camera2_send_command E device cmd arg1 arg2 s)"
| "camera2_op E V device (DumpCamera fd) s = map_option snd (camera2_dump E device fd s)"

text \<open>
  The callbacks that the vendor makes: the client's function is called with the client's own pointer,
  whatever the vendor passes; calling a function that was never set is a fault.
\<close>

definition camera_notify_cb :: "int \<Rightarrow> int \<Rightarrow> int \<Rightarrow> camera2 \<Rightarrow> (nat \<times> (int \<times> int \<times> int) \<times> nat option) option" where
  "camera_notify_cb msg_type ext1 ext2 s =
     map_option (\<lambda>cb. (cb, (msg_type, ext1, ext2), gUserCameraDevice s)) (gUserNotifyCb s)"

definition camera_data_cb :: "int \<Rightarrow> nat \<Rightarrow> nat \<Rightarrow> nat \<Rightarrow> camera2 \<Rightarrow> (nat \<times> (int \<times> nat \<times> nat \<times> nat) \<times> nat option) option" where
  "camera_data_cb msg_type data index metadata s =
     map_option (\<lambda>cb. (cb, (msg_type, data, index, metadata), gUserCameraDevice s)) (gUserDataCb s)"

definition camera_data_cb_timestamp ::
  "int \<Rightarrow> int \<Rightarrow> nat \<Rightarrow> nat \<Rightarrow> camera2 \<Rightarrow> (nat \<times> (int \<times> int \<times> nat \<times> nat) \<times> nat option) option" where
  "camera_data_cb_timestamp timestamp msg_type data index s =
     map_option (\<lambda>cb. (cb, (timestamp, msg_type, data, index), gUserCameraDevice s)) (gUserDataCbTimestamp s)"

definition camera_get_memory :: "int \<Rightarrow> nat \<Rightarrow> nat \<Rightarrow> camera2 \<Rightarrow> (nat \<times> (int \<times> nat \<times> nat) \<times> nat option) option" where
  "camera_get_memory fd buf_size num_bufs s =
     map_option (\<lambda>cb. (cb, (fd, buf_size, num_bufs), gUserCameraDevice s)) (gUserGetMemory s)"

section \<open>Opening and closing\<close>

text \<open>
  \<open>camera2_device_close\<close>; \<open>fixed_set_params[id]\<close> outside the array is a fault.
\<close>

definition drop_fixed_params :: "int \<Rightarrow> camera2 \<Rightarrow> camera2 option" where
  "drop_fixed_params cid s =
     (case fixed_set_params s of
        None \<Rightarrow> Some s
      | Some arr \<Rightarrow>
          if 0 \<le> cid \<and> nat cid < length arr
          then Some (s\<lparr>fixed_set_params := Some (arr[nat cid := None])\<rparr>) else None)"

definition camera2_device_close :: "camera_env \<Rightarrow> nat option \<Rightarrow> camera2 \<Rightarrow> (int \<times> camera2) option" where
  "camera2_device_close E device s =
     do {
       (ret, s) \<leftarrow>
         (case device of
            None \<Rightarrow> Some (- EINVAL, s)
          | Some a \<Rightarrow>
              do {
                d \<leftarrow> camera2_devices s a;
                s \<leftarrow> drop_fixed_params (camera_id d) s;
                (r, s) \<leftarrow> (if camera_released d then Some (0, s) else vendor_call E a ReleaseCamera s);
                Some (0, s\<lparr>camera2_devices := (camera2_devices s)(a := None),
                           camera2_log := CloseVendor (camera_vendor d) # camera2_log s\<rparr>)
              });
       Some (ret, s\<lparr>gPreviewWindow := None, gPreviewStartDeferred := False\<rparr>)
     }"

definition camera_alloc :: "camera_env \<Rightarrow> string \<Rightarrow> camera2 \<Rightarrow> bool \<times> camera2" where
  "camera_alloc E what s =
     (camera_alloc_ok E (camera2_log s) what, s\<lparr>camera2_log := CameraAlloc what # camera2_log s\<rparr>)"

text \<open>
  The block of parameters that the first invocation prepares: \<open>False\<close> when it cannot be allocated.
\<close>

definition prepare_cameras :: "camera_env \<Rightarrow> camera2 \<Rightarrow> bool \<times> camera2" where
  "prepare_cameras E s =
     (let s = (if num_cameras s = 0
               then s\<lparr>num_cameras := get_number_of_cameras E (camera2_log s),
                      camera2_log := GetNumberOfCameras # camera2_log s\<rparr>
               else s)
      in if fixed_set_params s \<noteq> None then (True, s)
         else
           let (ok, s) = camera_alloc E ''fixed_set_params'' s
           in (ok, if ok then s\<lparr>fixed_set_params := Some (replicate (nat (num_cameras s)) None)\<rparr> else s))"

text \<open>
  \<open>camera2_device_open\<close> returns its result and what \<open>*device\<close> holds afterwards, \<open>dev\<close> before.
\<close>

definition camera2_device_open ::
  "camera_env \<Rightarrow> string option \<Rightarrow> nat option \<Rightarrow> camera2 \<Rightarrow> int \<times> nat option \<times> camera2" where
  "camera2_device_open E name dev s =
     (case name of
        None \<Rightarrow> (0, dev, s)
      | Some name \<Rightarrow>
          let (rv, s) = check_vendor_module E s
          in if rv \<noteq> 0 then (- EINVAL, dev, s)
          else
            let (ok, s) = prepare_cameras E s
            in if \<not> ok then (- ENOMEM, None, s)
            else
              let cameraid = atoi name
              in if cameraid < 0 \<or> cameraid > num_cameras s then (- EINVAL, None, s)
              else
                let (ok, s) = camera_alloc E ''camera2_device'' s
                in if \<not> ok then (- ENOMEM, None, s)
                else
                  let (rv, vendor) = open_legacy E (camera2_log s) name;
                      s = s\<lparr>camera2_log := OpenLegacy name # camera2_log s\<rparr>
                  in if rv \<noteq> 0 then (rv, None, s)
                  else
                    let (ok, s) = camera_alloc E ''camera_ops'' s
                    in if \<not> ok then (- ENOMEM, None, s)
                    else
                      (0, Some (camera2_next s),
                       s\<lparr>camera2_devices := (camera2_devices s)(camera2_next s :=
                            Some \<lparr>camera_id = cameraid, camera_released = False, camera_vendor = vendor\<rparr>),
                         camera2_next := Suc (camera2_next s)\<rparr>))"

end
