(* ===== verification/Camera2Claims.thy ===== *)
theory Camera2Claims
  imports Camera2Wrapper CameraParamsInv
begin

text \<open>
  The properties of the wrapper of the version 1 camera: a deferred preview, the parameters that reach
  the vendor, and the range of the camera's number.
\<close>

section \<open>Runs\<close>

fun camera2_run :: "camera_env \<Rightarrow> 'm kvec \<Rightarrow> nat \<Rightarrow> camera_request list \<Rightarrow> camera2 \<Rightarrow> camera2 option" where
  "camera2_run E V a [] s = Some s"
| "camera2_run E V a (r # rs) s = do { s \<leftarrow> camera2_op E V a r s; camera2_run E V a rs s }"

lemma camera2_run_append: "camera2_run E V a (xs @ ys) s = Option.bind (camera2_run E V a xs s) (camera2_run E V a ys)"
proof (induction xs arbitrary: s)
  case (Cons x xs)
  then show ?case by (cases "camera2_op E V a x s") simp_all
qed simp

text \<open>The device at \<open>a\<close> is open, wraps the vendor's \<open>v\<close>, and its number has an entry in the array.\<close>

definition camera_open_ok :: "nat \<Rightarrow> nat \<Rightarrow> camera2 \<Rightarrow> bool" where
  "camera_open_ok a v s \<longleftrightarrow> (\<exists>d arr. camera2_devices s a = Some d \<and> camera_vendor d = v \<and>
     fixed_set_params s = Some arr \<and> 0 \<le> camera_id d \<and> nat (camera_id d) < length arr)"

text \<open>What a request does to the preview: the window, the deferral, and the events that matter, newest first.\<close>

fun next_window :: "camera_request \<Rightarrow> nat option \<Rightarrow> nat option" where
  "next_window (SetPreviewWindow w) old = w"
| "next_window req old = old"

fun next_deferred :: "camera_request \<Rightarrow> nat option \<Rightarrow> bool \<Rightarrow> bool" where
  "next_deferred (SetPreviewWindow w) old deferred = (w = None \<and> deferred)"
| "next_deferred StartPreview old deferred = (old = None \<or> deferred)"
| "next_deferred req old deferred = deferred"

fun preview_event :: "camera_event \<Rightarrow> bool" where
  "preview_event (ToVendor v (SetPreviewWindow w)) = True"
| "preview_event (ToVendor v StartPreview) = True"
| "preview_event e = False"

fun preview_events :: "nat \<Rightarrow> camera_request \<Rightarrow> nat option \<Rightarrow> bool \<Rightarrow> camera_event list" where
  "preview_events v (SetPreviewWindow w) old deferred =
     (if w = None then [] else (if deferred then [ToVendor v StartPreview] else []) @ [ToVendor v (SetPreviewWindow w)])"
| "preview_events v StartPreview old deferred = (if old = None then [] else [ToVendor v StartPreview])"
| "preview_events v req old deferred = []"

definition preview_step :: "nat \<Rightarrow> nat \<Rightarrow> camera_request \<Rightarrow> camera2 \<Rightarrow> camera2 \<Rightarrow> bool" where
  "preview_step a v req s s' \<longleftrightarrow> camera_open_ok a v s' \<and>
     gPreviewWindow s' = next_window req (gPreviewWindow s) \<and>
     gPreviewStartDeferred s' = next_deferred req (gPreviewWindow s) (gPreviewStartDeferred s) \<and>
     (\<exists>new. camera2_log s' = new @ camera2_log s \<and>
        filter preview_event new = preview_events v req (gPreviewWindow s) (gPreviewStartDeferred s))"

lemma camera2_op_step:
  assumes "camera_open_ok a v s"
  shows "wp (camera2_op E V a req s) (preview_step a v req s)"
proof -
  obtain d arr where d: "camera2_devices s a = Some d" "camera_vendor d = v" "fixed_set_params s = Some arr"
    "0 \<le> camera_id d" "nat (camera_id d) < length arr"
    using assms by (auto simp: camera_open_ok_def)
  show ?thesis
    by (cases req) (use d in \<open>auto simp: preview_step_def camera_open_ok_def vendor_call_def camera2_forward_defs
      camera2_set_preview_window_def camera2_set_callbacks_def camera2_start_preview_def camera2_stop_preview_def
      camera2_preview_enabled_def camera2_set_parameters_def camera2_fixup_setparams_def camera2_get_parameters_def
      camera2_put_parameters_def camera2_release_def Let_def\<close>)
qed

text \<open>In a list of events, newest first: a preview starts only after a window has been handed over.\<close>

fun windowed :: "nat \<Rightarrow> camera_event list \<Rightarrow> bool" where
  "windowed v [] = True"
| "windowed v (e # l) \<longleftrightarrow>
     windowed v l \<and> (e = ToVendor v StartPreview \<longrightarrow> (\<exists>w. ToVendor v (SetPreviewWindow (Some w)) \<in> set l))"

lemma window_in_filter:
  "ToVendor v (SetPreviewWindow w) \<in> set (filter preview_event l) \<longleftrightarrow> ToVendor v (SetPreviewWindow w) \<in> set l"
  "ToVendor v StartPreview \<in> set (filter preview_event l) \<longleftrightarrow> ToVendor v StartPreview \<in> set l"
  by auto

lemma windowed_filter: "windowed v (filter preview_event l) = windowed v l"
  by (induction l) (auto simp del: set_filter simp: window_in_filter)

text \<open>What holds along a run, about the events since \<open>base\<close>.\<close>

definition preview_safe :: "nat \<Rightarrow> camera_event list \<Rightarrow> camera2 \<Rightarrow> bool" where
  "preview_safe v base s \<longleftrightarrow> (\<exists>l. camera2_log s = l @ base \<and> windowed v l \<and>
     (gPreviewWindow s \<noteq> None \<longrightarrow> (\<exists>w. ToVendor v (SetPreviewWindow (Some w)) \<in> set l)))"

definition start_pending :: "nat \<Rightarrow> camera_event list \<Rightarrow> camera2 \<Rightarrow> bool" where
  "start_pending v base s \<longleftrightarrow> (\<exists>l. camera2_log s = l @ base \<and>
     (ToVendor v StartPreview \<in> set l \<or> gPreviewStartDeferred s \<and> gPreviewWindow s = None))"

lemma preview_step_safe:
  assumes "preview_step a v req s s'" and "preview_safe v base s"
  shows "preview_safe v base s'"
proof -
  obtain l where l: "camera2_log s = l @ base" "windowed v l"
    "gPreviewWindow s \<noteq> None \<longrightarrow> (\<exists>w. ToVendor v (SetPreviewWindow (Some w)) \<in> set l)"
    using assms(2) unfolding preview_safe_def by blast
  obtain new where new: "camera2_log s' = new @ camera2_log s"
    "filter preview_event new = preview_events v req (gPreviewWindow s) (gPreviewStartDeferred s)"
    using assms(1) unfolding preview_step_def by blast
  have w: "gPreviewWindow s' = next_window req (gPreviewWindow s)" using assms(1) by (simp add: preview_step_def)
  have f: "filter preview_event (new @ l) =
      preview_events v req (gPreviewWindow s) (gPreviewStartDeferred s) @ filter preview_event l"
    using new(2) by simp
  have "windowed v (filter preview_event (new @ l)) \<and>
      (gPreviewWindow s' \<noteq> None \<longrightarrow>
        (\<exists>w. ToVendor v (SetPreviewWindow (Some w)) \<in> set (filter preview_event (new @ l))))"
    unfolding f using l(2,3) w
    by (cases req) (auto simp del: set_filter simp: window_in_filter windowed_filter)
  then show ?thesis
    unfolding preview_safe_def windowed_filter window_in_filter using l(1) new(1)
    by (intro exI [of _ "new @ l"]) simp
qed

lemma preview_step_pending:
  assumes "preview_step a v req s s'" and "start_pending v base s"
  shows "start_pending v base s'"
proof -
  obtain l where l: "camera2_log s = l @ base"
    "ToVendor v StartPreview \<in> set l \<or> gPreviewStartDeferred s \<and> gPreviewWindow s = None"
    using assms(2) unfolding start_pending_def by blast
  obtain new where new: "camera2_log s' = new @ camera2_log s"
    "filter preview_event new = preview_events v req (gPreviewWindow s) (gPreviewStartDeferred s)"
    using assms(1) unfolding preview_step_def by blast
  have s': "gPreviewWindow s' = next_window req (gPreviewWindow s)"
    "gPreviewStartDeferred s' = next_deferred req (gPreviewWindow s) (gPreviewStartDeferred s)"
    using assms(1) by (simp_all add: preview_step_def)
  have "ToVendor v StartPreview \<in> set (filter preview_event (new @ l)) \<or>
      gPreviewStartDeferred s' \<and> gPreviewWindow s' = None"
    using l(2) s' unfolding filter_append new(2) set_append Un_iff window_in_filter(2)
    by (cases req) auto
  then show ?thesis
    unfolding start_pending_def window_in_filter using l(1) new(1) by (intro exI [of _ "new @ l"]) simp
qed

lemma camera2_run_keeps:
  assumes "camera_open_ok a v s"
    and step: "\<And>req s s'. preview_step a v req s s' \<Longrightarrow> Q s \<Longrightarrow> Q s'" and "Q s"
  shows "wp (camera2_run E V a rs s) (\<lambda>s'. camera_open_ok a v s' \<and> Q s')"
  using assms(1,3)
proof (induction rs arbitrary: s)
  case (Cons r rs)
  obtain s1 where s1: "camera2_op E V a r s = Some s1" "preview_step a v r s s1"
    using camera2_op_step [OF Cons.prems(1), of E V r] by (auto simp: wp_exists)
  then have "camera_open_ok a v s1" by (simp add: preview_step_def)
  then show ?case using Cons.IH [OF _ step [OF s1(2) Cons.prems(2)]] s1(1) by simp
qed simp

section \<open>Properties\<close>

text \<open>
  C28. A deferred preview: in every run of requests on an open device that starts without a window, the
  vendor is told to start the preview only after it was given a window, and no request to start is
  lost: when there is a window in the end, the vendor has been told to start since the request.
\<close>

theorem preview_waits_for_window:
  assumes "camera_open_ok a v s" and "gPreviewWindow s = None"
  shows "\<exists>s1 s2 l1 l2. camera2_run E V a xs s = Some s1 \<and> camera2_run E V a (StartPreview # ys) s1 = Some s2 \<and>
    camera2_log s1 = l1 @ camera2_log s \<and> camera2_log s2 = l2 @ l1 @ camera2_log s \<and> windowed v (l2 @ l1) \<and>
    (gPreviewWindow s2 \<noteq> None \<longrightarrow> ToVendor v StartPreview \<in> set l2)"
proof -
  define base where "base = camera2_log s"
  have "preview_safe v base s" using assms(2) by (auto simp: preview_safe_def base_def)
  then have "wp (camera2_run E V a xs s) (\<lambda>s'. camera_open_ok a v s' \<and> preview_safe v base s')"
    by (intro camera2_run_keeps [OF assms(1)]) (rule preview_step_safe)
  then obtain s1 where s1: "camera2_run E V a xs s = Some s1" "camera_open_ok a v s1" "preview_safe v base s1"
    by (auto simp: wp_exists)
  obtain l1 where l1: "camera2_log s1 = l1 @ base" using s1(3) by (auto simp: preview_safe_def)
  obtain s' where s': "camera2_op E V a StartPreview s1 = Some s'" "preview_step a v StartPreview s1 s'"
    using camera2_op_step [OF s1(2), of E V StartPreview] by (auto simp: wp_exists)
  have "start_pending v (l1 @ base) s'"
  proof -
    obtain new where new: "camera2_log s' = new @ camera2_log s1"
      "filter preview_event new = preview_events v StartPreview (gPreviewWindow s1) (gPreviewStartDeferred s1)"
      using s'(2) unfolding preview_step_def by blast
    have "ToVendor v StartPreview \<in> set new \<or> gPreviewStartDeferred s' \<and> gPreviewWindow s' = None"
      using s'(2) window_in_filter(2) [of v new] unfolding new(2)
      by (cases "gPreviewWindow s1") (auto simp: preview_step_def)
    then show ?thesis using new(1) l1 by (auto simp: start_pending_def)
  qed
  moreover have "preview_safe v base s'" by (rule preview_step_safe [OF s'(2) s1(3)])
  moreover have "camera_open_ok a v s'" using s'(2) by (simp add: preview_step_def)
  ultimately have "wp (camera2_run E V a ys s') (\<lambda>s. camera_open_ok a v s \<and>
      preview_safe v base s \<and> start_pending v (l1 @ base) s)"
    using preview_step_safe preview_step_pending by (intro camera2_run_keeps) blast+
  then obtain s2 where s2: "camera2_run E V a ys s' = Some s2" "preview_safe v base s2"
    "start_pending v (l1 @ base) s2"
    by (auto simp: wp_exists)
  obtain l2 where l2: "camera2_log s2 = l2 @ l1 @ base"
    "ToVendor v StartPreview \<in> set l2 \<or> gPreviewWindow s2 = None"
    using s2(3) by (auto simp: start_pending_def)
  moreover have "windowed v (l2 @ l1)" using s2(2) l2(1) by (auto simp: preview_safe_def)
  ultimately show ?thesis using s1(1) l1 s'(1) s2(1) unfolding base_def by auto
qed

text \<open>A vendor's module with two cameras that accepts everything.\<close>

definition demo_camera :: camera_env where
  "demo_camera = \<lparr>hw_get_module_rc = (\<lambda>l. 0), get_number_of_cameras = (\<lambda>l. 2),
     get_camera_info = (\<lambda>l i. (0, 1)), set_module_callbacks_rc = (\<lambda>l c. 0), set_torch_mode_rc = (\<lambda>l c b. 0),
     camera_alloc_ok = (\<lambda>l w. True), open_legacy = (\<lambda>l n. (0, 7)), open_vendor = (\<lambda>l n. (0, 8)),
     vendor_rc = (\<lambda>l v r. 0), vendor_params = (\<lambda>l v. []), vendor3_rc = (\<lambda>l v r. 0),
     vendor3_settings = (\<lambda>l v t. Some 5), metadata_assign = (\<lambda>l m. m), metadata_copy = (\<lambda>l m. m)\<rparr>"

definition demo_camera_open :: camera2 where
  "demo_camera_open = camera2_init\<lparr>num_cameras := 2, fixed_set_params := Some [None, None], camera2_devices :=
     (\<lambda>a. if a = 1 then Some \<lparr>camera_id = 0, camera_released = False, camera_vendor = 7\<rparr> else None)\<rparr>"

lemma demo_camera_open_ok: "camera_open_ok 1 7 demo_camera_open" "gPreviewWindow demo_camera_open = None"
  by (simp_all add: camera_open_ok_def demo_camera_open_def camera2_init_def)

theorem preview_waits_for_window_witness:
  "\<exists>s1 s2 l2. camera2_run demo_camera sorted_vector 1 [AutoFocus] demo_camera_open = Some s1 \<and>
    camera2_run demo_camera sorted_vector 1 [StartPreview, StopPreview, SetPreviewWindow (Some 3)] s1 = Some s2 \<and>
    camera2_log s2 = l2 @ camera2_log s1 \<and> windowed 7 l2"
proof -
  obtain s1 s2 l1 l2 where s: "camera2_run demo_camera sorted_vector 1 [AutoFocus] demo_camera_open = Some s1"
    "camera2_run demo_camera sorted_vector 1 (StartPreview # [StopPreview, SetPreviewWindow (Some 3)]) s1 = Some s2"
    "camera2_log s1 = l1 @ camera2_log demo_camera_open" "camera2_log s2 = l2 @ l1 @ camera2_log demo_camera_open"
    "windowed 7 (l2 @ l1)"
    using preview_waits_for_window [OF demo_camera_open_ok, of demo_camera sorted_vector "[AutoFocus]"
        "[StopPreview, SetPreviewWindow (Some 3)]"] by blast
  have "camera2_log s1 = [ToVendor 7 AutoFocus]"
    using s(1) by (auto simp: camera2_forward_defs vendor_call_def demo_camera_open_def camera2_init_def)
  then have "l1 = [ToVendor 7 AutoFocus]" using s(3) by (simp add: demo_camera_open_def camera2_init_def)
  then have "windowed 7 l2" using s(5) by (induction l2) (auto split: if_splits)
  then show ?thesis using s by auto
qed

text \<open>
  A request to stop does not take back a deferred start: the preview starts when the window arrives.
\<close>

lemma stop_keeps_deferred_start:
  assumes "camera_open_ok a v s" and "gPreviewWindow s = None"
  shows "\<exists>s'. camera2_run E V a [StartPreview, StopPreview, SetPreviewWindow (Some w)] s = Some s' \<and>
    camera2_log s' = [ToVendor v StartPreview, ToVendor v (SetPreviewWindow (Some w)), ToVendor v StopPreview] @ camera2_log s"
proof -
  obtain d where "camera2_devices s a = Some d" "camera_vendor d = v" using assms(1) by (auto simp: camera_open_ok_def)
  then show ?thesis
    using assms(2) by (simp add: camera2_start_preview_def camera2_stop_preview_def camera2_set_preview_window_def vendor_call_def)
qed

text \<open>
  C29. The parameters that reach the vendor: the text that is passed on, and kept in the array under the
  camera's number, reads back as the items of the client's text, and the same holds for the text that
  the client gets from the vendor's, which is handed back to the vendor.
\<close>

theorem parameters_forwarded:
  assumes "keyed_vector V" and "camera_open_ok a v s"
  shows "(\<exists>rc t d arr s'. camera2_set_parameters E V a params s = Some (rc, s') \<and>
      camera2_log s' = ToVendor v (SetParameters t) # camera2_log s \<and>
      camera2_devices s a = Some d \<and> fixed_set_params s' = Some arr \<and> arr ! nat (camera_id d) = Some t \<and>
      kv_items V (unflatten V t) = kv_items V (unflatten V params)) \<and>
    (\<exists>t s'. camera2_get_parameters E V a s = Some (t, s') \<and>
      camera2_log s' = ToVendor v (PutParameters (vendor_params E (camera2_log s) v)) # ToVendor v GetParameters # camera2_log s \<and>
      kv_items V (unflatten V t) = kv_items V (unflatten V (vendor_params E (camera2_log s) v)))"
proof -
  obtain d arr where d: "camera2_devices s a = Some d" "camera_vendor d = v" "fixed_set_params s = Some arr"
    "0 \<le> camera_id d" "nat (camera_id d) < length arr"
    using assms(2) by (auto simp: camera_open_ok_def)
  have same: "kv_items V (unflatten V (flatten V (unflatten V p))) = kv_items V (unflatten V p)" for p
    by (rule keyed_vector.unflatten_flatten [OF assms(1) keyed_vector.unflatten_carried [OF assms(1)]])
  show ?thesis
    using d same
    by (simp add: camera2_set_parameters_def camera2_get_parameters_def camera2_fixup_setparams_def
        camera2_fixup_getparams_def vendor_call_def Let_def)
qed

theorem parameters_forwarded_witness:
  "\<exists>rc t s'. camera2_set_parameters demo_camera sorted_vector 1 ''zoom=2;iso=auto'' demo_camera_open = Some (rc, s') \<and>
    camera2_log s' = [ToVendor 7 (SetParameters t)] \<and>
    items_of (unflatten sorted_vector t) = items_of (unflatten sorted_vector ''zoom=2;iso=auto'')"
  using parameters_forwarded [OF sv.keyed_vector_axioms demo_camera_open_ok(1), of demo_camera "''zoom=2;iso=auto''"]
  by (auto simp: sorted_vector_def demo_camera_open_def camera2_init_def)

text \<open>
  C37. The number of a camera: with \<open>n\<close> cameras and a vendor that opens whatever it is asked for, the
  wrapper opens the numbers from 0 to \<open>n\<close> and refuses all others.  Those below \<open>n\<close> give a working
  device; number \<open>n\<close> has no entry in the array of parameters, and setting its parameters leaves the
  array.
\<close>

theorem camera_number_range:
  assumes "\<And>l. hw_get_module_rc E l = 0" and "\<And>l. get_number_of_cameras E l = n" and "0 < n"
    and "\<And>l w. camera_alloc_ok E l w" and "\<And>l x. open_legacy E l x = (0, v)"
  shows "\<exists>dev s. camera2_device_open E (Some name) None camera2_init =
      (if 0 \<le> atoi name \<and> atoi name \<le> n then 0 else - EINVAL, dev, s) \<and>
    (dev = None \<longleftrightarrow> atoi name < 0 \<or> n < atoi name) \<and>
    (\<forall>a. dev = Some a \<longrightarrow>
      (atoi name < n \<longrightarrow> camera_open_ok a v s) \<and>
      (atoi name = n \<longrightarrow> camera2_set_parameters E V a params s = None))"
proof (cases "0 \<le> atoi name \<and> atoi name \<le> n")
  case True
  then show ?thesis
    using assms
    by (auto simp: camera2_device_open_def check_vendor_module_def prepare_cameras_def camera_alloc_def
        camera2_init_def camera_open_ok_def camera2_set_parameters_def camera2_fixup_setparams_def Let_def)
next
  case False
  then show ?thesis
    using assms
    by (auto simp: camera2_device_open_def check_vendor_module_def prepare_cameras_def camera_alloc_def
        camera2_init_def Let_def)
qed

theorem camera_number_range_witness:
  "\<exists>a s. camera2_device_open demo_camera (Some ''2'') None camera2_init = (0, Some a, s) \<and>
    camera2_set_parameters demo_camera sorted_vector a ''zoom=1'' s = None"
proof -
  have "atoi ''2'' = 2" by code_simp
  moreover have "\<And>l. hw_get_module_rc demo_camera l = 0" "\<And>l. get_number_of_cameras demo_camera l = 2"
    "\<And>l w. camera_alloc_ok demo_camera l w" "\<And>l x. open_legacy demo_camera l x = (0, 7)"
    by (simp_all add: demo_camera_def)
  ultimately show ?thesis
    using camera_number_range [of demo_camera 2 7 "''2''" sorted_vector "''zoom=1''"] by auto
qed

end
