(* ===== verification/CameraModule.thy ===== *)
theory CameraModule
  imports Camera2Wrapper
begin

text \<open>
  \<open>camera/Camera3Wrapper.cpp\<close>, the wrapper around the vendor's camera device of version 3, and
  \<open>camera/CameraWrapper.cpp\<close>, the module that opens the devices of both versions.  Each of the three files
  has a static \<open>gVendorModule\<close> of its own; the history of calls and the addresses of the heap are those in
  the state of \<open>Camera2Wrapper\<close>, which all share.
\<close>

section \<open>State\<close>

record wrapper_camera3_device =
  camera3_id :: int
  camera3_vendor :: nat

record camera_module =
  wrapper2 :: camera2
  gVendorModule3 :: bool
  gVendorModuleM :: bool
  camera3_devices :: "nat \<Rightarrow> wrapper_camera3_device option"

abbreviation module_log :: "camera_module \<Rightarrow> camera_event list" where
  "module_log s \<equiv> camera2_log (wrapper2 s)"

definition module_init :: camera_module where
  "module_init = \<lparr>wrapper2 = camera2_init, gVendorModule3 = False, gVendorModuleM = False, camera3_devices = (\<lambda>_. None)\<rparr>"

definition record_event :: "camera_event \<Rightarrow> camera_module \<Rightarrow> camera_module" where
  "record_event e s = s\<lparr>wrapper2 := (wrapper2 s)\<lparr>camera2_log := e # camera2_log (wrapper2 s)\<rparr>\<rparr>"

definition check_vendor_module3 :: "camera_env \<Rightarrow> camera_module \<Rightarrow> int \<times> camera_module" where
  "check_vendor_module3 E s =
     (if gVendorModule3 s then (0, s)
      else
        let rv = hw_get_module_rc E (module_log s)
        in (rv, (record_event HwGetModule s)\<lparr>gVendorModule3 := (rv = 0)\<rparr>))"

section \<open>The device of version 3\<close>

text \<open>
  As in version 1, each operation logs \<open>device->vendor\<close> before it tests \<open>device\<close>: no device at the
  address, or a null one, is a fault.
\<close>

definition vendor_call3 :: "camera_env \<Rightarrow> nat \<Rightarrow> camera3_request \<Rightarrow> camera_module \<Rightarrow> (int \<times> camera_module) option" where
  "vendor_call3 E device req s =
     do {
       d \<leftarrow> camera3_devices s device;
       Some (vendor3_rc E (module_log s) (camera3_vendor d) req, record_event (ToVendor3 (camera3_vendor d) req) s)
     }"

definition camera3_initialize :: "camera_env \<Rightarrow> nat \<Rightarrow> nat \<Rightarrow> camera_module \<Rightarrow> (int \<times> camera_module) option" where
  "camera3_initialize E device callback_ops s = vendor_call3 E device (Initialize callback_ops) s"

definition camera3_configure_streams :: "camera_env \<Rightarrow> nat \<Rightarrow> nat \<Rightarrow> camera_module \<Rightarrow> (int \<times> camera_module) option" where
  "camera3_configure_streams E device stream_list s = vendor_call3 E device (ConfigureStreams stream_list) s"

definition camera3_register_stream_buffers :: "camera_env \<Rightarrow> nat \<Rightarrow> nat \<Rightarrow> camera_module \<Rightarrow> (int \<times> camera_module) option" where
  "camera3_register_stream_buffers E device buffer_set s = vendor_call3 E device (RegisterStreamBuffers buffer_set) s"

text \<open>
  The settings that the vendor returns are assigned to an object of class \<open>CameraMetadata\<close>, which is
  passed by value; \<open>release\<close> hands out the buffer of the copy.
\<close>

definition camera3_fixup_construct_default_request_settings ::
  "camera_env \<Rightarrow> nat option \<Rightarrow> camera_module \<Rightarrow> nat option \<times> camera_module" where
  "camera3_fixup_construct_default_request_settings E metadata s =
     (metadata_copy E (module_log s) metadata, record_event (MetadataCopy metadata) s)"

definition camera3_construct_default_request_settings ::
  "camera_env \<Rightarrow> nat \<Rightarrow> int \<Rightarrow> camera_module \<Rightarrow> (nat option \<times> camera_module) option" where
  "camera3_construct_default_request_settings E device ty s =
     do {
       d \<leftarrow> camera3_devices s device;
       let settings = vendor3_settings E (module_log s) (camera3_vendor d) ty;
       (r, s) \<leftarrow> vendor_call3 E device (ConstructDefaultRequestSettings ty) s;
       let metadata = metadata_assign E (module_log s) settings;
       Some (camera3_fixup_construct_default_request_settings E metadata (record_event (MetadataAssign settings) s))
     }"

definition camera3_process_capture_request :: "camera_env \<Rightarrow> nat \<Rightarrow> nat \<Rightarrow> camera_module \<Rightarrow> (int \<times> camera_module) option" where
  "camera3_process_capture_request E device request s = vendor_call3 E device (ProcessCaptureRequest request) s"

definition camera3_get_metadata_vendor_tag_ops :: "camera_env \<Rightarrow> nat \<Rightarrow> nat \<Rightarrow> camera_module \<Rightarrow> camera_module option" where
  "camera3_get_metadata_vendor_tag_ops E device ops s = map_option snd (vendor_call3 E device (GetMetadataVendorTagOps ops) s)"

definition camera3_dump :: "camera_env \<Rightarrow> nat \<Rightarrow> int \<Rightarrow> camera_module \<Rightarrow> camera_module option" where
  "camera3_dump E device fd s = map_option snd (vendor_call3 E device (Dump3 fd) s)"

definition camera3_flush :: "camera_env \<Rightarrow> nat \<Rightarrow> camera_module \<Rightarrow> (int \<times> camera_module) option" where
  "camera3_flush E device s = vendor_call3 E device Flush s"

lemmas camera3_forward_defs =
  camera3_initialize_def camera3_configure_streams_def camera3_register_stream_buffers_def
  camera3_process_capture_request_def camera3_get_metadata_vendor_tag_ops_def camera3_dump_def camera3_flush_def

text \<open>
  A call through the table of operations that \<open>camera3_device_open\<close> fills in, where
  \<open>register_stream_buffers\<close> is a null pointer; the reply is dropped.
\<close>

fun camera3_op :: "camera_env \<Rightarrow> nat \<Rightarrow> camera3_request \<Rightarrow> camera_module \<Rightarrow> camera_module option" where
  "camera3_op E device (Initialize callback_ops) s = map_option snd (camera3_initialize E device callback_ops s)"
| "camera3_op E device (ConfigureStreams stream_list) s = map_option snd (camera3_configure_streams E device stream_list s)"
| "camera3_op E device (RegisterStreamBuffers buffer_set) s = None"
| "camera3_op E device (ConstructDefaultRequestSettings ty) s =
     map_option snd (camera3_construct_default_request_settings E device ty s)"
| "camera3_op E device (ProcessCaptureRequest request) s = map_option snd (camera3_process_capture_request E device request s)"
| "camera3_op E device (GetMetadataVendorTagOps ops) s = camera3_get_metadata_vendor_tag_ops E device ops s"
| "camera3_op E device (Dump3 fd) s = camera3_dump E device fd s"
| "camera3_op E device Flush s = map_option snd (camera3_flush E device s)"

definition camera3_device_close :: "nat option \<Rightarrow> camera_module \<Rightarrow> (int \<times> camera_module) option" where
  "camera3_device_close device s =
     (case device of
        None \<Rightarrow> Some (- EINVAL, s)
      | Some a \<Rightarrow>
          do {
            d \<leftarrow> camera3_devices s a;
            Some (0, (record_event (CloseVendor (camera3_vendor d)) s)\<lparr>camera3_devices := (camera3_devices s)(a := None)\<rparr>)
          })"

text \<open>Memory comes from the heap of \<open>Camera2Wrapper\<close>.\<close>

definition module_alloc :: "camera_env \<Rightarrow> string \<Rightarrow> camera_module \<Rightarrow> bool \<times> camera_module" where
  "module_alloc E what s = (let (ok, c) = camera_alloc E what (wrapper2 s) in (ok, s\<lparr>wrapper2 := c\<rparr>))"

definition camera3_device_open ::
  "camera_env \<Rightarrow> string option \<Rightarrow> nat option \<Rightarrow> camera_module \<Rightarrow> int \<times> nat option \<times> camera_module" where
  "camera3_device_open E name dev s =
     (case name of
        None \<Rightarrow> (0, dev, s)
      | Some name \<Rightarrow>
          let (rv, s) = check_vendor_module3 E s
          in if rv \<noteq> 0 then (- EINVAL, dev, s)
          else
            let cameraid = atoi name;
                num_cameras = get_number_of_cameras E (module_log s);
                s = record_event GetNumberOfCameras s
            in if cameraid > num_cameras then (- EINVAL, None, s)
            else
              let (ok, s) = module_alloc E ''camera3_device'' s
              in if \<not> ok then (- ENOMEM, None, s)
              else
                let (rv, vendor) = open_vendor E (module_log s) name;
                    s = record_event (OpenVendor name) s
                in if rv \<noteq> 0 then (rv, None, s)
                else
                  let (ok, s) = module_alloc E ''camera3_ops'' s
                  in if \<not> ok then (- ENOMEM, None, s)
                  else
                    let a = camera2_next (wrapper2 s)
                    in (0, Some a,
                        s\<lparr>wrapper2 := (wrapper2 s)\<lparr>camera2_next := Suc a\<rparr>,
                          camera3_devices := (camera3_devices s)(a \<mapsto> \<lparr>camera3_id = cameraid, camera3_vendor = vendor\<rparr>)\<rparr>))"

section \<open>The module\<close>

definition check_vendor_module_m :: "camera_env \<Rightarrow> camera_module \<Rightarrow> int \<times> camera_module" where
  "check_vendor_module_m E s =
     (if gVendorModuleM s then (0, s)
      else
        let rv = hw_get_module_rc E (module_log s)
        in (rv, (record_event HwGetModule s)\<lparr>gVendorModuleM := (rv = 0)\<rparr>))"

definition camera_device_open ::
  "camera_env \<Rightarrow> string option \<Rightarrow> nat option \<Rightarrow> camera_module \<Rightarrow> int \<times> nat option \<times> camera_module" where
  "camera_device_open E name dev s =
     (if name = None then (- EINVAL, dev, s)
      else
        let (rv, s) = check_vendor_module_m E s
        in if rv \<noteq> 0 then (- EINVAL, dev, s) else camera3_device_open E name dev s)"

definition camera_get_number_of_cameras :: "camera_env \<Rightarrow> camera_module \<Rightarrow> int \<times> camera_module" where
  "camera_get_number_of_cameras E s =
     (let (rv, s) = check_vendor_module_m E s
      in if rv \<noteq> 0 then (0, s)
         else (get_number_of_cameras E (module_log s), record_event GetNumberOfCameras s))"

text \<open>The result and what \<open>*info\<close> holds afterwards, \<open>info\<close> before.\<close>

definition camera_get_camera_info ::
  "camera_env \<Rightarrow> int \<Rightarrow> nat option \<Rightarrow> camera_module \<Rightarrow> int \<times> nat option \<times> camera_module" where
  "camera_get_camera_info E cid info s =
     (let (rv, s) = check_vendor_module_m E s
      in if rv \<noteq> 0 then (0, info, s)
         else
           let (rc, i) = get_camera_info E (module_log s) cid
           in (rc, Some i, record_event (GetCameraInfo cid) s))"

definition camera_set_callbacks :: "camera_env \<Rightarrow> nat \<Rightarrow> camera_module \<Rightarrow> int \<times> camera_module" where
  "camera_set_callbacks E callbacks s =
     (let (rv, s) = check_vendor_module_m E s
      in if rv \<noteq> 0 then (0, s)
         else (set_module_callbacks_rc E (module_log s) callbacks, record_event (SetModuleCallbacks callbacks) s))"

definition camera_get_vendor_tag_ops :: "camera_env \<Rightarrow> nat \<Rightarrow> camera_module \<Rightarrow> camera_module" where
  "camera_get_vendor_tag_ops E ops s =
     (let (rv, s) = check_vendor_module_m E s in if rv \<noteq> 0 then s else record_event (GetVendorTagOps ops) s)"

definition camera_set_torch_mode :: "camera_env \<Rightarrow> string \<Rightarrow> bool \<Rightarrow> camera_module \<Rightarrow> int \<times> camera_module" where
  "camera_set_torch_mode E cid enabled s =
     (let (rv, s) = check_vendor_module_m E s
      in if rv \<noteq> 0 then (0, s)
         else (set_torch_mode_rc E (module_log s) cid enabled, record_event (SetTorchMode cid enabled) s))"

text \<open>\<open>halVersion\<close> is not used.\<close>

definition camera_open_legacy ::
  "camera_env \<Rightarrow> string option \<Rightarrow> nat option \<Rightarrow> camera_module \<Rightarrow> int \<times> nat option \<times> camera_module" where
  "camera_open_legacy E name dev s =
     (let (rv, s) = check_vendor_module_m E s
      in if rv \<noteq> 0 then (0, dev, s)
         else
           let (rv, dev, c) = camera2_device_open E name dev (wrapper2 s)
           in (rv, dev, s\<lparr>wrapper2 := c\<rparr>))"

end
