(* ===== verification/CameraModuleInv.thy ===== *)
theory CameraModuleInv
  imports CameraModule
begin

text \<open>
  The camera module as its client drives it: the calls of the module and of the devices that it opened,
  what the client may call when, and the accounting of the vendor's devices over every run.
\<close>

section \<open>The client\<close>

datatype camera_call =
    OpenCamera "string option"
  | OpenLegacyCamera "string option"
  | CountCameras
  | CameraInfo int
  | ModuleCallbacks nat
  | VendorTagOps nat
  | TorchMode string bool
  | Call2 nat camera_request
  | Close2 nat
  | Call3 nat camera3_request
  | Close3 nat

definition on_wrapper2 :: "(camera2 \<Rightarrow> camera2 option) \<Rightarrow> camera_module \<Rightarrow> camera_module option" where
  "on_wrapper2 f s = map_option (\<lambda>c. s\<lparr>wrapper2 := c\<rparr>) (f (wrapper2 s))"

fun camera_step :: "camera_env \<Rightarrow> 'm kvec \<Rightarrow> camera_call \<Rightarrow> camera_module \<Rightarrow> camera_module option" where
  "camera_step E V (OpenCamera name) s = Some (snd (snd (camera_device_open E name None s)))"
| "camera_step E V (OpenLegacyCamera name) s = Some (snd (snd (camera_open_legacy E name None s)))"
| "camera_step E V CountCameras s = Some (snd (camera_get_number_of_cameras E s))"
| "camera_step E V (CameraInfo i) s = Some (snd (snd (camera_get_camera_info E i None s)))"
| "camera_step E V (ModuleCallbacks cb) s = Some (snd (camera_set_callbacks E cb s))"
| "camera_step E V (VendorTagOps ops) s = Some (camera_get_vendor_tag_ops E ops s)"
| "camera_step E V (TorchMode cid on) s = Some (snd (camera_set_torch_mode E cid on s))"
| "camera_step E V (Call2 a r) s = on_wrapper2 (camera2_op E V a r) s"
| "camera_step E V (Close2 a) s = on_wrapper2 (\<lambda>c. map_option snd (camera2_device_close E (Some a) c)) s"
| "camera_step E V (Call3 a r) s = camera3_op E a r s"
| "camera_step E V (Close3 a) s = map_option snd (camera3_device_close (Some a) s)"

text \<open>
  The client calls the devices it has open, through the entries that are set, and asks version 1 for
  cameras below the number of cameras.
\<close>

fun camera_allowed :: "int \<Rightarrow> camera_module \<Rightarrow> camera_call \<Rightarrow> bool" where
  "camera_allowed n s (OpenLegacyCamera name) \<longleftrightarrow> (case name of None \<Rightarrow> True | Some nm \<Rightarrow> atoi nm < n)"
| "camera_allowed n s (Call2 a r) \<longleftrightarrow> camera2_devices (wrapper2 s) a \<noteq> None"
| "camera_allowed n s (Close2 a) \<longleftrightarrow> camera2_devices (wrapper2 s) a \<noteq> None"
| "camera_allowed n s (Call3 a r) \<longleftrightarrow> camera3_devices s a \<noteq> None \<and> (\<forall>b. r \<noteq> RegisterStreamBuffers b)"
| "camera_allowed n s (Close3 a) \<longleftrightarrow> camera3_devices s a \<noteq> None"
| "camera_allowed n s c \<longleftrightarrow> True"

inductive camera_reachable :: "camera_env \<Rightarrow> 'm kvec \<Rightarrow> int \<Rightarrow> camera_module \<Rightarrow> bool" for E V n where
  camera_start: "camera_reachable E V n module_init"
| camera_called: "camera_reachable E V n s \<Longrightarrow> camera_allowed n s c \<Longrightarrow> camera_step E V c s = Some s' \<Longrightarrow>
    camera_reachable E V n s'"

section \<open>The invariant\<close>

text \<open>The vendor's device behind the wrapper at an address, for version 1 and for both.\<close>

definition behind :: "camera2 \<Rightarrow> nat \<Rightarrow> nat option" where
  "behind c a = map_option camera_vendor (camera2_devices c a)"

definition behind3 :: "camera_module \<Rightarrow> nat \<Rightarrow> nat option" where
  "behind3 s a = map_option camera3_vendor (camera3_devices s a)"

definition wrapped :: "camera_module \<Rightarrow> nat \<Rightarrow> nat option" where
  "wrapped s = behind3 s ++ behind (wrapper2 s)"

text \<open>In a history, the vendor's devices are called and closed only while they are open.\<close>

fun event_device :: "camera_event \<Rightarrow> nat option" where
  "event_device (ToVendor v r) = Some v"
| "event_device (ToVendor3 v r) = Some v"
| "event_device (CloseVendor v) = Some v"
| "event_device e = None"

fun used_while_open :: "camera_env \<Rightarrow> camera_event list \<Rightarrow> bool" where
  "used_while_open E [] = True"
| "used_while_open E (e # l) \<longleftrightarrow>
     used_while_open E l \<and> (\<forall>v. event_device e = Some v \<longrightarrow> v \<in> vendor_open E l)"

definition camera2_ok :: "int \<Rightarrow> camera2 \<Rightarrow> bool" where
  "camera2_ok n c \<longleftrightarrow>
     (num_cameras c = 0 \<or> num_cameras c = n) \<and>
     (\<forall>arr. fixed_set_params c = Some arr \<longrightarrow> num_cameras c = n \<and> length arr = nat n) \<and>
     (\<forall>a d. camera2_devices c a = Some d \<longrightarrow>
        fixed_set_params c \<noteq> None \<and> 0 \<le> camera_id d \<and> camera_id d < n \<and> a < camera2_next c)"

text \<open>The accounting on its own: the devices \<open>w\<close> behind the wrappers, by address, against a history.\<close>

definition handles_inv :: "camera_env \<Rightarrow> (nat \<Rightarrow> nat option) \<Rightarrow> camera_event list \<Rightarrow> bool" where
  "handles_inv E w l \<longleftrightarrow>
     inj_on w (dom w) \<and> ran w \<subseteq> vendor_open E l \<and>
     ((\<forall>l' x. camera_alloc_ok E l' x) \<longrightarrow> vendor_open E l = ran w) \<and> used_while_open E l"

definition module_inv :: "camera_env \<Rightarrow> int \<Rightarrow> camera_module \<Rightarrow> bool" where
  "module_inv E n s \<longleftrightarrow>
     camera2_ok n (wrapper2 s) \<and>
     (\<forall>a. camera3_devices s a \<noteq> None \<longrightarrow> a < camera2_next (wrapper2 s) \<and> camera2_devices (wrapper2 s) a = None) \<and>
     handles_inv E (wrapped s) (module_log s)"

text \<open>From one history to the next: nothing opens or closes for good, and only devices in \<open>D\<close> are called.\<close>

definition log_quiet :: "camera_env \<Rightarrow> nat set \<Rightarrow> camera_event list \<Rightarrow> camera_event list \<Rightarrow> bool" where
  "log_quiet E D l l' \<longleftrightarrow> vendor_open E l' = vendor_open E l \<and>
     (D \<subseteq> vendor_open E l \<longrightarrow> used_while_open E l \<longrightarrow> used_while_open E l')"

lemma log_quiet_refl: "log_quiet E D l l"
  by (simp add: log_quiet_def)

lemma log_quiet_trans: "log_quiet E D l l' \<Longrightarrow> log_quiet E D l' l'' \<Longrightarrow> log_quiet E D l l''"
  by (simp add: log_quiet_def)

lemma log_quiet_mono: "log_quiet E D l l' \<Longrightarrow> D \<subseteq> D' \<Longrightarrow> log_quiet E D' l l'"
  by (auto simp: log_quiet_def)

lemma handles_quiet: "handles_inv E w l \<Longrightarrow> log_quiet E (ran w) l l' \<Longrightarrow> handles_inv E w l'"
  by (simp add: handles_inv_def log_quiet_def)

text \<open>An event that opens a device: it gets a wrapper, or it is lost, which needs a failed allocation.\<close>

lemma handles_open:
  assumes "handles_inv E w l" and "w a = None" and "v \<notin> vendor_open E l"
    and "vendor_open E (e # l) = insert v (vendor_open E l)" and "event_device e = None"
  shows "handles_inv E (w(a \<mapsto> v)) (e # l)"
proof -
  have "v \<notin> ran w" using assms(1,3) by (auto simp: handles_inv_def)
  then have "inj_on (w(a \<mapsto> v)) (dom (w(a \<mapsto> v)))"
    using assms(1,2) unfolding handles_inv_def inj_on_def by (auto simp: ran_def dom_def split: if_splits)
  moreover have "ran (w(a \<mapsto> v)) = insert v (ran w)" using assms(2) by simp
  ultimately show ?thesis using assms by (auto simp: handles_inv_def)
qed

lemma handles_lost:
  assumes "handles_inv E w l" and "\<not> camera_alloc_ok E l' x"
    and "vendor_open E (e # l) = insert v (vendor_open E l)" and "event_device e = None"
  shows "handles_inv E w (e # l)"
  using assms by (auto simp: handles_inv_def)

lemma handles_close:
  assumes "handles_inv E w l" and "w a = Some v"
  shows "handles_inv E (w(a := None)) (CloseVendor v # l)"
proof -
  have i: "inj_on w (dom w)" using assms(1) by (simp add: handles_inv_def)
  have only: "b = a" if "w b = Some v" for b
    using inj_onD [OF i, of b a] that assms(2) by (simp add: domI)
  have "ran (w(a := None)) = ran w - {v}"
  proof
    show "ran (w(a := None)) \<subseteq> ran w - {v}" by (auto simp: ran_def dest: only split: if_splits)
    show "ran w - {v} \<subseteq> ran (w(a := None))" using assms(2) unfolding ran_def by force
  qed
  moreover have "inj_on (w(a := None)) (dom (w(a := None)))" using i by (auto simp: inj_on_def dom_def)
  ultimately show ?thesis using assms by (auto simp: handles_inv_def ran_def)
qed

section \<open>Steps of version 1\<close>

lemma behind_log [simp]: "behind (c\<lparr>camera2_log := l\<rparr>) = behind c"
  by (simp add: behind_def fun_eq_iff)

definition camera2_quiet :: "camera_env \<Rightarrow> int \<Rightarrow> nat set \<Rightarrow> camera2 \<Rightarrow> camera2 \<Rightarrow> bool" where
  "camera2_quiet E n D c c' \<longleftrightarrow> camera2_ok n c' \<and> behind c' = behind c \<and> camera2_next c' = camera2_next c \<and>
     log_quiet E D (camera2_log c) (camera2_log c')"

lemma camera2_quiet_refl: "camera2_ok n c \<Longrightarrow> camera2_quiet E n D c c"
  by (simp add: camera2_quiet_def log_quiet_refl)

lemma camera2_quiet_trans: "camera2_quiet E n D c c' \<Longrightarrow> camera2_quiet E n D c' c'' \<Longrightarrow> camera2_quiet E n D c c''"
  by (auto simp: camera2_quiet_def intro: log_quiet_trans)

text \<open>The requests to an open device return and reach only the vendor's device behind it.\<close>

lemma camera2_op_quiet:
  assumes c: "camera2_ok n c" and d: "camera2_devices c a = Some d"
  shows "wp (camera2_op E V a req c) (camera2_quiet E n {camera_vendor d} c)"
proof -
  obtain arr where arr: "fixed_set_params c = Some arr" "num_cameras c = n" "length arr = nat n"
    using c d by (fastforce simp: camera2_ok_def)
  have i: "0 \<le> camera_id d" "camera_id d < n" using c d by (auto simp: camera2_ok_def)
  then have len: "nat (camera_id d) < length arr" using arr by simp
  show ?thesis
    by (cases req) (use c d arr i len in \<open>auto simp: camera2_quiet_def camera2_ok_def behind_def fun_eq_iff
      log_quiet_def vendor_call_def camera2_forward_defs
      camera2_set_preview_window_def camera2_set_callbacks_def camera2_start_preview_def camera2_stop_preview_def
      camera2_preview_enabled_def camera2_set_parameters_def camera2_fixup_setparams_def camera2_get_parameters_def
      camera2_put_parameters_def camera2_release_def Let_def\<close>)
qed


text \<open>The parts of an open.\<close>

lemma check_vendor_module_quiet: "camera2_ok n c \<Longrightarrow> camera2_quiet E n D c (snd (check_vendor_module E c))"
  by (simp add: check_vendor_module_def camera2_quiet_def camera2_ok_def behind_def log_quiet_def fun_eq_iff Let_def)

lemma camera_alloc_quiet:
  "camera2_ok n c \<Longrightarrow> camera2_quiet E n D c (snd (camera_alloc E x c))"
  "fixed_set_params (snd (camera_alloc E x c)) = fixed_set_params c"
  "num_cameras (snd (camera_alloc E x c)) = num_cameras c"
  "camera2_devices (snd (camera_alloc E x c)) = camera2_devices c"
  by (simp_all add: camera_alloc_def camera2_quiet_def camera2_ok_def behind_def log_quiet_def fun_eq_iff)

lemma prepare_cameras_quiet:
  assumes c: "camera2_ok n c" and n: "camera_count E n"
  shows "camera2_quiet E n D c (snd (prepare_cameras E c))"
    "fst (prepare_cameras E c) \<Longrightarrow>
      fixed_set_params (snd (prepare_cameras E c)) \<noteq> None \<and> num_cameras (snd (prepare_cameras E c)) = n"
proof -
  define c1 where "c1 = (if num_cameras c = 0
    then c\<lparr>num_cameras := n, camera2_log := GetNumberOfCameras # camera2_log c\<rparr> else c)"
  have n1: "num_cameras c1 = n" "fixed_set_params c1 = fixed_set_params c" "0 < n"
    using c n by (auto simp: c1_def camera2_ok_def camera_count_def)
  have q1: "camera2_quiet E n D c c1"
    using c by (auto simp: c1_def camera2_quiet_def camera2_ok_def behind_def log_quiet_def fun_eq_iff)
  have run: "prepare_cameras E c = (if fixed_set_params c1 \<noteq> None then (True, c1)
    else let (ok, s) = camera_alloc E ''fixed_set_params'' c1
         in (ok, if ok then s\<lparr>fixed_set_params := Some (replicate (nat (num_cameras s)) None)\<rparr> else s))"
    using n unfolding prepare_cameras_def c1_def camera_count_def Let_def by (cases "fixed_set_params c") simp_all
  define c2 where "c2 = snd (camera_alloc E ''fixed_set_params'' c1)"
  have q2: "camera2_quiet E n D c c2"
    using camera2_quiet_trans [OF q1 camera_alloc_quiet(1)] q1 by (simp add: c2_def camera2_quiet_def)
  have n2: "num_cameras c2 = n" "fixed_set_params c2 = fixed_set_params c1"
    using n1 by (simp_all add: c2_def camera_alloc_quiet)
  have q3: "camera2_quiet E n D c (c2\<lparr>fixed_set_params := Some (replicate (nat n) None)\<rparr>)"
    using q2 n2 n1 by (auto simp: camera2_quiet_def camera2_ok_def behind_def fun_eq_iff)
  show "camera2_quiet E n D c (snd (prepare_cameras E c))"
    unfolding run split_beta Let_def c2_def [symmetric] using q1 q2 q3 n2 by simp
  show "fst (prepare_cameras E c) \<Longrightarrow>
      fixed_set_params (snd (prepare_cameras E c)) \<noteq> None \<and> num_cameras (snd (prepare_cameras E c)) = n"
    unfolding run split_beta Let_def c2_def [symmetric] using n1 n2 by (simp split: if_splits)
qed

text \<open>
  What opening a device may do, from \<open>c\<close> to \<open>c'\<close>: nothing but quiet calls; a new device; or, when the
  last allocation fails, a vendor's device that is opened and lost.
\<close>

definition camera2_opened :: "camera_env \<Rightarrow> int \<Rightarrow> camera2 \<Rightarrow> int \<Rightarrow> nat option \<Rightarrow> camera2 \<Rightarrow> bool" where
  "camera2_opened E n c rv dev c' \<longleftrightarrow> camera2_ok n c' \<and>
     (\<exists>l nm v. log_quiet E {} (camera2_log c) l \<and> open_legacy E l nm = (0, v) \<and>
        log_quiet E {} (OpenLegacy nm # l) (camera2_log c') \<and>
        (rv = 0 \<and> dev = Some (camera2_next c) \<and> behind c' = (behind c)(camera2_next c \<mapsto> v) \<and>
           camera2_next c' = Suc (camera2_next c)
         \<or> rv = - ENOMEM \<and> dev = None \<and> behind c' = behind c \<and> camera2_next c' = camera2_next c \<and>
           (\<exists>l x. \<not> camera_alloc_ok E l x)))"

lemma camera2_device_open_effect:
  assumes c: "camera2_ok n c" and n: "camera_count E n" and nm: "case name of None \<Rightarrow> True | Some nm \<Rightarrow> atoi nm < n"
    and res: "camera2_device_open E name dev c = (rv, dev', c')"
  shows "rv = 0 \<and> name = None \<and> dev' = dev \<and> c' = c \<or>
    rv \<noteq> 0 \<and> (dev' = None \<or> dev' = dev) \<and> camera2_quiet E n {} c c' \<or> camera2_opened E n c rv dev' c'"
proof (cases name)
  case None
  then show ?thesis using res by (simp add: camera2_device_open_def)
next
  case (Some nm')
  define c0 where "c0 = snd (check_vendor_module E c)"
  define c1 where "c1 = snd (prepare_cameras E c0)"
  define c2 where "c2 = snd (camera_alloc E ''camera2_device'' c1)"
  define l where "l = camera2_log c2"
  define c3 where "c3 = c2\<lparr>camera2_log := OpenLegacy nm' # l\<rparr>"
  define c4 where "c4 = snd (camera_alloc E ''camera_ops'' c3)"
  have q0: "camera2_quiet E n {} c c0" unfolding c0_def by (rule check_vendor_module_quiet [OF c])
  have ok0: "camera2_ok n c0" using q0 by (simp add: camera2_quiet_def)
  have q1: "camera2_quiet E n {} c c1"
    unfolding c1_def by (rule camera2_quiet_trans [OF q0 prepare_cameras_quiet(1) [OF ok0 n]])
  have ok1: "camera2_ok n c1" using q1 by (simp add: camera2_quiet_def)
  have q2: "camera2_quiet E n {} c c2"
    unfolding c2_def by (rule camera2_quiet_trans [OF q1 camera_alloc_quiet(1) [OF ok1]])
  have n2: "fixed_set_params c2 = fixed_set_params c1" "num_cameras c2 = num_cameras c1"
    by (simp_all add: c2_def camera_alloc_quiet)
  have ok2: "camera2_ok n c2" using q2 by (simp add: camera2_quiet_def)
  have ok3: "camera2_ok n c3" using ok2 by (simp add: c3_def camera2_ok_def)
  have q4: "camera2_quiet E n {} c3 c4" unfolding c4_def by (rule camera_alloc_quiet(1) [OF ok3])
  have run: "camera2_device_open E name dev c =
     (if fst (check_vendor_module E c) \<noteq> 0 then (- EINVAL, dev, c0)
      else if \<not> fst (prepare_cameras E c0) then (- ENOMEM, None, c1)
      else if atoi nm' < 0 \<or> atoi nm' > num_cameras c1 then (- EINVAL, None, c1)
      else if \<not> fst (camera_alloc E ''camera2_device'' c1) then (- ENOMEM, None, c2)
      else if fst (open_legacy E l nm') \<noteq> 0 then (fst (open_legacy E l nm'), None, c3)
      else if \<not> fst (camera_alloc E ''camera_ops'' c3) then (- ENOMEM, None, c4)
      else (0, Some (camera2_next c4),
            c4\<lparr>camera2_devices := (camera2_devices c4)(camera2_next c4 :=
                 Some \<lparr>camera_id = atoi nm', camera_released = False, camera_vendor = snd (open_legacy E l nm')\<rparr>),
               camera2_next := Suc (camera2_next c4)\<rparr>))"
    unfolding camera2_device_open_def Some option.case split_beta Let_def c0_def [symmetric] c1_def [symmetric]
      c2_def [symmetric] l_def [symmetric] c3_def [symmetric] c4_def [symmetric] by simp
  consider "rv \<noteq> 0" "dev' = None \<or> dev' = dev" "c' = c0 \<or> c' = c1 \<or> c' = c2"
    | "rv \<noteq> 0" "dev' = None" "c' = c3" "fst (open_legacy E l nm') \<noteq> 0"
    | "rv = - ENOMEM" "dev' = None" "c' = c4" "fst (open_legacy E l nm') = 0" "\<not> fst (camera_alloc E ''camera_ops'' c3)"
    | "rv = 0" "dev' = Some (camera2_next c4)" "fst (open_legacy E l nm') = 0" "fst (prepare_cameras E c0)"
      "0 \<le> atoi nm'" "c' = c4\<lparr>camera2_devices := (camera2_devices c4)(camera2_next c4 :=
                 Some \<lparr>camera_id = atoi nm', camera_released = False, camera_vendor = snd (open_legacy E l nm')\<rparr>),
               camera2_next := Suc (camera2_next c4)\<rparr>"
  proof (cases "fst (check_vendor_module E c) = 0 \<and> fst (prepare_cameras E c0) \<and> 0 \<le> atoi nm' \<and>
      \<not> atoi nm' > num_cameras c1 \<and> fst (camera_alloc E ''camera2_device'' c1)")
    case False
    then have "rv \<noteq> 0 \<and> (dev' = None \<or> dev' = dev) \<and> (c' = c0 \<or> c' = c1 \<or> c' = c2)"
      using res unfolding run by (auto split: if_splits)
    then show ?thesis using that(1) by blast
  next
    case True
    note ready = this
    show ?thesis
    proof (cases "fst (open_legacy E l nm') = 0")
      case False
      then show ?thesis using res ready unfolding run by (intro that(2)) auto
    next
      case True
      then show ?thesis
      proof (cases "fst (camera_alloc E ''camera_ops'' c3)")
        case False
        then show ?thesis using res ready True unfolding run by (intro that(3)) auto
      next
        case ok: True
        then show ?thesis using res ready True unfolding run by (intro that(4)) auto
      qed
    qed
  qed
  then show ?thesis
  proof cases
    case 1
    then show ?thesis using q0 q1 q2 by auto
  next
    case 2
    have "camera2_quiet E n {} c c3"
      using q2 ok3 2(4) by (auto simp: camera2_quiet_def c3_def l_def behind_def fun_eq_iff log_quiet_def split_beta)
    then show ?thesis using 2 by simp
  next
    case 3
    have "\<exists>l x. \<not> camera_alloc_ok E l x" using 3(5) by (auto simp: camera_alloc_def)
    then have "camera2_opened E n c rv dev' c'"
      using 3 q2 q4 by (auto simp: camera2_opened_def camera2_quiet_def behind_def c3_def l_def prod_eq_iff
        intro!: exI [of _ l] exI [of _ nm'])
    then show ?thesis by simp
  next
    case 4
    have "camera2_opened E n c rv dev' c'"
    proof -
      have n4: "num_cameras c4 = n" "fixed_set_params c4 \<noteq> None"
        using 4(4) prepare_cameras_quiet(2) [OF ok0 n] n2
        by (simp_all add: c4_def c3_def camera_alloc_quiet c1_def)
      have ok4: "camera2_ok n c4" using q4 by (simp add: camera2_quiet_def)
      then have "camera2_ok n c'" using 4(5,6) n4 nm Some by (auto simp: camera2_ok_def less_Suc_eq)
      moreover have "behind c' = (behind c)(camera2_next c \<mapsto> snd (open_legacy E l nm'))" "camera2_next c4 = camera2_next c"
        "camera2_next c' = Suc (camera2_next c)"
        "log_quiet E {} (OpenLegacy nm' # l) (camera2_log c')" "log_quiet E {} (camera2_log c) l"
        using 4(6) q2 q4 by (auto simp: camera2_quiet_def c3_def l_def behind_def fun_eq_iff)
      ultimately show ?thesis
        unfolding camera2_opened_def using 4(1-3) by (metis prod.collapse)
    qed
    then show ?thesis by simp
  qed
qed


lemma camera2_device_close_effect:
  assumes c: "camera2_ok n c" and d: "camera2_devices c a = Some d"
  shows "wp (camera2_device_close E (Some a) c) (\<lambda>(r, c'). r = 0 \<and> camera2_ok n c' \<and> behind c' = (behind c)(a := None) \<and>
    camera2_next c' = camera2_next c \<and>
    (\<exists>l. log_quiet E {camera_vendor d} (camera2_log c) l \<and> camera2_log c' = CloseVendor (camera_vendor d) # l))"
proof -
  obtain arr where arr: "fixed_set_params c = Some arr" "num_cameras c = n" "length arr = nat n"
    using c d by (fastforce simp: camera2_ok_def)
  have i: "0 \<le> camera_id d" "camera_id d < n" using c d by (auto simp: camera2_ok_def)
  then have drop: "drop_fixed_params (camera_id d) c =
      Some (c\<lparr>fixed_set_params := Some (arr[nat (camera_id d) := None])\<rparr>)"
    using arr by (simp add: drop_fixed_params_def)
  show ?thesis
    using c d
    by (auto simp: camera2_device_close_def drop vendor_call_def camera2_ok_def behind_def
        log_quiet_def fun_eq_iff Let_def arr(1,3))
qed

section \<open>Steps of version 3 and of the module\<close>

definition module_quiet :: "camera_env \<Rightarrow> int \<Rightarrow> nat set \<Rightarrow> camera_module \<Rightarrow> camera_module \<Rightarrow> bool" where
  "module_quiet E n D s s' \<longleftrightarrow> camera2_quiet E n D (wrapper2 s) (wrapper2 s') \<and> camera3_devices s' = camera3_devices s"

lemma module_quiet_trans: "module_quiet E n D s s' \<Longrightarrow> module_quiet E n D s' s'' \<Longrightarrow> module_quiet E n D s s''"
  by (auto simp: module_quiet_def intro: camera2_quiet_trans)

lemma module_quiet_wrapped:
  assumes "module_quiet E n D s s'"
  shows "wrapped s' = wrapped s"
proof -
  have "behind3 s' = behind3 s" using assms by (simp add: behind3_def fun_eq_iff module_quiet_def)
  then show ?thesis using assms by (simp add: wrapped_def module_quiet_def camera2_quiet_def)
qed

lemma module_quiet_inv:
  assumes "module_inv E n s" and "module_quiet E n D s s'" and "D \<subseteq> ran (wrapped s)"
  shows "module_inv E n s'"
proof -
  note w = module_quiet_wrapped [OF assms(2)]
  have "camera2_devices (wrapper2 s') a = None \<longleftrightarrow> camera2_devices (wrapper2 s) a = None" for a
    using assms(2) unfolding module_quiet_def camera2_quiet_def behind_def by (metis option.map_disc_iff)
  then show ?thesis
    using assms handles_quiet [OF _ log_quiet_mono [OF _ assms(3)]]
    by (auto simp: module_inv_def w module_quiet_def camera2_quiet_def)
qed

fun plain_event :: "camera_event \<Rightarrow> bool" where
  "plain_event (OpenLegacy nm) = False"
| "plain_event (OpenVendor nm) = False"
| "plain_event (CloseVendor v) = False"
| "plain_event e = True"

lemma vendor_open_plain: "plain_event e \<Longrightarrow> vendor_open E (e # l) = vendor_open E l"
  by (cases e) simp_all

lemma record_event_quiet:
  assumes "camera2_ok n (wrapper2 s)" and "plain_event e" and "\<And>v. event_device e = Some v \<Longrightarrow> v \<in> D"
  shows "module_quiet E n D s (record_event e s)"
  using assms vendor_open_plain [OF assms(2)]
  by (auto simp: module_quiet_def camera2_quiet_def record_event_def camera2_ok_def log_quiet_def)

lemma record_event_fields [simp]:
  "wrapper2 (record_event e s) = (wrapper2 s)\<lparr>camera2_log := e # module_log s\<rparr>"
  "camera3_devices (record_event e s) = camera3_devices s"
  by (simp_all add: record_event_def)

lemma camera2_ok_log [simp]: "camera2_ok n (c\<lparr>camera2_log := l\<rparr>) = camera2_ok n c"
  by (simp add: camera2_ok_def)

lemma check_vendor_module3_quiet:
  "camera2_ok n (wrapper2 s) \<Longrightarrow> module_quiet E n D s (snd (check_vendor_module3 E s))"
  "camera2_ok n (wrapper2 s) \<Longrightarrow> module_quiet E n D s (snd (check_vendor_module_m E s))"
  by (simp_all add: check_vendor_module3_def check_vendor_module_m_def module_quiet_def camera2_quiet_def log_quiet_def Let_def)

lemma module_alloc_quiet:
  "camera2_ok n (wrapper2 s) \<Longrightarrow> module_quiet E n D s (snd (module_alloc E x s))"
  using camera_alloc_quiet(1) by (simp add: module_alloc_def module_quiet_def split_beta)

text \<open>The requests to an open device of version 3.\<close>

lemma camera3_op_quiet:
  assumes "camera2_ok n (wrapper2 s)" and "camera3_devices s a = Some d" and "\<And>b. req \<noteq> RegisterStreamBuffers b"
  shows "wp (camera3_op E a req s) (module_quiet E n {camera3_vendor d} s)"
  by (cases req) (use assms in \<open>auto simp: camera3_forward_defs vendor_call3_def module_quiet_def camera2_quiet_def log_quiet_def
      camera3_construct_default_request_settings_def camera3_fixup_construct_default_request_settings_def Let_def\<close>)

lemma camera3_device_open_effect:
  assumes s: "camera2_ok n (wrapper2 s)" and res: "camera3_device_open E name dev s = (rv, dev', s')"
  shows "rv = 0 \<and> name = None \<and> dev' = dev \<and> s' = s \<or>
    rv \<noteq> 0 \<and> (dev' = None \<or> dev' = dev) \<and> module_quiet E n {} s s' \<or>
    (\<exists>l nm v. log_quiet E {} (module_log s) l \<and> open_vendor E l nm = (0, v) \<and>
       log_quiet E {} (OpenVendor nm # l) (module_log s') \<and> camera2_ok n (wrapper2 s') \<and>
       behind (wrapper2 s') = behind (wrapper2 s) \<and>
       (rv = 0 \<and> dev' = Some (camera2_next (wrapper2 s)) \<and>
          behind3 s' = (behind3 s)(camera2_next (wrapper2 s) \<mapsto> v) \<and>
          camera2_next (wrapper2 s') = Suc (camera2_next (wrapper2 s))
        \<or> rv = - ENOMEM \<and> dev' = None \<and> behind3 s' = behind3 s \<and>
          camera2_next (wrapper2 s') = camera2_next (wrapper2 s) \<and> (\<exists>l x. \<not> camera_alloc_ok E l x)))"
proof (cases name)
  case None
  then show ?thesis using res by (simp add: camera3_device_open_def)
next
  case (Some nm)
  define s0 where "s0 = snd (check_vendor_module3 E s)"
  define s1 where "s1 = record_event GetNumberOfCameras s0"
  define s2 where "s2 = snd (module_alloc E ''camera3_device'' s1)"
  define l where "l = module_log s2"
  define s3 where "s3 = record_event (OpenVendor nm) s2"
  define s4 where "s4 = snd (module_alloc E ''camera3_ops'' s3)"
  have q0: "module_quiet E n {} s s0" unfolding s0_def by (rule check_vendor_module3_quiet(1) [OF s])
  then have ok0: "camera2_ok n (wrapper2 s0)" by (simp add: module_quiet_def camera2_quiet_def)
  have q1: "module_quiet E n {} s s1"
    unfolding s1_def by (rule module_quiet_trans [OF q0 record_event_quiet]) (simp_all add: ok0)
  then have ok1: "camera2_ok n (wrapper2 s1)" by (simp add: module_quiet_def camera2_quiet_def)
  have q2: "module_quiet E n {} s s2"
    unfolding s2_def by (rule module_quiet_trans [OF q1 module_alloc_quiet [OF ok1]])
  then have ok3: "camera2_ok n (wrapper2 s3)" by (simp add: module_quiet_def camera2_quiet_def s3_def)
  have q4: "module_quiet E n {} s3 s4" unfolding s4_def by (rule module_alloc_quiet [OF ok3])
  define a where "a = camera2_next (wrapper2 s4)"
  define s5 where "s5 = s4\<lparr>wrapper2 := (wrapper2 s4)\<lparr>camera2_next := Suc a\<rparr>,
    camera3_devices := (camera3_devices s4)(a \<mapsto> \<lparr>camera3_id = atoi nm, camera3_vendor = snd (open_vendor E l nm)\<rparr>)\<rparr>"
  have run: "camera3_device_open E name dev s =
     (if fst (check_vendor_module3 E s) \<noteq> 0 then (- EINVAL, dev, s0)
      else if atoi nm > get_number_of_cameras E (module_log s0) then (- EINVAL, None, s1)
      else if \<not> fst (module_alloc E ''camera3_device'' s1) then (- ENOMEM, None, s2)
      else if fst (open_vendor E l nm) \<noteq> 0 then (fst (open_vendor E l nm), None, s3)
      else if \<not> fst (module_alloc E ''camera3_ops'' s3) then (- ENOMEM, None, s4)
      else (0, Some a, s5))"
    unfolding camera3_device_open_def Some option.case split_beta Let_def s0_def [symmetric] s1_def [symmetric]
      s2_def [symmetric] l_def [symmetric] s3_def [symmetric] s4_def [symmetric] a_def [symmetric] s5_def [symmetric] by simp
  show ?thesis
  proof (cases "fst (open_vendor E l nm) = 0")
    case False
    have "module_quiet E n {} s s3"
      using q2 ok3 False by (auto simp: module_quiet_def camera2_quiet_def s3_def l_def log_quiet_def split_beta)
    then show ?thesis using res q0 q1 q2 False unfolding run by (auto split: if_splits)
  next
    case v: True
    have ex: "\<exists>l x. \<not> camera_alloc_ok E l x" if "\<not> fst (module_alloc E x t)" for x t
      using that by (auto simp: module_alloc_def camera_alloc_def)
    have lg: "log_quiet E {} (module_log s) l" "log_quiet E {} (OpenVendor nm # l) (module_log s4)"
      "open_vendor E l nm = (0, snd (open_vendor E l nm))"
      using q2 q4 v by (auto simp: module_quiet_def camera2_quiet_def s3_def l_def prod_eq_iff)
    have f4: "camera2_ok n (wrapper2 s4)" "behind (wrapper2 s4) = behind (wrapper2 s)" "behind3 s4 = behind3 s"
      "camera2_next (wrapper2 s4) = camera2_next (wrapper2 s)"
      using q2 q4 by (auto simp: module_quiet_def camera2_quiet_def s3_def behind3_def fun_eq_iff)
    have f5: "camera2_ok n (wrapper2 s5)" "behind (wrapper2 s5) = behind (wrapper2 s)" "module_log s5 = module_log s4"
      "behind3 s5 = (behind3 s)(camera2_next (wrapper2 s) \<mapsto> snd (open_vendor E l nm))"
      using f4 unfolding s5_def a_def by (auto simp: camera2_ok_def behind3_def behind_def fun_eq_iff less_Suc_eq)
    consider "rv \<noteq> 0" "dev' = None \<or> dev' = dev" "s' = s0 \<or> s' = s1 \<or> s' = s2"
      | "rv = - ENOMEM" "dev' = None" "s' = s4" "\<not> fst (module_alloc E ''camera3_ops'' s3)"
      | "rv = 0" "dev' = Some a" "s' = s5"
      using res v unfolding run by (auto split: if_splits)
    then show ?thesis
    proof cases
      case 1
      then show ?thesis using q0 q1 q2 by auto
    next
      case 2
      then show ?thesis using lg f4 ex [OF 2(4)] by blast
    next
      case 3
      have "camera2_next (wrapper2 s5) = Suc (camera2_next (wrapper2 s))" "a = camera2_next (wrapper2 s)"
        using f4 by (simp_all add: s5_def a_def)
      then show ?thesis using 3 lg f5 by metis
    qed
  qed
qed


section \<open>Every call keeps the invariant\<close>

lemma opened_handles:
  assumes "handles_inv E w l0" and "log_quiet E {} l0 l" and "v \<notin> vendor_open E l"
    and "vendor_open E (e # l) = insert v (vendor_open E l)" and "event_device e = None" and "log_quiet E {} (e # l) l1"
  shows "w a = None \<Longrightarrow> handles_inv E (w(a \<mapsto> v)) l1" "\<exists>l' x. \<not> camera_alloc_ok E l' x \<Longrightarrow> handles_inv E w l1"
proof -
  have h: "handles_inv E w l" by (rule handles_quiet [OF assms(1) log_quiet_mono [OF assms(2)]]) simp
  have q: "log_quiet E D (e # l) l1" for D by (rule log_quiet_mono [OF assms(6)]) simp
  show "handles_inv E (w(a \<mapsto> v)) l1" if "w a = None"
    using handles_quiet [OF handles_open [OF h that assms(3-5)] q] .
  show "handles_inv E w l1" if "\<exists>l' x. \<not> camera_alloc_ok E l' x"
    using that handles_quiet [OF handles_lost [OF h _ assms(4,5)] q] by blast
qed

lemma module_inv_ok: "module_inv E n s \<Longrightarrow> camera2_ok n (wrapper2 s)"
  by (simp add: module_inv_def)

text \<open>The invariant over what is behind the wrappers.\<close>

lemma module_inv_behind:
  "module_inv E n s \<longleftrightarrow> camera2_ok n (wrapper2 s) \<and>
     (\<forall>a. behind3 s a \<noteq> None \<longrightarrow> a < camera2_next (wrapper2 s) \<and> behind (wrapper2 s) a = None) \<and>
     handles_inv E (behind3 s ++ behind (wrapper2 s)) (module_log s)"
  by (simp add: module_inv_def wrapped_def behind_def behind3_def)

lemma unused_address:
  assumes "module_inv E n s"
  shows "behind (wrapper2 s) (camera2_next (wrapper2 s)) = None" "behind3 s (camera2_next (wrapper2 s)) = None"
    "wrapped s (camera2_next (wrapper2 s)) = None"
proof -
  have "camera2_devices (wrapper2 s) (camera2_next (wrapper2 s)) = None"
    using assms unfolding module_inv_def camera2_ok_def by (metis less_irrefl option.exhaust)
  then show b: "behind (wrapper2 s) (camera2_next (wrapper2 s)) = None" by (simp add: behind_def)
  show b3: "behind3 s (camera2_next (wrapper2 s)) = None" using assms by (force simp: module_inv_def behind3_def)
  show "wrapped s (camera2_next (wrapper2 s)) = None" using b b3 by (simp add: wrapped_def)
qed

lemma open_legacy_inv:
  assumes s: "module_inv E n s" and f: "fresh_handles E" and n: "camera_count E n"
    and nm: "case name of None \<Rightarrow> True | Some nm \<Rightarrow> atoi nm < n"
  shows "module_inv E n (snd (snd (camera_open_legacy E name dev s)))"
proof -
  define s0 where "s0 = snd (check_vendor_module_m E s)"
  have s0: "module_inv E n s0"
    unfolding s0_def by (rule module_quiet_inv [OF s check_vendor_module3_quiet(2) [OF module_inv_ok [OF s], of _ "{}"]]) simp
  obtain rv dev' c' where o: "camera2_device_open E name dev (wrapper2 s0) = (rv, dev', c')"
    by (cases "camera2_device_open E name dev (wrapper2 s0)")
  have "module_inv E n (s0\<lparr>wrapper2 := c'\<rparr>)"
    using camera2_device_open_effect [OF module_inv_ok [OF s0] n nm o]
  proof (elim disjE)
    assume "rv \<noteq> 0 \<and> (dev' = None \<or> dev' = dev) \<and> camera2_quiet E n {} (wrapper2 s0) c'"
    then show ?thesis by (intro module_quiet_inv [OF s0, of "{}"]) (simp_all add: module_quiet_def)
  next
    assume op: "camera2_opened E n (wrapper2 s0) rv dev' c'"
    then obtain l x v where l: "log_quiet E {} (module_log s0) l" "open_legacy E l x = (0, v)"
      "log_quiet E {} (OpenLegacy x # l) (camera2_log c')"
      and c': "rv = 0 \<and> dev' = Some (camera2_next (wrapper2 s0)) \<and>
           behind c' = (behind (wrapper2 s0))(camera2_next (wrapper2 s0) \<mapsto> v) \<and>
           camera2_next c' = Suc (camera2_next (wrapper2 s0))
         \<or> rv = - ENOMEM \<and> dev' = None \<and> behind c' = behind (wrapper2 s0) \<and>
           camera2_next c' = camera2_next (wrapper2 s0) \<and> (\<exists>l x. \<not> camera_alloc_ok E l x)"
      unfolding camera2_opened_def by blast
    have h: "handles_inv E (wrapped s0) (module_log s0)" using s0 by (simp add: module_inv_def)
    have v: "v \<notin> vendor_open E l" using f l(2) unfolding fresh_handles_def by (metis fst_conv snd_conv)
    have b3: "behind3 (s0\<lparr>wrapper2 := c'\<rparr>) = behind3 s0" by (simp add: behind3_def fun_eq_iff)
    note oh = opened_handles [OF h l(1) v _ _ l(3)]
    have new: "handles_inv E ((wrapped s0)(camera2_next (wrapper2 s0) \<mapsto> v)) (camera2_log c')"
      by (rule oh(1)) (use l(2) unused_address [OF s0] in simp_all)
    have lost: "handles_inv E (wrapped s0) (camera2_log c')" if "\<exists>l x. \<not> camera_alloc_ok E l x"
      by (rule oh(2)) (use l(2) that in simp_all)
    have ok: "camera2_ok n c'" using op by (simp add: camera2_opened_def)
    show ?thesis
      using c'
    proof (elim disjE conjE)
      assume "behind c' = (behind (wrapper2 s0))(camera2_next (wrapper2 s0) \<mapsto> v)"
        "camera2_next c' = Suc (camera2_next (wrapper2 s0))"
      then show ?thesis
        using s0 new ok unused_address(2) [OF s0] by (auto simp: module_inv_behind b3 wrapped_def less_Suc_eq)
    next
      assume "behind c' = behind (wrapper2 s0)" "camera2_next c' = camera2_next (wrapper2 s0)"
        "\<exists>l x. \<not> camera_alloc_ok E l x"
      then show ?thesis using s0 lost ok by (simp add: module_inv_behind b3 wrapped_def)
    qed
  qed (use s0 in simp)
  then show ?thesis
    using s0 by (simp add: camera_open_legacy_def split_beta Let_def s0_def [symmetric] o)
qed

lemma device_open_inv:
  assumes s: "module_inv E n s" and f: "fresh_handles E"
  shows "module_inv E n (snd (snd (camera_device_open E name dev s)))"
proof -
  define s0 where "s0 = snd (check_vendor_module_m E s)"
  have s0: "module_inv E n s0"
    unfolding s0_def by (rule module_quiet_inv [OF s check_vendor_module3_quiet(2) [OF module_inv_ok [OF s], of _ "{}"]]) simp
  obtain rv dev' s' where o: "camera3_device_open E name dev s0 = (rv, dev', s')"
    by (cases "camera3_device_open E name dev s0")
  have "module_inv E n s'"
    using camera3_device_open_effect [OF module_inv_ok [OF s0] o]
  proof (elim disjE)
    assume "rv \<noteq> 0 \<and> (dev' = None \<or> dev' = dev) \<and> module_quiet E n {} s0 s'"
    then show ?thesis by (intro module_quiet_inv [OF s0, of "{}"]) simp_all
  next
    assume "\<exists>l nm v. log_quiet E {} (module_log s0) l \<and> open_vendor E l nm = (0, v) \<and>
       log_quiet E {} (OpenVendor nm # l) (module_log s') \<and> camera2_ok n (wrapper2 s') \<and>
       behind (wrapper2 s') = behind (wrapper2 s0) \<and>
       (rv = 0 \<and> dev' = Some (camera2_next (wrapper2 s0)) \<and>
          behind3 s' = (behind3 s0)(camera2_next (wrapper2 s0) \<mapsto> v) \<and>
          camera2_next (wrapper2 s') = Suc (camera2_next (wrapper2 s0))
        \<or> rv = - ENOMEM \<and> dev' = None \<and> behind3 s' = behind3 s0 \<and>
          camera2_next (wrapper2 s') = camera2_next (wrapper2 s0) \<and> (\<exists>l x. \<not> camera_alloc_ok E l x))"
    then obtain l x v where l: "log_quiet E {} (module_log s0) l" "open_vendor E l x = (0, v)"
      "log_quiet E {} (OpenVendor x # l) (module_log s')"
      and ok: "camera2_ok n (wrapper2 s')" "behind (wrapper2 s') = behind (wrapper2 s0)"
      and s': "behind3 s' = (behind3 s0)(camera2_next (wrapper2 s0) \<mapsto> v) \<and>
          camera2_next (wrapper2 s') = Suc (camera2_next (wrapper2 s0))
        \<or> behind3 s' = behind3 s0 \<and>
          camera2_next (wrapper2 s') = camera2_next (wrapper2 s0) \<and> (\<exists>l x. \<not> camera_alloc_ok E l x)"
      by blast
    have h: "handles_inv E (wrapped s0) (module_log s0)" using s0 by (simp add: module_inv_def)
    have v: "v \<notin> vendor_open E l" using f l(2) unfolding fresh_handles_def by (metis fst_conv snd_conv)
    note oh = opened_handles [OF h l(1) v _ _ l(3)]
    have new: "handles_inv E ((wrapped s0)(camera2_next (wrapper2 s0) \<mapsto> v)) (module_log s')"
      by (rule oh(1)) (use l(2) unused_address [OF s0] in simp_all)
    have lost: "handles_inv E (wrapped s0) (module_log s')" if "\<exists>l x. \<not> camera_alloc_ok E l x"
      by (rule oh(2)) (use l(2) that in simp_all)
    show ?thesis
      using s'
    proof (elim disjE conjE)
      assume b: "behind3 s' = (behind3 s0)(camera2_next (wrapper2 s0) \<mapsto> v)"
        "camera2_next (wrapper2 s') = Suc (camera2_next (wrapper2 s0))"
      have "behind3 s' ++ behind (wrapper2 s') = (wrapped s0)(camera2_next (wrapper2 s0) \<mapsto> v)"
        using unused_address(1) [OF s0]
        by (auto simp: b(1) ok(2) wrapped_def map_add_def fun_eq_iff split: option.split)
      then show ?thesis
        using b ok s0 new unused_address [OF s0] by (auto simp: module_inv_behind less_Suc_eq)
    next
      assume "behind3 s' = behind3 s0" "camera2_next (wrapper2 s') = camera2_next (wrapper2 s0)"
        "\<exists>l x. \<not> camera_alloc_ok E l x"
      then show ?thesis using ok s0 lost by (simp add: module_inv_behind wrapped_def)
    qed
  qed (use s0 in simp)
  then show ?thesis
    using s s0 by (simp add: camera_device_open_def split_beta Let_def s0_def [symmetric] o)
qed


text \<open>The calls of the module that open nothing.\<close>

lemma module_call_quiet:
  assumes "camera2_ok n (wrapper2 s)"
  shows "module_quiet E n {} s (snd (camera_get_number_of_cameras E s))"
    "module_quiet E n {} s (snd (snd (camera_get_camera_info E i info s)))"
    "module_quiet E n {} s (snd (camera_set_callbacks E cb s))"
    "module_quiet E n {} s (camera_get_vendor_tag_ops E ops s)"
    "module_quiet E n {} s (snd (camera_set_torch_mode E cid on s))"
proof -
  define s0 where "s0 = snd (check_vendor_module_m E s)"
  have q: "module_quiet E n {} s s0" unfolding s0_def by (rule check_vendor_module3_quiet(2) [OF assms])
  then have ok: "camera2_ok n (wrapper2 s0)" by (simp add: module_quiet_def camera2_quiet_def)
  have r: "module_quiet E n {} s (record_event e s0)" if "plain_event e" "event_device e = None" for e
    by (rule module_quiet_trans [OF q record_event_quiet]) (use that ok in simp_all)
  note defs = camera_get_number_of_cameras_def camera_get_camera_info_def camera_set_callbacks_def
    camera_get_vendor_tag_ops_def camera_set_torch_mode_def Let_def split_beta s0_def [symmetric]
  show "module_quiet E n {} s (snd (camera_get_number_of_cameras E s))"
    "module_quiet E n {} s (snd (snd (camera_get_camera_info E i info s)))"
    "module_quiet E n {} s (snd (camera_set_callbacks E cb s))"
    "module_quiet E n {} s (camera_get_vendor_tag_ops E ops s)"
    "module_quiet E n {} s (snd (camera_set_torch_mode E cid on s))"
    using q r by (simp_all add: defs)
qed

lemma camera2_close_inv:
  assumes s: "module_inv E n s" and a: "camera2_devices (wrapper2 s) a = Some d"
  shows "wp (camera2_device_close E (Some a) (wrapper2 s)) (\<lambda>(r, c'). module_inv E n (s\<lparr>wrapper2 := c'\<rparr>))"
proof -
  obtain c' l where c': "camera2_device_close E (Some a) (wrapper2 s) = Some (0, c')" "camera2_ok n c'"
    "behind c' = (behind (wrapper2 s))(a := None)" "camera2_next c' = camera2_next (wrapper2 s)"
    "log_quiet E {camera_vendor d} (module_log s) l" "camera2_log c' = CloseVendor (camera_vendor d) # l"
    using camera2_device_close_effect [OF module_inv_ok [OF s] a, of E] by (auto simp: wp_exists)
  have b: "behind (wrapper2 s) a = Some (camera_vendor d)" using a by (simp add: behind_def)
  have b3: "behind3 s a = None" using s a by (auto simp: module_inv_def behind3_def)
  have w: "wrapped s a = Some (camera_vendor d)" using b by (simp add: wrapped_def)
  have hl: "handles_inv E (wrapped s) l"
    using s w by (intro handles_quiet [OF _ log_quiet_mono [OF c'(5)]]) (auto simp: module_inv_def ran_def)
  then have h: "handles_inv E ((wrapped s)(a := None)) (camera2_log c')"
    unfolding c'(6) using hl handles_close [of E "wrapped s" l a] w by simp
  have "behind3 s ++ behind c' = (wrapped s)(a := None)"
    using b3 by (auto simp: c'(3) wrapped_def map_add_def fun_eq_iff)
  moreover have "behind3 (s\<lparr>wrapper2 := c'\<rparr>) = behind3 s" by (simp add: behind3_def fun_eq_iff)
  ultimately have "module_inv E n (s\<lparr>wrapper2 := c'\<rparr>)"
    using s c'(2-4) h by (simp add: module_inv_behind)
  then show ?thesis using c'(1) by simp
qed

lemma camera3_close_inv:
  assumes s: "module_inv E n s" and a: "camera3_devices s a = Some d"
  shows "wp (camera3_device_close (Some a) s) (\<lambda>(r, s'). module_inv E n s')"
proof -
  define s' where "s' = (record_event (CloseVendor (camera3_vendor d)) s)\<lparr>camera3_devices := (camera3_devices s)(a := None)\<rparr>"
  have run: "camera3_device_close (Some a) s = Some (0, s')" by (simp add: camera3_device_close_def a s'_def)
  have b: "behind (wrapper2 s) a = None" "behind3 s a = Some (camera3_vendor d)"
    using s a by (auto simp: module_inv_def behind_def behind3_def)
  then have w: "wrapped s a = Some (camera3_vendor d)" by (simp add: wrapped_def map_add_def)
  have "handles_inv E (wrapped s) (module_log s)" using s by (simp add: module_inv_def)
  then have h: "handles_inv E ((wrapped s)(a := None)) (module_log s')"
    using handles_close [of E "wrapped s" "module_log s" a] w by (simp add: s'_def)
  have b3: "behind3 s' = (behind3 s)(a := None)" by (simp add: s'_def behind3_def fun_eq_iff)
  have "behind3 s' ++ behind (wrapper2 s') = (wrapped s)(a := None)"
    using b(1) unfolding b3 by (auto simp: s'_def wrapped_def map_add_def fun_eq_iff split: option.split)
  then have "module_inv E n s'"
    using s h by (auto simp: module_inv_behind b3) (auto simp: s'_def)
  then show ?thesis using run by simp
qed

lemma camera_step_inv:
  assumes s: "module_inv E n s" and f: "fresh_handles E" and n: "camera_count E n" and c: "camera_allowed n s c"
  shows "wp (camera_step E V c s) (module_inv E n)"
proof -
  note ok = module_inv_ok [OF s]
  have quiet: "module_inv E n s'" if "module_quiet E n {} s s'" for s'
    by (rule module_quiet_inv [OF s that]) simp
  show ?thesis
  proof (cases c)
    case (OpenCamera name)
    then show ?thesis using device_open_inv [OF s f] by simp
  next
    case (OpenLegacyCamera name)
    then show ?thesis using open_legacy_inv [OF s f n, of name] c by simp
  next
    case (Call2 a r)
    then obtain d where d: "camera2_devices (wrapper2 s) a = Some d" using c by auto
    obtain c' where c': "camera2_op E V a r (wrapper2 s) = Some c'" "camera2_quiet E n {camera_vendor d} (wrapper2 s) c'"
      using camera2_op_quiet [OF ok d, of E V r] by (auto simp: wp_exists)
    have "module_inv E n (s\<lparr>wrapper2 := c'\<rparr>)"
      by (rule module_quiet_inv [OF s, of "{camera_vendor d}"])
        (use c'(2) d in \<open>auto simp: module_quiet_def wrapped_def behind_def ran_def map_add_def intro!: exI [of _ a]\<close>)
    then show ?thesis using c'(1) Call2 by (simp add: on_wrapper2_def)
  next
    case (Close2 a)
    then obtain d where "camera2_devices (wrapper2 s) a = Some d" using c by auto
    then obtain r c' where "camera2_device_close E (Some a) (wrapper2 s) = Some (r, c')" "module_inv E n (s\<lparr>wrapper2 := c'\<rparr>)"
      using camera2_close_inv [OF s, of a d] by (auto simp: wp_exists)
    then show ?thesis using Close2 by (simp add: on_wrapper2_def)
  next
    case (Call3 a r)
    then obtain d where d: "camera3_devices s a = Some d" "\<And>b. r \<noteq> RegisterStreamBuffers b" using c by auto
    have "behind (wrapper2 s) a = None" using s d(1) by (auto simp: module_inv_def behind_def)
    then have "{camera3_vendor d} \<subseteq> ran (wrapped s)"
      using d(1) by (auto simp: wrapped_def behind3_def ran_def map_add_def intro!: exI [of _ a])
    then show ?thesis
      using camera3_op_quiet [OF ok d, of E] module_quiet_inv [OF s, of "{camera3_vendor d}"] Call3
      by (auto elim!: wp_mono)
  next
    case (Close3 a)
    then obtain d where "camera3_devices s a = Some d" using c by auto
    then obtain r s' where "camera3_device_close (Some a) s = Some (r, s')" "module_inv E n s'"
      using camera3_close_inv [OF s, of a d] by (auto simp: wp_exists)
    then show ?thesis using Close3 by simp
  qed (simp_all add: quiet module_call_quiet [OF ok])
qed

lemma module_init_inv: "module_inv E n module_init"
  by (simp add: module_inv_behind module_init_def camera2_init_def camera2_ok_def behind_def behind3_def handles_inv_def
      map_add_def)

lemma camera_reachable_inv:
  assumes "camera_reachable E V n s" and "fresh_handles E" and "camera_count E n"
  shows "module_inv E n s"
  using assms
proof (induction rule: camera_reachable.induct)
  case camera_start
  show ?case by (rule module_init_inv)
next
  case (camera_called s c s')
  then show ?case using camera_step_inv [of E n s c V] by (simp add: wp_exists)
qed

end
