(* ===== verification/CameraModuleClaims.thy ===== *)
theory CameraModuleClaims
  imports CameraModuleInv Camera2Claims
begin

text \<open>
  The properties of the camera module: no call of a client faults, the vendor's devices are accounted for
  by the wrappers, and what the errors of opening leave behind.
\<close>

section \<open>A vendor for the witnesses\<close>

text \<open>Handles are the lengths of the history at the moment of opening.\<close>

definition demo_vendor :: "(string \<Rightarrow> bool) \<Rightarrow> camera_env" where
  "demo_vendor ok = demo_camera\<lparr>camera_alloc_ok := (\<lambda>l w. ok w), open_legacy := (\<lambda>l n. (0, length l)),
     open_vendor := (\<lambda>l n. (0, length l))\<rparr>"

lemma demo_vendor_below: "v \<in> vendor_open (demo_vendor ok) l \<Longrightarrow> v < length l"
proof (induction l)
  case (Cons e l)
  then show ?case by (cases e) (auto simp: demo_vendor_def)
qed simp

lemma demo_vendor_ok: "fresh_handles (demo_vendor ok)" "camera_count (demo_vendor ok) 2"
  using demo_vendor_below [of "length l" ok l for l]
  by (auto simp: fresh_handles_def camera_count_def demo_vendor_def demo_camera_def)

lemma demo_open:
  "camera_device_open (demo_vendor (\<lambda>w. True)) (Some ''0'') None module_init = (rv, dev, s) \<Longrightarrow>
    wrapped s = [1 \<mapsto> 4]"
  "camera_device_open (demo_vendor (\<lambda>w. w \<noteq> ''camera3_ops'')) (Some ''0'') None module_init = (rv, dev, s) \<Longrightarrow>
    rv = - ENOMEM"
  "camera_device_open (demo_vendor (\<lambda>w. w \<noteq> ''camera3_ops'')) (Some ''0'') None module_init = (rv, dev, s) \<Longrightarrow>
    CameraAlloc ''camera3_ops'' \<in> set (module_log s)"
proof -
  have a: "atoi ''0'' = 0" by code_simp
  note defs = camera_device_open_def check_vendor_module_m_def check_vendor_module3_def camera3_device_open_def
    demo_vendor_def demo_camera_def module_init_def camera2_init_def module_alloc_def camera_alloc_def record_event_def
    Let_def wrapped_def behind_def behind3_def
  show "camera_device_open (demo_vendor (\<lambda>w. True)) (Some ''0'') None module_init = (rv, dev, s) \<Longrightarrow>
      wrapped s = [1 \<mapsto> 4]"
    by (auto simp: defs a map_add_def fun_eq_iff)
  show "camera_device_open (demo_vendor (\<lambda>w. w \<noteq> ''camera3_ops'')) (Some ''0'') None module_init = (rv, dev, s) \<Longrightarrow>
      rv = - ENOMEM"
    by (simp add: defs a)
  show "camera_device_open (demo_vendor (\<lambda>w. w \<noteq> ''camera3_ops'')) (Some ''0'') None module_init = (rv, dev, s) \<Longrightarrow>
      CameraAlloc ''camera3_ops'' \<in> set (module_log s)"
    by (auto simp: defs a)
qed

section \<open>Properties\<close>

text \<open>
  C31. The camera module never faults: in every state that a client reaches, each call that it may make
  returns and leads to such a state.
\<close>

theorem camera_calls_return:
  assumes "fresh_handles E" and "camera_count E n" and "camera_reachable E V n s" and "camera_allowed n s c"
  shows "\<exists>s'. camera_step E V c s = Some s' \<and> camera_reachable E V n s'"
  using camera_step_inv [OF camera_reachable_inv [OF assms(3,1,2)] assms(1,2,4), of V]
    camera_reachable.camera_called [OF assms(3,4)]
  by (auto simp: wp_exists)

theorem camera_calls_return_witness:
  "\<exists>s'. camera_step (demo_vendor (\<lambda>w. True)) sorted_vector (OpenLegacyCamera (Some ''1'')) module_init = Some s' \<and>
    camera_reachable (demo_vendor (\<lambda>w. True)) sorted_vector 2 s'"
proof -
  have "atoi ''1'' = 1" by code_simp
  then show ?thesis
    by (intro camera_calls_return [OF demo_vendor_ok camera_reachable.camera_start]) simp
qed

text \<open>
  C30. The vendor's devices: in every reachable state each wrapper has a device of its own, which the vendor
  has open; no device was ever called or closed when it was not open; and when no allocation fails the
  devices that are open are exactly those of the wrappers.
\<close>

theorem camera_devices_accounted:
  assumes "fresh_handles E" and "camera_count E n" and "camera_reachable E V n s"
  shows "inj_on (wrapped s) (dom (wrapped s)) \<and> ran (wrapped s) \<subseteq> vendor_open E (module_log s) \<and>
    used_while_open E (module_log s) \<and>
    ((\<forall>l x. camera_alloc_ok E l x) \<longrightarrow> vendor_open E (module_log s) = ran (wrapped s))"
  using camera_reachable_inv [OF assms(3,1,2)] by (simp add: module_inv_def handles_inv_def)

theorem camera_devices_accounted_witness:
  "\<exists>s. camera_reachable (demo_vendor (\<lambda>w. True)) sorted_vector 2 s \<and> wrapped s = [1 \<mapsto> 4] \<and>
    vendor_open (demo_vendor (\<lambda>w. True)) (module_log s) = {4}"
proof -
  obtain rv dev s where s: "camera_device_open (demo_vendor (\<lambda>w. True)) (Some ''0'') None module_init = (rv, dev, s)"
    by (cases "camera_device_open (demo_vendor (\<lambda>w. True)) (Some ''0'') None module_init")
  have r: "camera_reachable (demo_vendor (\<lambda>w. True)) sorted_vector 2 s"
    by (rule camera_reachable.camera_called [OF camera_reachable.camera_start, of _ "OpenCamera (Some ''0'')"])
      (simp_all add: s)
  have "\<forall>l x. camera_alloc_ok (demo_vendor (\<lambda>w. True)) l x" by (simp add: demo_vendor_def)
  then show ?thesis
    using camera_devices_accounted [OF demo_vendor_ok r] r demo_open(1) [OF s] by (intro exI [of _ s]) simp
qed

text \<open>What opening does to the wrappers, and to the vendor's devices when it succeeds.\<close>

lemma open_camera_effect:
  assumes "fresh_handles E" and "camera_count E n" and "camera_reachable E V n s"
    and "camera_device_open E name None s = (rv, dev, s')"
  shows "if rv = 0
    then \<exists>a v. dev = Some a \<and> wrapped s a = None \<and> wrapped s' = (wrapped s)(a \<mapsto> v) \<and>
      v \<notin> vendor_open E (module_log s) \<and> vendor_open E (module_log s') = insert v (vendor_open E (module_log s))
    else dev = None \<and> wrapped s' = wrapped s \<and>
      (vendor_open E (module_log s') = vendor_open E (module_log s) \<or>
       rv = - ENOMEM \<and> (\<exists>v. v \<notin> vendor_open E (module_log s) \<and>
         vendor_open E (module_log s') = insert v (vendor_open E (module_log s))))"
proof -
  define s0 where "s0 = snd (check_vendor_module_m E s)"
  note inv = camera_reachable_inv [OF assms(3,1,2)]
  have q0: "module_quiet E n {} s s0"
    unfolding s0_def by (rule check_vendor_module3_quiet(2) [OF module_inv_ok [OF inv]])
  have inv0: "module_inv E n s0" by (rule module_quiet_inv [OF inv q0]) simp
  note w0 = module_quiet_wrapped [OF q0]
  have v0: "vendor_open E (module_log s0) = vendor_open E (module_log s)"
    using q0 by (simp add: module_quiet_def camera2_quiet_def log_quiet_def)
  show ?thesis
  proof (cases "name = None \<or> fst (check_vendor_module_m E s) \<noteq> 0")
    case True
    then have "rv = - EINVAL \<and> dev = None \<and> (s' = s \<or> s' = s0)"
      using assms(4) by (auto simp: camera_device_open_def s0_def split_beta split: if_splits)
    then show ?thesis using w0 v0 by auto
  next
    case False
    then have "camera3_device_open E name None s0 = (rv, dev, s')"
      using assms(4) by (auto simp: camera_device_open_def s0_def split_beta Let_def)
    from camera3_device_open_effect [OF module_inv_ok [OF inv0] this] False
    consider "rv \<noteq> 0" "dev = None" "module_quiet E n {} s0 s'"
      | l x v where "log_quiet E {} (module_log s0) l" "open_vendor E l x = (0, v)"
        "log_quiet E {} (OpenVendor x # l) (module_log s')" "behind (wrapper2 s') = behind (wrapper2 s0)"
        "rv = 0 \<and> dev = Some (camera2_next (wrapper2 s0)) \<and> behind3 s' = (behind3 s0)(camera2_next (wrapper2 s0) \<mapsto> v) \<or>
         rv = - ENOMEM \<and> dev = None \<and> behind3 s' = behind3 s0"
      by blast
    then show ?thesis
    proof cases
      case 1
      then show ?thesis
        using w0 v0 module_quiet_wrapped [OF 1(3)] by (simp add: module_quiet_def camera2_quiet_def log_quiet_def)
    next
      case 2
      have v: "v \<notin> vendor_open E l" using assms(1) 2(2) unfolding fresh_handles_def by (metis fst_conv snd_conv)
      have vo: "vendor_open E l = vendor_open E (module_log s)"
        "vendor_open E (module_log s') = insert v (vendor_open E (module_log s))"
        using 2(1-3) v0 by (simp_all add: log_quiet_def)
      show ?thesis
        using 2(5)
      proof (elim disjE conjE)
        assume new: "rv = 0" "dev = Some (camera2_next (wrapper2 s0))"
          "behind3 s' = (behind3 s0)(camera2_next (wrapper2 s0) \<mapsto> v)"
        have "wrapped s' = (wrapped s0)(camera2_next (wrapper2 s0) \<mapsto> v)"
          using unused_address(1) [OF inv0]
          by (auto simp: new(3) 2(4) wrapped_def map_add_def fun_eq_iff split: option.split)
        then show ?thesis using new(1,2) v vo unused_address(3) [OF inv0] w0 by (auto intro: exI [of _ v])
      next
        assume "rv = - ENOMEM" "dev = None" "behind3 s' = behind3 s0"
        then show ?thesis using v vo w0 2(4) by (auto simp: wrapped_def)
      qed
    qed
  qed
qed

text \<open>The calls of a failure to open, newest first, in front of those before.\<close>

lemma open_camera_failed:
  assumes "camera_device_open E name None s = (rv, dev, s')" and "rv \<noteq> 0"
  obtains (kept) k where "module_log s' = k @ module_log s" "CameraAlloc ''camera3_ops'' \<notin> set k"
    "vendor_open E (module_log s') = vendor_open E (module_log s)"
  | (lost) k x where "module_log s' = CameraAlloc ''camera3_ops'' # OpenVendor x # k @ module_log s"
    "fst (open_vendor E (k @ module_log s) x) = 0" "vendor_open E (k @ module_log s) = vendor_open E (module_log s)" "rv = - ENOMEM"
proof -
  define L where "L = module_log s"
  define h where "h = (if gVendorModuleM s then [] else [HwGetModule])"
  define h3 where "h3 = (if gVendorModule3 s then [] else [HwGetModule]) @ h"
  define k where "k = CameraAlloc ''camera3_device'' # GetNumberOfCameras # h3"
  have plain: "CameraAlloc ''camera3_ops'' \<notin> set k" "vendor_open E (k @ L) = vendor_open E L"
    "CameraAlloc ''camera3_ops'' \<notin> set h3" "vendor_open E (h3 @ L) = vendor_open E L"
    "CameraAlloc ''camera3_ops'' \<notin> set h" "vendor_open E (h @ L) = vendor_open E L"
    by (simp_all add: k_def h3_def h_def)
  consider "module_log s' = L" | "module_log s' = h @ L" | "module_log s' = h3 @ L" | "module_log s' = GetNumberOfCameras # h3 @ L"
    | "module_log s' = k @ L"
    | x where "module_log s' = OpenVendor x # k @ L" "fst (open_vendor E (k @ L) x) \<noteq> 0"
    | x where "module_log s' = CameraAlloc ''camera3_ops'' # OpenVendor x # k @ L" "fst (open_vendor E (k @ L) x) = 0" "rv = - ENOMEM"
  proof (cases "name = None \<or> fst (check_vendor_module_m E s) \<noteq> 0")
    case True
    then show ?thesis using that(1,2) assms(1)
      by (auto simp: camera_device_open_def check_vendor_module_m_def record_event_def h_def L_def Let_def split: if_splits)
  next
    case False
    define s0 where "s0 = snd (check_vendor_module_m E s)"
    have l0: "module_log s0 = h @ L" "gVendorModule3 s0 = gVendorModule3 s"
      by (simp_all add: s0_def check_vendor_module_m_def record_event_def h_def L_def Let_def)
    from False obtain nm where nm: "name = Some nm" by auto
    have "camera3_device_open E (Some nm) None s0 = (rv, dev, s')"
      using assms(1) False by (auto simp: camera_device_open_def s0_def split_beta Let_def nm)
    then show ?thesis using that(3-7) assms(2) l0
      by (auto simp: camera3_device_open_def check_vendor_module3_def module_alloc_def camera_alloc_def record_event_def
          h3_def k_def split_beta Let_def split: if_splits)
  qed
  then show ?thesis
  proof cases
    case (6 x)
    then show ?thesis using kept [of "OpenVendor x # k"] plain by (simp add: L_def [symmetric] split_beta)
  next
    case (7 x)
    then show ?thesis using lost [of x k] plain by (simp add: L_def [symmetric])
  qed (use kept [of "[]"] kept [of h] kept [of h3] kept [of "GetNumberOfCameras # h3"] kept [of k] plain in
      \<open>simp_all add: L_def [symmetric]\<close>)
qed

text \<open>
  C32. The errors of opening a camera of version 3: success gives a new wrapper around a device that the
  vendor has just opened.  A failure gives no device and leaves the wrappers as they were.  The vendor's
  devices stay as they were too when the failing call did not come to the allocation of the table of
  operations; when it did, the result is \<open>-ENOMEM\<close> and the device that the vendor has opened is lost: it
  stays open and has no wrapper.
\<close>

theorem open_camera_errors:
  assumes "fresh_handles E" and "camera_count E n" and "camera_reachable E V n s"
    and "camera_device_open E name None s = (rv, dev, s')"
  shows "if rv = 0
    then \<exists>a v. dev = Some a \<and> wrapped s a = None \<and> wrapped s' = (wrapped s)(a \<mapsto> v) \<and>
      v \<notin> vendor_open E (module_log s) \<and> vendor_open E (module_log s') = insert v (vendor_open E (module_log s))
    else dev = None \<and> wrapped s' = wrapped s \<and>
      (\<exists>calls. module_log s' = calls @ module_log s \<and>
        (if CameraAlloc ''camera3_ops'' \<in> set calls
         then rv = - ENOMEM \<and> (\<exists>v. v \<notin> vendor_open E (module_log s) \<and>
           vendor_open E (module_log s') = insert v (vendor_open E (module_log s)))
         else vendor_open E (module_log s') = vendor_open E (module_log s)))"
proof (cases "rv = 0")
  case True
  then show ?thesis using open_camera_effect [OF assms] by simp
next
  case False
  have "\<exists>calls. module_log s' = calls @ module_log s \<and>
      (if CameraAlloc ''camera3_ops'' \<in> set calls
       then rv = - ENOMEM \<and> (\<exists>v. v \<notin> vendor_open E (module_log s) \<and>
         vendor_open E (module_log s') = insert v (vendor_open E (module_log s)))
       else vendor_open E (module_log s') = vendor_open E (module_log s))"
    using assms(4) False
  proof (cases rule: open_camera_failed)
    case (kept k)
    then show ?thesis by auto
  next
    case (lost k x)
    define v where "v = snd (open_vendor E (k @ module_log s) x)"
    have o: "open_vendor E (k @ module_log s) x = (0, v)" using lost(2) by (simp add: v_def prod_eq_iff)
    then have "v \<notin> vendor_open E (module_log s)"
      using assms(1) lost(3) unfolding fresh_handles_def by (metis fst_conv snd_conv)
    then show ?thesis using lost o
      by (intro exI [of _ "CameraAlloc ''camera3_ops'' # OpenVendor x # k"]) auto
  qed
  then show ?thesis using False open_camera_effect [OF assms] by simp
qed

text \<open>The device that is lost when the table of operations cannot be allocated.\<close>

theorem open_camera_errors_witness:
  "\<exists>s v. camera_device_open (demo_vendor (\<lambda>w. w \<noteq> ''camera3_ops'')) (Some ''0'') None module_init = (- ENOMEM, None, s) \<and>
    wrapped s = wrapped module_init \<and>
    vendor_open (demo_vendor (\<lambda>w. w \<noteq> ''camera3_ops'')) (module_log s) = {v}"
proof -
  let ?E = "demo_vendor (\<lambda>w. w \<noteq> ''camera3_ops'')"
  obtain rv dev s where s: "camera_device_open ?E (Some ''0'') None module_init = (rv, dev, s)"
    by (cases "camera_device_open ?E (Some ''0'') None module_init")
  have init: "module_log module_init = []" by (simp add: module_init_def camera2_init_def)
  have "CameraAlloc ''camera3_ops'' \<in> set (module_log s)" using demo_open(3) [OF s] .
  then show ?thesis
    using open_camera_errors [OF demo_vendor_ok camera_reachable.camera_start [of _ sorted_vector] s] demo_open(2) [OF s] s
    by (auto simp: init)
qed

text \<open>
  C38. Without the vendor's module: opening a camera is an error, but the other entry points of the
  module report success, \<open>open_legacy\<close> without a device and \<open>get_camera_info\<close> without information, and
  nothing is asked of the vendor.
\<close>

theorem missing_vendor_module:
  assumes "\<And>l. hw_get_module_rc E l \<noteq> 0" and "\<not> gVendorModuleM s"
  shows "\<exists>s'. module_log s' = HwGetModule # module_log s \<and> wrapped s' = wrapped s \<and>
    camera_device_open E (Some name) dev s = (- EINVAL, dev, s') \<and>
    camera_open_legacy E (Some name) dev s = (0, dev, s') \<and>
    camera_get_camera_info E i info s = (0, info, s') \<and>
    camera_set_callbacks E cb s = (0, s') \<and>
    camera_set_torch_mode E name on s = (0, s') \<and>
    camera_get_number_of_cameras E s = (0, s')"
proof -
  define s' where "s' = snd (check_vendor_module_m E s)"
  have "check_vendor_module_m E s = (hw_get_module_rc E (module_log s), s')"
    using assms(2) by (simp add: check_vendor_module_m_def s'_def Let_def)
  moreover have "module_log s' = HwGetModule # module_log s"
    using assms(2) by (simp add: check_vendor_module_m_def s'_def Let_def)
  moreover have "behind3 s' = behind3 s" "behind (wrapper2 s') = behind (wrapper2 s)"
    using assms(2) by (simp_all add: check_vendor_module_m_def s'_def Let_def behind3_def fun_eq_iff)
  then have "wrapped s' = wrapped s" by (simp add: wrapped_def)
  ultimately show ?thesis
    using assms(1) by (intro exI [of _ s']) (simp add: camera_device_open_def camera_open_legacy_def
      camera_get_camera_info_def camera_set_callbacks_def camera_set_torch_mode_def camera_get_number_of_cameras_def)
qed

theorem missing_vendor_module_witness:
  "\<exists>s'. camera_open_legacy (demo_camera\<lparr>hw_get_module_rc := (\<lambda>l. - 2)\<rparr>) (Some ''0'') None module_init = (0, None, s')"
  using missing_vendor_module [of "demo_camera\<lparr>hw_get_module_rc := (\<lambda>l. - 2)\<rparr>" module_init "''0''" None]
  by (simp add: module_init_def) blast

end
