(* ===== verification/CameraNames.thy ===== *)
theory CameraNames
  imports CameraClaims
begin

text \<open>
  The names that \<open>camera/CameraParameters.cpp\<close> publishes: each constant of the class with its text, by
  the sections of the file.  A constant whose name starts with \<open>KEY_\<close> is a key, the others are values.
\<close>

section \<open>The constants\<close>

definition platform_keys :: "(string \<times> string) list" where
  "platform_keys =
   [(''KEY_PREVIEW_SIZE'', ''preview-size''), (''KEY_SUPPORTED_PREVIEW_SIZES'', ''preview-size-values''),
    (''KEY_PREVIEW_FORMAT'', ''preview-format''),
    (''KEY_SUPPORTED_PREVIEW_FORMATS'', ''preview-format-values''),
    (''KEY_PREVIEW_FRAME_RATE'', ''preview-frame-rate''),
    (''KEY_SUPPORTED_PREVIEW_FRAME_RATES'', ''preview-frame-rate-values''),
    (''KEY_PREVIEW_FPS_RANGE'', ''preview-fps-range''),
    (''KEY_SUPPORTED_PREVIEW_FPS_RANGE'', ''preview-fps-range-values''),
    (''KEY_PICTURE_SIZE'', ''picture-size''), (''KEY_SUPPORTED_PICTURE_SIZES'', ''picture-size-values''),
    (''KEY_PICTURE_FORMAT'', ''picture-format''),
    (''KEY_SUPPORTED_PICTURE_FORMATS'', ''picture-format-values''),
    (''KEY_JPEG_THUMBNAIL_WIDTH'', ''jpeg-thumbnail-width''),
    (''KEY_JPEG_THUMBNAIL_HEIGHT'', ''jpeg-thumbnail-height''),
    (''KEY_SUPPORTED_JPEG_THUMBNAIL_SIZES'', ''jpeg-thumbnail-size-values''),
    (''KEY_JPEG_THUMBNAIL_QUALITY'', ''jpeg-thumbnail-quality''), (''KEY_JPEG_QUALITY'', ''jpeg-quality''),
    (''KEY_ROTATION'', ''rotation''), (''KEY_GPS_LATITUDE'', ''gps-latitude''),
    (''KEY_GPS_LONGITUDE'', ''gps-longitude''), (''KEY_GPS_ALTITUDE'', ''gps-altitude''),
    (''KEY_GPS_TIMESTAMP'', ''gps-timestamp''), (''KEY_GPS_PROCESSING_METHOD'', ''gps-processing-method''),
    (''KEY_WHITE_BALANCE'', ''whitebalance''), (''KEY_SUPPORTED_WHITE_BALANCE'', ''whitebalance-values''),
    (''KEY_EFFECT'', ''effect''), (''KEY_SUPPORTED_EFFECTS'', ''effect-values''),
    (''KEY_ANTIBANDING'', ''antibanding''), (''KEY_SUPPORTED_ANTIBANDING'', ''antibanding-values''),
    (''KEY_SCENE_MODE'', ''scene-mode''), (''KEY_SUPPORTED_SCENE_MODES'', ''scene-mode-values''),
    (''KEY_FLASH_MODE'', ''flash-mode''), (''KEY_SUPPORTED_FLASH_MODES'', ''flash-mode-values''),
    (''KEY_FOCUS_MODE'', ''focus-mode''), (''KEY_SUPPORTED_FOCUS_MODES'', ''focus-mode-values''),
    (''KEY_MAX_NUM_FOCUS_AREAS'', ''max-num-focus-areas''), (''KEY_FOCUS_AREAS'', ''focus-areas''),
    (''KEY_FOCAL_LENGTH'', ''focal-length''), (''KEY_HORIZONTAL_VIEW_ANGLE'', ''horizontal-view-angle''),
    (''KEY_VERTICAL_VIEW_ANGLE'', ''vertical-view-angle''),
    (''KEY_EXPOSURE_COMPENSATION'', ''exposure-compensation''),
    (''KEY_MAX_EXPOSURE_COMPENSATION'', ''max-exposure-compensation''),
    (''KEY_MIN_EXPOSURE_COMPENSATION'', ''min-exposure-compensation''),
    (''KEY_EXPOSURE_COMPENSATION_STEP'', ''exposure-compensation-step''),
    (''KEY_AUTO_EXPOSURE_LOCK'', ''auto-exposure-lock''),
    (''KEY_AUTO_EXPOSURE_LOCK_SUPPORTED'', ''auto-exposure-lock-supported''),
    (''KEY_AUTO_WHITEBALANCE_LOCK'', ''auto-whitebalance-lock''),
    (''KEY_AUTO_WHITEBALANCE_LOCK_SUPPORTED'', ''auto-whitebalance-lock-supported''),
    (''KEY_MAX_NUM_METERING_AREAS'', ''max-num-metering-areas''),
    (''KEY_METERING_AREAS'', ''metering-areas''), (''KEY_ZOOM'', ''zoom''), (''KEY_MAX_ZOOM'', ''max-zoom''),
    (''KEY_ZOOM_RATIOS'', ''zoom-ratios''), (''KEY_ZOOM_SUPPORTED'', ''zoom-supported''),
    (''KEY_SMOOTH_ZOOM_SUPPORTED'', ''smooth-zoom-supported''),
    (''KEY_FOCUS_DISTANCES'', ''focus-distances''), (''KEY_VIDEO_FRAME_FORMAT'', ''video-frame-format''),
    (''KEY_VIDEO_SIZE'', ''video-size''), (''KEY_SUPPORTED_VIDEO_SIZES'', ''video-size-values''),
    (''KEY_PREFERRED_PREVIEW_SIZE_FOR_VIDEO'', ''preferred-preview-size-for-video''),
    (''KEY_MAX_NUM_DETECTED_FACES_HW'', ''max-num-detected-faces-hw''),
    (''KEY_MAX_NUM_DETECTED_FACES_SW'', ''max-num-detected-faces-sw''),
    (''KEY_RECORDING_HINT'', ''recording-hint''),
    (''KEY_VIDEO_SNAPSHOT_SUPPORTED'', ''video-snapshot-supported''),
    (''KEY_VIDEO_STABILIZATION'', ''video-stabilization''),
    (''KEY_VIDEO_STABILIZATION_SUPPORTED'', ''video-stabilization-supported''),
    (''KEY_LIGHTFX'', ''light-fx'')]"

definition boolean_texts :: "(string \<times> string) list" where
  "boolean_texts =
   [(''TRUE'', ''true''), (''FALSE'', ''false''), (''FOCUS_DISTANCE_INFINITY'', ''Infinity'')]"

definition white_balance_values :: "(string \<times> string) list" where
  "white_balance_values =
   [(''WHITE_BALANCE_AUTO'', ''auto''), (''WHITE_BALANCE_INCANDESCENT'', ''incandescent''),
    (''WHITE_BALANCE_FLUORESCENT'', ''fluorescent''),
    (''WHITE_BALANCE_WARM_FLUORESCENT'', ''warm-fluorescent''), (''WHITE_BALANCE_DAYLIGHT'', ''daylight''),
    (''WHITE_BALANCE_CLOUDY_DAYLIGHT'', ''cloudy-daylight''), (''WHITE_BALANCE_TWILIGHT'', ''twilight''),
    (''WHITE_BALANCE_SHADE'', ''shade'')]"

definition effect_values :: "(string \<times> string) list" where
  "effect_values =
   [(''EFFECT_NONE'', ''none''), (''EFFECT_MONO'', ''mono''), (''EFFECT_NEGATIVE'', ''negative''),
    (''EFFECT_SOLARIZE'', ''solarize''), (''EFFECT_SEPIA'', ''sepia''), (''EFFECT_POSTERIZE'', ''posterize''),
    (''EFFECT_WHITEBOARD'', ''whiteboard''), (''EFFECT_BLACKBOARD'', ''blackboard''),
    (''EFFECT_AQUA'', ''aqua''), (''EFFECT_ANTIQUE'', ''antique''), (''EFFECT_POINT_BLUE'', ''point-blue''),
    (''EFFECT_POINT_RED'', ''point-red''), (''EFFECT_POINT_YELLOW'', ''point-yellow''),
    (''EFFECT_WARM'', ''warm''), (''EFFECT_COLD'', ''cold''), (''EFFECT_WASHED'', ''washed'')]"

definition antibanding_values :: "(string \<times> string) list" where
  "antibanding_values =
   [(''ANTIBANDING_AUTO'', ''auto''), (''ANTIBANDING_50HZ'', ''50hz''), (''ANTIBANDING_60HZ'', ''60hz''),
    (''ANTIBANDING_OFF'', ''off'')]"

definition flash_mode_values :: "(string \<times> string) list" where
  "flash_mode_values =
   [(''FLASH_MODE_OFF'', ''off''), (''FLASH_MODE_AUTO'', ''auto''), (''FLASH_MODE_ON'', ''on''),
    (''FLASH_MODE_RED_EYE'', ''red-eye''), (''FLASH_MODE_TORCH'', ''torch''),
    (''FLASH_MODE_FILLIN'', ''fillin''), (''FLASH_MODE_SLOW_SYNC'', ''slow''),
    (''FLASH_MODE_RED_EYE_FIX'', ''red-eye-fix''), (''FLASH_VALUE_OF_ISP'', ''flash-value-of-isp''),
    (''FLASH_STANDBY_ON'', ''on''), (''FLASH_STANDBY_OFF'', ''off'')]"

definition scene_mode_values :: "(string \<times> string) list" where
  "scene_mode_values =
   [(''SCENE_MODE_AUTO'', ''auto''), (''SCENE_MODE_ACTION'', ''action''),
    (''SCENE_MODE_PORTRAIT'', ''portrait''), (''SCENE_MODE_LANDSCAPE'', ''landscape''),
    (''SCENE_MODE_NIGHT'', ''night''), (''SCENE_MODE_NIGHT_PORTRAIT'', ''night-portrait''),
    (''SCENE_MODE_THEATRE'', ''theatre''), (''SCENE_MODE_BEACH'', ''beach''), (''SCENE_MODE_SNOW'', ''snow''),
    (''SCENE_MODE_SUNSET'', ''sunset''), (''SCENE_MODE_STEADYPHOTO'', ''steadyphoto''),
    (''SCENE_MODE_FIREWORKS'', ''fireworks''), (''SCENE_MODE_SPORTS'', ''sports''),
    (''SCENE_MODE_PARTY'', ''party''), (''SCENE_MODE_CANDLELIGHT'', ''candlelight''),
    (''SCENE_MODE_BARCODE'', ''barcode''), (''SCENE_MODE_HDR'', ''hdr''),
    (''SCENE_MODE_BEACH_SNOW'', ''beach-snow''), (''SCENE_MODE_DUSK_DAWN'', ''dusk-dawn''),
    (''SCENE_MODE_FALL_COLOR'', ''fall-color''), (''SCENE_MODE_BACK_LIGHT'', ''back-light'')]"

definition pixel_formats :: "(string \<times> string) list" where
  "pixel_formats =
   [(''PIXEL_FORMAT_YUV422SP'', ''yuv422sp''), (''PIXEL_FORMAT_YUV420SP'', ''yuv420sp''),
    (''PIXEL_FORMAT_YUV422I'', ''yuv422i-yuyv''), (''PIXEL_FORMAT_YUV420P'', ''yuv420p''),
    (''PIXEL_FORMAT_RGB565'', ''rgb565''), (''PIXEL_FORMAT_RGBA8888'', ''rgba8888''),
    (''PIXEL_FORMAT_JPEG'', ''jpeg''), (''PIXEL_FORMAT_BAYER_RGGB'', ''bayer-rggb''),
    (''PIXEL_FORMAT_ANDROID_OPAQUE'', ''android-opaque''), (''PIXEL_FORMAT_YUV420SP_NV21'', ''nv21'')]"

definition focus_mode_values :: "(string \<times> string) list" where
  "focus_mode_values =
   [(''FOCUS_MODE_AUTO'', ''auto''), (''FOCUS_MODE_INFINITY'', ''infinity''),
    (''FOCUS_MODE_MACRO'', ''macro''), (''FOCUS_MODE_FIXED'', ''fixed''), (''FOCUS_MODE_EDOF'', ''edof''),
    (''FOCUS_MODE_CONTINUOUS_VIDEO'', ''continuous-video''),
    (''FOCUS_MODE_CONTINUOUS_PICTURE'', ''continuous-picture''), (''FOCUS_MODE_MULTI'', ''multi''),
    (''FOCUS_MODE_TOUCH'', ''touch''), (''FOCUS_MODE_OBJECT_TRACKING'', ''object-tracking''),
    (''FOCUS_MODE_FACE_DETECTION'', ''face-detection''), (''FOCUS_MODE_SMART_SELF'', ''self''),
    (''FOCUS_MODE_MANUAL'', ''manual''), (''FOCUS_MODE_FIXED_FACE'', ''fixed-face'')]"

definition light_fx_values :: "(string \<times> string) list" where
  "light_fx_values =
   [(''LIGHTFX_LOWLIGHT'', ''low-light''), (''LIGHTFX_HDR'', ''high-dynamic-range'')]"

definition samsung_settings :: "(string \<times> string) list" where
  "samsung_settings =
   [(''KEY_SUPPORTED_EFFECT_PREVIEW_FPS_RANGE'', ''effect-available-fps-values''),
    (''KEY_CONTRAST'', ''contrast''), (''KEY_SHARPNESS'', ''sharpness''),
    (''KEY_SATURATION'', ''saturation''), (''KEY_MIN_SATURATION'', ''saturation-min''),
    (''KEY_MAX_SATURATION'', ''saturation-max''), (''KEY_SHUTTER_SPEED'', ''shutter-speed''),
    (''KEY_APERTURE'', ''aperture''), (''KEY_AUTO_VALUE'', ''auto-value''), (''KEY_RAW_SAVE'', ''raw-save''),
    (''KEY_CAPTURE_BURST_FILEPATH'', ''capture-burst-filepath''),
    (''KEY_CURRENT_ADDRESS'', ''current-address''), (''KEY_WEATHER'', ''contextualtag-weather''),
    (''KEY_CITYID'', ''contextualtag-cityid''), (''SMART_SCENE_DETECT_OFF'', ''off''),
    (''SMART_SCENE_DETECT_ON'', ''on''), (''KEY_WHITE_BALANCE_K'', ''wb-k''),
    (''WHITE_BALANCE_K'', ''temperature''), (''KEY_EXPOSURE_TIME'', ''exposure-time''),
    (''KEY_MAX_EXPOSURE_TIME'', ''max-exposure-time''), (''KEY_MIN_EXPOSURE_TIME'', ''min-exposure-time''),
    (''KEY_FOCUS_RANGE'', ''focus-range''), (''FOCUS_RANGE_AUTO'', ''auto''),
    (''FOCUS_RANGE_MACRO'', ''macro''), (''FOCUS_RANGE_AUTO_MACRO'', ''auto-macro''),
    (''KEY_FOCUS_AREA_MODE'', ''focus-area-mode''), (''FOCUS_AREA_CENTER'', ''center''),
    (''FOCUS_AREA_MULTI'', ''multi''), (''FOCUS_AREA_SMART_TOUCH'', ''smart-touch''),
    (''KEY_CONTINUOUS_MODE'', ''continuous-mode''), (''CONTINUOUS_OFF'', ''off''),
    (''CONTINUOUS_ON'', ''on''), (''KEY_ISO'', ''iso''), (''ISO_AUTO'', ''auto''), (''ISO_50'', ''50''),
    (''ISO_80'', ''80''), (''ISO_100'', ''100''), (''ISO_200'', ''200''), (''ISO_400'', ''400''),
    (''ISO_800'', ''800''), (''ISO_1600'', ''1600''), (''ISO_3200'', ''3200''), (''ISO_6400'', ''6400''),
    (''ISO_SPORTS'', ''sports''), (''ISO_NIGHT'', ''night''),
    (''KEY_DYNAMIC_RANGE_CONTROL'', ''dynamic-range-control''),
    (''KEY_SUPPORTED_DYNAMIC_RANGE_CONTROL'', ''dynamic-range-control-values''), (''DRC_OFF'', ''off''),
    (''DRC_ON'', ''on''), (''KEY_RT_HDR'', ''rt-hdr''), (''KEY_SUPPORTED_RT_HDR'', ''rt-hdr-values''),
    (''RTHDR_OFF'', ''off''), (''RTHDR_ON'', ''on''), (''RTHDR_AUTO'', ''auto''),
    (''KEY_PHASE_AF'', ''phase-af''), (''KEY_SUPPORTED_PHASE_AF'', ''phase-af-values''),
    (''PAF_OFF'', ''off''), (''PAF_ON'', ''on''), (''KEY_OIS'', ''ois''),
    (''KEY_OIS_SUPPORTED'', ''ois-supported''), (''KEY_SUPPORTED_OIS_MODES'', ''ois-mode-values''),
    (''OIS_OFF'', ''off''), (''OIS_ON_STILL'', ''still''), (''OIS_ON_VIDEO'', ''video''),
    (''OIS_ON_ZOOM'', ''zoom''), (''OIS_ON_SINE_X'', ''sine_x''), (''OIS_ON_SINE_Y'', ''sine_y''),
    (''OIS_CENTERING'', ''center''), (''OIS_ON_VDIS'', ''vdis''), (''KEY_FACEDETECT'', ''face-detection''),
    (''FACEDETECT_MODE_OFF'', ''off''), (''FACEDETECT_MODE_NORMAL'', ''normal''),
    (''FACEDETECT_MODE_SMILESHOT'', ''smilshot''), (''FACEDETECT_MODE_BLINK'', ''blink''),
    (''KEY_METERING'', ''metering''), (''METERING_OFF'', ''off''), (''METERING_CENTER'', ''center''),
    (''METERING_MATRIX'', ''matrix''), (''METERING_SPOT'', ''spot''), (''KEY_BRACKET_AEB'', ''aeb-value''),
    (''KEY_BRACKET_WBB'', ''wbb-value''), (''BRACKET_MODE_OFF'', ''off''), (''BRACKET_MODE_AEB'', ''aeb''),
    (''BRACKET_MODE_WBB'', ''wbb''), (''KEY_IMAGE_STABILIZER'', ''image-stabilizer''),
    (''IMAGE_STABILIZER_OFF'', ''off''), (''IMAGE_STABILIZER_OIS'', ''ois''),
    (''IMAGE_STABILIZER_DUALIS'', ''dual-is'')]"

definition published_names :: "(string \<times> string) list" where
  "published_names = platform_keys @ boolean_texts @ white_balance_values @ effect_values @ antibanding_values @
     flash_mode_values @ scene_mode_values @ pixel_formats @ focus_mode_values @ light_fx_values @ samsung_settings"

lemmas published_defs = published_names_def platform_keys_def boolean_texts_def white_balance_values_def effect_values_def
  antibanding_values_def flash_mode_values_def scene_mode_values_def pixel_formats_def focus_mode_values_def
  light_fx_values_def samsung_settings_def

definition published_keys :: "string list" where
  "published_keys = map snd (filter (\<lambda>(n, t). take 4 n = ''KEY_'') published_names)"

definition published_values :: "string list" where
  "published_values = map snd (filter (\<lambda>(n, t). take 4 n \<noteq> ''KEY_'') published_names)"

section \<open>What they are good for\<close>

text \<open>No text has a separator of the text form or of lists of values in it, and no two keys are the same.\<close>

lemma published_clean: "\<forall>(n, t) \<in> set published_names. clean t \<and> CHR '','' \<notin> set t \<and> t \<noteq> []"
  by code_simp

lemma published_keys_distinct: "distinct published_keys"
  by code_simp

text \<open>
  C33. Every published setting survives: whatever was done to the parameters before, after a published value
  is set under a published key and the parameters are written as text and read back, the value is found
  under the key, and every other key has what it had.
\<close>

theorem published_settings_survive:
  assumes "keyed_vector V" and "m = fold (apply_op show_g V) xs (kv_empty V)"
    and "k \<in> set published_keys" and "v \<in> set published_values"
  shows "get V k' (unflatten V (flatten V (set_param V (Some k) (Some v) m))) = (if k' = k then Some v else get V k' m)"
proof -
  have "clean k" "clean v" "v \<noteq> []"
    using assms(3,4) published_clean by (auto simp: published_keys_def published_values_def)
  then have "get V k' (set_param V (Some k) (Some v) m) = (if k' = k then Some v else get V k' m)"
    by (simp add: keyed_vector.get_set [OF assms(1)])
  moreover have "carried (kv_items V m)"
    unfolding assms(2) by (rule history_carried [OF assms(1)]) (simp add: keyed_vector.empty_items [OF assms(1)])
  then have "kv_items V (unflatten V (flatten V (set_param V (Some k) (Some v) m))) = kv_items V (set_param V (Some k) (Some v) m)"
    by (intro keyed_vector.unflatten_flatten [OF assms(1)] keyed_vector.set_carried [OF assms(1)])
  ultimately show ?thesis by (simp add: get_def keyed_vector.value_items [OF assms(1)])
qed

theorem published_settings_survive_witness:
  "get sorted_vector ''scene-mode'' (unflatten sorted_vector (flatten sorted_vector
     (set_param sorted_vector (Some ''scene-mode'') (Some ''night'') items_empty))) = Some ''night''"
proof -
  have "''scene-mode'' \<in> set published_keys" "''night'' \<in> set published_values"
    by code_simp+
  then show ?thesis
    using published_settings_survive [OF sv.keyed_vector_axioms, of _ "\<lambda>x :: unit. []" "[]" "''scene-mode''" "''night''" "''scene-mode''"]
    by (simp add: sorted_vector_def)
qed

end
