(* ===== verification/Shims.thy ===== *)
theory Shims
  imports CString
begin

text \<open>
  The libraries of \<open>shims/\<close>, which stand in for symbols that prebuilt libraries expect: the comparison of
  strings of the video decoder, the authentication token, the reading of sensor events and the mapper of
  graphic buffers.  \<open>None\<close> is a fault or a call that does not end.
\<close>

section \<open>Exynos OMX: a comparison that hides an extension\<close>

fun strcmp :: "string \<Rightarrow> string \<Rightarrow> int" where
  "strcmp [] [] = 0"
| "strcmp [] (d # ds) = - int (of_char d)"
| "strcmp (c # cs) [] = int (of_char c)"
| "strcmp (c # cs) (d # ds) = (if c = d then strcmp cs ds else int (of_char c) - int (of_char d))"

text \<open>
  \<open>__builtin_return_address(0)\<close> may be null, \<open>dladdr\<close> (a parameter) may fail, and the name it finds may be
  null: passing that to \<open>strcmp\<close> is a fault.
\<close>

definition Exynos_OSAL_Strcmp ::
  "nat option \<Rightarrow> (nat \<Rightarrow> string option option) \<Rightarrow> string \<Rightarrow> string \<Rightarrow> int option" where
  "Exynos_OSAL_Strcmp ptr dladdr s1 s2 =
     (case ptr of
        None \<Rightarrow> Some (strcmp s1 s2)
      | Some p \<Rightarrow>
          (case dladdr p of
             None \<Rightarrow> Some (strcmp s1 s2)
           | Some dli_sname \<Rightarrow>
               (case dli_sname of
                  None \<Rightarrow> None
                | Some sname \<Rightarrow>
                    if strcmp sname ''Exynos_OMX_VideoDecodeGetExtensionIndex'' \<noteq> 0 then Some (strcmp s1 s2)
                    else if strcmp s1 ''OMX.google.android.index.storeMetaDataInBuffers'' = 0 then Some (- 1)
                    else Some (strcmp s1 s2))))"

section \<open>bauthtzcommon: a token that is never passed on\<close>

definition BAuth_Hat_OP :: "int \<Rightarrow> int \<Rightarrow> int \<Rightarrow> int \<Rightarrow> int \<Rightarrow> int \<Rightarrow> int" where
  "BAuth_Hat_OP arg0 arg1 arg2 arg3 arg4 arg5 = 0"

section \<open>libsensor: reading events\<close>

text \<open>
  The class that \<open>libsensor.h\<close> declares has one function \<open>read\<close>, with \<open>unsigned long\<close> as its second
  parameter; so the call with a \<open>size_t\<close>, converted, is a call of the same function.
\<close>

partial_function (option) SensorEventQueue_read :: "nat \<Rightarrow> 'w::len word \<Rightarrow> int option" where
  "SensorEventQueue_read events numEvents = SensorEventQueue_read events (ucast numEvents)"

section \<open>libui: the mapper of graphic buffers\<close>

record rect =
  rect_left :: int
  rect_top :: int
  rect_width :: int
  rect_height :: int

datatype gralloc_call =
    RegisterBuffer nat
  | UnregisterBuffer nat
  | LockBuffer nat int int int int int
  | LockYCbCr nat int int int int int
  | UnlockBuffer nat

text \<open>The module behind the mapper: which of its five functions are set, and what they answer.\<close>

record gralloc_module =
  has_registerBuffer :: bool
  has_unregisterBuffer :: bool
  has_lock :: bool
  has_lock_ycbcr :: bool
  has_unlock :: bool
  gralloc_rc :: "gralloc_call list \<Rightarrow> gralloc_call \<Rightarrow> int"
  gralloc_vaddr :: "gralloc_call list \<Rightarrow> gralloc_call \<Rightarrow> nat"

record graphic_buffer_mapper =
  mModule :: "gralloc_module option"
  gralloc_log :: "gralloc_call list"

text \<open>The constructor, with the result of \<open>hw_get_module\<close> and the module it finds.\<close>

definition GraphicBufferMapper_init :: "int \<Rightarrow> gralloc_module \<Rightarrow> graphic_buffer_mapper" where
  "GraphicBufferMapper_init err module = \<lparr>mModule = (if err = 0 then Some module else None), gralloc_log = []\<rparr>"

definition gralloc_step ::
  "gralloc_module \<Rightarrow> gralloc_call \<Rightarrow> graphic_buffer_mapper \<Rightarrow> int \<times> graphic_buffer_mapper" where
  "gralloc_step m c s = (gralloc_rc m (gralloc_log s) c, s\<lparr>gralloc_log := c # gralloc_log s\<rparr>)"

text \<open>The result, what \<open>*outHandle\<close> holds afterwards (\<open>out\<close> before), and the state.\<close>

definition importBuffer ::
  "nat \<Rightarrow> nat option \<Rightarrow> graphic_buffer_mapper \<Rightarrow> (int \<times> nat option \<times> graphic_buffer_mapper) option" where
  "importBuffer handle out s =
     do {
       m \<leftarrow> mModule s;
       if \<not> has_registerBuffer m then Some (- EINVAL, out, s)
       else let (err, s) = gralloc_step m (RegisterBuffer handle) s in Some (err, Some handle, s)
     }"

definition freeBuffer :: "nat \<Rightarrow> graphic_buffer_mapper \<Rightarrow> (int \<times> graphic_buffer_mapper) option" where
  "freeBuffer handle s =
     do {
       m \<leftarrow> mModule s;
       if \<not> has_unregisterBuffer m then Some (- EINVAL, s) else Some (gralloc_step m (UnregisterBuffer handle) s)
     }"

text \<open>\<open>usage\<close> is cast to a signed number; the module writes \<open>*vaddr\<close>.\<close>

definition mapper_lock ::
  "nat \<Rightarrow> 32 word \<Rightarrow> rect \<Rightarrow> graphic_buffer_mapper \<Rightarrow> (int \<times> nat option \<times> graphic_buffer_mapper) option" where
  "mapper_lock handle usage bounds s =
     do {
       m \<leftarrow> mModule s;
       if \<not> has_lock m then Some (- EINVAL, None, s)
       else
         let c = LockBuffer handle (sint usage) (rect_left bounds) (rect_top bounds) (rect_width bounds) (rect_height bounds);
             vaddr = gralloc_vaddr m (gralloc_log s) c;
             (err, s) = gralloc_step m c s
         in Some (err, Some vaddr, s)
     }"

definition lockYCbCr ::
  "nat \<Rightarrow> 32 word \<Rightarrow> rect \<Rightarrow> graphic_buffer_mapper \<Rightarrow> (int \<times> nat option \<times> graphic_buffer_mapper) option" where
  "lockYCbCr handle usage bounds s =
     do {
       m \<leftarrow> mModule s;
       if \<not> has_lock_ycbcr m then Some (- EINVAL, None, s)
       else
         let c = LockYCbCr handle (sint usage) (rect_left bounds) (rect_top bounds) (rect_width bounds) (rect_height bounds);
             ycbcr = gralloc_vaddr m (gralloc_log s) c;
             (err, s) = gralloc_step m c s
         in Some (err, Some ycbcr, s)
     }"

definition mapper_unlock :: "nat \<Rightarrow> graphic_buffer_mapper \<Rightarrow> (int \<times> graphic_buffer_mapper) option" where
  "mapper_unlock handle s =
     do {
       m \<leftarrow> mModule s;
       if \<not> has_unlock m then Some (- EINVAL, s) else Some (gralloc_step m (UnlockBuffer handle) s)
     }"

section \<open>What the shims do\<close>

text \<open>A string of C has no zero character in it.\<close>

definition c_str :: "string \<Rightarrow> bool" where
  "c_str s \<longleftrightarrow> CHR 0x00 \<notin> set s"

lemma of_char_zero: "of_char c = (0 :: nat) \<longleftrightarrow> c = CHR 0x00"
proof -
  have "of_char CHR 0x00 = (0 :: nat)" by simp
  then show ?thesis by (metis of_char_eq_iff)
qed

lemma strcmp_eq: "c_str s \<Longrightarrow> c_str t \<Longrightarrow> strcmp s t = 0 \<longleftrightarrow> s = t"
  by (induction s t rule: strcmp.induct) (auto simp: c_str_def of_char_zero)

lemma strcmp_antisym: "strcmp t s = - strcmp s t"
  by (induction s t rule: strcmp.induct) auto

text \<open>
  The string comparison of the shim: it faults when the name of the calling function is not known, tells
  the decoder's query for extensions that the extension for metadata in buffers is none it asks about,
  and otherwise finds two strings equal exactly when they are.
\<close>

lemma exynos_strcmp_answers:
  assumes "c_str s1" and "c_str s2" and "\<And>p name. dladdr p = Some (Some name) \<Longrightarrow> c_str name"
  shows "Exynos_OSAL_Strcmp ptr dladdr s1 s2 = None \<longleftrightarrow> (\<exists>p. ptr = Some p \<and> dladdr p = Some None)"
    "Exynos_OSAL_Strcmp ptr dladdr s1 s2 = Some 0 \<longleftrightarrow> s1 = s2 \<and> \<not> (\<exists>p. ptr = Some p \<and> dladdr p = Some None) \<and>
      \<not> (s1 = ''OMX.google.android.index.storeMetaDataInBuffers'' \<and>
        (\<exists>p. ptr = Some p \<and> dladdr p = Some (Some ''Exynos_OMX_VideoDecodeGetExtensionIndex'')))"
proof -
  have lit: "c_str ''Exynos_OMX_VideoDecodeGetExtensionIndex''" "c_str ''OMX.google.android.index.storeMetaDataInBuffers''"
    by (simp_all add: c_str_def)
  show "Exynos_OSAL_Strcmp ptr dladdr s1 s2 = None \<longleftrightarrow> (\<exists>p. ptr = Some p \<and> dladdr p = Some None)"
    by (auto simp: Exynos_OSAL_Strcmp_def split: option.split)
  show "Exynos_OSAL_Strcmp ptr dladdr s1 s2 = Some 0 \<longleftrightarrow> s1 = s2 \<and> \<not> (\<exists>p. ptr = Some p \<and> dladdr p = Some None) \<and>
      \<not> (s1 = ''OMX.google.android.index.storeMetaDataInBuffers'' \<and>
        (\<exists>p. ptr = Some p \<and> dladdr p = Some (Some ''Exynos_OMX_VideoDecodeGetExtensionIndex'')))"
    using assms by (auto simp: Exynos_OSAL_Strcmp_def strcmp_eq lit split: option.split)
qed

text \<open>
  The reading of sensor events never returns: the function calls itself with the same arguments.
\<close>

lemma sensor_read_never_returns: "SensorEventQueue_read events (n :: 'w::len word) = None"
proof -
  have "False" if "SensorEventQueue_read events n = Some r" for r
    by (rule SensorEventQueue_read.raw_induct [OF _ that, of "\<lambda>_ _ _. False"]) blast
  then show ?thesis by (cases "SensorEventQueue_read events n") auto
qed

text \<open>
  The mapper forwards a call with its arguments and hands back the module's answer; where the module has
  no function it is an error that calls nothing, and without a module every call is a fault.
\<close>

lemma mapper_forwards:
  assumes "mModule s = Some m"
  shows "importBuffer handle out s =
      Some (if has_registerBuffer m
        then (gralloc_rc m (gralloc_log s) (RegisterBuffer handle), Some handle, s\<lparr>gralloc_log := RegisterBuffer handle # gralloc_log s\<rparr>)
        else (- EINVAL, out, s))"
    "freeBuffer handle s =
      Some (if has_unregisterBuffer m
        then (gralloc_rc m (gralloc_log s) (UnregisterBuffer handle), s\<lparr>gralloc_log := UnregisterBuffer handle # gralloc_log s\<rparr>)
        else (- EINVAL, s))"
    "mapper_unlock handle s =
      Some (if has_unlock m
        then (gralloc_rc m (gralloc_log s) (UnlockBuffer handle), s\<lparr>gralloc_log := UnlockBuffer handle # gralloc_log s\<rparr>)
        else (- EINVAL, s))"
  using assms by (simp_all add: importBuffer_def freeBuffer_def mapper_unlock_def gralloc_step_def)

end
