(* ===== verification/Gralloc.thy ===== *)
theory Gralloc
  imports Prelude
begin

text \<open>
  \<open>include/hardware/gralloc.h\<close>: the bits that say how a graphics buffer is used, the label under which
  its memory is accounted, and the opening and closing of the allocator.
\<close>

section \<open>Usage bits\<close>

text \<open>The bits that the code of the header tests.\<close>

definition GRALLOC_USAGE_SW_READ_MASK :: u32 where "GRALLOC_USAGE_SW_READ_MASK = 0x0000000F"
definition GRALLOC_USAGE_SW_WRITE_MASK :: u32 where "GRALLOC_USAGE_SW_WRITE_MASK = 0x000000F0"
definition GRALLOC_USAGE_HW_TEXTURE :: u32 where "GRALLOC_USAGE_HW_TEXTURE = 0x00000100"
definition GRALLOC_USAGE_HW_RENDER :: u32 where "GRALLOC_USAGE_HW_RENDER = 0x00000200"
definition GRALLOC_USAGE_EXTERNAL_DISP :: u32 where "GRALLOC_USAGE_EXTERNAL_DISP = 0x00002000"
definition GRALLOC_USAGE_HW_VIDEO_ENCODER :: u32 where "GRALLOC_USAGE_HW_VIDEO_ENCODER = 0x00010000"
definition GRALLOC_USAGE_HW_CAMERA_WRITE :: u32 where "GRALLOC_USAGE_HW_CAMERA_WRITE = 0x00020000"
definition GRALLOC_USAGE_HW_CAMERA_READ :: u32 where "GRALLOC_USAGE_HW_CAMERA_READ = 0x00040000"
definition GRALLOC_USAGE_FOREIGN_BUFFERS :: u32 where "GRALLOC_USAGE_FOREIGN_BUFFERS = 0x00200000"
definition GRALLOC_USAGE_ALLOC_MASK :: u32 where "GRALLOC_USAGE_ALLOC_MASK = NOT GRALLOC_USAGE_FOREIGN_BUFFERS"

lemmas gralloc_bits =
  GRALLOC_USAGE_SW_READ_MASK_def
  GRALLOC_USAGE_SW_WRITE_MASK_def
  GRALLOC_USAGE_HW_TEXTURE_def
  GRALLOC_USAGE_HW_RENDER_def
  GRALLOC_USAGE_EXTERNAL_DISP_def
  GRALLOC_USAGE_HW_VIDEO_ENCODER_def
  GRALLOC_USAGE_HW_CAMERA_WRITE_def
  GRALLOC_USAGE_HW_CAMERA_READ_def
  GRALLOC_USAGE_FOREIGN_BUFFERS_def
  GRALLOC_USAGE_ALLOC_MASK_def

text \<open>The enumeration, without the entries for other devices (\<open>USES_VR_FRONT_BUFFER\<close>, \<open>EXYNOS4_ENHANCEMENTS\<close>).\<close>

definition gralloc_usage :: "(string \<times> u32) list" where
  "gralloc_usage =
    [(''GRALLOC_USAGE_SW_READ_NEVER'', 0x00000000),
     (''GRALLOC_USAGE_SW_READ_RARELY'', 0x00000002),
     (''GRALLOC_USAGE_SW_READ_OFTEN'', 0x00000003),
     (''GRALLOC_USAGE_SW_READ_MASK'', GRALLOC_USAGE_SW_READ_MASK),
     (''GRALLOC_USAGE_SW_WRITE_NEVER'', 0x00000000),
     (''GRALLOC_USAGE_SW_WRITE_RARELY'', 0x00000020),
     (''GRALLOC_USAGE_SW_WRITE_OFTEN'', 0x00000030),
     (''GRALLOC_USAGE_SW_WRITE_MASK'', GRALLOC_USAGE_SW_WRITE_MASK),
     (''GRALLOC_USAGE_HW_TEXTURE'', GRALLOC_USAGE_HW_TEXTURE),
     (''GRALLOC_USAGE_HW_RENDER'', GRALLOC_USAGE_HW_RENDER),
     (''GRALLOC_USAGE_HW_2D'', 0x00000400),
     (''GRALLOC_USAGE_HW_COMPOSER'', 0x00000800),
     (''GRALLOC_USAGE_HW_FB'', 0x00001000),
     (''GRALLOC_USAGE_EXTERNAL_DISP'', GRALLOC_USAGE_EXTERNAL_DISP),
     (''GRALLOC_USAGE_PROTECTED'', 0x00004000),
     (''GRALLOC_USAGE_CURSOR'', 0x00008000),
     (''GRALLOC_USAGE_HW_VIDEO_ENCODER'', GRALLOC_USAGE_HW_VIDEO_ENCODER),
     (''GRALLOC_USAGE_HW_CAMERA_WRITE'', GRALLOC_USAGE_HW_CAMERA_WRITE),
     (''GRALLOC_USAGE_HW_CAMERA_READ'', GRALLOC_USAGE_HW_CAMERA_READ),
     (''GRALLOC_USAGE_HW_CAMERA_ZSL'', 0x00060000),
     (''GRALLOC_USAGE_HW_CAMERA_MASK'', 0x00060000),
     (''GRALLOC_USAGE_HW_MASK'', 0x00079F00),
     (''GRALLOC_USAGE_RENDERSCRIPT'', 0x00100000),
     (''GRALLOC_USAGE_FOREIGN_BUFFERS'', GRALLOC_USAGE_FOREIGN_BUFFERS),
     (''GRALLOC_USAGE_ALLOC_MASK'', GRALLOC_USAGE_ALLOC_MASK),
     (''GRALLOC_USAGE_PRIVATE_0'', 0x10000000),
     (''GRALLOC_USAGE_PRIVATE_1'', 0x20000000),
     (''GRALLOC_USAGE_PRIVATE_2'', 0x40000000),
     (''GRALLOC_USAGE_PRIVATE_3'', 0x80000000),
     (''GRALLOC_USAGE_PRIVATE_MASK'', 0xF0000000),
     (''GRALLOC_USAGE_INTERNAL_ONLY'', 0x10000000),
     (''GRALLOC_USAGE_EXTERNAL_FLEXIBLE'', 0x20000000),
     (''GRALLOC_USAGE_EXTERNAL_BLOCK'', 0x40000000),
     (''GRALLOC_USAGE_EXTERNAL_ONLY'', 0x80000000),
     (''GRALLOC_USAGE_EXTERNAL_VIRTUALFB'', 0x00400000),
     (''GRALLOC_USAGE_PROTECTED_DPB'', 0x00800000),
     (''GRALLOC_USAGE_PHYSICALLY_LINEAR'', 0x01000000),
     (''GRALLOC_USAGE_PRIVATE_NONSECURE'', 0x02000000),
     (''GRALLOC_USAGE_CAMERA_RESERVED'', 0x04000000),
     (''GRALLOC_USAGE_NOZEROED'', 0x08000000),
     (''GRALLOC_USAGE_VIDEO_EXT'', 0x10000000),
     (''GRALLOC_USAGE_GPU_BUFFER'', 0x00800000)]"

text \<open>The names of the usage bits are distinct, and each read, write and camera value lies in its mask.\<close>

definition usage_value :: "string \<Rightarrow> u32" where
  "usage_value name = the (map_of gralloc_usage name)"

lemma gralloc_names_distinct: "distinct (map fst gralloc_usage)"
  by code_simp

lemma gralloc_values_in_masks:
  "list_all (\<lambda>(v, m). usage_value v AND NOT (usage_value m) = 0)
    [(''GRALLOC_USAGE_SW_READ_RARELY'', ''GRALLOC_USAGE_SW_READ_MASK''),
     (''GRALLOC_USAGE_SW_READ_OFTEN'', ''GRALLOC_USAGE_SW_READ_MASK''),
     (''GRALLOC_USAGE_SW_WRITE_RARELY'', ''GRALLOC_USAGE_SW_WRITE_MASK''),
     (''GRALLOC_USAGE_SW_WRITE_OFTEN'', ''GRALLOC_USAGE_SW_WRITE_MASK''),
     (''GRALLOC_USAGE_HW_CAMERA_WRITE'', ''GRALLOC_USAGE_HW_CAMERA_MASK''),
     (''GRALLOC_USAGE_HW_CAMERA_READ'', ''GRALLOC_USAGE_HW_CAMERA_MASK''),
     (''GRALLOC_USAGE_HW_CAMERA_ZSL'', ''GRALLOC_USAGE_HW_CAMERA_MASK''),
     (''GRALLOC_USAGE_PRIVATE_3'', ''GRALLOC_USAGE_PRIVATE_MASK'')]"
  by code_simp

text \<open>Two bits of the device have two meanings.\<close>

lemma gralloc_values_shared:
  "usage_value ''GRALLOC_USAGE_PROTECTED_DPB'' = usage_value ''GRALLOC_USAGE_GPU_BUFFER''"
  "usage_value ''GRALLOC_USAGE_INTERNAL_ONLY'' = usage_value ''GRALLOC_USAGE_VIDEO_EXT''"
  by code_simp+

section \<open>The label of a buffer\<close>

definition map_usage_to_memtrack :: "u32 \<Rightarrow> string" where
  "map_usage_to_memtrack usage =
     (let usage = usage AND GRALLOC_USAGE_ALLOC_MASK in
      if has_bits usage GRALLOC_USAGE_HW_CAMERA_WRITE then ''camera''
      else if has_bits usage GRALLOC_USAGE_HW_VIDEO_ENCODER \<or> has_bits usage GRALLOC_USAGE_EXTERNAL_DISP then ''video''
      else if has_bits usage GRALLOC_USAGE_HW_RENDER \<or> has_bits usage GRALLOC_USAGE_HW_TEXTURE then ''gl''
      else if has_bits usage GRALLOC_USAGE_HW_CAMERA_READ then ''camera''
      else if has_bits usage GRALLOC_USAGE_SW_READ_MASK \<or> has_bits usage GRALLOC_USAGE_SW_WRITE_MASK then ''cpu''
      else ''graphics'')"

text \<open>
  The label depends on ten bits and two nibbles only: bits outside them, the foreign-buffer bit and the
  private bits among them, do not change it.
\<close>

definition memtrack_bits :: u32 where
  "memtrack_bits = GRALLOC_USAGE_HW_CAMERA_WRITE OR GRALLOC_USAGE_HW_VIDEO_ENCODER OR GRALLOC_USAGE_EXTERNAL_DISP OR
     GRALLOC_USAGE_HW_RENDER OR GRALLOC_USAGE_HW_TEXTURE OR GRALLOC_USAGE_HW_CAMERA_READ OR
     GRALLOC_USAGE_SW_READ_MASK OR GRALLOC_USAGE_SW_WRITE_MASK"

lemma memtrack_ignores:
  assumes "usage AND memtrack_bits = usage' AND memtrack_bits"
  shows "map_usage_to_memtrack usage = map_usage_to_memtrack usage'"
proof -
  have same: "(usage AND GRALLOC_USAGE_ALLOC_MASK) AND b = (usage' AND GRALLOC_USAGE_ALLOC_MASK) AND b"
    if "memtrack_bits AND b = b" "GRALLOC_USAGE_ALLOC_MASK AND b = b" for b
  proof -
    have "(u AND GRALLOC_USAGE_ALLOC_MASK) AND b = (u AND memtrack_bits) AND b" for u
      using that by (simp add: and.assoc)
    then show ?thesis using assms by simp
  qed
  note bits = same [of GRALLOC_USAGE_HW_CAMERA_WRITE] same [of GRALLOC_USAGE_HW_VIDEO_ENCODER]
    same [of GRALLOC_USAGE_EXTERNAL_DISP] same [of GRALLOC_USAGE_HW_RENDER] same [of GRALLOC_USAGE_HW_TEXTURE]
    same [of GRALLOC_USAGE_HW_CAMERA_READ] same [of GRALLOC_USAGE_SW_READ_MASK] same [of GRALLOC_USAGE_SW_WRITE_MASK]
  have "memtrack_bits AND b = b \<and> GRALLOC_USAGE_ALLOC_MASK AND b = b"
    if "b \<in> {GRALLOC_USAGE_HW_CAMERA_WRITE, GRALLOC_USAGE_HW_VIDEO_ENCODER, GRALLOC_USAGE_EXTERNAL_DISP,
      GRALLOC_USAGE_HW_RENDER, GRALLOC_USAGE_HW_TEXTURE, GRALLOC_USAGE_HW_CAMERA_READ, GRALLOC_USAGE_SW_READ_MASK,
      GRALLOC_USAGE_SW_WRITE_MASK}" for b
    using that by (auto simp: memtrack_bits_def gralloc_bits)
  then show ?thesis unfolding map_usage_to_memtrack_def Let_def by (simp only: bits insert_iff simp_thms)
qed

section \<open>The allocator\<close>

text \<open>What \<open>methods->open\<close> of the module does with the name of the device, and \<open>common.close\<close> of a device.\<close>

record 's alloc_module =
  module_open :: "string \<Rightarrow> 's \<Rightarrow> int \<times> nat option \<times> 's"
  device_close :: "nat \<Rightarrow> 's \<Rightarrow> int \<times> 's"

definition GRALLOC_HARDWARE_GPU0 :: string where "GRALLOC_HARDWARE_GPU0 = ''gpu0''"

definition gralloc_open :: "'s alloc_module \<Rightarrow> 's \<Rightarrow> int \<times> nat option \<times> 's" where
  "gralloc_open m s = module_open m GRALLOC_HARDWARE_GPU0 s"

definition gralloc_close :: "'s alloc_module \<Rightarrow> nat \<Rightarrow> 's \<Rightarrow> int \<times> 's" where
  "gralloc_close m device s = device_close m device s"

end
