(* ===== verification/InitProps.thy ===== *)
theory InitProps
  imports Prelude
begin

text \<open>
  \<open>libinit/init_sec.cpp\<close>: the system properties that init sets for the variant of the device that
  the bootloader names.  The property area of the C library is the argument \<open>E\<close>: whether a property
  exists and what it holds may depend on everything written before, which is the log, newest first.
\<close>

section \<open>Properties\<close>

datatype prop_op = PropUpdate string string | PropAdd string string

record prop_env =
  find_prop :: "prop_op list \<Rightarrow> string \<Rightarrow> bool"
  get_prop :: "prop_op list \<Rightarrow> string \<Rightarrow> string \<Rightarrow> string"

definition property_override :: "prop_env \<Rightarrow> string \<Rightarrow> string \<Rightarrow> prop_op list \<Rightarrow> prop_op list" where
  "property_override E prop val l = (if find_prop E l prop then PropUpdate prop val # l else PropAdd prop val # l)"

definition property_override_dual ::
  "prop_env \<Rightarrow> string \<Rightarrow> string \<Rightarrow> string \<Rightarrow> prop_op list \<Rightarrow> prop_op list" where
  "property_override_dual E system_prop vendor_prop val l =
     property_override E vendor_prop val (property_override E system_prop val l)"

definition is_dual_sim_device :: "prop_env \<Rightarrow> prop_op list \<Rightarrow> prop_op list" where
  "is_dual_sim_device E l =
     (let l = property_override E ''ro.multisim.simslotcount'' ''2'' l;
          l = property_override E ''persist.radio.multisim.config'' ''dsds'' l;
          l = property_override E ''rild.libpath2'' ''/vendor/lib/libsec-ril-dsds.so'' l
      in property_override E ''ro.telephony.ril.config'' ''simactivation'' l)"

text \<open>A list of settings, in the order of the code.\<close>

definition override_all :: "prop_env \<Rightarrow> (string \<times> string) list \<Rightarrow> prop_op list \<Rightarrow> prop_op list" where
  "override_all E ps l = fold (\<lambda>(p, v). property_override E p v) ps l"

definition cdma_settings :: "(string \<times> string) list" where
  "cdma_settings =
     [(''persist.radio.snapshot_enabled'', ''1''), (''persist.radio.snapshot_timer'', ''22''),
      (''persist.eons.enabled'', ''false''), (''persist.rmnet.mux'', ''enabled''),
      (''persist.cne.feature'', ''0''), (''persist.radio.lte_vrte_ltd'', ''1''),
      (''persist.security.ams.enforcing'', ''1''), (''ro.telephony.default_cdma_sub'', ''1''),
      (''ril.subscription.types'', ''NV,RUIM''), (''telephony.lteOnGsmDevice'', ''0''),
      (''telephony.lteOnCdmaDevice'', ''1''), (''persist.gps.qc_nlp_in_use'', ''1''),
      (''persist.loc.nlp_name'', ''com.qualcomm.location''), (''ro.gps.agps_provider'', ''1''),
      (''ro.config.combined_signal'', ''true''), (''ro.config.multimode_cdma'', ''1''),
      (''persist.radio.use_se_table_only'', ''1''), (''ro.telephony.default_network'', ''10'')]"

definition gsm_settings :: "(string \<times> string) list" where
  "gsm_settings =
     [(''ro.telephony.default_network'', ''9''), (''telephony.lteOnGsmDevice'', ''1''),
      (''telephony.lteOnCdmaDevice'', ''0'')]"

definition is_cdma_device :: "prop_env \<Rightarrow> bool \<Rightarrow> prop_op list \<Rightarrow> prop_op list" where
  "is_cdma_device E cellular_type l = override_all E (if cellular_type then cdma_settings else gsm_settings) l"

definition uses_edge_power_profile :: "prop_env \<Rightarrow> bool \<Rightarrow> prop_op list \<Rightarrow> prop_op list" where
  "uses_edge_power_profile E status l =
     (if get_prop E l ''uses.s7e_battery'' [] = ''true'' then
        property_override E ''ro.power_profile.override'' ''power_profile_s6e'' l
      else if status then property_override E ''ro.power_profile.override'' ''power_profile_s7e_bat'' l
      else l)"

section \<open>The variants\<close>

text \<open>One branch of \<open>vendor_load_properties\<close>: the text it looks for and what it sets.\<close>

record build =
  bd_id :: string
  bd_fingerprint :: string
  bd_bootimage :: string
  bd_description :: string
  bd_model :: string
  bd_device :: string
  bd_name :: string
  bd_audience :: string
  bd_rild :: string
  bd_edge :: bool
  bd_dual :: bool
  bd_cdma :: bool

definition variant ::
  "string \<Rightarrow> string \<Rightarrow> string \<Rightarrow> string \<Rightarrow> string \<Rightarrow> string \<Rightarrow> string \<Rightarrow> string \<Rightarrow> string \<Rightarrow> bool \<Rightarrow> bool \<Rightarrow> bool \<Rightarrow> build" where
  "variant i f b d m dv n a r e du c =
     \<lparr>bd_id = i, bd_fingerprint = f, bd_bootimage = b, bd_description = d, bd_model = m, bd_device = dv,
      bd_name = n, bd_audience = a, bd_rild = r, bd_edge = e, bd_dual = du, bd_cdma = c\<rparr>"

text \<open>
  The branches in the order of the code.  After the text the bootloader must contain come the
  fingerprint, the fingerprint of the boot image, the description, then model, device, name,
  audience and RIL library, then edge profile, dual SIM and CDMA.
\<close>

definition builds_G920 :: "build list" where
  "builds_G920 =
    [
     variant ''G920FD''
       ''samsung/zerofltexx/zeroflte:7.0/NRD90M/G920FXXU5EQL5:user/release-keys''
       ''samsung/zerofltexx/zeroflte:7.0/NRD90M/G920FXXU5EQL5:user/test-keys''
       ''zerofltexx-user 7.0 NRD90M G920FXXS5EQG2 release-keys''
       ''SM-G920F'' ''zeroflte'' ''zerofltexx'' ''false''
       ''/vendor/lib64/libsec-ril.so'' False True False,
     variant ''G920F''
       ''samsung/zerofltexx/zeroflte:7.0/NRD90M/G920FXXU5EQL5:user/release-keys''
       ''samsung/zerofltexx/zeroflte:7.0/NRD90M/G920FXXU5EQL5:user/test-keys''
       ''zerofltexx-user 7.0 NRD90M G920FXXS5EQG2 release-keys''
       ''SM-G920F'' ''zeroflte'' ''zerofltexx'' ''false''
       ''/vendor/lib64/libsec-ril.so'' False False False,
     variant ''G920S''
       ''samsung/zeroflteskt/zeroflteskt:7.0/NRD90M/G920SKSU3EQL1:user/release-keys''
       ''samsung/zeroflteskt/zeroflteskt:7.0/NRD90M/G920SKSU3EQL1:user/test-keys''
       ''zeroflteskt-user 7.0 NRD90M G920SKSU3EQL1 release-keys''
       ''SM-G920S'' ''zeroflteskt'' ''zeroflteskt'' ''false''
       ''/vendor/lib64/libsec-ril.so'' False False False,
     variant ''G920K''
       ''samsung/zerofltektt/zerofltektt:7.0/NRD90M/G920KKKU3EQL1:user/release-keys''
       ''samsung/zerofltektt/zerofltektt:7.0/NRD90M/G920KKKU3EQL1:user/test-keys''
       ''zerofltektt-user 7.0 NRD90M G920KKKU3EQL1 release-keys''
       ''SM-G920K'' ''zerofltektt'' ''zerofltektt'' ''false''
       ''/vendor/lib64/libsec-ril.so'' False False False,
     variant ''G920L''
       ''samsung/zerofltelgt/zerofltelgt:7.0/NRD90M/G920LKLU3EQL1:user/release-keys''
       ''samsung/zerofltelgt/zerofltelgt:7.0/NRD90M/G920LKLU3EQL1:user/test-keys''
       ''zerofltelgt-user 7.0 NRD90M G920LKLU3EQL1 release-keys''
       ''SM-G920L'' ''zerofltelgt'' ''zerofltelgt'' ''false''
       ''/vendor/lib64/libsec-ril.so'' False False False,
     variant ''G920P''
       ''samsung/zerofltespr/zerofltespr:7.0/NRD90M/G920PVPS4DQK1:user/release-keys''
       ''samsung/zerofltespr/zerofltespr:7.0/NRD90M/G920PVPS4DQK1:user/test-keys''
       ''zerofltespr-user 7.0 NRD90M G920PVPS4DQK1 release-keys''
       ''SM-G920P'' ''zerofltespr'' ''zerofltespr'' ''true''
       ''/vendor/lib64/libsec-ril-spr.so'' False False True,
     variant ''G920I''
       ''samsung/zerofltedv/zeroflte:7.0/NRD90M/G920IDVS3FQL3:user/release-keys''
       ''samsung/zerofltedv/zeroflte:7.0/NRD90M/G920IDVS3FQL3:user/test-keys''
       ''zerofltedv-user 7.0 NRD90M G920IDVS3FQL3 release-keys''
       ''SM-G920I'' ''zeroflte'' ''zerofltedv'' ''false''
       ''/vendor/lib64/libsec-ril-india.so'' False False False,
     variant ''G9200''
       ''samsung/zerofltezc/zerofltechn:7.0/NRD90M/G9200ZCS2ERC1:user/release-keys''
       ''samsung/zerofltezc/zerofltechn:7.0/NRD90M/G9200ZCS2ERC1:user/test-keys''
       ''zerofltezc-user 7.0 NRD90M G9200ZCS2ERC1 release-keys''
       ''SM-G9200'' ''zerofltechn'' ''zerofltezc'' ''true''
       ''/vendor/lib64/libsec-ril-spr.so'' False True True,
     variant ''G9208''
       ''samsung/zerofltezm/zerofltechn:7.0/NRD90M/G9208ZMU2EQK2:user/release-keys''
       ''samsung/zerofltezm/zerofltechn:7.0/NRD90M/G9208ZMU2EQK2:user/test-keys''
       ''zerofltezc-user 7.0 NRD90M G9200ZCS2ERC1 release-keys''
       ''SM-G9208'' ''zerofltechn'' ''zerofltezm'' ''true''
       ''/vendor/lib64/libsec-ril-spr.so'' False True True,
     variant ''G9209''
       ''samsung/zerofltectc/zerofltectc:7.0/NRD90M/G9209KES2ERD1:user/release-keys''
       ''samsung/zerofltectc/zerofltectc:7.0/NRD90M/G9209KES2ERD1:user/test-keys''
       ''zerofltectc-user 7.0 NRD90M G9209KES2ERD1 release-keys''
       ''SM-G9209'' ''zerofltectc'' ''zerofltectc'' ''true''
       ''/vendor/lib64/libsec-ril-spr.so'' False True True]"

definition builds_G920_us :: "build list" where
  "builds_G920_us =
    [
     variant ''G920R4''
       ''samsung/zeroflteusc/zeroflteusc:7.0/NRD90M/G920R4TYS4DQK2:user/release-keys''
       ''samsung/zeroflteusc/zeroflteusc:7.0/NRD90M/G920R4TYS4DQK2:user/test-keys''
       ''zeroflteusc-user 7.0 NRD90M G920R4TYS4DQK2 release-keys''
       ''SM-G920R4'' ''zeroflteusc'' ''zeroflteusc'' ''true''
       ''/vendor/lib64/libsec-ril-spr.so'' False True True,
     variant ''G920R7''
       ''samsung/zeroflteacg/zeroflteacg:7.0/NRD90M/G920R7WWS3DQL1:user/release-keys''
       ''samsung/zeroflteacg/zeroflteacg:7.0/NRD90M/G920R7WWS3DQL1:user/test-keys''
       ''zeroflteacg-user 7.0 NRD90M G920R7WWS3DQL1 release-keys''
       ''SM-G920R7'' ''zeroflteacg'' ''zeroflteacg'' ''true''
       ''/vendor/lib64/libsec-ril-spr.so'' False True True,
     variant ''G920W8''
       ''samsung/zerofltebmc/zerofltebmc:7.0/NRD90M/G920W8VLS5DQK1:user/release-keys''
       ''samsung/zerofltebmc/zerofltebmc:7.0/NRD90M/G920W8VLS5DQK1:user/test-keys''
       ''zerofltebmc-user 7.0 NRD90M G920W8VLS5DQK1 release-keys''
       ''SM-G920W8'' ''zerofltebmc'' ''zerofltebmc'' ''true''
       ''/vendor/lib64/libsec-ril-canada.so'' False False False,
     variant ''G920T''
       ''samsung/zerofltetmo/zerofltetmo:7.0/NRD90M/G920TUVU5FQK1:user/release-keys''
       ''samsung/zerofltetmo/zerofltetmo:7.0/NRD90M/G920TUVU5FQK1:user/test-keys''
       ''zerofltetmo-user 7.0 NRD90M G920TUVU5FQK1 release-keys''
       ''SM-G920T'' ''zerofltetmo'' ''zerofltetmo'' ''true''
       ''/vendor/lib64/libsec-ril-tmobile.so'' False False False]"

definition builds_G925 :: "build list" where
  "builds_G925 =
    [
     variant ''G925F''
       ''samsung/zeroltexx/zerolte:7.0/NRD90M/G925FXXU5EQL5:user/release-keys''
       ''samsung/zeroltexx/zerolte:7.0/NRD90M/G925FXXU5EQL5:user/test-keys''
       ''zeroltexx-user 7.0 NRD90M G925FXXU5EQL5 release-keys''
       ''SM-G925F'' ''zeroltexx'' ''zerolte'' ''false''
       ''/vendor/lib64/libsec-ril.so'' True False False,
     variant ''G925S''
       ''samsung/zerolteskt/zerolteskt:7.0/NRD90M/G925SKSU3EQL1:user/release-keys''
       ''samsung/zerolteskt/zerolteskt:7.0/NRD90M/G925SKSU3EQL1:user/test-keys''
       ''zerolteskt-user 7.0 NRD90M G925SKSU3EQL1 release-keys''
       ''SM-G925S'' ''zerolteskt'' ''zerolteskt'' ''false''
       ''/vendor/lib64/libsec-ril.so'' True False False,
     variant ''G925K''
       ''samsung/zeroltektt/zeroltektt:7.0/NRD90M/G925KKKU3EQL1:user/release-keys''
       ''samsung/zeroltektt/zeroltektt:7.0/NRD90M/G925KKKU3EQL1:user/test-keys''
       ''zeroltektt-user 7.0 NRD90M G925KKKU3EQL1 release-keys''
       ''SM-G925K'' ''zeroltektt'' ''zeroltektt'' ''false''
       ''/vendor/lib64/libsec-ril.so'' True False False,
     variant ''G925L''
       ''samsung/zeroltelgt/zeroltelgt:7.0/NRD90M/G925LKLU3EQL1:user/release-keys''
       ''samsung/zeroltelgt/zeroltelgt:7.0/NRD90M/G925LKLU3EQL1:user/test-keys''
       ''zeroltelgt-user 7.0 NRD90M G925LKLU3EQL1 release-keys''
       ''SM-G925L'' ''zeroltelgt'' ''zeroltelgt'' ''false''
       ''/vendor/lib64/libsec-ril.so'' True False False,
     variant ''G925P''
       ''samsung/zeroltespr/zeroltespr:7.0/NRD90M/G925PVPS4DQL2:user/release-keys''
       ''samsung/zeroltespr/zeroltespr:7.0/NRD90M/G925PVPS4DQL2:user/test-keys''
       ''zeroltespr-user 7.0 NRD90M G925PVPS4DQL2 release-keys''
       ''SM-G920P'' ''zeroltespr'' ''zeroltespr'' ''true''
       ''/vendor/lib64/libsec-ril-spr.so'' True False True,
     variant ''G925I''
       ''samsung/zeroltedv/zerolte:7.0/NRD90M/G925IDVU3FQL4:user/release-keys''
       ''samsung/zeroltedv/zerolte:7.0/NRD90M/G925IDVU3FQL4:user/test-keys''
       ''zeroltedv-user 7.0 NRD90M G925IDVU3FQL4 release-keys''
       ''SM-G925I'' ''zerolte'' ''zeroltedv'' ''false''
       ''/vendor/lib64/libsec-ril-india.so'' True False False,
     variant ''G9250''
       ''samsung/zeroltezc/zeroltechn:7.0/NRD90M/G9250ZCS2ERC2:user/release-keys''
       ''samsung/zeroltezc/zeroltechn:7.0/NRD90M/G9250ZCS2ERC2:user/test-keys''
       ''zeroltezc-user 7.0 NRD90M G9250ZCS2ERC2 release-keys''
       ''SM-G9250'' ''zeroltechn'' ''zeroltezc'' ''false''
       ''/vendor/lib64/libsec-ril-spr.so'' True True True,
     variant ''G9258''
       ''samsung/zeroltezc/zeroltechn:7.0/NRD90M/G9250ZCS2ERC2:user/release-keys''
       ''samsung/zeroltezc/zeroltechn:7.0/NRD90M/G9250ZCS2ERC2:user/test-keys''
       ''zeroltezc-user 7.0 NRD90M G9250ZCS2ERC2 release-keys''
       ''SM-G9250'' ''zeroltechn'' ''zeroltezc'' ''false''
       ''/vendor/lib64/libsec-ril-spr.so'' True True True,
     variant ''G9259''
       ''samsung/zeroltezc/zeroltechn:7.0/NRD90M/G9250ZCS2ERC2:user/release-keys''
       ''samsung/zeroltezc/zeroltechn:7.0/NRD90M/G9250ZCS2ERC2:user/test-keys''
       ''zeroltezc-user 7.0 NRD90M G9250ZCS2ERC2 release-keys''
       ''SM-G9250'' ''zeroltechn'' ''zeroltezc'' ''false''
       ''/vendor/lib64/libsec-ril-spr.so'' True True True,
     variant ''G925T''
       ''samsung/zeroltetmo/zeroltetmo:7.0/NRD90M/G925TUVU5FQK1:user/release-keys''
       ''samsung/zeroltetmo/zeroltetmo:7.0/NRD90M/G925TUVU5FQK1:user/test-keys''
       ''zeroltetmo-user 7.0 NRD90M G925TUVU5FQK1 release-keys''
       ''SM-G925T'' ''zeroltetmo'' ''zeroltetmo'' ''true''
       ''/vendor/lib64/libsec-ril-tmobile.so'' True False False]"

definition builds_default :: "build list" where
  "builds_default =
    [
     variant ''G925W8''
       ''samsung/zeroltebmc/zeroltebmc:7.0/NRD90M/G925W8VLS5DQK1:user/release-keys''
       ''samsung/zeroltebmc/zeroltebmc:7.0/NRD90M/G925W8VLS5DQK1:user/test-keys''
       ''zeroltebmc-user 7.0 NRD90M G925W8VLS5DQK1 release-keys''
       ''SM-G925W8'' ''zeroltebmc'' ''zeroltebmc'' ''true''
       ''/vendor/lib64/libsec-ril-canada.so'' True False False,
     variant ''G920''
       ''samsung/zerofltexx/zeroflte:7.0/NRD90M/G920FXXU5EQL5:user/release-keys''
       ''samsung/zerofltexx/zeroflte:7.0/NRD90M/G920FXXU5EQL5:user/test-keys''
       ''zerofltexx-user 7.0 NRD90M G920FXXS5EQG2 release-keys''
       ''SM-G920F'' ''zeroflte'' ''zerofltexx'' ''false''
       ''/vendor/lib64/libsec-ril.so'' True False False,
     variant ''G925''
       ''samsung/zeroltexx/zerolte:7.0/NRD90M/G925FXXU5EQL5:user/release-keys''
       ''samsung/zeroltexx/zerolte:7.0/NRD90M/G925FXXU5EQL5:user/test-keys''
       ''zeroltexx-user 7.0 NRD90M G925FXXU5EQL5 release-keys''
       ''SM-G925F'' ''zeroltexx'' ''zerolte'' ''false''
       ''/vendor/lib64/libsec-ril.so'' True False False]"

definition builds :: "build list" where
  "builds = builds_G920 @ builds_G920_us @ builds_G925 @ builds_default"

lemmas builds_defs = builds_def builds_G920_def builds_G920_us_def builds_G925_def builds_default_def variant_def

text \<open>The body of a branch.\<close>

definition apply_build :: "prop_env \<Rightarrow> build \<Rightarrow> prop_op list \<Rightarrow> prop_op list" where
  "apply_build E b l =
     (let l = property_override_dual E ''ro.build.fingerprint'' ''ro.vendor.build.fingerprint'' (bd_fingerprint b) l;
          l = property_override E ''ro.bootimage.build.fingerprint'' (bd_bootimage b) l;
          l = property_override E ''ro.build.description'' (bd_description b) l;
          l = property_override_dual E ''ro.product.model'' ''ro.vendor.product.model'' (bd_model b) l;
          l = property_override_dual E ''ro.product.device'' ''ro.vendor.product.device'' (bd_device b) l;
          l = property_override E ''ro.product.name'' (bd_name b) l;
          l = property_override E ''audio_hal.uses.audience'' (bd_audience b) l;
          l = property_override E ''rild.libpath'' (bd_rild b) l;
          l = uses_edge_power_profile E (bd_edge b) l;
          l = (if bd_dual b then is_dual_sim_device E l else l)
      in is_cdma_device E (bd_cdma b) l)"

text \<open>\<open>s.find(t) != npos\<close>.\<close>

fun contains :: "string \<Rightarrow> string \<Rightarrow> bool" where
  "contains [] t = (t = [])"
| "contains (c # cs) t = (take (length t) (c # cs) = t \<or> contains cs t)"

definition build_for :: "string \<Rightarrow> build option" where
  "build_for bootloader = List.find (\<lambda>b. contains bootloader (bd_id b)) builds"

text \<open>\<open>target\<close> is the macro \<open>ANDROID_TARGET\<close> that the build defines.\<close>

definition vendor_load_properties :: "prop_env \<Rightarrow> string \<Rightarrow> prop_op list \<Rightarrow> prop_op list" where
  "vendor_load_properties E target l =
     (let bootloader = get_prop E l ''ro.bootloader'' [];
          platform = get_prop E l ''ro.board.platform'' []
      in if platform \<noteq> target then l
         else case build_for bootloader of None \<Rightarrow> l | Some b \<Rightarrow> apply_build E b l)"

section \<open>What a log means\<close>

text \<open>The value that a log gives a property, if it sets it at all.\<close>

fun value_of :: "prop_op list \<Rightarrow> string \<Rightarrow> string option" where
  "value_of [] p = None"
| "value_of (PropUpdate q v # l) p = (if q = p then Some v else value_of l p)"
| "value_of (PropAdd q v # l) p = (if q = p then Some v else value_of l p)"

fun op_name :: "prop_op \<Rightarrow> string" where
  "op_name (PropUpdate p v) = p"
| "op_name (PropAdd p v) = p"

fun op_value :: "prop_op \<Rightarrow> string" where
  "op_value (PropUpdate p v) = v"
| "op_value (PropAdd p v) = v"

lemma value_of_override [simp]:
  "value_of (property_override E p v l) q = (if p = q then Some v else value_of l q)"
  by (simp add: property_override_def)

text \<open>\<open>writes n l l'\<close>: \<open>l'\<close> continues \<open>l\<close> with settings whose values are shorter than \<open>n\<close>.\<close>

definition writes :: "nat \<Rightarrow> prop_op list \<Rightarrow> prop_op list \<Rightarrow> bool" where
  "writes n l l' \<longleftrightarrow> (\<exists>ops. l' = ops @ l \<and> (\<forall>x \<in> set ops. length (op_name x) < 32 \<and> length (op_value x) < n))"

lemma writes_refl [simp]: "writes n l l"
  by (simp add: writes_def)

lemma writes_trans: "writes n l l' \<Longrightarrow> writes n l' l'' \<Longrightarrow> writes n l l''"
  unfolding writes_def by (metis Un_iff append.assoc set_append)

lemma writes_override: "writes n l l' \<Longrightarrow> length p < 32 \<Longrightarrow> length v < n \<Longrightarrow> writes n l (property_override E p v l')"
  unfolding writes_def property_override_def
  by (elim exE conjE) (auto intro!: exI [of _ "_ # _"])

lemma writes_override_all:
  "\<forall>(p, v) \<in> set ps. length p < 32 \<and> length v < n \<Longrightarrow> writes n l l' \<Longrightarrow> writes n l (override_all E ps l')"
proof (induction ps arbitrary: l')
  case (Cons x ps)
  then show ?case by (cases x) (simp add: override_all_def writes_override)
qed (simp add: override_all_def)

text \<open>The parts of a branch whose settings do not depend on the variant.\<close>

lemma value_of_cdma:
  "value_of (is_cdma_device E c l) p =
   (case map_of (rev (if c then cdma_settings else gsm_settings)) p of Some v \<Rightarrow> Some v | None \<Rightarrow> value_of l p)"
proof -
  have "value_of (override_all E ps l) p = (case map_of (rev ps) p of Some v \<Rightarrow> Some v | None \<Rightarrow> value_of l p)" for ps
  proof (induction ps arbitrary: l)
    case (Cons x ps)
    then show ?case by (cases x) (auto simp: override_all_def map_add_def split: option.split)
  qed (simp add: override_all_def)
  then show ?thesis by (simp add: is_cdma_device_def)
qed

lemma value_of_edge:
  "p \<noteq> ''ro.power_profile.override'' \<Longrightarrow> value_of (uses_edge_power_profile E e l) p = value_of l p"
  by (auto simp: uses_edge_power_profile_def)

end
