(* ===== verification/InitClaims.thy ===== *)
theory InitClaims
  imports InitProps
begin

text \<open>
  The properties of the settings made at boot: which variant is chosen, what the log then says, and
  that every setting fits the limits of the property area.
\<close>

section \<open>The table\<close>

lemma find_index: "List.find P xs = Some x \<Longrightarrow> \<exists>i < length xs. x = xs ! i \<and> P x \<and> (\<forall>j < i. \<not> P (xs ! j))"
  by (simp add: find_Some_iff) blast

lemma builds_ids:
  "map bd_id builds =
    [''G920FD'', ''G920F'', ''G920S'', ''G920K'', ''G920L'', ''G920P'', ''G920I'', ''G9200'', ''G9208'', ''G9209'',
     ''G920R4'', ''G920R7'', ''G920W8'', ''G920T'', ''G925F'', ''G925S'', ''G925K'', ''G925L'', ''G925P'', ''G925I'',
     ''G9250'', ''G9258'', ''G9259'', ''G925T'', ''G925W8'', ''G920'', ''G925'']"
  by (simp add: builds_defs)

lemma builds_length: "length builds = 27"
  using arg_cong [OF builds_ids, of length] by simp

text \<open>No identifier occurs in a later one.\<close>

lemma builds_longer_first: "sorted_wrt (\<lambda>x y. \<not> contains y x) (map bd_id builds)"
  unfolding builds_ids by code_simp

lemma builds_fit:
  "list_all (\<lambda>b. list_all (\<lambda>v. length v < 92) [bd_fingerprint b, bd_bootimage b, bd_description b,
     bd_model b, bd_device b, bd_name b, bd_audience b, bd_rild b]) builds"
  unfolding builds_defs by simp

lemma settings_lists_fit:
  "\<forall>(p, v) \<in> set (if c then cdma_settings else gsm_settings). length p < 32 \<and> length v < 92"
proof (cases c)
  case True
  have "list_all (\<lambda>(p, v). length p < 32 \<and> length v < 92) cdma_settings" by code_simp
  then show ?thesis using True by (simp add: list_all_iff)
next
  case False
  have "list_all (\<lambda>(p, v). length p < 32 \<and> length v < 92) gsm_settings" by code_simp
  then show ?thesis using False by (simp add: list_all_iff)
qed

lemma contains_refl: "contains s s"
  by (cases s) simp_all

section \<open>The branches\<close>

lemma writes_dual:
  "writes n l l' \<Longrightarrow> length p < 32 \<Longrightarrow> length q < 32 \<Longrightarrow> length v < n \<Longrightarrow>
   writes n l (property_override_dual E p q v l')"
  by (simp add: property_override_dual_def writes_override)

lemma writes_edge: "writes 92 l l' \<Longrightarrow> writes 92 l (uses_edge_power_profile E e l')"
  by (simp add: uses_edge_power_profile_def writes_override)

lemma writes_dual_sim: "writes 92 l l' \<Longrightarrow> writes 92 l (is_dual_sim_device E l')"
  by (simp add: is_dual_sim_device_def Let_def writes_override)

lemma writes_cdma: "writes 92 l l' \<Longrightarrow> writes 92 l (is_cdma_device E c l')"
  unfolding is_cdma_device_def by (rule writes_override_all [OF settings_lists_fit])

lemma writes_maybe: "(c \<Longrightarrow> writes n l x) \<Longrightarrow> (\<not> c \<Longrightarrow> writes n l y) \<Longrightarrow> writes n l (if c then x else y)"
  by simp

lemma apply_build_writes:
  assumes "b \<in> set builds"
  shows "writes 92 l (apply_build E b l)"
proof -
  have "length (bd_fingerprint b) < 92" "length (bd_bootimage b) < 92" "length (bd_description b) < 92"
    "length (bd_model b) < 92" "length (bd_device b) < 92" "length (bd_name b) < 92"
    "length (bd_audience b) < 92" "length (bd_rild b) < 92"
    using builds_fit assms by (simp_all add: list_all_iff)
  then show ?thesis
    unfolding apply_build_def Let_def
    by (intro writes_cdma writes_maybe writes_dual_sim writes_edge writes_override writes_dual writes_refl) simp_all
qed

lemma value_of_dual_sim:
  "value_of (is_dual_sim_device E l) p =
   (if p = ''ro.multisim.simslotcount'' then Some ''2'' else if p = ''persist.radio.multisim.config'' then Some ''dsds''
    else if p = ''rild.libpath2'' then Some ''/vendor/lib/libsec-ril-dsds.so''
    else if p = ''ro.telephony.ril.config'' then Some ''simactivation'' else value_of l p)"
  by (auto simp: is_dual_sim_device_def Let_def)

lemma value_of_dual: "value_of (property_override_dual E p q v l) r = (if r = p \<or> r = q then Some v else value_of l r)"
  by (auto simp: property_override_dual_def)

text \<open>What a branch leaves under each of the names, in terms of the log before it.\<close>

definition branch_value :: "build \<Rightarrow> string \<Rightarrow> string option" where
  "branch_value b p =
     (if p \<in> {''ro.build.fingerprint'', ''ro.vendor.build.fingerprint''} then Some (bd_fingerprint b)
      else if p \<in> {''ro.product.model'', ''ro.vendor.product.model''} then Some (bd_model b)
      else if p \<in> {''ro.product.device'', ''ro.vendor.product.device''} then Some (bd_device b)
      else if p = ''ro.product.name'' then Some (bd_name b)
      else if p = ''audio_hal.uses.audience'' then Some (bd_audience b)
      else if p = ''rild.libpath'' then Some (bd_rild b)
      else None)"

definition branch_names :: "string list" where
  "branch_names =
     [''ro.build.fingerprint'', ''ro.vendor.build.fingerprint'', ''ro.product.model'', ''ro.vendor.product.model'',
      ''ro.product.device'', ''ro.vendor.product.device'', ''ro.product.name'', ''audio_hal.uses.audience'',
      ''rild.libpath'']"

text \<open>The radio's settings, which follow in a branch, have other names.\<close>

lemma later_names_differ:
  "list_all (\<lambda>p. p \<notin> set (map fst cdma_settings) \<and> p \<notin> set (map fst gsm_settings)) branch_names"
  unfolding branch_names_def cdma_settings_def gsm_settings_def by simp

lemma value_of_cdma_other:
  "p \<notin> set (map fst cdma_settings) \<Longrightarrow> p \<notin> set (map fst gsm_settings) \<Longrightarrow>
   value_of (is_cdma_device E c l) p = value_of l p"
  by (simp add: value_of_cdma map_of_eq_None_iff [THEN iffD2] del: map_of_eq_None_iff split: option.split)

lemma apply_build_value:
  assumes "branch_value b p = Some v"
  shows "value_of (apply_build E b l) p = Some v"
proof -
  have p: "p \<in> set branch_names"
    using assms by (auto simp: branch_value_def branch_names_def split: if_splits)
  then have d: "p \<notin> set (map fst cdma_settings)" "p \<notin> set (map fst gsm_settings)"
    using later_names_differ by (simp_all add: list_all_iff)
  show ?thesis
    unfolding apply_build_def Let_def value_of_cdma_other [OF d]
    using p assms unfolding branch_names_def list.set
    by (elim insertE emptyE) (simp_all add: value_of_dual_sim value_of_edge value_of_dual branch_value_def)
qed

lemma apply_build_network:
  "value_of (apply_build E b l) ''ro.telephony.default_network'' = Some (if bd_cdma b then ''10'' else ''9'')"
  unfolding apply_build_def Let_def value_of_cdma by (simp add: cdma_settings_def gsm_settings_def)

lemma apply_build_multisim:
  "value_of (apply_build E b l) ''persist.radio.multisim.config'' =
   (if bd_dual b then Some ''dsds'' else value_of l ''persist.radio.multisim.config'')"
proof -
  have "''persist.radio.multisim.config'' \<notin> set (map fst cdma_settings)"
    "''persist.radio.multisim.config'' \<notin> set (map fst gsm_settings)"
    by (simp_all add: cdma_settings_def gsm_settings_def)
  then show ?thesis
    unfolding apply_build_def Let_def
    by (simp add: value_of_cdma_other value_of_dual_sim value_of_edge value_of_dual)
qed

section \<open>Properties\<close>

text \<open>
  C27. The variant is the most specific one: of all the variants whose identifier occurs in the
  bootloader's name, the one chosen has an identifier that no other of them extends, so that for
  instance a G920FD is never taken for a G920F, nor any G920x for the default G920.
\<close>

theorem most_specific_variant:
  assumes "build_for s = Some b" and "c \<in> set builds" and "contains s (bd_id c)" and "contains (bd_id c) (bd_id b)"
  shows "c = b"
proof -
  obtain i where i: "i < length builds" "b = builds ! i" "\<forall>j < i. \<not> contains s (bd_id (builds ! j))"
    using find_index [OF assms(1) [unfolded build_for_def]] by blast
  obtain j where j: "j < length builds" "c = builds ! j" using assms(2) by (auto simp: in_set_conv_nth)
  have "j \<le> i"
  proof (rule ccontr)
    assume "\<not> j \<le> i"
    then show False
      using sorted_wrt_nth_less [OF builds_longer_first, of i j] i(1,2) j assms(4) by simp
  qed
  moreover have "\<not> j < i" using i(3) j(2) assms(3) by blast
  ultimately show ?thesis using i(2) j(2) by simp
qed

theorem most_specific_variant_witness:
  "\<exists>b. build_for ''G920FDXXU5EQL5'' = Some b \<and> bd_id b = ''G920FD'' \<and> builds ! 0 = b"
proof -
  have b: "build_for ''G920FDXXU5EQL5'' = Some (builds ! 0)" by code_simp
  have "builds ! 0 \<in> set builds" by (simp add: builds_length)
  moreover have "contains ''G920FDXXU5EQL5'' (bd_id (builds ! 0))" by code_simp
  ultimately have "builds ! 0 = builds ! 0"
    by (intro most_specific_variant [OF b] contains_refl)
  moreover have "bd_id (builds ! 0) = ''G920FD''" by code_simp
  ultimately show ?thesis using b by blast
qed

text \<open>
  C26. What booting sets: on the platform the build is for, the properties that name the device and its
  libraries end up with the values of the chosen variant, none of them overwritten by a later
  setting of the same branch, and the network and SIM settings follow its CDMA and dual SIM flags;
  on any other platform, or for an unknown bootloader, nothing is set.
\<close>

theorem variant_properties_set:
  "(get_prop E l ''ro.board.platform'' [] \<noteq> target \<or> build_for (get_prop E l ''ro.bootloader'' []) = None \<longrightarrow>
      vendor_load_properties E target l = l) \<and>
    (get_prop E l ''ro.board.platform'' [] = target \<and> build_for (get_prop E l ''ro.bootloader'' []) = Some b \<longrightarrow>
      (\<forall>p v. branch_value b p = Some v \<longrightarrow> value_of (vendor_load_properties E target l) p = Some v) \<and>
      value_of (vendor_load_properties E target l) ''ro.telephony.default_network'' =
        Some (if bd_cdma b then ''10'' else ''9'') \<and>
      value_of (vendor_load_properties E target l) ''persist.radio.multisim.config'' =
        (if bd_dual b then Some ''dsds'' else value_of l ''persist.radio.multisim.config''))"
  by (auto simp: vendor_load_properties_def Let_def apply_build_value apply_build_network apply_build_multisim)

text \<open>A property area in which nothing was set before boot but the platform and the bootloader.\<close>

definition demo_props :: prop_env where
  "demo_props = \<lparr>find_prop = (\<lambda>l p. value_of l p \<noteq> None),
     get_prop = (\<lambda>l p d. case value_of l p of Some v \<Rightarrow> v
       | None \<Rightarrow> if p = ''ro.board.platform'' then ''exynos5''
                 else if p = ''ro.bootloader'' then ''G920PVPS4DQK1'' else d)\<rparr>"

theorem variant_properties_set_witness:
  "value_of (vendor_load_properties demo_props ''exynos5'' []) ''ro.product.model'' = Some ''SM-G920P'' \<and>
   value_of (vendor_load_properties demo_props ''exynos5'' []) ''ro.telephony.default_network'' = Some ''10'' \<and>
   vendor_load_properties demo_props ''exynos7'' [] = []"
proof -
  have p: "get_prop demo_props [] ''ro.board.platform'' [] = ''exynos5''"
    "get_prop demo_props [] ''ro.bootloader'' [] = ''G920PVPS4DQK1''" by code_simp+
  have b: "build_for ''G920PVPS4DQK1'' = Some (builds ! 5)" "bd_model (builds ! 5) = ''SM-G920P''" "bd_cdma (builds ! 5)"
    by code_simp+
  show ?thesis
    using variant_properties_set [of demo_props "[]" "''exynos5''" "builds ! 5"]
      variant_properties_set [of demo_props "[]" "''exynos7''" "builds ! 5"]
    unfolding p b(1) by (simp add: b(2,3) branch_value_def)
qed

text \<open>
  The settings fit: whatever the bootloader's name and the properties already set, boot only adds
  to the log, every name it sets is shorter than 32 characters and every value shorter than the 92 of
  \<open>PROP_VALUE_MAX\<close>.
\<close>

lemma boot_settings_fit: "writes 92 l (vendor_load_properties E target l)"
proof -
  have "b \<in> set builds" if "build_for s = Some b" for s b
    using that by (auto simp: build_for_def find_Some_iff)
  then show ?thesis
    by (simp add: vendor_load_properties_def Let_def apply_build_writes split: option.split)
qed

end
