(* ===== verification/PowerHal.thy ===== *)
theory PowerHal
  imports Prelude
begin

text \<open>
  \<open>power/power.c\<close>: the power HAL.  The environment \<open>E\<close> answers the calls to the kernel, the
  properties and the panel's brightness, each as a function of the log of everything done before,
  newest first.  A fault of the C program, an access outside a buffer, is \<open>None\<close>.
\<close>

section \<open>State\<close>

datatype power_profile_e = PROFILE_POWER_SAVE | PROFILE_BALANCED

datatype power_ev =
    PowOpen "string option" bool
  | PowRead int nat
  | PowWrite int string
  | PowClose int

record power_env =
  pw_open :: "power_ev list \<Rightarrow> string option \<Rightarrow> bool \<Rightarrow> int"
  pw_read :: "power_ev list \<Rightarrow> int \<Rightarrow> nat \<Rightarrow> string option"
  property_get :: "string \<Rightarrow> string \<Rightarrow> string"
  get_cur_panel_brightness :: "power_ev list \<Rightarrow> int"
  POWER_HINT_VSYNC :: int
  POWER_HINT_INTERACTION :: int
  POWER_HINT_LOW_POWER :: int
  POWER_HINT_LAUNCH :: int
  POWER_HINT_DISABLE_TOUCH :: int
  POWER_FEATURE_DOUBLE_TAP_TO_WAKE :: int
  TARGET_TAP_TO_WAKE_NODE :: bool

text \<open>
  The module's structure, the two static variables \<open>current_power_profile\<close> and \<open>touchkeys_blocked\<close>
  and the log.  A path that is null is \<open>None\<close>; the two buffers are lists of 10 characters.
\<close>

record samsung_power_module =
  boostpulse_fd :: int
  boostpulse2_fd :: int
  boost2_fd :: int
  cpu0_max_freq :: string
  cpu4_max_freq :: string
  touchscreen_power_path :: "string option"
  touchkey_power_path :: "string option"
  low_power_mode :: bool
  current_power_profile :: power_profile_e
  touchkeys_blocked :: bool
  pw_log :: "power_ev list"

definition HAL_MODULE_INFO_SYM :: samsung_power_module where
  "HAL_MODULE_INFO_SYM =
     \<lparr>boostpulse_fd = -1, boostpulse2_fd = 0, boost2_fd = 0,
      cpu0_max_freq = replicate 10 (CHR 0x00), cpu4_max_freq = replicate 10 (CHR 0x00),
      touchscreen_power_path = None, touchkey_power_path = None, low_power_mode = False,
      current_power_profile = PROFILE_BALANCED, touchkeys_blocked = False, pw_log = []\<rparr>"

definition CPU0_INTERACTIVE_PATH :: string where
  "CPU0_INTERACTIVE_PATH = ''/sys/devices/system/cpu/cpu0/cpufreq/interactive''"
definition CPU4_INTERACTIVE_PATH :: string where
  "CPU4_INTERACTIVE_PATH = ''/sys/devices/system/cpu/cpu4/cpufreq/interactive''"
definition BOOST2_PATH :: string where "BOOST2_PATH = CPU0_INTERACTIVE_PATH @ ''/boost2''"
definition BOOSTPULSE_PATH :: string where "BOOSTPULSE_PATH = CPU0_INTERACTIVE_PATH @ ''/boostpulse''"
definition BOOSTPULSE2_PATH :: string where "BOOSTPULSE2_PATH = CPU0_INTERACTIVE_PATH @ ''/boostpulse2''"
definition BOOSTPULSE2_DUR_PATH :: string where
  "BOOSTPULSE2_DUR_PATH = CPU0_INTERACTIVE_PATH @ ''/boostpulse2_duration''"
definition CPU0_IO_IS_BUSY_PATH :: string where "CPU0_IO_IS_BUSY_PATH = CPU0_INTERACTIVE_PATH @ ''/io_is_busy''"
definition CPU4_IO_IS_BUSY_PATH :: string where "CPU4_IO_IS_BUSY_PATH = CPU4_INTERACTIVE_PATH @ ''/io_is_busy''"
definition CPU0_MAX_FREQ_PATH :: string where
  "CPU0_MAX_FREQ_PATH = ''/sys/devices/system/cpu/cpu0/cpufreq/scaling_max_freq''"
definition CPU4_MAX_FREQ_PATH :: string where
  "CPU4_MAX_FREQ_PATH = ''/sys/devices/system/cpu/cpu4/cpufreq/scaling_max_freq''"

section \<open>Helper functions\<close>

text \<open>
  \<open>sysfs_read\<close> returns its result and the buffer after it.  The newline at the end becomes the
  terminator; when nothing was read, \<open>s[len-1]\<close> is the character before the buffer.
\<close>

definition sysfs_read ::
  "power_env \<Rightarrow> string option \<Rightarrow> string \<Rightarrow> nat \<Rightarrow> power_ev list \<Rightarrow> ((int \<times> string) \<times> power_ev list) option" where
  "sysfs_read E path s num_bytes l =
     (let fd = pw_open E l path False;
          l = PowOpen path False # l
      in if fd < 0 then Some ((-1, s), l)
         else
           (let r = pw_read E l fd (num_bytes - 1);
                l = PowRead fd (num_bytes - 1) # l
            in case r of
                 None \<Rightarrow> Some ((-1, s), PowClose fd # l)
               | Some d \<Rightarrow>
                   (let s = d @ drop (length d) s;
                        len = length d
                    in if len = 0 then None
                       else Some ((0, if s ! (len - 1) = CHR 0x0A then s[len - 1 := CHR 0x00] else s[len := CHR 0x00]),
                                  PowClose fd # l))))"

definition sysfs_write :: "power_env \<Rightarrow> string option \<Rightarrow> string \<Rightarrow> power_ev list \<Rightarrow> power_ev list" where
  "sysfs_write E path s l =
     (let fd = pw_open E l path True;
          l = PowOpen path True # l
      in if fd < 0 then l else PowClose fd # PowWrite fd s # l)"

text \<open>The text in a buffer, up to its terminator; \<open>strlen\<close> of a buffer without one runs out of it.\<close>

definition c_string :: "string \<Rightarrow> string option" where
  "c_string s = (if CHR 0x00 \<in> set s then Some (takeWhile (\<lambda>c. c \<noteq> CHR 0x00) s) else None)"

definition boostpulse_open :: "power_env \<Rightarrow> samsung_power_module \<Rightarrow> samsung_power_module" where
  "boostpulse_open E m =
     m\<lparr>boostpulse_fd := pw_open E (pw_log m) (Some BOOSTPULSE_PATH) True,
       pw_log := PowOpen (Some BOOSTPULSE_PATH) True # pw_log m\<rparr>"

definition boostpulse2_open :: "power_env \<Rightarrow> samsung_power_module \<Rightarrow> samsung_power_module" where
  "boostpulse2_open E m =
     (if property_get E ''ro.build.user'' ''more'' = ''mac'' \<and> property_get E ''ro.build.host'' ''more'' = ''macs18max''
      then m\<lparr>boostpulse2_fd := pw_open E (pw_log m) (Some BOOSTPULSE2_PATH) True,
             pw_log := PowOpen (Some BOOSTPULSE2_PATH) True # pw_log m\<rparr>
      else m\<lparr>boostpulse2_fd := -1\<rparr>)"

definition boost2_open :: "power_env \<Rightarrow> samsung_power_module \<Rightarrow> samsung_power_module" where
  "boost2_open E m =
     (if property_get E ''ro.build.user'' ''more'' = ''mac'' \<and> property_get E ''ro.build.host'' ''more'' = ''macs18max''
      then m\<lparr>boost2_fd := pw_open E (pw_log m) (Some BOOST2_PATH) True,
             pw_log := PowOpen (Some BOOST2_PATH) True # pw_log m\<rparr>
      else m\<lparr>boost2_fd := -1\<rparr>)"

definition send_boostpulse :: "int \<Rightarrow> power_ev list \<Rightarrow> power_ev list" where
  "send_boostpulse fd l = (if fd < 0 then l else PowWrite fd ''1'' # l)"

definition send_boostpulse2 :: "int \<Rightarrow> power_ev list \<Rightarrow> power_ev list" where
  "send_boostpulse2 fd l = (if fd < 0 then l else PowWrite fd ''1'' # l)"

definition stop_boostpulse2 :: "int \<Rightarrow> power_ev list \<Rightarrow> power_ev list" where
  "stop_boostpulse2 fd l = (if fd < 0 then l else PowWrite fd ''0'' # l)"

section \<open>Power functions\<close>

text \<open>The two readings of the frequencies, which \<open>init_cpufreqs\<close> and \<open>set_power_profile\<close> share.\<close>

definition read_max_freqs :: "power_env \<Rightarrow> samsung_power_module \<Rightarrow> samsung_power_module option" where
  "read_max_freqs E m =
     do {
       ((rc, b0), l) \<leftarrow> sysfs_read E (Some CPU0_MAX_FREQ_PATH) (cpu0_max_freq m) 10 (pw_log m);
       ((rc, b4), l) \<leftarrow> sysfs_read E (Some CPU4_MAX_FREQ_PATH) (cpu4_max_freq m) 10 l;
       Some (m\<lparr>cpu0_max_freq := b0, cpu4_max_freq := b4, pw_log := l\<rparr>)
     }"

definition set_power_profile ::
  "power_env \<Rightarrow> power_profile_e \<Rightarrow> samsung_power_module \<Rightarrow> samsung_power_module option" where
  "set_power_profile E profile m =
     (if current_power_profile m = profile then Some m
      else
        do {
          m \<leftarrow> (case profile of
                  PROFILE_POWER_SAVE \<Rightarrow>
                    do {
                      m \<leftarrow> read_max_freqs E m;
                      let l = sysfs_write E (Some CPU0_MAX_FREQ_PATH) ''1296000'' (pw_log m);
                      Some (m\<lparr>pw_log := sysfs_write E (Some CPU4_MAX_FREQ_PATH) ''800000'' l\<rparr>)
                    }
                | PROFILE_BALANCED \<Rightarrow>
                    do {
                      f0 \<leftarrow> c_string (cpu0_max_freq m);
                      let l = sysfs_write E (Some CPU0_MAX_FREQ_PATH) f0 (pw_log m);
                      f4 \<leftarrow> c_string (cpu4_max_freq m);
                      Some (m\<lparr>pw_log := sysfs_write E (Some CPU4_MAX_FREQ_PATH) f4 l\<rparr>)
                    });
          Some (m\<lparr>current_power_profile := profile\<rparr>)
        })"

section \<open>Initialisation\<close>

definition init_cpufreqs :: "power_env \<Rightarrow> samsung_power_module \<Rightarrow> samsung_power_module option" where
  "init_cpufreqs E m =
     do {
       m \<leftarrow> read_max_freqs E m;
       Some (m\<lparr>pw_log := sysfs_write E (Some BOOSTPULSE2_DUR_PATH) ''3000000'' (pw_log m)\<rparr>)
     }"

definition samsung_power_init :: "power_env \<Rightarrow> samsung_power_module \<Rightarrow> samsung_power_module option" where
  "samsung_power_init E m =
     do {
       m \<leftarrow> init_cpufreqs E (m\<lparr>low_power_mode := False\<rparr>);
       let m = boost2_open E (boostpulse2_open E (boostpulse_open E m));
       Some (m\<lparr>touchscreen_power_path := Some ''/sys/class/sec/tsp/input/enabled'',
               touchkey_power_path := Some ''/sys/class/sec/sec_touchkey/input/enabled''\<rparr>)
     }"

section \<open>API functions\<close>

definition on_off :: "bool \<Rightarrow> string" where
  "on_off on = (if on then ''1'' else ''0'')"

text \<open>The code after the label \<open>out\<close>.\<close>

definition set_io_is_busy :: "power_env \<Rightarrow> bool \<Rightarrow> samsung_power_module \<Rightarrow> samsung_power_module" where
  "set_io_is_busy E on m =
     m\<lparr>pw_log := sysfs_write E (Some CPU4_IO_IS_BUSY_PATH) (on_off on)
        (sysfs_write E (Some CPU0_IO_IS_BUSY_PATH) (on_off on) (pw_log m))\<rparr>"

text \<open>The touch keys: \<open>button_state\<close> is a local buffer of two characters.\<close>

definition set_touchkeys :: "power_env \<Rightarrow> bool \<Rightarrow> string \<Rightarrow> samsung_power_module \<Rightarrow> samsung_power_module option" where
  "set_touchkeys E on button_state m =
     (let finish = (\<lambda>m. if touchkeys_blocked m then m
                        else m\<lparr>pw_log := sysfs_write E (touchkey_power_path m) (on_off on) (pw_log m)\<rparr>)
      in if on then Some (finish m)
         else
           do {
             ((rc, b), l) \<leftarrow> sysfs_read E (touchkey_power_path m) button_state 2 (pw_log m);
             if rc < 0 then Some (m\<lparr>pw_log := l\<rparr>)
             else Some (finish (m\<lparr>touchkeys_blocked := (b ! 0 = CHR ''0''), pw_log := l\<rparr>))
           })"

text \<open>\<open>button_state\<close> starts with whatever is on the stack, \<open>stack\<close>.\<close>

definition samsung_power_set_interactive ::
  "power_env \<Rightarrow> string \<Rightarrow> bool \<Rightarrow> samsung_power_module \<Rightarrow> samsung_power_module option" where
  "samsung_power_set_interactive E stack on m =
     (if \<not> on \<and> 0 < get_cur_panel_brightness E (pw_log m) then Some (set_io_is_busy E on m)
      else
        do {
          let m = (if touchscreen_power_path m = None then m
                   else m\<lparr>pw_log := sysfs_write E (touchscreen_power_path m) (on_off on) (pw_log m)\<rparr>);
          m \<leftarrow> (if touchkey_power_path m = None then Some m else set_touchkeys E on stack m);
          Some (set_io_is_busy E on m)
        })"

text \<open>\<open>data\<close> says whether the pointer is not null.\<close>

definition samsung_power_hint ::
  "power_env \<Rightarrow> int \<Rightarrow> bool \<Rightarrow> samsung_power_module \<Rightarrow> samsung_power_module option" where
  "samsung_power_hint E hint data m =
     (if current_power_profile m = PROFILE_POWER_SAVE \<and> hint \<noteq> POWER_HINT_LOW_POWER E \<and>
         hint \<noteq> POWER_HINT_DISABLE_TOUCH E then Some m
      else if hint = POWER_HINT_VSYNC E then Some (m\<lparr>pw_log := stop_boostpulse2 (boost2_fd m) (pw_log m)\<rparr>)
      else if hint = POWER_HINT_INTERACTION E then
        Some (m\<lparr>pw_log := send_boostpulse2 (boostpulse2_fd m) (pw_log m)\<rparr>)
      else if hint = POWER_HINT_LOW_POWER E then
        set_power_profile E (if data then PROFILE_POWER_SAVE else PROFILE_BALANCED) m
      else if hint = POWER_HINT_LAUNCH E then Some (m\<lparr>pw_log := send_boostpulse (boostpulse_fd m) (pw_log m)\<rparr>)
      else if hint = POWER_HINT_DISABLE_TOUCH E then
        Some (m\<lparr>pw_log := sysfs_write E (touchscreen_power_path m) (if data then ''0'' else ''1'') (pw_log m)\<rparr>)
      else Some m)"

text \<open>The case is compiled in only when the build defines \<open>TARGET_TAP_TO_WAKE_NODE\<close>.\<close>

definition samsung_set_feature ::
  "power_env \<Rightarrow> int \<Rightarrow> int \<Rightarrow> samsung_power_module \<Rightarrow> samsung_power_module" where
  "samsung_set_feature E feature state m =
     (if TARGET_TAP_TO_WAKE_NODE E \<and> feature = POWER_FEATURE_DOUBLE_TAP_TO_WAKE E then
        m\<lparr>pw_log := sysfs_write E (Some ''/proc/touchscreen/doubletap2wake'') (on_off (state \<noteq> 0)) (pw_log m)\<rparr>
      else m)"

end
