(* ===== verification/PowerClaims.thy ===== *)
theory PowerClaims
  imports PowerHal
begin

text \<open>
  The properties of the power HAL: its calls never leave its buffers unless a file is empty, power save is undone exactly,
  and the touch keys are switched on again only when they were on.
\<close>

section \<open>Calls\<close>

datatype power_call = PowerInit | SetInteractive string bool | PowerHint int bool | SetFeature int int

fun power_step :: "power_env \<Rightarrow> power_call \<Rightarrow> samsung_power_module \<Rightarrow> samsung_power_module option" where
  "power_step E PowerInit m = samsung_power_init E m"
| "power_step E (SetInteractive stack on) m = samsung_power_set_interactive E stack on m"
| "power_step E (PowerHint h d) m = samsung_power_hint E h d m"
| "power_step E (SetFeature f st) m = Some (samsung_set_feature E f st m)"

fun run_power :: "power_env \<Rightarrow> power_call list \<Rightarrow> samsung_power_module \<Rightarrow> samsung_power_module option" where
  "run_power E [] m = Some m"
| "run_power E (c # cs) m = do { m \<leftarrow> power_step E c m; run_power E cs m }"


text \<open>Some file that opens delivers nothing, as at its end.\<close>

definition empty_read :: "power_env \<Rightarrow> bool" where
  "empty_read E \<longleftrightarrow> (\<exists>l p n. 0 \<le> pw_open E l p False \<and>
     pw_read E (PowOpen p False # l) (pw_open E l p False) n = Some [])"

text \<open>The result has the property, or there is none and a file was empty.\<close>

definition safe :: "power_env \<Rightarrow> 'a option \<Rightarrow> ('a \<Rightarrow> bool) \<Rightarrow> bool" where
  "safe E r Q \<longleftrightarrow> (case r of None \<Rightarrow> empty_read E | Some x \<Rightarrow> Q x)"

lemma safe_simps [simp]:
  "safe E (Some x) Q = Q x"
  "safe E (Option.bind r f) Q = safe E r (\<lambda>x. safe E (f x) Q)"
  by (auto simp: safe_def split: option.split)














section \<open>Reading a frequency\<close>

lemma takeWhile_clean: "c \<notin> set f \<Longrightarrow> takeWhile (\<lambda>x. x \<noteq> c) (f @ c # r) = f"
  by (induction f) auto

lemma sysfs_read_line:
  assumes "0 \<le> pw_open E l p False"
    and "pw_read E (PowOpen p False # l) (pw_open E l p False) (n - 1) = Some (f @ [CHR 0x0A])"
    and "CHR 0x00 \<notin> set f"
  shows "\<exists>b. sysfs_read E p s n l = Some ((0, b), [PowClose (pw_open E l p False),
      PowRead (pw_open E l p False) (n - 1), PowOpen p False] @ l) \<and> c_string b = Some f"
proof -
  define b where "b = (f @ CHR 0x0A # drop (Suc (length f)) s)[length f := CHR 0x00]"
  have "b = f @ CHR 0x00 # drop (Suc (length f)) s" by (simp add: b_def list_update_append)
  then have "c_string b = Some f" using assms(3) by (simp add: c_string_def takeWhile_clean)
  moreover have "sysfs_read E p s n l = Some ((0, b), [PowClose (pw_open E l p False),
      PowRead (pw_open E l p False) (n - 1), PowOpen p False] @ l)"
    using assms(1,2) by (simp add: sysfs_read_def Let_def b_def nth_append)
  ultimately show ?thesis by blast
qed

definition only_reads :: "power_ev list \<Rightarrow> bool" where
  "only_reads l \<longleftrightarrow> (\<forall>fd s. PowWrite fd s \<notin> set l)"

lemma read_max_freqs_lines:
  assumes "\<And>l p. 0 \<le> pw_open E l p False"
    and "\<And>l fd. pw_read E (PowOpen (Some CPU0_MAX_FREQ_PATH) False # l) fd 9 = Some (f0 @ [CHR 0x0A])"
    and "\<And>l fd. pw_read E (PowOpen (Some CPU4_MAX_FREQ_PATH) False # l) fd 9 = Some (f4 @ [CHR 0x0A])"
    and "CHR 0x00 \<notin> set f0" and "CHR 0x00 \<notin> set f4"
  shows "\<exists>b0 b4 reads. read_max_freqs E m = Some (m\<lparr>cpu0_max_freq := b0, cpu4_max_freq := b4, pw_log := reads @ pw_log m\<rparr>) \<and>
    c_string b0 = Some f0 \<and> c_string b4 = Some f4 \<and> only_reads reads"
proof -
  obtain b0 where b0: "sysfs_read E (Some CPU0_MAX_FREQ_PATH) (cpu0_max_freq m) 10 (pw_log m) =
      Some ((0, b0), [PowClose (pw_open E (pw_log m) (Some CPU0_MAX_FREQ_PATH) False),
        PowRead (pw_open E (pw_log m) (Some CPU0_MAX_FREQ_PATH) False) 9, PowOpen (Some CPU0_MAX_FREQ_PATH) False] @ pw_log m)"
    "c_string b0 = Some f0"
    using sysfs_read_line [where n = 10, OF assms(1) _ assms(4)] assms(2) by fastforce
  define l where "l = [PowClose (pw_open E (pw_log m) (Some CPU0_MAX_FREQ_PATH) False),
    PowRead (pw_open E (pw_log m) (Some CPU0_MAX_FREQ_PATH) False) 9, PowOpen (Some CPU0_MAX_FREQ_PATH) False]"
  obtain b4 where b4: "sysfs_read E (Some CPU4_MAX_FREQ_PATH) (cpu4_max_freq m) 10 (l @ pw_log m) =
      Some ((0, b4), [PowClose (pw_open E (l @ pw_log m) (Some CPU4_MAX_FREQ_PATH) False),
        PowRead (pw_open E (l @ pw_log m) (Some CPU4_MAX_FREQ_PATH) False) 9, PowOpen (Some CPU4_MAX_FREQ_PATH) False] @
        l @ pw_log m)"
    "c_string b4 = Some f4"
    using sysfs_read_line [where n = 10, OF assms(1) _ assms(5)] assms(3) by fastforce
  define r where "r = [PowClose (pw_open E (l @ pw_log m) (Some CPU4_MAX_FREQ_PATH) False),
    PowRead (pw_open E (l @ pw_log m) (Some CPU4_MAX_FREQ_PATH) False) 9, PowOpen (Some CPU4_MAX_FREQ_PATH) False] @ l"
  have "read_max_freqs E m = Some (m\<lparr>cpu0_max_freq := b0, cpu4_max_freq := b4, pw_log := r @ pw_log m\<rparr>)"
    using b0(1) b4(1) by (simp add: read_max_freqs_def l_def r_def)
  moreover have "only_reads r" by (simp add: only_reads_def r_def l_def)
  ultimately show ?thesis using b0(2) b4(2) by blast
qed

text \<open>What the hints of power save write: those for the touchscreen are let through.\<close>

fun touch_writes :: "power_env \<Rightarrow> string option \<Rightarrow> (int \<times> bool) list \<Rightarrow> power_ev list \<Rightarrow> power_ev list" where
  "touch_writes E path [] l = l"
| "touch_writes E path ((h, off) # hs) l =
     touch_writes E path hs
       (if h = POWER_HINT_DISABLE_TOUCH E then sysfs_write E path (if off then ''0'' else ''1'') l else l)"

text \<open>The hints are different numbers.\<close>

definition hints_distinct :: "power_env \<Rightarrow> bool" where
  "hints_distinct E \<longleftrightarrow> distinct [POWER_HINT_VSYNC E, POWER_HINT_INTERACTION E, POWER_HINT_LOW_POWER E,
     POWER_HINT_LAUNCH E, POWER_HINT_DISABLE_TOUCH E]"

lemma hints_in_power_save:
  assumes "current_power_profile m = PROFILE_POWER_SAVE" and "hints_distinct E"
    and "\<forall>(h, d) \<in> set hs. h \<noteq> POWER_HINT_LOW_POWER E"
  shows "run_power E (map (\<lambda>(h, d). PowerHint h d) hs @ cs) m =
    run_power E cs (m\<lparr>pw_log := touch_writes E (touchscreen_power_path m) hs (pw_log m)\<rparr>)"
  using assms
proof (induction hs arbitrary: m)
  case (Cons x hs)
  obtain h d where x: "x = (h, d)" by (cases x)
  define m' where "m' = (if h = POWER_HINT_DISABLE_TOUCH E
    then m\<lparr>pw_log := sysfs_write E (touchscreen_power_path m) (if d then ''0'' else ''1'') (pw_log m)\<rparr> else m)"
  have h: "h \<noteq> POWER_HINT_LOW_POWER E" using Cons.prems(3) by (simp add: x)
  have other: "POWER_HINT_DISABLE_TOUCH E \<noteq> POWER_HINT_VSYNC E" "POWER_HINT_DISABLE_TOUCH E \<noteq> POWER_HINT_INTERACTION E"
    "POWER_HINT_DISABLE_TOUCH E \<noteq> POWER_HINT_LOW_POWER E" "POWER_HINT_DISABLE_TOUCH E \<noteq> POWER_HINT_LAUNCH E"
    using Cons.prems(2) by (auto simp: hints_distinct_def)
  have step: "power_step E (PowerHint h d) m = Some m'"
    using Cons.prems(1) h other by (cases "h = POWER_HINT_DISABLE_TOUCH E") (simp_all add: samsung_power_hint_def m'_def)
  have "run_power E (map (\<lambda>(h, d). PowerHint h d) hs @ cs) m' =
      run_power E cs (m'\<lparr>pw_log := touch_writes E (touchscreen_power_path m') hs (pw_log m')\<rparr>)"
    using Cons.prems by (intro Cons.IH) (simp_all add: m'_def)
  then have "run_power E (map (\<lambda>(h, d). PowerHint h d) (x # hs) @ cs) m =
      run_power E cs (m'\<lparr>pw_log := touch_writes E (touchscreen_power_path m') hs (pw_log m')\<rparr>)"
    by (simp only: x list.map prod.case append_Cons run_power.simps(2) step bind.bind_lunit)
  then show ?case by (cases "h = POWER_HINT_DISABLE_TOUCH E") (simp_all add: x m'_def)
qed simp

section \<open>Properties\<close>


text \<open>Every file opens; those of the frequencies hold a number and a newline, the others \<open>1\<close>.\<close>

definition demo_power :: power_env where
  "demo_power = \<lparr>pw_open = (\<lambda>l p w. 3),
     pw_read = (\<lambda>l fd n. case l of
        PowOpen (Some p) w # _ \<Rightarrow>
          if n < 9 then (if n = 0 then None else Some ''1'')
          else if p = CPU0_MAX_FREQ_PATH then Some (''1500000'' @ [CHR 0x0A])
          else if p = CPU4_MAX_FREQ_PATH then Some (''2100000'' @ [CHR 0x0A]) else Some ''1''
      | _ \<Rightarrow> None),
     property_get = (\<lambda>p d. d), get_cur_panel_brightness = (\<lambda>l. 0),
     POWER_HINT_VSYNC = 1, POWER_HINT_INTERACTION = 2, POWER_HINT_LOW_POWER = 5, POWER_HINT_LAUNCH = 8,
     POWER_HINT_DISABLE_TOUCH = 9, POWER_FEATURE_DOUBLE_TAP_TO_WAKE = 1, TARGET_TAP_TO_WAKE_NODE = False\<rparr>"



text \<open>
  C23. Power save is undone exactly: the limits that the two clusters had when power save was entered
  are written back, in the same order, when it is left.  Of the hints in between, only those that
  disable or enable touch reach the hardware, and they write the touchscreen's node and nothing else.
\<close>

theorem power_save_round_trip:
  assumes "current_power_profile m = PROFILE_BALANCED" and "hints_distinct E"
    and "\<And>l p. 0 \<le> pw_open E l p False"
    and "\<And>l fd. pw_read E (PowOpen (Some CPU0_MAX_FREQ_PATH) False # l) fd 9 = Some (f0 @ [CHR 0x0A])"
    and "\<And>l fd. pw_read E (PowOpen (Some CPU4_MAX_FREQ_PATH) False # l) fd 9 = Some (f4 @ [CHR 0x0A])"
    and "CHR 0x00 \<notin> set f0" and "CHR 0x00 \<notin> set f4"
    and "\<forall>(h, d) \<in> set hs. h \<noteq> POWER_HINT_LOW_POWER E"
  shows "\<exists>m' reads. run_power E (PowerHint (POWER_HINT_LOW_POWER E) True # map (\<lambda>(h, d). PowerHint h d) hs @
        [PowerHint (POWER_HINT_LOW_POWER E) False]) m = Some m' \<and>
    current_power_profile m' = PROFILE_BALANCED \<and> only_reads reads \<and>
    pw_log m' = sysfs_write E (Some CPU4_MAX_FREQ_PATH) f4 (sysfs_write E (Some CPU0_MAX_FREQ_PATH) f0
      (touch_writes E (touchscreen_power_path m) hs
        (sysfs_write E (Some CPU4_MAX_FREQ_PATH) ''800000'' (sysfs_write E (Some CPU0_MAX_FREQ_PATH) ''1296000''
          (reads @ pw_log m)))))"
proof -
  have hints: "POWER_HINT_LOW_POWER E \<noteq> POWER_HINT_VSYNC E" "POWER_HINT_LOW_POWER E \<noteq> POWER_HINT_INTERACTION E"
    using assms(2) by (auto simp: hints_distinct_def)
  obtain b0 b4 reads where r: "read_max_freqs E m = Some (m\<lparr>cpu0_max_freq := b0, cpu4_max_freq := b4, pw_log := reads @ pw_log m\<rparr>)"
    "c_string b0 = Some f0" "c_string b4 = Some f4" "only_reads reads"
    using read_max_freqs_lines [OF assms(3-7)] by blast
  define m1 where "m1 = m\<lparr>cpu0_max_freq := b0, cpu4_max_freq := b4,
    pw_log := sysfs_write E (Some CPU4_MAX_FREQ_PATH) ''800000'' (sysfs_write E (Some CPU0_MAX_FREQ_PATH) ''1296000'' (reads @ pw_log m)),
    current_power_profile := PROFILE_POWER_SAVE\<rparr>"
  have 1: "power_step E (PowerHint (POWER_HINT_LOW_POWER E) True) m = Some m1"
    using assms(1) hints r(1) by (simp add: samsung_power_hint_def set_power_profile_def m1_def)
  define m2 where "m2 = m1\<lparr>pw_log := touch_writes E (touchscreen_power_path m) hs (pw_log m1)\<rparr>"
  have "touchscreen_power_path m1 = touchscreen_power_path m" by (simp add: m1_def)
  then have 2: "run_power E (map (\<lambda>(h, d). PowerHint h d) hs @ [PowerHint (POWER_HINT_LOW_POWER E) False]) m1 =
      run_power E [PowerHint (POWER_HINT_LOW_POWER E) False] m2"
    using hints_in_power_save [OF _ assms(2,8), of m1] by (simp add: m1_def m2_def)
  define m3 where "m3 = m2\<lparr>pw_log := sysfs_write E (Some CPU4_MAX_FREQ_PATH) f4
    (sysfs_write E (Some CPU0_MAX_FREQ_PATH) f0 (pw_log m2)), current_power_profile := PROFILE_BALANCED\<rparr>"
  have "c_string (cpu0_max_freq m2) = Some f0" "c_string (cpu4_max_freq m2) = Some f4"
    "current_power_profile m2 = PROFILE_POWER_SAVE"
    using r(2,3) by (simp_all add: m2_def m1_def)
  then have 3: "run_power E [PowerHint (POWER_HINT_LOW_POWER E) False] m2 = Some m3"
    using hints by (simp add: samsung_power_hint_def set_power_profile_def m3_def)
  have "run_power E (PowerHint (POWER_HINT_LOW_POWER E) True # map (\<lambda>(h, d). PowerHint h d) hs @
      [PowerHint (POWER_HINT_LOW_POWER E) False]) m = Some m3"
    unfolding run_power.simps(2) [of E "PowerHint (POWER_HINT_LOW_POWER E) True"] 1 bind.bind_lunit 2 3 ..
  then show ?thesis using r(4) by (intro exI [of _ m3] exI [of _ reads]) (simp add: m3_def m2_def m1_def)
qed

text \<open>Power save with a hint that is dropped and touch disabled and enabled in between.\<close>

theorem power_save_round_trip_witness:
  "\<exists>m' reads. run_power demo_power [PowerHint 5 True, PowerHint 2 True, PowerHint 9 True, PowerHint 9 False, PowerHint 5 False]
      (HAL_MODULE_INFO_SYM\<lparr>touchscreen_power_path := Some ''ts''\<rparr>) = Some m' \<and>
    pw_log m' = [PowClose 3, PowWrite 3 ''2100000'', PowOpen (Some CPU4_MAX_FREQ_PATH) True,
      PowClose 3, PowWrite 3 ''1500000'', PowOpen (Some CPU0_MAX_FREQ_PATH) True,
      PowClose 3, PowWrite 3 ''1'', PowOpen (Some ''ts'') True,
      PowClose 3, PowWrite 3 ''0'', PowOpen (Some ''ts'') True,
      PowClose 3, PowWrite 3 ''800000'', PowOpen (Some CPU4_MAX_FREQ_PATH) True,
      PowClose 3, PowWrite 3 ''1296000'', PowOpen (Some CPU0_MAX_FREQ_PATH) True] @ reads"
proof -
  let ?m = "HAL_MODULE_INFO_SYM\<lparr>touchscreen_power_path := Some ''ts''\<rparr>"
  have "CPU4_MAX_FREQ_PATH \<noteq> CPU0_MAX_FREQ_PATH" by (simp add: CPU0_MAX_FREQ_PATH_def CPU4_MAX_FREQ_PATH_def)
  then have "\<exists>m' reads. run_power demo_power (PowerHint (POWER_HINT_LOW_POWER demo_power) True #
      map (\<lambda>(h, d). PowerHint h d) [(2, True), (9, True), (9, False)] @ [PowerHint (POWER_HINT_LOW_POWER demo_power) False]) ?m = Some m' \<and>
    current_power_profile m' = PROFILE_BALANCED \<and> only_reads reads \<and>
    pw_log m' = sysfs_write demo_power (Some CPU4_MAX_FREQ_PATH) ''2100000'' (sysfs_write demo_power (Some CPU0_MAX_FREQ_PATH) ''1500000''
      (touch_writes demo_power (touchscreen_power_path ?m) [(2, True), (9, True), (9, False)]
        (sysfs_write demo_power (Some CPU4_MAX_FREQ_PATH) ''800000'' (sysfs_write demo_power (Some CPU0_MAX_FREQ_PATH) ''1296000''
          (reads @ pw_log ?m)))))"
    by (intro power_save_round_trip) (simp_all add: demo_power_def HAL_MODULE_INFO_SYM_def hints_distinct_def)
  then show ?thesis by (auto simp: sysfs_write_def demo_power_def HAL_MODULE_INFO_SYM_def)
qed

text \<open>
  C25. The touch keys come back as they were: when the screen goes dark and is lit again, the keys are
  switched off and on exactly when the character read from their node on the way down was not \<open>0\<close>;
  keys that another component has disabled are left alone both times.
\<close>

theorem touchkeys_follow:
  assumes "get_cur_panel_brightness E (pw_log m) \<le> 0" and "length stack = 2"
    and "touchscreen_power_path m = Some ts" and "touchkey_power_path m = Some tk"
    and "l = sysfs_write E (Some ts) ''0'' (pw_log m)" and "fd = pw_open E l (Some tk) False" and "0 \<le> fd"
    and "pw_read E (PowOpen (Some tk) False # l) fd 1 = Some [c]" and "c \<noteq> CHR 0x0A"
    and "l1 = [PowClose fd, PowRead fd 1, PowOpen (Some tk) False] @ l"
  shows "\<exists>m1 m2. samsung_power_set_interactive E stack False m = Some m1 \<and>
    samsung_power_set_interactive E stack' True m1 = Some m2 \<and>
    pw_log m1 = sysfs_write E (Some CPU4_IO_IS_BUSY_PATH) ''0'' (sysfs_write E (Some CPU0_IO_IS_BUSY_PATH) ''0''
      (if c = CHR ''0'' then l1 else sysfs_write E (Some tk) ''0'' l1)) \<and>
    pw_log m2 = sysfs_write E (Some CPU4_IO_IS_BUSY_PATH) ''1'' (sysfs_write E (Some CPU0_IO_IS_BUSY_PATH) ''1''
      (if c = CHR ''0'' then sysfs_write E (Some ts) ''1'' (pw_log m1)
       else sysfs_write E (Some tk) ''1'' (sysfs_write E (Some ts) ''1'' (pw_log m1))))"
proof -
  obtain x y where "stack = [x, y]" using assms(2) by (auto simp: numeral_2_eq_2 length_Suc_conv)
  then have "sysfs_read E (Some tk) stack 2 l = Some ((0, [c, CHR 0x00]), l1)"
    using assms(6-10) by (simp add: sysfs_read_def Let_def)
  then show ?thesis
    using assms(1,3,4,5)
    by (simp add: samsung_power_set_interactive_def set_touchkeys_def set_io_is_busy_def on_off_def)
qed

theorem touchkeys_follow_witness:
  "\<exists>m1 m2. samsung_power_set_interactive demo_power ''ab'' False
      (HAL_MODULE_INFO_SYM\<lparr>touchscreen_power_path := Some ''ts'', touchkey_power_path := Some ''tk''\<rparr>) = Some m1 \<and>
    samsung_power_set_interactive demo_power ''ab'' True m1 = Some m2 \<and>
    PowWrite 3 ''1'' \<in> set (pw_log m2)"
proof -
  have "pw_read demo_power (PowOpen (Some ''tk'') False # l) 3 1 = Some ''1''" for l by (simp add: demo_power_def)
  moreover have "get_cur_panel_brightness demo_power l \<le> 0" "pw_open demo_power l p w = 3" for l p w
    by (simp_all add: demo_power_def)
  ultimately show ?thesis
    using touchkeys_follow [of demo_power "HAL_MODULE_INFO_SYM\<lparr>touchscreen_power_path := Some ''ts'', touchkey_power_path := Some ''tk''\<rparr>"
        "''ab''" "''ts''" "''tk''" _ 3 "CHR ''1''" _ "''ab''"]
    by (fastforce simp: sysfs_write_def)
qed

end
