(* ===== verification/Spec2Isabelle.thy ===== *)
theory Spec2Isabelle
  imports SelectionClaims RoutingClaims DeviceClaims OperationClaims FailureClaims Client Threads CameraClaims Camera2Claims CameraModuleClaims CameraNames Shims Gralloc
    InitClaims PowerClaims
begin

text \<open>
  A verification development for the native code of \<open>android_device_samsung_zero-common\<close>, the common
  device tree of the Samsung Galaxy S6: the audio HAL (\<open>audio/\<close>), the parameters and the wrappers of
  the camera (\<open>camera/\<close>), the properties set at boot (\<open>libinit/\<close>), the power HAL (\<open>power/\<close>) and the
  libraries that stand in for missing symbols (\<open>shims/\<close>).

  Conventions.  A C function that changes state is a HOL function from the state to an \<open>option\<close>:
  \<open>None\<close> is a fault of the program (a null or freed pointer, an access outside an array, a division
  by zero, a loop that does not end), \<open>Some (r, s)\<close> a return.  So a statement \<open>f s = Some ...\<close> also
  says that the function returns without a fault, and \<open>wp\<close> of \<open>Prelude\<close> states it with a
  postcondition.  Error codes are the negative numbers of the code.  What lies outside the repository
  (Android's constants, tinyalsa, audio_route, the client library of the radio, the resampler, the
  kernel's files, the allocator, the vendor's camera, the property area) is a record of functions,
  \<open>platform\<close> for the audio HAL, \<open>camera_env\<close>, \<open>prop_env\<close> and \<open>power_env\<close> for the others, which see
  the history of all external calls; the histories are part of the states, newest call first.
  Addresses are natural numbers that are never used twice, so a freed object is a hole in a map.

  The audio HAL (\<open>audio_hw.c\<close>, \<open>audio_hw.h\<close>, \<open>ril_interface.c\<close>, \<open>audience.c\<close>).  \<open>AudioTypes\<close> has the
  structures and the state \<open>hal\<close> (\<open>struct audio_device\<close> with its streams, use cases, mixer cards and
  the static PCM profiles), \<open>Lookup\<close> the tables and the searches of the lists, over the locale of a
  list searched by key, \<open>DeviceSelect\<close> the choice of the sound device, \<open>Ril\<close> the requests to the
  radio, over a locale for a request that reconnects first, \<open>Audience\<close> the voice processor,
  \<open>Routing\<close> reference counts, mixer paths and \<open>select_devices\<close>, \<open>OutPath\<close> and \<open>OutStream\<close> the output
  streams, \<open>InPath\<close> and \<open>InStream\<close> the input streams, \<open>VoiceCall\<close> calls and SCO sessions, \<open>Adev\<close> the
  device itself.  \<open>CFloat\<close> and \<open>CString\<close> hold the single-precision arithmetic and the string
  functions of C that the sources use.

  What is proved about it.  \<open>Trace\<close> reads a history: which mutexes are held and whether they were
  taken in the documented order (an instance of the class of orders), which mixer paths are applied, which PCM handles are open.
  \<open>RoutingInv\<close> and \<open>RoutingSelect\<close> prove that \<open>select_devices\<close> returns and keeps the routing
  invariant; \<open>PathInv\<close>, \<open>DeviceInv\<close>, \<open>StreamInv\<close>, \<open>InputInv\<close> and \<open>CallInv\<close> follow the paths of the
  streams and of a call.  \<open>OpInv\<close> states the invariant of the device between calls, \<open>OpSteps\<close>,
  \<open>OpOut\<close>, \<open>Reading\<close>, \<open>OpIn\<close>, \<open>OpDev\<close> and \<open>OpOpen\<close> prove that each operation keeps it, \<open>Boot\<close> that
  \<open>adev_open\<close> establishes it, and \<open>Reach\<close> puts the calls of a client together in an inductive set of
  reachable states.  \<open>allowed\<close> is what a client must respect: a call names an open stream, there is at
  most one output stream per use case and one input stream at a time, the primary output is not
  closed and is there when the volume of a call is set, routing names supported devices, and positions
  are asked of streams that have been started.  \<open>env_ok\<close> is what the
  platform must respect: allocations, the PCMs of a voice call and resamplers can be had, and
  \<open>pcm_open\<close> gives a handle (that of a stream or of SCO may be one that is not ready, and writes, reads, the radio and the sysfs files may
  fail), the sizes that the code divides by are not 0, a read of
  a PCM delivers a whole period, a resampler makes progress, and an output stream read as an input
  stream does not show the source VOICE_COMMUNICATION.  \<open>FailureClaims\<close> shows what happens
  otherwise: a voice call whose PCM is not ready faults or leaves the invariant, a write without memory
  faults or changes only a time, and a write whose PCM is not ready drops its data.
  \<open>Client\<close> is the device as its client sees it, a small machine over the open streams, their standby,
  the primary output and the mode, and the proof that the calls implement it.  \<open>Threads\<close> interleaves the
  calls of several threads: mutexes exclude, and nobody waits for ever.
  \<open>SelectionClaims\<close> compares the choice of the sound device with a reference that puts the name of the
  mixer path together; \<open>RoutingClaims\<close>, \<open>DeviceClaims\<close> and \<open>OperationClaims\<close> have the other properties; \<open>Demo\<close> is the concrete platform of their witnesses.

  The recursion of \<open>select_devices\<close> (a playback stream routes the capture stream first) and the loop
  of \<open>read_frames\<close> are partial functions; that they end is part of what is proved.  The eleven
  attempts to open a mixer are a recursion on the constant of the code.

  The camera.  \<open>CameraParams\<close> is \<open>CameraParameters.cpp\<close> over an abstract keyed vector, whose contract
  is the locale \<open>keyed_vector\<close> of \<open>CameraParamsInv\<close>, interpreted there on a sorted list;
  \<open>CameraNames\<close> the names of keys and values that the class publishes, with their round trip;
  \<open>CameraVendor\<close> has the requests to the vendor's devices and the vendor's module as a parameter,
  \<open>Camera2Wrapper\<close> is \<open>Camera2Wrapper.cpp\<close>, with its static variables as a state, \<open>CameraModule\<close> is
  \<open>Camera3Wrapper.cpp\<close> and the module \<open>CameraWrapper.cpp\<close>, whose state contains that of the version 1
  wrapper, so that all calls are in one history.  \<open>CameraClaims\<close> has the round trips of the text and
  of the accessors, \<open>Camera2Claims\<close> the deferred preview, the parameters that reach the vendor and the
  range of the cameras' numbers, \<open>CameraModuleInv\<close> the invariant of the module over the calls of a client
  (\<open>camera_allowed\<close>: open devices, and numbers that version 1 has an entry for), \<open>CameraModuleClaims\<close> the
  accounting of the vendor's devices and the errors of opening.

  The shims.  \<open>Shims\<close> has the functions of the four libraries and what they do.  \<open>Gralloc\<close> is the code in
  the header of the graphics allocator: the usage bits of a buffer and the label of its memory.

  Boot.  \<open>InitProps\<close> is \<open>init_sec.cpp\<close>: the branches of \<open>vendor_load_properties\<close> are a table in the
  order of the code, and a branch is a function of its row.  \<open>InitClaims\<close>: the most specific variant
  is chosen, its values are the ones that remain, and all of them fit the property area.

  Power.  \<open>PowerHal\<close> is \<open>power.c\<close> with the static variables in the state.  \<open>PowerClaims\<close>: no call leaves
  the buffers unless a file is empty, power save is undone exactly, touch keys come back as they were.

  Not modelled: log lines; races on data (each call is modelled as it runs alone; only its mutexes
  are interleaved with those of other threads); floats beyond finite single-precision products (printing and parsing them is a parameter of the
  camera's parameters); the interface headers under \<open>include/\<close> that are
  copies of the platform's; the Java code of \<open>doze/\<close> and \<open>lineagehw/\<close>; configuration, policy,
  overlays and patches.
\<close>

end
